(* ===== verification/OZ_Prelude.thy ===== *)
theory OZ_Prelude
  imports Main "HOL-Library.Word" "HOL-Library.Monad_Syntax"
begin

text \<open>
  The vocabulary shared by every component of the development: the status codes of the
  MAMA API and of the wombat queue API that the bridge returns, the early-return macro
  \<open>CALL_MAMA_FUNC\<close> of \<open>src/src/util.h\<close>, C strings and bounded character arrays, and
  opaque pointers.

  A C function is modelled by a HOL function into an \<open>option\<close>: \<open>Some\<close> is a defined
  return of the C function, \<open>None\<close> means that the C code has no defined result at that
  input (it reads or writes outside an object, dereferences \<open>NULL\<close> or a released object,
  or blocks for ever). Theorems that say that a call is safe prove \<open>Some\<close>.
\<close>

named_theorems oz_defs \<open>definitions of the model that component proofs unfold\<close>
named_theorems oz_frame \<open>what an operation leaves unchanged\<close>

subsection \<open>Status codes\<close>

text \<open>
  The values of \<open>mama_status\<close> that the sources name; \<open>MAMA_STATUS_OTHER\<close> stands for any
  other code that a function of the MAMA library may hand back to the bridge.
\<close>

datatype mama_status =
    MAMA_STATUS_OK
  | MAMA_STATUS_NULL_ARG
  | MAMA_STATUS_NOMEM
  | MAMA_STATUS_PLATFORM
  | MAMA_STATUS_SYSTEM_ERROR
  | MAMA_STATUS_INVALID_ARG
  | MAMA_STATUS_NOT_FOUND
  | MAMA_STATUS_NOT_IMPLEMENTED
  | MAMA_STATUS_TIMEOUT
  | MAMA_STATUS_OTHER nat

datatype wombatQueueStatus =
    WOMBAT_QUEUE_OK
  | WOMBAT_QUEUE_NOMEM
  | WOMBAT_QUEUE_FULL
  | WOMBAT_QUEUE_TIMEOUT
  | WOMBAT_QUEUE_SEM_ERR

text \<open>
  The macro \<open>CALL_MAMA_FUNC(x)\<close>: evaluate \<open>x\<close>, return its status at once when it is not
  \<open>MAMA_STATUS_OK\<close>, go on with the next statement otherwise.
\<close>

definition CALL_MAMA_FUNC ::
  "(mama_status \<times> 's) option \<Rightarrow> ('s \<Rightarrow> (mama_status \<times> 's) option) \<Rightarrow> (mama_status \<times> 's) option" where
  "CALL_MAMA_FUNC x k =
     (case x of
        None \<Rightarrow> None
      | Some (s, w) \<Rightarrow> if s \<noteq> MAMA_STATUS_OK then Some (s, w) else k w)"

text \<open>A sequence of statements \<open>CALL_MAMA_FUNC(x)\<close>.\<close>

fun call_seq :: "('s \<Rightarrow> (mama_status \<times> 's) option) list \<Rightarrow> 's \<Rightarrow> (mama_status \<times> 's) option" where
  "call_seq [] w = Some (MAMA_STATUS_OK, w)"
| "call_seq (f # fs) w = CALL_MAMA_FUNC (f w) (call_seq fs)"

text \<open>The macro \<open>CALL_ZMQ_FUNC(x)\<close>: the same for a call whose result is negative on failure.\<close>

definition CALL_ZMQ_FUNC ::
  "int \<times> 's \<Rightarrow> ('s \<Rightarrow> (mama_status \<times> 's) option) \<Rightarrow> (mama_status \<times> 's) option" where
  "CALL_ZMQ_FUNC x k =
     (case x of (rc, w) \<Rightarrow> if rc < 0 then Some (MAMA_STATUS_PLATFORM, w) else k w)"

lemma CALL_MAMA_FUNC_simps [simp]:
  "CALL_MAMA_FUNC None k = None"
  "CALL_MAMA_FUNC (Some (MAMA_STATUS_OK, w)) k = k w"
  "s \<noteq> MAMA_STATUS_OK \<Longrightarrow> CALL_MAMA_FUNC (Some (s, w)) k = Some (s, w)"
  by (simp_all add: CALL_MAMA_FUNC_def)

lemma CALL_MAMA_FUNC_Some:
  "CALL_MAMA_FUNC x k = Some (r, w') \<longleftrightarrow>
     (\<exists>s w. x = Some (s, w) \<and>
        (if s = MAMA_STATUS_OK then k w = Some (r, w') else r = s \<and> w' = w))"
  by (auto simp: CALL_MAMA_FUNC_def split: option.splits)

lemma call_seq_append [simp]: "call_seq (fs @ gs) w = CALL_MAMA_FUNC (call_seq fs w) (call_seq gs)"
  by (induction fs arbitrary: w) (auto simp: CALL_MAMA_FUNC_def split: option.split)

text \<open>A property of the state that every statement keeps holds after the sequence, whether it succeeds or not.\<close>

lemma call_seq_inv:
  assumes "\<And>f w. f \<in> set fs \<Longrightarrow> I w \<Longrightarrow> \<exists>s w'. f w = Some (s, w') \<and> I w'" "I w"
  shows "\<exists>s w'. call_seq fs w = Some (s, w') \<and> I w'"
  using assms
proof (induction fs arbitrary: w)
  case (Cons f fs)
  from Cons.prems(1)[of f w] Cons.prems(2) obtain s w1 where f: "f w = Some (s, w1)" "I w1" by auto
  show ?case
  proof (cases "s = MAMA_STATUS_OK")
    case True
    have "\<exists>s w'. call_seq fs w1 = Some (s, w') \<and> I w'" using f(2) by (intro Cons.IH Cons.prems(1)) auto
    with True f show ?thesis by simp
  next
    case False
    with f show ?thesis by simp
  qed
qed simp

lemma CALL_ZMQ_FUNC_simps [simp]:
  "0 \<le> rc \<Longrightarrow> CALL_ZMQ_FUNC (rc, w) k = k w"
  "rc < 0 \<Longrightarrow> CALL_ZMQ_FUNC (rc, w) k = Some (MAMA_STATUS_PLATFORM, w)"
  by (simp_all add: CALL_ZMQ_FUNC_def)

subsection \<open>Bytes, C strings and character arrays\<close>

text \<open>
  A \<open>char\<close> of HOL has eight bits and is the model of one byte; a C string is the list of
  its bytes without the terminating null. A \<open>char[n]\<close> object that holds a C string is
  modelled by that string, of at most \<open>n - 1\<close> bytes.
\<close>

type_synonym byte = char
type_synonym bytes = "char list"
type_synonym cstring = "char list"

abbreviation NUL :: byte where
  "NUL \<equiv> CHR 0x00"

definition is_cstring :: "bytes \<Rightarrow> bool" where
  "is_cstring s \<longleftrightarrow> NUL \<notin> set s"

text \<open>The C string that starts at the beginning of a buffer; no null in the buffer is an over-read.\<close>

definition cstr_at :: "bytes \<Rightarrow> cstring option" where
  "cstr_at b = (if NUL \<in> set b then Some (takeWhile (\<lambda>c. c \<noteq> NUL) b) else None)"

text \<open>\<open>strcpy\<close> into an array of \<open>n\<close> bytes.\<close>

definition strcpy_into :: "nat \<Rightarrow> cstring \<Rightarrow> cstring option" where
  "strcpy_into n s = (if length s < n then Some s else None)"

text \<open>\<open>memcpy\<close> to offset \<open>p\<close> of a buffer; a write past its end is undefined.\<close>

definition memcpy_at :: "bytes \<Rightarrow> nat \<Rightarrow> bytes \<Rightarrow> bytes option" where
  "memcpy_at buf p src =
     (if p + length src \<le> length buf then Some (take p buf @ src @ drop (p + length src) buf) else None)"

text \<open>A read of one byte.\<close>

definition byte_at :: "bytes \<Rightarrow> nat \<Rightarrow> byte option" where
  "byte_at b p = (if p < length b then Some (b ! p) else None)"

lemma memcpy_at_next [simp]:
  "length pre = p \<Longrightarrow> length old = length src \<Longrightarrow> memcpy_at (pre @ old @ rest) p src = Some (pre @ src @ rest)"
  by (auto simp: memcpy_at_def)

lemma memcpy_at_length: "memcpy_at buf p src = Some buf' \<Longrightarrow> length buf' = length buf"
  by (auto simp: memcpy_at_def split: if_splits)

lemma byte_at_next [simp]: "byte_at (pre @ c # rest) (length pre) = Some c"
  by (simp add: byte_at_def)

lemma is_cstring_Nil [simp]: "is_cstring []"
  by (simp add: is_cstring_def)

lemma is_cstring_append [simp]: "is_cstring (s @ t) \<longleftrightarrow> is_cstring s \<and> is_cstring t"
  by (simp add: is_cstring_def)

lemma is_cstring_Cons [simp]: "is_cstring (c # s) \<longleftrightarrow> c \<noteq> NUL \<and> is_cstring s"
  by (auto simp: is_cstring_def)

lemma is_cstring_take: "is_cstring s \<Longrightarrow> is_cstring (take n s)"
  by (auto simp: is_cstring_def dest: in_set_takeD)

lemma is_cstring_drop: "is_cstring s \<Longrightarrow> is_cstring (drop n s)"
  by (auto simp: is_cstring_def dest: in_set_dropD)

lemma cstr_at_append [simp]: "is_cstring s \<Longrightarrow> cstr_at (s @ NUL # r) = Some s"
  by (auto simp: cstr_at_def is_cstring_def takeWhile_append)

lemma cstr_at_cstring: "cstr_at b = Some s \<Longrightarrow> is_cstring s"
  by (auto simp: cstr_at_def is_cstring_def dest: set_takeWhileD split: if_splits)

lemma cstr_at_split:
  assumes "cstr_at b = Some s"
  shows "\<exists>r. b = s @ NUL # r"
proof -
  from assms have n: "NUL \<in> set b" and s: "s = takeWhile (\<lambda>c. c \<noteq> NUL) b"
    by (auto simp: cstr_at_def split: if_splits)
  from n obtain u v where b: "b = u @ NUL # v" and u: "NUL \<notin> set u"
    by (metis split_list_first)
  from u have "takeWhile (\<lambda>c. c \<noteq> NUL) (u @ NUL # v) = u"
    by (subst takeWhile_append2) auto
  with s b show ?thesis by simp
qed

lemma cstr_at_length: "cstr_at b = Some s \<Longrightarrow> length s < length b"
  by (auto dest: cstr_at_split)

lemma strcpy_into_Some [simp]: "strcpy_into n s = Some t \<longleftrightarrow> t = s \<and> length s < n"
  by (auto simp: strcpy_into_def)

lemma strcpy_into_None [simp]: "strcpy_into n s = None \<longleftrightarrow> n \<le> length s"
  by (auto simp: strcpy_into_def)

subsection \<open>Opaque pointers\<close>

text \<open>A \<open>void*\<close> that the bridge stores and hands back without looking at it; \<open>None\<close> is \<open>NULL\<close>.\<close>

type_synonym voidp = "nat option"

subsection \<open>Generic facts on option and maps\<close>

lemma bind_Some_conv: "(Option.bind x f = Some y) \<longleftrightarrow> (\<exists>a. x = Some a \<and> f a = Some y)"
  by (cases x) auto

lemma map_upd_Some_dom: "m p = Some x \<Longrightarrow> dom (m(p \<mapsto> y)) = dom m"
  by auto

lemma ex_Some_iff: "(\<exists>y. x = Some y) \<longleftrightarrow> x \<noteq> None"
  by auto

end
