(* ===== verification/UQueue.thy ===== *)
theory UQueue
  imports OZ_Prelude
begin

text \<open>
  The unbounded event queue of \<open>src/src/uqueue.c\<close>: a doubly linked list between two dummy
  nodes, a free list, chunks of nodes that are allocated on demand, and a semaphore that
  counts the queued events. The model keeps the pointers: a heap maps the address of every
  node that exists to its contents, and an access to any other address is undefined.
\<close>

subsection \<open>Data\<close>

text \<open>
  Addresses: the three nodes that are members of \<open>uQueueImpl\<close> itself (\<open>mHead\<close>, \<open>mTail\<close>,
  \<open>mFirstFree\<close>) and node \<open>i\<close> of the \<open>c\<close>-th chunk that \<open>calloc\<close> returned.
\<close>

datatype uq_addr = QHead | QTail | QFree | QItem nat nat

type_synonym uq_ptr = "uq_addr option"

text \<open>The union member of a node: a plain closure pointer, or a transport message by value.\<close>

datatype 'm uq_union = Closure voidp | Msg 'm

record ('b, 'm) uQueueItem =
  mCb :: "'b option"
  mData :: voidp
  mIsMsg :: "8 word"
  mUnion :: "'m uq_union"
  mNext :: uq_ptr
  mPrev :: uq_ptr
  mChunkNext :: uq_ptr

type_synonym ('b, 'm) uq_heap = "uq_addr \<Rightarrow> ('b, 'm) uQueueItem option"

text \<open>
  \<open>mHeap\<close> holds the nodes. \<open>mFresh\<close> is not a field of the C structure: it counts the chunks
  that were allocated for this queue, so that \<open>calloc\<close> returns a new address each time.
\<close>

record ('b, 'm) uQueueImpl =
  mSem :: nat
  mMaxSize :: "32 word"
  mChunkSize :: "32 word"
  mCurrSize :: int
  mHeap :: "('b, 'm) uq_heap"
  mChunks :: uq_ptr
  mFresh :: nat

text \<open>What \<open>calloc\<close> and \<open>memset\<close> leave in a node.\<close>

definition zero_item :: "('b, 'm) uQueueItem" where
  "zero_item = \<lparr>mCb = None, mData = None, mIsMsg = 0, mUnion = Closure None,
     mNext = None, mPrev = None, mChunkNext = None\<rparr>"

text \<open>A write through a pointer to a node.\<close>

definition uq_store ::
  "('b, 'm) uq_heap \<Rightarrow> uq_ptr \<Rightarrow> (('b, 'm) uQueueItem \<Rightarrow> ('b, 'm) uQueueItem) \<Rightarrow> ('b, 'm) uq_heap option" where
  "uq_store h p f =
     (case p of
        None \<Rightarrow> None
      | Some a \<Rightarrow> (case h a of None \<Rightarrow> None | Some it \<Rightarrow> Some (h(a \<mapsto> f it))))"

subsection \<open>Allocation\<close>

text \<open>
  The loop of \<open>uQueueImpl_allocChunk\<close> that links the nodes of a new chunk; \<open>n\<close> counts the
  iterations that are left and \<open>i\<close> is the loop variable.
\<close>

fun uq_link :: "nat \<Rightarrow> nat \<Rightarrow> nat \<Rightarrow> ('b, 'm) uq_heap \<Rightarrow> ('b, 'm) uq_heap option" where
  "uq_link c i 0 h = Some h"
| "uq_link c i (Suc n) h = do {
     h \<leftarrow> uq_store h (Some (QItem c i)) (\<lambda>it. it\<lparr>mNext := Some (QItem c (Suc i))\<rparr>);
     h \<leftarrow> uq_store h (Some (QItem c (Suc i))) (\<lambda>it. it\<lparr>mPrev := Some (QItem c i)\<rparr>);
     uq_link c (Suc i) n h
   }"

text \<open>The heap after \<open>calloc\<close> returned chunk \<open>c\<close> with \<open>n\<close> zeroed nodes.\<close>

definition uq_calloc :: "nat \<Rightarrow> nat \<Rightarrow> ('b, 'm) uq_heap \<Rightarrow> ('b, 'm) uq_heap" where
  "uq_calloc c n h =
     (\<lambda>a. case a of QItem c' i \<Rightarrow> (if c' = c \<and> i < n then Some zero_item else h a) | _ \<Rightarrow> h a)"

text \<open>
  \<open>uQueueImpl_allocChunk\<close>; \<open>mem\<close> says whether \<open>calloc\<close> succeeds. The size test is 32-bit
  unsigned arithmetic, as in C. With \<open>items = 0\<close> the first write hits a zero-sized object.
\<close>

definition uQueueImpl_allocChunk ::
  "bool \<Rightarrow> ('b, 'm) uQueueImpl \<Rightarrow> 32 word \<Rightarrow> (wombatQueueStatus \<times> ('b, 'm) uQueueImpl) option" where
  "uQueueImpl_allocChunk mem impl items =
     (if word_of_nat (mSem impl) + items > mMaxSize impl then Some (WOMBAT_QUEUE_FULL, impl)
      else if \<not> mem then Some (WOMBAT_QUEUE_NOMEM, impl)
      else do {
        let c = mFresh impl;
        let result = Some (QItem c 0);
        let h = uq_calloc c (unat items) (mHeap impl);
        h \<leftarrow> uq_store h result (\<lambda>it. it\<lparr>mChunkNext := mChunks impl\<rparr>);
        h \<leftarrow> uq_store h (Some QFree) (\<lambda>it. it\<lparr>mNext := result\<rparr>);
        h \<leftarrow> uq_link c 0 (unat (items - 1)) h;
        Some (WOMBAT_QUEUE_OK, impl\<lparr>mHeap := h, mChunks := result, mFresh := Suc c\<rparr>)
      })"

text \<open>
  \<open>uQueue_allocate\<close>: the constants \<open>WOMBAT_QUEUE_MAX_SIZE\<close> and \<open>WOMBAT_QUEUE_CHUNK_SIZE\<close>
  come from the wombat library and are the arguments \<open>maxd\<close> and \<open>chunkd\<close>. The result is
  the new structure, or \<open>None\<close> with \<open>WOMBAT_QUEUE_NOMEM\<close>.
\<close>

definition uQueue_allocate ::
  "bool \<Rightarrow> 32 word \<Rightarrow> 32 word \<Rightarrow> wombatQueueStatus \<times> ('b, 'm) uQueueImpl option" where
  "uQueue_allocate mem maxd chunkd =
     (if \<not> mem then (WOMBAT_QUEUE_NOMEM, None)
      else (WOMBAT_QUEUE_OK, Some
        \<lparr>mSem = 0, mMaxSize = maxd, mChunkSize = chunkd, mCurrSize = 0,
         mHeap = [QHead \<mapsto> zero_item\<lparr>mNext := Some QTail, mPrev := Some QHead\<rparr>,
                  QTail \<mapsto> zero_item\<lparr>mPrev := Some QHead, mNext := Some QTail\<rparr>,
                  QFree \<mapsto> zero_item],
         mChunks = None, mFresh = 0\<rparr>))"

text \<open>\<open>uQueue_create\<close>; \<open>semrc\<close> is the result of \<open>wsem_init\<close>.\<close>

definition uQueue_create ::
  "bool \<Rightarrow> int \<Rightarrow> 32 word \<Rightarrow> ('b, 'm) uQueueImpl \<Rightarrow> 32 word \<Rightarrow> 32 word \<Rightarrow> 32 word
     \<Rightarrow> (wombatQueueStatus \<times> ('b, 'm) uQueueImpl) option" where
  "uQueue_create mem semrc chunkd impl maxSize initialSize growBySize = do {
     let impl = (if maxSize \<noteq> 0 then impl\<lparr>mMaxSize := maxSize\<rparr> else impl);
     let impl = (if growBySize \<noteq> 0 then impl\<lparr>mChunkSize := growBySize\<rparr> else impl);
     if semrc \<noteq> 0 then Some (WOMBAT_QUEUE_SEM_ERR, impl)
     else do {
       let impl = impl\<lparr>mSem := 0\<rparr>;
       let initialSize = (if initialSize = 0 then chunkd else initialSize);
       (_, impl) \<leftarrow> uQueueImpl_allocChunk mem impl initialSize;
       first \<leftarrow> mHeap impl QFree;
       if mNext first = None then Some (WOMBAT_QUEUE_NOMEM, impl)
       else Some (WOMBAT_QUEUE_OK, impl\<lparr>mCurrSize := 0\<rparr>)
     }
   }"

subsection \<open>Enqueue\<close>

text \<open>
  \<open>uQueue_enqueue\<close>. With \<open>isMsg\<close> set, \<open>closure\<close> must point to a transport message, which is
  copied by value; \<open>mem\<close> says whether an allocation would succeed.
\<close>

definition uQueue_enqueue ::
  "bool \<Rightarrow> ('b, 'm) uQueueImpl \<Rightarrow> 'b option \<Rightarrow> voidp \<Rightarrow> 'm uq_union \<Rightarrow> 8 word
     \<Rightarrow> (wombatQueueStatus \<times> ('b, 'm) uQueueImpl) option" where
  "uQueue_enqueue mem impl cb data closure isMsg = do {
     first \<leftarrow> mHeap impl QFree;
     impl \<leftarrow> (if mNext first = None
              then map_option snd (uQueueImpl_allocChunk mem impl (mChunkSize impl))
              else Some impl);
     first \<leftarrow> mHeap impl QFree;
     case mNext first of
       None \<Rightarrow> Some (WOMBAT_QUEUE_FULL, impl)
     | Some item \<Rightarrow> do {
         it \<leftarrow> mHeap impl item;
         h \<leftarrow> uq_store (mHeap impl) (Some QFree) (\<lambda>f. f\<lparr>mNext := mNext it\<rparr>);
         h \<leftarrow> uq_store h (Some item) (\<lambda>it. it\<lparr>mCb := cb, mData := data, mIsMsg := isMsg\<rparr>);
         h \<leftarrow> (if isMsg \<noteq> 0
               then (case closure of
                       Msg m \<Rightarrow> uq_store h (Some item) (\<lambda>it. it\<lparr>mUnion := Msg m\<rparr>)
                     | Closure _ \<Rightarrow> None)
               else uq_store h (Some item) (\<lambda>it. it\<lparr>mUnion := closure\<rparr>));
         tail \<leftarrow> h QTail;
         h \<leftarrow> uq_store h (Some item) (\<lambda>it. it\<lparr>mNext := Some QTail, mPrev := mPrev tail\<rparr>);
         h \<leftarrow> uq_store h (mPrev tail) (\<lambda>it. it\<lparr>mNext := Some item\<rparr>);
         h \<leftarrow> uq_store h (Some QTail) (\<lambda>it. it\<lparr>mPrev := Some item\<rparr>);
         Some (WOMBAT_QUEUE_OK,
           impl\<lparr>mHeap := h, mCurrSize := mCurrSize impl + 1, mSem := Suc (mSem impl)\<rparr>)
       }
   }"

text \<open>\<open>uQueue_getSize\<close>: the value of the semaphore.\<close>

definition uQueue_getSize :: "('b, 'm) uQueueImpl \<Rightarrow> wombatQueueStatus \<times> int" where
  "uQueue_getSize impl = (WOMBAT_QUEUE_OK, int (mSem impl))"

subsection \<open>Dispatch\<close>

text \<open>
  The result of one wait on the semaphore: acquired, interrupted by a signal, or any other
  error (for the timed wait: the timeout).
\<close>

datatype sem_rc = SemAcquired | SemEINTR | SemError

text \<open>
  The loop \<open>while (-1 == wsem_wait(...))\<close> of the untimed dispatch over the results of its
  successive calls: \<open>Some True\<close> when the semaphore was acquired, \<open>Some False\<close> on an error
  other than \<open>EINTR\<close>, \<open>None\<close> while the call is still blocked.
\<close>

fun uq_wait :: "sem_rc list \<Rightarrow> bool option" where
  "uq_wait [] = None"
| "uq_wait (SemAcquired # rs) = Some True"
| "uq_wait (SemEINTR # rs) = uq_wait rs"
| "uq_wait (SemError # rs) = Some False"

text \<open>Taking the semaphore is possible only when its value is positive.\<close>

definition uq_sem_take :: "('b, 'm) uQueueImpl \<Rightarrow> ('b, 'm) uQueueImpl option" where
  "uq_sem_take impl = (if mSem impl = 0 then None else Some (impl\<lparr>mSem := mSem impl - 1\<rparr>))"

text \<open>The macro \<open>UQ_REMOVE(impl, ele)\<close>.\<close>

definition UQ_REMOVE :: "('b, 'm) uQueueImpl \<Rightarrow> uq_addr \<Rightarrow> ('b, 'm) uQueueImpl option" where
  "UQ_REMOVE impl ele = do {
     it \<leftarrow> mHeap impl ele;
     h \<leftarrow> uq_store (mHeap impl) (mPrev it) (\<lambda>p. p\<lparr>mNext := mNext it\<rparr>);
     h \<leftarrow> uq_store h (mNext it) (\<lambda>n. n\<lparr>mPrev := mPrev it\<rparr>);
     free \<leftarrow> h QFree;
     h \<leftarrow> uq_store h (Some ele) (\<lambda>it. it\<lparr>mNext := mNext free\<rparr>);
     h \<leftarrow> uq_store h (Some QFree) (\<lambda>f. f\<lparr>mNext := Some ele\<rparr>);
     Some (impl\<lparr>mHeap := h, mCurrSize := mCurrSize impl - 1\<rparr>)
   }"

text \<open>A callback that the dispatcher invokes: the function, its data and its closure argument.\<close>

type_synonym ('b, 'm) uq_call = "'b \<times> voidp \<times> 'm uq_union"

text \<open>
  The part of \<open>uQueue_dispatchInt\<close> after the semaphore was acquired, up to the invocation of
  the callback, which is reported to the caller of the model.
\<close>

definition uq_take ::
  "('b, 'm) uQueueImpl \<Rightarrow> (wombatQueueStatus \<times> ('b, 'm) uQueueImpl \<times> ('b, 'm) uq_call option) option" where
  "uq_take impl = do {
     hd_node \<leftarrow> mHeap impl QHead;
     head \<leftarrow> mNext hd_node;
     if head = QTail then Some (WOMBAT_QUEUE_OK, impl, None)
     else do {
       impl' \<leftarrow> UQ_REMOVE impl head;
       it \<leftarrow> mHeap impl' head;
       arg \<leftarrow> (if mIsMsg it \<noteq> 0
               then (case mUnion it of
                       Msg m \<Rightarrow> Some (if mIsMsg it = 1 then Msg m else Closure None)
                     | Closure _ \<Rightarrow> None)
               else Some (mUnion it));
       Some (WOMBAT_QUEUE_OK, impl', map_option (\<lambda>cb. (cb, mData it, arg)) (mCb it))
     }
   }"

definition uQueue_dispatchInt ::
  "sem_rc list \<Rightarrow> ('b, 'm) uQueueImpl \<Rightarrow> bool
     \<Rightarrow> (wombatQueueStatus \<times> ('b, 'm) uQueueImpl \<times> ('b, 'm) uq_call option) option" where
  "uQueue_dispatchInt rcs impl isTimed =
     (if isTimed
      then (case rcs of
              [] \<Rightarrow> None
            | rc # _ \<Rightarrow>
                if rc \<noteq> SemAcquired then Some (WOMBAT_QUEUE_TIMEOUT, impl, None)
                else do { impl \<leftarrow> uq_sem_take impl; uq_take impl })
      else (case uq_wait rcs of
              None \<Rightarrow> None
            | Some False \<Rightarrow> Some (WOMBAT_QUEUE_SEM_ERR, impl, None)
            | Some True \<Rightarrow> do { impl \<leftarrow> uq_sem_take impl; uq_take impl }))"

definition uQueue_dispatch ::
  "sem_rc list \<Rightarrow> ('b, 'm) uQueueImpl
     \<Rightarrow> (wombatQueueStatus \<times> ('b, 'm) uQueueImpl \<times> ('b, 'm) uq_call option) option" where
  "uQueue_dispatch rcs impl = uQueue_dispatchInt rcs impl False"

definition uQueue_timedDispatch ::
  "sem_rc list \<Rightarrow> ('b, 'm) uQueueImpl
     \<Rightarrow> (wombatQueueStatus \<times> ('b, 'm) uQueueImpl \<times> ('b, 'm) uq_call option) option" where
  "uQueue_timedDispatch rcs impl = uQueue_dispatchInt rcs impl True"

subsection \<open>Destruction\<close>

text \<open>\<open>free\<close> of the chunk whose first node is at the given address.\<close>

definition uq_free_chunk :: "('b, 'm) uq_heap \<Rightarrow> uq_addr \<Rightarrow> ('b, 'm) uq_heap option" where
  "uq_free_chunk h a =
     (case a of
        QItem c 0 \<Rightarrow>
          (if h a = None then None
           else Some (\<lambda>b. case b of QItem c' i \<Rightarrow> if c' = c then None else h b | _ \<Rightarrow> h b))
      | _ \<Rightarrow> None)"

text \<open>The loop over \<open>mChunks\<close> of \<open>uQueue_destroy\<close>, with fuel.\<close>

fun uq_free_chunks :: "nat \<Rightarrow> ('b, 'm) uq_heap \<Rightarrow> uq_ptr \<Rightarrow> ('b, 'm) uq_heap option" where
  "uq_free_chunks fuel h None = Some h"
| "uq_free_chunks 0 h (Some a) = None"
| "uq_free_chunks (Suc fuel) h (Some a) = do {
     cur \<leftarrow> h a;
     h \<leftarrow> uq_free_chunk h a;
     uq_free_chunks fuel h (mChunkNext cur)
   }"

text \<open>
  \<open>uQueue_destroy\<close>; \<open>semrc\<close> is the result of \<open>wsem_destroy\<close>. The second component of the
  result is the structure that is still allocated: \<open>uQueue_deallocate\<close> releases it, which
  is not reached when the semaphore cannot be destroyed.
\<close>

definition uQueue_deallocate :: "('b, 'm) uQueueImpl \<Rightarrow> wombatQueueStatus \<times> ('b, 'm) uQueueImpl option" where
  "uQueue_deallocate impl = (WOMBAT_QUEUE_OK, None)"

definition uQueue_destroy ::
  "int \<Rightarrow> ('b, 'm) uQueueImpl \<Rightarrow> (wombatQueueStatus \<times> ('b, 'm) uQueueImpl option) option" where
  "uQueue_destroy semrc impl = do {
     h \<leftarrow> uq_free_chunks (mFresh impl) (mHeap impl) (mChunks impl);
     let impl = impl\<lparr>mHeap := h\<rparr>;
     let result = (if semrc \<noteq> 0 then WOMBAT_QUEUE_SEM_ERR else WOMBAT_QUEUE_OK);
     if result = WOMBAT_QUEUE_OK then Some (uQueue_deallocate impl)
     else Some (result, Some impl)
   }"

end
