(* ===== verification/Event_Queue.thy ===== *)
theory Event_Queue
  imports OZ_Prelude
begin

text \<open>
  What the clients of an event queue rely on. Several threads enqueue and several threads
  dispatch: a dispatcher first acquires a unit of the semaphore, then removes the oldest event
  under the lock. The step relation \<open>q_step\<close> interleaves these atomic parts arbitrarily for at
  most \<open>K\<close> dispatchers, and the locale \<open>event_queue\<close> proves once, for every queue that keeps
  its laws, that events are delivered exactly once and in the order in which they were accepted.
\<close>

text \<open>
  A state of the system: the queue, the dispatchers that hold a semaphore unit, the events
  that were accepted and the callbacks that were made so far.
\<close>

type_synonym ('q, 'v, 'c) q_system = "'q \<times> nat \<times> 'v list \<times> 'c list"

inductive q_step ::
  "('e \<Rightarrow> 'v \<Rightarrow> 'q \<Rightarrow> (bool \<times> 'q) option) \<Rightarrow> ('q \<Rightarrow> 'q option) \<Rightarrow> ('q \<Rightarrow> ('q \<times> 'c) option) \<Rightarrow> ('v \<Rightarrow> bool)
     \<Rightarrow> nat \<Rightarrow> ('q, 'v, 'c) q_system \<Rightarrow> ('q, 'v, 'c) q_system \<Rightarrow> bool"
  for enq acq rmv ok K where
  accept: "ok v \<Longrightarrow> enq e v q = Some (True, q') \<Longrightarrow>
     q_step enq acq rmv ok K (q, k, ins, outs) (q', k, ins @ [v], outs)"
| refuse: "ok v \<Longrightarrow> enq e v q = Some (False, q') \<Longrightarrow>
     q_step enq acq rmv ok K (q, k, ins, outs) (q', k, ins, outs)"
| acquire: "k < K \<Longrightarrow> acq q = Some q' \<Longrightarrow>
     q_step enq acq rmv ok K (q, k, ins, outs) (q', Suc k, ins, outs)"
| remove: "rmv q = Some (q', c) \<Longrightarrow>
     q_step enq acq rmv ok K (q, Suc k, ins, outs) (q', k, ins, outs @ [c])"

inductive_cases q_stepE: "q_step enq acq rmv ok K (q, k, ins, outs) s"

locale event_queue =
  fixes inv :: "nat \<Rightarrow> 'q \<Rightarrow> bool"
    and elems :: "'q \<Rightarrow> 'v list"
    and enq :: "'e \<Rightarrow> 'v \<Rightarrow> 'q \<Rightarrow> (bool \<times> 'q) option"
    and acq :: "'q \<Rightarrow> 'q option"
    and rmv :: "'q \<Rightarrow> ('q \<times> 'c) option"
    and ok :: "'v \<Rightarrow> bool"
    and call :: "'v \<Rightarrow> 'c"
  assumes enq_law: "inv k q \<Longrightarrow> ok v \<Longrightarrow>
      \<exists>b q'. enq e v q = Some (b, q') \<and> inv k q' \<and> elems q' = (if b then elems q @ [v] else elems q)"
    and held_law: "inv k q \<Longrightarrow> k \<le> length (elems q)"
    and acq_law: "inv k q \<Longrightarrow> acq q = Some q' \<Longrightarrow> inv (Suc k) q' \<and> elems q' = elems q"
    and acq_ready: "inv k q \<Longrightarrow> k < length (elems q) \<Longrightarrow> acq q \<noteq> None"
    and rmv_law: "inv (Suc k) q \<Longrightarrow>
      \<exists>q' v. rmv q = Some (q', call v) \<and> inv k q' \<and> elems q = v # elems q'"
begin

definition good :: "nat \<Rightarrow> ('q, 'v, 'c) q_system \<Rightarrow> bool" where
  "good K s \<longleftrightarrow> (case s of (q, k, ins, outs) \<Rightarrow>
     inv k q \<and> k \<le> K \<and> map call ins = outs @ map call (elems q))"

lemma good_step:
  assumes "good K s" "q_step enq acq rmv ok K s s'"
  shows "good K s'"
  using assms(2,1)
proof cases
  case (accept v e q q' k ins outs)
  with assms(1) enq_law[of k q v e] show ?thesis by (auto simp: good_def)
next
  case (refuse v e q q' k ins outs)
  with assms(1) enq_law[of k q v e] show ?thesis by (auto simp: good_def)
next
  case (acquire k q q' ins outs)
  with assms(1) acq_law[of k q q'] show ?thesis by (auto simp: good_def)
next
  case (remove q q' c k ins outs)
  with assms(1) rmv_law[of k q] show ?thesis by (auto simp: good_def)
qed

lemma good_reachable:
  assumes "(q_step enq acq rmv ok K)\<^sup>*\<^sup>* s s'" "good K s"
  shows "good K s'"
  using assms by (induction rule: rtranclp_induct) (auto intro: good_step)

text \<open>In a good state no operation that a thread may start is undefined.\<close>

lemma good_defined:
  assumes "good K (q, k, ins, outs)"
  shows "ok v \<Longrightarrow> enq e v q \<noteq> None" and "0 < k \<Longrightarrow> rmv q \<noteq> None"
  using assms enq_law[of k q v e] rmv_law[of "k - 1" q] by (auto simp: good_def)

text \<open>From a good state the dispatchers can always deliver what is queued.\<close>

lemma good_drain:
  assumes "good K (q, k, ins, outs)" "0 < K"
  shows "\<exists>q'. (q_step enq acq rmv ok K)\<^sup>*\<^sup>* (q, k, ins, outs) (q', 0, ins, map call ins) \<and> elems q' = []"
  using assms(1)
proof (induction "2 * length (elems q) - k" arbitrary: q k outs rule: less_induct)
  case less
  from less.prems have i: "inv k q" and m: "map call ins = outs @ map call (elems q)" and kK: "k \<le> K"
    by (auto simp: good_def)
  show ?case
  proof (cases k)
    case (Suc j)
    from rmv_law[of j q] i Suc obtain q' v where
      t: "rmv q = Some (q', call v)" "inv j q'" "elems q = v # elems q'" by auto
    have st: "q_step enq acq rmv ok K (q, k, ins, outs) (q', j, ins, outs @ [call v])"
      unfolding Suc by (intro q_step.remove t(1))
    have "good K (q', j, ins, outs @ [call v])" using good_step[OF less.prems st] .
    moreover have "2 * length (elems q') - j < 2 * length (elems q) - k"
      using t(3) Suc held_law[OF i] by auto
    ultimately show ?thesis
      using less.hyps[of q' j "outs @ [call v]"] st
      by (auto intro: converse_rtranclp_into_rtranclp)
  next
    case 0
    show ?thesis
    proof (cases "elems q")
      case Nil
      then show ?thesis using 0 m by auto
    next
      case (Cons v vs)
      then obtain q' where a: "acq q = Some q'" using acq_ready[of 0 q] i 0 by auto
      have st: "q_step enq acq rmv ok K (q, k, ins, outs) (q', 1, ins, outs)"
        using q_step.acquire[of 0 K acq q q' enq rmv ok ins outs] a assms(2) 0 by simp
      have "good K (q', 1, ins, outs)" using good_step[OF less.prems st] .
      moreover have "elems q' = elems q" using acq_law[of 0 q q'] i a 0 by simp
      ultimately show ?thesis
        using less.hyps[of q' 1 outs] st Cons 0
        by (auto intro: converse_rtranclp_into_rtranclp)
    qed
  qed
qed

end

end
