(* ===== verification/UQueue_Correct.thy ===== *)
theory UQueue_Correct
  imports UQueue Event_Queue
begin

text \<open>
  Correctness of the event queue of \<open>src/src/uqueue.c\<close>. A representation predicate relates the
  pointer structure to the list of queued nodes, the free list and the chunks; every operation
  is shown to keep it and to have the effect of the corresponding list operation. The queue
  then satisfies the laws of \<open>event_queue\<close>, from which the properties of arbitrarily
  interleaved producers and dispatchers follow.
\<close>

subsection \<open>Representation\<close>

text \<open>The pointers of a node; \<open>None\<close> also for a node that does not exist.\<close>

definition nxt :: "('b, 'm) uq_heap \<Rightarrow> uq_addr \<Rightarrow> uq_ptr" where
  "nxt h p = Option.bind (h p) mNext"

definition prv :: "('b, 'm) uq_heap \<Rightarrow> uq_addr \<Rightarrow> uq_ptr" where
  "prv h p = Option.bind (h p) mPrev"

definition chn :: "('b, 'm) uq_heap \<Rightarrow> uq_addr \<Rightarrow> uq_ptr" where
  "chn h p = Option.bind (h p) mChunkNext"

text \<open>\<open>chain h ps\<close>: consecutive nodes of \<open>ps\<close> point to each other. \<open>free_chain h p qs\<close>: the singly linked free list.\<close>

fun chain :: "('b, 'm) uq_heap \<Rightarrow> uq_addr list \<Rightarrow> bool" where
  "chain h (p # q # r) \<longleftrightarrow> nxt h p = Some q \<and> prv h q = Some p \<and> chain h (q # r)"
| "chain h _ \<longleftrightarrow> True"

primrec free_chain :: "('b, 'm) uq_heap \<Rightarrow> uq_addr \<Rightarrow> uq_addr list \<Rightarrow> bool" where
  "free_chain h p [] \<longleftrightarrow> nxt h p = None"
| "free_chain h p (q # qs) \<longleftrightarrow> nxt h p = Some q \<and> free_chain h q qs"

text \<open>The nodes of chunks with the given sizes, and the list of chunks, newest first.\<close>

definition uq_nodes :: "nat list \<Rightarrow> uq_addr set" where
  "uq_nodes ns = {QItem c i | c i. c < length ns \<and> i < ns ! c}"

definition chunk_list :: "('b, 'm) uq_heap \<Rightarrow> uq_ptr \<Rightarrow> nat \<Rightarrow> bool" where
  "chunk_list h p n \<longleftrightarrow>
     p = (if n = 0 then None else Some (QItem (n - 1) 0)) \<and>
     (\<forall>c < n. chn h (QItem c 0) = (if c = 0 then None else Some (QItem (c - 1) 0)))"

text \<open>An event: callback, data, message flag and union; a message flag requires a message in the union.\<close>

type_synonym ('b, 'm) uq_val = "'b option \<times> voidp \<times> 8 word \<times> 'm uq_union"

definition uq_val :: "('b, 'm) uQueueItem \<Rightarrow> ('b, 'm) uq_val" where
  "uq_val it = (mCb it, mData it, mIsMsg it, mUnion it)"

definition val_ok :: "('b, 'm) uq_val \<Rightarrow> bool" where
  "val_ok v \<longleftrightarrow> (case v of (_, _, m, u) \<Rightarrow> m \<noteq> 0 \<longrightarrow> (\<exists>x. u = Msg x))"

text \<open>
  \<open>uq_rep impl qs fs ns\<close>: \<open>qs\<close> are the queued nodes from head to tail, \<open>fs\<close> the free ones, and
  \<open>ns\<close> the sizes of the chunks in the order of their allocation.
\<close>

definition uq_rep ::
  "('b, 'm) uQueueImpl \<Rightarrow> uq_addr list \<Rightarrow> uq_addr list \<Rightarrow> nat list \<Rightarrow> bool" where
  "uq_rep impl qs fs ns \<longleftrightarrow>
     dom (mHeap impl) = {QHead, QTail, QFree} \<union> uq_nodes ns \<and>
     distinct (qs @ fs) \<and> set (qs @ fs) = uq_nodes ns \<and>
     chain (mHeap impl) (QHead # qs @ [QTail]) \<and>
     free_chain (mHeap impl) QFree fs \<and>
     chunk_list (mHeap impl) (mChunks impl) (length ns) \<and>
     mFresh impl = length ns \<and> (\<forall>n \<in> set ns. 0 < n) \<and>
     mCurrSize impl = int (length qs) \<and>
     (\<forall>p \<in> set qs. val_ok (uq_val (the (mHeap impl p)))) \<and>
     mChunkSize impl \<noteq> 0"

text \<open>The abstraction: the events from head to tail.\<close>

fun uq_walk :: "nat \<Rightarrow> ('b, 'm) uq_heap \<Rightarrow> uq_addr \<Rightarrow> ('b, 'm) uq_val list" where
  "uq_walk 0 h p = []"
| "uq_walk (Suc n) h p =
     (case nxt h p of
        None \<Rightarrow> []
      | Some q \<Rightarrow> if q = QTail then [] else uq_val (the (h q)) # uq_walk n h q)"

definition uq_elems :: "('b, 'm) uQueueImpl \<Rightarrow> ('b, 'm) uq_val list" where
  "uq_elems impl = uq_walk (nat (mCurrSize impl)) (mHeap impl) QHead"

text \<open>The invariant, with \<open>k\<close> dispatchers between the semaphore and the lock.\<close>

definition uq_inv :: "nat \<Rightarrow> ('b, 'm) uQueueImpl \<Rightarrow> bool" where
  "uq_inv k impl \<longleftrightarrow> (\<exists>qs fs ns. uq_rep impl qs fs ns \<and> mSem impl + k = length qs)"

subsection \<open>Chains\<close>

lemma link_upd [simp]:
  "nxt (h(p \<mapsto> it)) q = (if q = p then mNext it else nxt h q)"
  "prv (h(p \<mapsto> it)) q = (if q = p then mPrev it else prv h q)"
  "chn (h(p \<mapsto> it)) q = (if q = p then mChunkNext it else chn h q)"
  by (simp_all add: nxt_def prv_def chn_def)

lemma chain_snoc: "chain h (xs @ [a, b]) \<longleftrightarrow> chain h (xs @ [a]) \<and> nxt h a = Some b \<and> prv h b = Some a"
  by (induction h xs rule: chain.induct) auto

lemma chain_cong:
  assumes "chain h xs" "\<forall>p \<in> set (butlast xs). nxt h' p = nxt h p" "\<forall>p \<in> set (tl xs). prv h' p = prv h p"
  shows "chain h' xs"
  using assms by (induction h xs rule: chain.induct) auto

lemma chain_append_last:
  assumes "chain h (ys @ [l])" "nxt h' l = Some a" "prv h' a = Some l" "nxt h' a = Some t" "prv h' t = Some a"
    and "\<forall>p \<in> set ys. nxt h' p = nxt h p" "\<forall>p \<in> set (tl (ys @ [l])). prv h' p = prv h p"
  shows "chain h' (ys @ [l, a, t])"
proof -
  have "chain h' (ys @ [l])"
    using assms by (intro chain_cong[OF assms(1)]) auto
  then have "chain h' (ys @ [l, a])"
    using assms(2,3) by (simp add: chain_snoc)
  then show ?thesis
    using assms(4,5) chain_snoc[of h' "ys @ [l]" a t] by simp
qed

lemma free_chain_cong:
  "free_chain h p fs \<Longrightarrow> \<forall>q \<in> insert p (set fs). nxt h' q = nxt h q \<Longrightarrow> free_chain h' p fs"
  by (induction fs arbitrary: p) auto

lemma uq_walk_chain:
  "chain h (p # qs @ [QTail]) \<Longrightarrow> QTail \<notin> set qs \<Longrightarrow>
     uq_walk (length qs) h p = map (\<lambda>q. uq_val (the (h q))) qs"
  by (induction qs arbitrary: p) auto

lemma uq_nodes_simps [simp]:
  "QHead \<notin> uq_nodes ns" "QTail \<notin> uq_nodes ns" "QFree \<notin> uq_nodes ns"
  by (auto simp: uq_nodes_def)

lemma uq_rep_elems:
  assumes "uq_rep impl qs fs ns"
  shows "uq_elems impl = map (\<lambda>q. uq_val (the (mHeap impl q))) qs"
proof -
  from assms have "set qs \<subseteq> uq_nodes ns" and c: "chain (mHeap impl) (QHead # qs @ [QTail])"
    and n: "nat (mCurrSize impl) = length qs"
    by (auto simp: uq_rep_def)
  then have "QTail \<notin> set qs" by auto
  with c n show ?thesis by (simp add: uq_elems_def uq_walk_chain)
qed

lemma uq_rep_length: "uq_rep impl qs fs ns \<Longrightarrow> length (uq_elems impl) = length qs"
  by (simp add: uq_rep_elems)

subsection \<open>Enqueue\<close>

text \<open>Nodes of the queue and the dummies are distinct and allocated.\<close>

lemma uq_rep_alloc:
  assumes "uq_rep impl qs fs ns"
  shows "p \<in> {QHead, QTail, QFree} \<union> set qs \<union> set fs \<Longrightarrow> \<exists>it. mHeap impl p = Some it"
proof -
  assume "p \<in> {QHead, QTail, QFree} \<union> set qs \<union> set fs"
  with assms have "p \<in> dom (mHeap impl)" by (auto simp: uq_rep_def)
  then show ?thesis by auto
qed

lemma uq_rep_dummy:
  assumes "uq_rep impl qs fs ns" "p \<in> set qs \<union> set fs"
  shows "p \<noteq> QHead" "p \<noteq> QTail" "p \<noteq> QFree"
  using assms by (auto simp: uq_rep_def)

lemma uq_link_ok:
  assumes "\<forall>j \<le> n. \<exists>it. h (QItem c (i + j)) = Some it"
  shows "\<exists>h'. uq_link c i n h = Some h' \<and> dom h' = dom h \<and>
     (\<forall>a. (\<forall>j \<le> n. a \<noteq> QItem c (i + j)) \<longrightarrow> h' a = h a) \<and>
     (\<forall>j < n. nxt h' (QItem c (i + j)) = Some (QItem c (Suc (i + j)))) \<and>
     nxt h' (QItem c (i + n)) = nxt h (QItem c (i + n)) \<and>
     (\<forall>a. chn h' a = chn h a)"
  using assms
proof (induction n arbitrary: i h)
  case 0
  then show ?case by auto
next
  case (Suc n)
  obtain a where a: "h (QItem c i) = Some a" using Suc.prems[rule_format, of 0] by auto
  obtain b where b: "h (QItem c (Suc i)) = Some b" using Suc.prems[rule_format, of 1] by auto
  define g where "g = h(QItem c i \<mapsto> a\<lparr>mNext := Some (QItem c (Suc i))\<rparr>,
     QItem c (Suc i) \<mapsto> b\<lparr>mPrev := Some (QItem c i)\<rparr>)"
  have step: "uq_link c i (Suc n) h = uq_link c (Suc i) n g"
    using a b by (simp add: uq_store_def g_def)
  have "\<forall>j \<le> n. \<exists>it. g (QItem c (Suc i + j)) = Some it"
    using Suc.prems a b by (auto simp: g_def)
  from Suc.IH[OF this] obtain h' where h': "uq_link c (Suc i) n g = Some h'" "dom h' = dom g"
     "\<And>a. (\<forall>j \<le> n. a \<noteq> QItem c (Suc i + j)) \<Longrightarrow> h' a = g a"
     "\<And>j. j < n \<Longrightarrow> nxt h' (QItem c (Suc i + j)) = Some (QItem c (Suc (Suc i + j)))"
     "nxt h' (QItem c (Suc i + n)) = nxt g (QItem c (Suc i + n))"
     "\<And>a. chn h' a = chn g a"
    by blast
  have gdom: "dom g = dom h" using a b by (auto simp: g_def)
  have gother: "a \<noteq> QItem c i \<Longrightarrow> a \<noteq> QItem c (Suc i) \<Longrightarrow> g a = h a" for a
    by (simp add: g_def)
  have gnxt: "q \<noteq> QItem c i \<Longrightarrow> nxt g q = nxt h q" for q
    using b by (simp add: g_def nxt_def)
  have gchn: "chn g q = chn h q" for q
    using a b by (simp add: g_def chn_def)
  have first: "nxt h' (QItem c i) = Some (QItem c (Suc i))"
    using h'(3)[of "QItem c i"] by (simp add: nxt_def g_def)
  have "nxt h' (QItem c (i + j)) = Some (QItem c (Suc (i + j)))" if "j < Suc n" for j
    using that first h'(4)[of "j - 1"] by (cases j) auto
  moreover have "h' a = h a" if "\<forall>j \<le> Suc n. a \<noteq> QItem c (i + j)" for a
  proof -
    have "\<forall>j \<le> n. a \<noteq> QItem c (Suc i + j)"
    proof (intro allI impI)
      fix j assume "j \<le> n"
      with that[rule_format, of "Suc j"] show "a \<noteq> QItem c (Suc i + j)" by simp
    qed
    moreover have "a \<noteq> QItem c i" "a \<noteq> QItem c (Suc i)"
      using that[rule_format, of 0] that[rule_format, of 1] by auto
    ultimately show ?thesis using h'(3) gother by metis
  qed
  ultimately show ?case
    using step h'(1,2,5,6) gdom gchn gnxt by (intro exI[of _ h']) auto
qed

lemma uq_nodes_snoc: "uq_nodes (ns @ [n]) = uq_nodes ns \<union> QItem (length ns) ` {0..<n}"
  by (auto simp: uq_nodes_def nth_append less_Suc_eq)

lemma chain_chunk:
  assumes "\<forall>j < n. nxt h (QItem c (i + j)) = Some (QItem c (Suc (i + j)))"
    and "nxt h (QItem c (i + n)) = None"
  shows "free_chain h (QItem c i) (map (QItem c) [Suc i..<Suc (i + n)])"
  using assms
proof (induction n arbitrary: i)
  case 0
  then show ?case by simp
next
  case (Suc n)
  have "free_chain h (QItem c (Suc i)) (map (QItem c) [Suc (Suc i)..<Suc (Suc i + n)])"
  proof (rule Suc.IH)
    show "\<forall>j < n. nxt h (QItem c (Suc i + j)) = Some (QItem c (Suc (Suc i + j)))"
      using Suc.prems(1) by (metis Suc_less_eq add_Suc add_Suc_right)
    show "nxt h (QItem c (Suc i + n)) = None" using Suc.prems(2) by simp
  qed
  moreover have "map (QItem c) [Suc i..<Suc (i + Suc n)] =
      QItem c (Suc i) # map (QItem c) [Suc (Suc i)..<Suc (Suc i + n)]"
    by (simp add: upt_conv_Cons del: upt_Suc)
  ultimately show ?case using Suc.prems(1)[rule_format, of 0] by simp
qed

text \<open>A successful allocation: the heap it produces.\<close>

text \<open>A new chunk \<open>c\<close> of \<open>n + 1\<close> nodes in a heap \<open>g\<close>, at the head of the free list, and its nodes linked.\<close>

lemma linked_chunk:
  assumes f: "g QFree = Some f" and notin: "\<And>i. QItem c i \<notin> dom g"
    and h2: "h2 = (uq_calloc c (Suc n) g)(QItem c 0 \<mapsto> zero_item\<lparr>mChunkNext := p\<rparr>, QFree \<mapsto> f\<lparr>mNext := Some (QItem c 0)\<rparr>)"
  obtains h where "uq_link c 0 n h2 = Some h" "dom h = dom g \<union> QItem c ` {0..<Suc n}"
    "\<And>a. a \<in> dom g \<Longrightarrow> a \<noteq> QFree \<Longrightarrow> h a = g a" "free_chain h QFree (map (QItem c) [0..<Suc n])" "chn h (QItem c 0) = p"
proof -
  have h0: "uq_calloc c (Suc n) g (QItem c i) = (if i < Suc n then Some zero_item else None)" for i
    using notin[of i] by (auto simp: uq_calloc_def)
  have alloc: "\<forall>j \<le> n. \<exists>it. h2 (QItem c (0 + j)) = Some it" by (auto simp: h2 h0 less_Suc_eq_le)
  from uq_link_ok[OF alloc] obtain h where h: "uq_link c 0 n h2 = Some h" "dom h = dom h2"
     "\<And>a. (\<forall>j \<le> n. a \<noteq> QItem c (0 + j)) \<Longrightarrow> h a = h2 a"
     "\<And>j. j < n \<Longrightarrow> nxt h (QItem c (0 + j)) = Some (QItem c (Suc (0 + j)))"
     "nxt h (QItem c (0 + n)) = nxt h2 (QItem c (0 + n))"
     "\<And>a. chn h a = chn h2 a"
    by blast
  have other: "h a = g a" if "a \<in> dom g" "a \<noteq> QFree" for a
  proof -
    from that notin have ne: "\<forall>j. a \<noteq> QItem c j" by auto
    then have "h a = h2 a" by (intro h(3)) auto
    also have "\<dots> = g a" using ne that by (cases a) (auto simp: h2 uq_calloc_def)
    finally show ?thesis .
  qed
  have "nxt h (QItem c n) = None" using h(5) h0[of n] by (simp add: h2 nxt_def zero_item_def)
  then have "free_chain h (QItem c 0) (map (QItem c) [Suc 0..<Suc (0 + n)])" by (intro chain_chunk) (use h(4) in auto)
  moreover have "nxt h QFree = Some (QItem c 0)" using h(3)[of QFree] by (simp add: nxt_def h2)
  ultimately have free: "free_chain h QFree (map (QItem c) [0..<Suc n])" by (simp add: upt_conv_Cons del: upt_Suc)
  have "dom (uq_calloc c (Suc n) g) = dom g \<union> QItem c ` {0..<Suc n}"
    by (auto simp: uq_calloc_def split: uq_addr.splits if_splits)
  then have "dom h = dom g \<union> QItem c ` {0..<Suc n}" using h(2) f by (auto simp: h2)
  moreover have "chn h (QItem c 0) = p" by (simp add: h(6) h2)
  ultimately show ?thesis using that h(1) other free by blast
qed

lemma allocChunk_heap:
  assumes rep: "uq_rep impl qs [] ns" and items: "items \<noteq> 0"
    and fits: "word_of_nat (mSem impl) + items \<le> mMaxSize impl"
  obtains h where
    "uQueueImpl_allocChunk True impl items =
       Some (WOMBAT_QUEUE_OK, impl\<lparr>mHeap := h, mChunks := Some (QItem (length ns) 0), mFresh := Suc (length ns)\<rparr>)"
    "dom h = dom (mHeap impl) \<union> QItem (length ns) ` {0..<unat items}"
    "\<And>a. a \<in> dom (mHeap impl) \<Longrightarrow> a \<noteq> QFree \<Longrightarrow> h a = mHeap impl a"
    "free_chain h QFree (map (QItem (length ns)) [0..<unat items])"
    "chn h (QItem (length ns) 0) = mChunks impl"
proof -
  let ?c = "length ns"
  obtain n where n: "unat items = Suc n"
    using items by (metis not0_implies_Suc unat_eq_zero)
  have n1: "unat (items - 1) = n"
    using items n by (simp add: unat_minus_one)
  obtain f where f: "mHeap impl QFree = Some f"
    using uq_rep_alloc[OF rep, of QFree] by auto
  have notin: "QItem ?c i \<notin> dom (mHeap impl)" for i
    using rep by (auto simp: uq_rep_def uq_nodes_def)
  let ?h0 = "uq_calloc ?c (Suc n) (mHeap impl)"
  let ?h1 = "?h0(QItem ?c 0 \<mapsto> zero_item\<lparr>mChunkNext := mChunks impl\<rparr>)"
  let ?h2 = "?h1(QFree \<mapsto> f\<lparr>mNext := Some (QItem ?c 0)\<rparr>)"
  obtain h where h: "uq_link ?c 0 n ?h2 = Some h" "dom h = dom (mHeap impl) \<union> QItem ?c ` {0..<Suc n}"
      "\<And>a. a \<in> dom (mHeap impl) \<Longrightarrow> a \<noteq> QFree \<Longrightarrow> h a = mHeap impl a"
      "free_chain h QFree (map (QItem ?c) [0..<Suc n])" "chn h (QItem ?c 0) = mChunks impl"
    using linked_chunk[OF f notin refl] by blast
  have "mFresh impl = ?c" using rep by (simp add: uq_rep_def)
  moreover have "uq_store ?h0 (Some (QItem ?c 0)) (\<lambda>it. it\<lparr>mChunkNext := mChunks impl\<rparr>) = Some ?h1"
    using notin[of 0] by (auto simp: uq_store_def uq_calloc_def)
  moreover have "uq_store ?h1 (Some QFree) (\<lambda>it. it\<lparr>mNext := Some (QItem ?c 0)\<rparr>) = Some ?h2"
    using f by (simp add: uq_store_def uq_calloc_def)
  ultimately have "uQueueImpl_allocChunk True impl items =
       Some (WOMBAT_QUEUE_OK, impl\<lparr>mHeap := h, mChunks := Some (QItem ?c 0), mFresh := Suc ?c\<rparr>)"
    using fits h(1) n n1 by (simp add: uQueueImpl_allocChunk_def Let_def not_less)
  then show ?thesis using that h(2-) unfolding n by blast
qed

lemma chunk_list_snoc:
  assumes "chunk_list h p n" "\<And>c. c < n \<Longrightarrow> chn h' (QItem c 0) = chn h (QItem c 0)"
    and "chn h' (QItem n 0) = p"
  shows "chunk_list h' (Some (QItem n 0)) (Suc n)"
  using assms by (auto simp: chunk_list_def less_Suc_eq)

lemma allocChunk_rep:
  assumes rep: "uq_rep impl qs [] ns" and items: "items \<noteq> 0"
    and fits: "word_of_nat (mSem impl) + items \<le> mMaxSize impl"
  obtains impl' where
    "uQueueImpl_allocChunk True impl items = Some (WOMBAT_QUEUE_OK, impl')"
    "uq_rep impl' qs (map (QItem (length ns)) [0..<unat items]) (ns @ [unat items])"
    "mSem impl' = mSem impl" "mMaxSize impl' = mMaxSize impl" "mChunkSize impl' = mChunkSize impl"
    "uq_elems impl' = uq_elems impl"
proof -
  let ?c = "length ns"
  from allocChunk_heap[OF assms] obtain h where
    eq: "uQueueImpl_allocChunk True impl items =
       Some (WOMBAT_QUEUE_OK, impl\<lparr>mHeap := h, mChunks := Some (QItem ?c 0), mFresh := Suc ?c\<rparr>)"
    and dm: "dom h = dom (mHeap impl) \<union> QItem ?c ` {0..<unat items}"
    and same: "\<And>a. a \<in> dom (mHeap impl) \<Longrightarrow> a \<noteq> QFree \<Longrightarrow> h a = mHeap impl a"
    and free: "free_chain h QFree (map (QItem ?c) [0..<unat items])"
    and ck: "chn h (QItem ?c 0) = mChunks impl"
    by blast
  let ?i = "impl\<lparr>mHeap := h, mChunks := Some (QItem ?c 0), mFresh := Suc ?c\<rparr>"
  from rep have qs: "set qs = uq_nodes ns" "distinct qs" and ns: "\<forall>n \<in> set ns. 0 < n"
    and cl: "chunk_list (mHeap impl) (mChunks impl) ?c"
    and ch: "chain (mHeap impl) (QHead # qs @ [QTail])"
    and dom: "dom (mHeap impl) = {QHead, QTail, QFree} \<union> uq_nodes ns"
    by (auto simp: uq_rep_def)
  have hq: "p \<in> set qs \<Longrightarrow> h p = mHeap impl p" for p
    using same[of p] qs dom by (cases "p = QFree") auto
  have hh: "h QHead = mHeap impl QHead" "h QTail = mHeap impl QTail"
    using same dom by auto
  have new: "QItem ?c i \<notin> uq_nodes ns" for i
    by (auto simp: uq_nodes_def)
  have chain': "chain h (QHead # qs @ [QTail])"
    using hq hh by (intro chain_cong[OF ch]) (auto simp: nxt_def prv_def butlast_append)
  have chunks': "chunk_list h (Some (QItem ?c 0)) (Suc ?c)"
  proof (rule chunk_list_snoc[OF cl])
    fix c assume "c < ?c"
    then have "QItem c 0 \<in> dom (mHeap impl)"
      using dom ns by (auto simp: uq_nodes_def)
    then show "chn h (QItem c 0) = chn (mHeap impl) (QItem c 0)"
      using same by (simp add: chn_def)
  qed (rule ck)
  have rep': "uq_rep ?i qs (map (QItem ?c) [0..<unat items]) (ns @ [unat items])"
    unfolding uq_rep_def
    using rep items dm chain' chunks' free qs ns new hq
    by (auto simp: uq_rep_def uq_nodes_snoc distinct_map inj_on_def unat_gt_0)
  have "uq_elems ?i = uq_elems impl"
    using uq_rep_elems[OF rep'] uq_rep_elems[OF rep] hq by simp
  with that[of ?i] eq rep' show ?thesis by simp
qed

lemma allocChunk_refused:
  "mMaxSize impl < word_of_nat (mSem impl) + items \<or> \<not> mem \<Longrightarrow>
     \<exists>st. uQueueImpl_allocChunk mem impl items = Some (st, impl) \<and> st \<noteq> WOMBAT_QUEUE_OK"
  by (auto simp: uQueueImpl_allocChunk_def)

lemma allocChunk_cases:
  assumes "uq_rep impl qs [] ns" "items \<noteq> 0"
  shows "\<exists>st impl' fs ns'. uQueueImpl_allocChunk mem impl items = Some (st, impl') \<and>
     uq_rep impl' qs fs ns' \<and> mSem impl' = mSem impl \<and> uq_elems impl' = uq_elems impl \<and>
     (st = WOMBAT_QUEUE_OK \<longleftrightarrow> fs \<noteq> []) \<and>
     ns' = (if st = WOMBAT_QUEUE_OK then ns @ [unat items] else ns) \<and>
     (st = WOMBAT_QUEUE_OK \<longleftrightarrow> mem \<and> word_of_nat (mSem impl) + items \<le> mMaxSize impl)"
proof (cases "mem \<and> word_of_nat (mSem impl) + items \<le> mMaxSize impl")
  case True
  with allocChunk_rep[OF assms] obtain impl' where
    "uQueueImpl_allocChunk mem impl items = Some (WOMBAT_QUEUE_OK, impl')"
    "uq_rep impl' qs (map (QItem (length ns)) [0..<unat items]) (ns @ [unat items])"
    "mSem impl' = mSem impl" "uq_elems impl' = uq_elems impl"
    by (metis (full_types))
  moreover have "map (QItem (length ns)) [0..<unat items] \<noteq> []"
    using assms(2) by (simp add: unat_gt_0)
  ultimately show ?thesis using True by auto
next
  case False
  with allocChunk_refused[of impl items mem] obtain st where
    "uQueueImpl_allocChunk mem impl items = Some (st, impl)" "st \<noteq> WOMBAT_QUEUE_OK"
    by (metis linorder_not_le)
  with False assms(1) show ?thesis by (metis (no_types))
qed

lemma uq_rep_ends:
  assumes "uq_rep impl qs fs ns"
  obtains ys l where "QHead # qs = ys @ [l]" "prv (mHeap impl) QTail = Some l"
    "l = QHead \<or> l \<in> set qs" "l \<notin> set ys" "chain (mHeap impl) (ys @ [l])"
    "set (tl (ys @ [l])) = set qs" "set ys \<subseteq> insert QHead (set qs)"
proof -
  obtain ys l where yl: "QHead # qs = ys @ [l]"
    by (metis list.distinct(1) rev_exhaust)
  have c: "chain (mHeap impl) (ys @ [l, QTail])"
    using assms yl by (metis append.assoc append_Cons append_Nil uq_rep_def)
  have "QHead \<notin> set qs" using uq_rep_dummy(1)[OF assms] by blast
  then have d: "distinct (ys @ [l])"
    using assms unfolding yl[symmetric] by (auto simp: uq_rep_def)
  have "set (ys @ [l]) = insert QHead (set qs)"
    unfolding yl[symmetric] by simp
  moreover have "tl (ys @ [l]) = qs" unfolding yl[symmetric] by simp
  ultimately show ?thesis
    using that[of ys l] yl c d by (auto simp: chain_snoc)
qed

text \<open>The heap after an item was moved from the free list to the end of the queue.\<close>

definition uq_link_last ::
  "('b, 'm) uq_heap \<Rightarrow> uq_addr \<Rightarrow> uq_addr \<Rightarrow> ('b, 'm) uq_val \<Rightarrow> ('b, 'm) uq_heap \<Rightarrow> bool" where
  "uq_link_last h item l v h' \<longleftrightarrow>
     dom h' = dom h \<and>
     nxt h' = (nxt h)(QFree := nxt h item, item := Some QTail, l := Some item) \<and>
     prv h' = (prv h)(item := Some l, QTail := Some item) \<and>
     chn h' = chn h \<and>
     (\<lambda>p. uq_val (the (h' p))) = (\<lambda>p. uq_val (the (h p)))(item := v)"

lemma uq_link_last_rep:
  assumes rep: "uq_rep impl qs (item # fs) ns" and v: "val_ok v"
    and l: "prv (mHeap impl) QTail = Some l"
    and h': "uq_link_last (mHeap impl) item l v h'"
    and impl': "mHeap impl' = h'" "mCurrSize impl' = mCurrSize impl + 1"
      "mChunks impl' = mChunks impl" "mFresh impl' = mFresh impl" "mChunkSize impl' = mChunkSize impl"
  shows "uq_rep impl' (qs @ [item]) fs ns" and "uq_elems impl' = uq_elems impl @ [v]"
proof -
  from uq_rep_ends[OF rep] obtain ys where
    ys: "QHead # qs = ys @ [l]" "l = QHead \<or> l \<in> set qs" "l \<notin> set ys"
      "chain (mHeap impl) (ys @ [l])" "set (tl (ys @ [l])) = set qs" "set ys \<subseteq> insert QHead (set qs)"
    using l by (metis option.inject)
  have it: "item \<notin> set qs" "item \<notin> set fs" "item \<noteq> QHead" "item \<noteq> QTail" "item \<noteq> QFree"
    using rep uq_rep_dummy[OF rep, of item] by (auto simp: uq_rep_def)
  have qd: "QTail \<notin> set qs" "QFree \<notin> set qs" "QHead \<notin> set qs" "QFree \<notin> set fs"
    using uq_rep_dummy[OF rep] by auto
  have N: "nxt h' = (nxt (mHeap impl))(QFree := nxt (mHeap impl) item, item := Some QTail, l := Some item)"
    and P: "prv h' = (prv (mHeap impl))(item := Some l, QTail := Some item)"
    and C: "chn h' = chn (mHeap impl)"
    and V: "\<And>p. uq_val (the (h' p)) = (if p = item then v else uq_val (the (mHeap impl p)))"
    and D: "dom h' = dom (mHeap impl)"
    using h' by (auto simp: uq_link_last_def fun_eq_iff)
  have li: "l \<noteq> item" "l \<noteq> QTail" "l \<noteq> QFree" using ys(2) it qd by auto
  have "chain h' (ys @ [l, item, QTail])"
  proof (rule chain_append_last[OF ys(4)])
    show "\<forall>p \<in> set ys. nxt h' p = nxt (mHeap impl) p"
      using ys(3,6) it qd by (auto simp: N)
    show "\<forall>p \<in> set (tl (ys @ [l])). prv h' p = prv (mHeap impl) p"
      using it qd unfolding ys(5) by (auto simp: P)
  qed (use li it in \<open>simp_all add: N P\<close>)
  then have chain': "chain h' (QHead # (qs @ [item]) @ [QTail])"
    using ys(1) by (metis append.assoc append_Cons append_Nil)
  have free': "free_chain h' QFree fs"
  proof -
    have "free_chain (mHeap impl) item fs" using rep by (simp add: uq_rep_def)
    moreover have "l \<notin> set fs" using ys(2) rep uq_rep_dummy[OF rep, of l] by (auto simp: uq_rep_def)
    ultimately show ?thesis
      using it li qd
      by (cases fs) (auto simp: N intro!: free_chain_cong[of "mHeap impl"])
  qed
  have chunks': "chunk_list h' (mChunks impl) (length ns)"
    using rep by (simp add: uq_rep_def chunk_list_def C)
  show rep': "uq_rep impl' (qs @ [item]) fs ns"
    unfolding uq_rep_def
    using rep chain' free' chunks' it v impl' by (auto simp: uq_rep_def V D)
  have "map (\<lambda>p. uq_val (the (h' p))) qs = map (\<lambda>p. uq_val (the (mHeap impl p))) qs"
    using it by (auto simp: V)
  then show "uq_elems impl' = uq_elems impl @ [v]"
    using uq_rep_elems[OF rep'] uq_rep_elems[OF rep] impl' by (simp add: V)
qed

text \<open>The tail of \<open>uQueue_enqueue\<close>, once a free node is at hand.\<close>

lemma enqueue_free:
  assumes rep: "uq_rep impl qs (item # fs) ns" and v: "val_ok (cb, data, isMsg, closure)"
  shows "\<exists>impl'. uQueue_enqueue mem impl cb data closure isMsg = Some (WOMBAT_QUEUE_OK, impl') \<and>
    uq_rep impl' (qs @ [item]) fs ns \<and> mSem impl' = Suc (mSem impl) \<and>
    uq_elems impl' = uq_elems impl @ [(cb, data, isMsg, closure)]"
proof -
  let ?h = "mHeap impl"
  obtain f where f: "?h QFree = Some f" using uq_rep_alloc[OF rep, of QFree] by auto
  obtain it where it: "?h item = Some it" using uq_rep_alloc[OF rep, of item] by auto
  obtain t where t: "?h QTail = Some t" using uq_rep_alloc[OF rep, of QTail] by auto
  from uq_rep_ends[OF rep] obtain l where l: "prv ?h QTail = Some l" "l = QHead \<or> l \<in> set qs"
    by metis
  obtain li where li: "?h l = Some li" using uq_rep_alloc[OF rep, of l] l(2) by auto
  have nf: "mNext f = Some item" using rep f by (simp add: uq_rep_def nxt_def)
  have pt: "mPrev t = Some l" using l t by (simp add: prv_def)
  have ne: "item \<noteq> QFree" "item \<noteq> QTail" "item \<noteq> QHead" "l \<noteq> item" "l \<noteq> QTail" "l \<noteq> QFree"
    using uq_rep_dummy[OF rep, of item] uq_rep_dummy[OF rep, of l] l(2) rep
    by (auto simp: uq_rep_def)
  define h' where "h' = ?h(QFree \<mapsto> f\<lparr>mNext := mNext it\<rparr>,
     item \<mapsto> it\<lparr>mCb := cb, mData := data, mIsMsg := isMsg, mUnion := closure,
               mNext := Some QTail, mPrev := Some l\<rparr>,
     l \<mapsto> li\<lparr>mNext := Some item\<rparr>, QTail \<mapsto> t\<lparr>mPrev := Some item\<rparr>)"
  let ?i = "impl\<lparr>mHeap := h', mCurrSize := mCurrSize impl + 1, mSem := Suc (mSem impl)\<rparr>"
  have run: "uQueue_enqueue mem impl cb data closure isMsg = Some (WOMBAT_QUEUE_OK, ?i)"
  proof (cases closure)
    case (Closure c)
    with v have "isMsg = 0" by (auto simp: val_ok_def)
    with Closure f it t li nf pt ne show ?thesis
      by (simp add: uQueue_enqueue_def uq_store_def h'_def fun_upd_twist)
  next
    case (Msg m)
    with f it t li nf pt ne show ?thesis
      by (simp add: uQueue_enqueue_def uq_store_def h'_def fun_upd_twist)
  qed
  have "uq_link_last ?h item l (cb, data, isMsg, closure) h'"
    using f it t li ne by (auto simp: uq_link_last_def h'_def fun_eq_iff nxt_def prv_def chn_def uq_val_def)
  from uq_link_last_rep[OF rep v l(1) this, of ?i] run show ?thesis by simp
qed

lemma enqueue_alloc:
  assumes "uq_rep impl qs [] ns"
    and "uQueueImpl_allocChunk mem impl (mChunkSize impl) = Some (st, impl')" "uq_rep impl' qs fs ns'"
  shows "uQueue_enqueue mem impl cb data closure isMsg =
     (if fs = [] then Some (WOMBAT_QUEUE_FULL, impl')
      else uQueue_enqueue mem impl' cb data closure isMsg)"
proof -
  obtain f where f: "mHeap impl QFree = Some f" using uq_rep_alloc[OF assms(1), of QFree] by auto
  have nf: "mNext f = None" using assms(1) f by (simp add: uq_rep_def nxt_def)
  obtain f' where f': "mHeap impl' QFree = Some f'" using uq_rep_alloc[OF assms(3), of QFree] by auto
  have nf': "mNext f' = (case fs of [] \<Rightarrow> None | p # _ \<Rightarrow> Some p)"
    using assms(3) f' by (cases fs) (simp_all add: uq_rep_def nxt_def)
  show ?thesis
    using f nf f' nf' assms(2) by (cases fs) (simp_all add: uQueue_enqueue_def)
qed

lemma uq_invI: "uq_rep impl qs fs ns \<Longrightarrow> mSem impl + k = length qs \<Longrightarrow> uq_inv k impl"
  unfolding uq_inv_def by blast

lemma uq_rep_dummies:
  assumes "uq_rep impl qs fs ns"
  shows "QHead \<notin> set qs" "QTail \<notin> set qs" "QFree \<notin> set qs"
    "QHead \<notin> set fs" "QTail \<notin> set fs" "QFree \<notin> set fs"
  using uq_rep_dummy[OF assms] by blast+

text \<open>Enqueueing appends the event, or refuses it and leaves the queue as it was.\<close>

lemma enqueue_rep:
  assumes rep: "uq_rep impl qs fs ns" and v: "val_ok (cb, data, isMsg, closure)"
  shows "\<exists>st impl' qs' fs' ns'.
     uQueue_enqueue mem impl cb data closure isMsg = Some (st, impl') \<and> uq_rep impl' qs' fs' ns' \<and>
     (st = WOMBAT_QUEUE_OK \<and> uq_elems impl' = uq_elems impl @ [(cb, data, isMsg, closure)] \<and>
        mSem impl' = Suc (mSem impl) \<or>
      st = WOMBAT_QUEUE_FULL \<and> uq_elems impl' = uq_elems impl \<and> mSem impl' = mSem impl) \<and>
     (st = WOMBAT_QUEUE_OK \<longleftrightarrow>
        fs \<noteq> [] \<or> mem \<and> word_of_nat (mSem impl) + mChunkSize impl \<le> mMaxSize impl) \<and>
     ns' = (if fs = [] \<and> st = WOMBAT_QUEUE_OK then ns @ [unat (mChunkSize impl)] else ns)"
proof (cases fs)
  case (Cons item fs')
  from enqueue_free[OF rep[unfolded Cons] v, of mem] Cons show ?thesis by auto
next
  case Nil
  have "mChunkSize impl \<noteq> 0" using rep by (simp add: uq_rep_def)
  from allocChunk_cases[OF rep[unfolded Nil] this, of mem] obtain st impl1 fs1 ns1 where
    al: "uQueueImpl_allocChunk mem impl (mChunkSize impl) = Some (st, impl1)"
      "uq_rep impl1 qs fs1 ns1" "mSem impl1 = mSem impl" "uq_elems impl1 = uq_elems impl"
      "st = WOMBAT_QUEUE_OK \<longleftrightarrow> fs1 \<noteq> []"
      "ns1 = (if st = WOMBAT_QUEUE_OK then ns @ [unat (mChunkSize impl)] else ns)"
      "st = WOMBAT_QUEUE_OK \<longleftrightarrow> mem \<and> word_of_nat (mSem impl) + mChunkSize impl \<le> mMaxSize impl" by blast
  note run = enqueue_alloc[OF rep[unfolded Nil] al(1,2)]
  show ?thesis
  proof (cases fs1)
    case Nil1: Nil
    then have "uQueue_enqueue mem impl cb data closure isMsg = Some (WOMBAT_QUEUE_FULL, impl1)"
      using run by simp
    with al Nil Nil1 show ?thesis by auto
  next
    case (Cons item fs')
    from enqueue_free[OF al(2)[unfolded Cons] v, of mem] obtain impl' where
      "uQueue_enqueue mem impl1 cb data closure isMsg = Some (WOMBAT_QUEUE_OK, impl')"
      "uq_rep impl' (qs @ [item]) fs' ns1" "mSem impl' = Suc (mSem impl1)"
      "uq_elems impl' = uq_elems impl1 @ [(cb, data, isMsg, closure)]" by blast
    with run al Cons Nil show ?thesis by auto
  qed
qed

lemma enqueue_spec:
  assumes inv: "uq_inv k impl" and v: "val_ok (cb, data, isMsg, closure)"
  shows "\<exists>st impl'. uQueue_enqueue mem impl cb data closure isMsg = Some (st, impl') \<and> uq_inv k impl' \<and>
     (st = WOMBAT_QUEUE_OK \<and> uq_elems impl' = uq_elems impl @ [(cb, data, isMsg, closure)] \<or>
      st = WOMBAT_QUEUE_FULL \<and> uq_elems impl' = uq_elems impl) \<and>
     (st = WOMBAT_QUEUE_OK \<longleftrightarrow> nxt (mHeap impl) QFree \<noteq> None \<or>
        mem \<and> word_of_nat (mSem impl) + mChunkSize impl \<le> mMaxSize impl)"
proof -
  from inv obtain qs fs ns where rep: "uq_rep impl qs fs ns" and sem: "mSem impl + k = length qs"
    by (auto simp: uq_inv_def)
  from enqueue_rep[OF rep v, of mem] obtain st impl' qs' fs' ns' where
    e: "uQueue_enqueue mem impl cb data closure isMsg = Some (st, impl')" "uq_rep impl' qs' fs' ns'"
      "st = WOMBAT_QUEUE_OK \<and> uq_elems impl' = uq_elems impl @ [(cb, data, isMsg, closure)] \<and>
        mSem impl' = Suc (mSem impl) \<or>
       st = WOMBAT_QUEUE_FULL \<and> uq_elems impl' = uq_elems impl \<and> mSem impl' = mSem impl"
      "st = WOMBAT_QUEUE_OK \<longleftrightarrow>
        fs \<noteq> [] \<or> mem \<and> word_of_nat (mSem impl) + mChunkSize impl \<le> mMaxSize impl" by blast
  have "fs \<noteq> [] \<longleftrightarrow> nxt (mHeap impl) QFree \<noteq> None"
    using rep by (cases fs) (auto simp: uq_rep_def)
  moreover have "mSem impl' + k = length qs'"
    using e(3) sem uq_rep_length[OF rep] uq_rep_length[OF e(2)] by auto
  ultimately show ?thesis using e by (blast intro: uq_invI)
qed

subsection \<open>Dispatch\<close>

text \<open>The callback invocation that an event leads to.\<close>

definition uq_call_of :: "('b, 'm) uq_val \<Rightarrow> ('b, 'm) uq_call option" where
  "uq_call_of v = (case v of (cb, data, m, u) \<Rightarrow>
     map_option (\<lambda>cb. (cb, data, if m \<noteq> 0 \<and> m \<noteq> 1 then Closure None else u)) cb)"

definition uq_unlink_first ::
  "('b, 'm) uq_heap \<Rightarrow> uq_addr \<Rightarrow> uq_addr \<Rightarrow> ('b, 'm) uq_heap \<Rightarrow> bool" where
  "uq_unlink_first h p n h' \<longleftrightarrow>
     dom h' = dom h \<and>
     nxt h' = (nxt h)(QHead := Some n, p := nxt h QFree, QFree := Some p) \<and>
     prv h' = (prv h)(n := Some QHead) \<and>
     chn h' = chn h \<and>
     (\<lambda>a. uq_val (the (h' a))) = (\<lambda>a. uq_val (the (h a)))"

lemma uq_unlink_first_rep:
  assumes rep: "uq_rep impl (p # qs) fs ns"
    and h': "uq_unlink_first (mHeap impl) p (hd (qs @ [QTail])) h'"
    and impl': "mHeap impl' = h'" "mCurrSize impl' = mCurrSize impl - 1"
      "mChunks impl' = mChunks impl" "mFresh impl' = mFresh impl" "mChunkSize impl' = mChunkSize impl"
  shows "uq_rep impl' qs (p # fs) ns"
    and "uq_elems impl = uq_val (the (mHeap impl p)) # uq_elems impl'"
proof -
  let ?h = "mHeap impl"
  define n rest where nr: "n = hd (qs @ [QTail])" "rest = tl (qs @ [QTail])"
  then have nrest: "qs @ [QTail] = n # rest" by (cases qs) auto
  have d: "distinct (n # rest)" "p \<notin> set (n # rest)" "QHead \<notin> set (n # rest)" "QFree \<notin> set (n # rest)"
    "QFree \<notin> set fs" "QHead \<notin> set fs" "p \<notin> set fs" "p \<noteq> QHead" "p \<noteq> QFree" "p \<noteq> QTail" "p \<notin> set qs"
    using rep uq_rep_dummies[OF rep] unfolding nrest[symmetric] by (auto simp: uq_rep_def)
  have c: "chain ?h (n # rest)"
    using rep nrest by (simp add: uq_rep_def)
  have N: "nxt h' = (nxt ?h)(QHead := Some n, p := nxt ?h QFree, QFree := Some p)"
    and P: "prv h' = (prv ?h)(n := Some QHead)" and C: "chn h' = chn ?h"
    and V: "\<And>a. uq_val (the (h' a)) = uq_val (the (?h a))" and D: "dom h' = dom ?h"
    using h' nr by (auto simp: uq_unlink_first_def fun_eq_iff)
  have "chain h' (n # rest)"
  proof (rule chain_cong[OF c])
    show "\<forall>q \<in> set (butlast (n # rest)). nxt h' q = nxt ?h q"
      using d by (auto simp: N dest!: in_set_butlastD split: if_splits)
    show "\<forall>q \<in> set (tl (n # rest)). prv h' q = prv ?h q"
      using d by (auto simp: P)
  qed
  then have chain': "chain h' (QHead # qs @ [QTail])"
    unfolding nrest using d by (simp add: N P)
  have "free_chain ?h QFree fs" using rep by (simp add: uq_rep_def)
  then have free': "free_chain h' QFree (p # fs)"
    using d by (cases fs) (auto simp: N intro!: free_chain_cong[of ?h])
  have chunks': "chunk_list h' (mChunks impl) (length ns)"
    using rep by (simp add: uq_rep_def chunk_list_def C)
  show rep': "uq_rep impl' qs (p # fs) ns"
    unfolding uq_rep_def using rep chain' free' chunks' impl' d by (auto simp: uq_rep_def V D)
  show "uq_elems impl = uq_val (the (?h p)) # uq_elems impl'"
    using uq_rep_elems[OF rep] uq_rep_elems[OF rep'] impl' by (simp add: V)
qed

lemma UQ_REMOVE_first:
  assumes rep: "uq_rep impl (p # qs) fs ns"
  shows "\<exists>impl' it. UQ_REMOVE impl p = Some impl' \<and> uq_rep impl' qs (p # fs) ns \<and>
     mSem impl' = mSem impl \<and> uq_elems impl = uq_val it # uq_elems impl' \<and>
     mHeap impl' p = Some it"
proof -
  let ?h = "mHeap impl" and ?n = "hd (qs @ [QTail])"
  have nin: "?n \<in> set qs \<or> ?n = QTail" by (cases qs) auto
  obtain it where it: "?h p = Some it" using uq_rep_alloc[OF rep, of p] by auto
  obtain hd0 where hd0: "?h QHead = Some hd0" using uq_rep_alloc[OF rep, of QHead] by auto
  obtain f where f: "?h QFree = Some f" using uq_rep_alloc[OF rep, of QFree] by auto
  obtain ni where ni: "?h ?n = Some ni" using uq_rep_alloc[OF rep, of ?n] nin by auto
  have links: "mNext it = Some ?n" "mPrev it = Some QHead"
    using rep it by (cases qs; auto simp: uq_rep_def nxt_def prv_def)+
  have ne: "p \<noteq> QHead" "p \<noteq> QFree" "p \<noteq> ?n" "?n \<noteq> QHead" "?n \<noteq> QFree"
    using nin rep uq_rep_dummies[OF rep] by (auto simp: uq_rep_def)
  define h' where "h' = ?h(QHead \<mapsto> hd0\<lparr>mNext := Some ?n\<rparr>, ?n \<mapsto> ni\<lparr>mPrev := Some QHead\<rparr>,
     p \<mapsto> it\<lparr>mNext := mNext f\<rparr>, QFree \<mapsto> f\<lparr>mNext := Some p\<rparr>)"
  let ?i = "impl\<lparr>mHeap := h', mCurrSize := mCurrSize impl - 1\<rparr>"
  have run: "UQ_REMOVE impl p = Some ?i"
    using it hd0 f ni links ne by (simp add: UQ_REMOVE_def uq_store_def h'_def fun_upd_twist)
  have "uq_unlink_first ?h p ?n h'"
    using it hd0 f ni ne
    by (auto simp: uq_unlink_first_def h'_def fun_eq_iff nxt_def prv_def chn_def uq_val_def)
  from uq_unlink_first_rep[OF rep this, of ?i] it
  have "uq_rep ?i qs (p # fs) ns" "uq_elems impl = uq_val it # uq_elems ?i" by auto
  moreover have "mHeap ?i p = Some (it\<lparr>mNext := mNext f\<rparr>)" using ne by (simp add: h'_def)
  moreover have "uq_val (it\<lparr>mNext := mNext f\<rparr>) = uq_val it" by (simp add: uq_val_def)
  ultimately show ?thesis using run by (intro exI[of _ ?i] exI[of _ "it\<lparr>mNext := mNext f\<rparr>"]) simp
qed

lemma take_nonempty:
  assumes rep: "uq_rep impl (p # qs) fs ns"
  shows "\<exists>impl' v. uq_take impl = Some (WOMBAT_QUEUE_OK, impl', uq_call_of v) \<and>
     uq_rep impl' qs (p # fs) ns \<and> mSem impl' = mSem impl \<and> uq_elems impl = v # uq_elems impl'"
proof -
  from UQ_REMOVE_first[OF rep] obtain impl' it where
    rm: "UQ_REMOVE impl p = Some impl'" "uq_rep impl' qs (p # fs) ns" "mSem impl' = mSem impl"
      "uq_elems impl = uq_val it # uq_elems impl'" "mHeap impl' p = Some it" by blast
  have "val_ok (uq_val it)"
  proof -
    have "uq_val it = uq_val (the (mHeap impl p))" using rm(4) uq_rep_elems[OF rep] by simp
    then show ?thesis using rep by (simp add: uq_rep_def)
  qed
  moreover obtain hd0 where "mHeap impl QHead = Some hd0" using uq_rep_alloc[OF rep, of QHead] by auto
  moreover from this have "mNext hd0 = Some p" using rep by (simp add: uq_rep_def nxt_def)
  moreover have "p \<noteq> QTail" using uq_rep_dummies[OF rep] by auto
  ultimately have "uq_take impl = Some (WOMBAT_QUEUE_OK, impl', uq_call_of (uq_val it))"
    using rm(1,5)
    by (auto simp: uq_take_def uq_call_of_def uq_val_def val_ok_def split: uq_union.splits)
  with rm show ?thesis by blast
qed

lemma take_empty:
  assumes rep: "uq_rep impl [] fs ns"
  shows "uq_take impl = Some (WOMBAT_QUEUE_OK, impl, None)"
proof -
  obtain hd0 where "mHeap impl QHead = Some hd0" using uq_rep_alloc[OF rep, of QHead] by auto
  moreover from this have "mNext hd0 = Some QTail" using rep by (simp add: uq_rep_def nxt_def)
  ultimately show ?thesis by (simp add: uq_take_def)
qed

text \<open>A dispatcher that holds a semaphore unit removes the oldest event.\<close>

lemma take_spec:
  assumes "uq_inv (Suc k) impl"
  shows "\<exists>impl' v. uq_take impl = Some (WOMBAT_QUEUE_OK, impl', uq_call_of v) \<and> uq_inv k impl' \<and>
     mSem impl' = mSem impl \<and> uq_elems impl = v # uq_elems impl'"
proof -
  from assms obtain qs fs ns where rep: "uq_rep impl qs fs ns" and sem: "mSem impl + Suc k = length qs"
    by (auto simp: uq_inv_def)
  then obtain p qs' where qs: "qs = p # qs'" by (cases qs) auto
  from take_nonempty[OF rep[unfolded qs]] obtain impl' v where
    t: "uq_take impl = Some (WOMBAT_QUEUE_OK, impl', uq_call_of v)"
      "uq_rep impl' qs' (p # fs) ns" "mSem impl' = mSem impl" "uq_elems impl = v # uq_elems impl'" by blast
  have "uq_inv k impl'" using t(2,3) sem qs by (auto intro: uq_invI)
  with t show ?thesis by blast
qed

lemma sem_take_spec:
  assumes "uq_inv k impl" "uq_sem_take impl = Some impl'"
  shows "uq_inv (Suc k) impl' \<and> uq_elems impl' = uq_elems impl"
proof -
  from assms(1) obtain qs fs ns where "uq_rep impl qs fs ns" "mSem impl + k = length qs"
    by (auto simp: uq_inv_def)
  moreover from assms(2) have i: "impl' = impl\<lparr>mSem := mSem impl - 1\<rparr>" "mSem impl \<noteq> 0"
    by (auto simp: uq_sem_take_def split: if_splits)
  ultimately have "uq_rep impl' qs fs ns" "mSem impl' + Suc k = length qs"
    by (simp_all add: uq_rep_def)
  then show ?thesis using i by (auto intro: uq_invI simp: uq_elems_def)
qed

subsection \<open>Creation\<close>

lemma allocate_rep:
  assumes "uQueue_allocate mem maxd chunkd = (WOMBAT_QUEUE_OK, Some impl)" "chunkd \<noteq> 0"
  shows "uq_rep impl [] [] [] \<and> mSem impl = 0 \<and> mChunkSize impl = chunkd \<and> mMaxSize impl = maxd"
proof -
  have "impl = \<lparr>mSem = 0, mMaxSize = maxd, mChunkSize = chunkd, mCurrSize = 0,
         mHeap = [QHead \<mapsto> zero_item\<lparr>mNext := Some QTail, mPrev := Some QHead\<rparr>,
                  QTail \<mapsto> zero_item\<lparr>mPrev := Some QHead, mNext := Some QTail\<rparr>,
                  QFree \<mapsto> zero_item],
         mChunks = None, mFresh = 0\<rparr>"
    using assms(1) by (auto simp: uQueue_allocate_def split: if_splits)
  with assms(2) show ?thesis
    by (auto simp: uq_rep_def uq_nodes_def nxt_def prv_def chunk_list_def zero_item_def)
qed

lemma uq_rep_params:
  assumes "uq_rep impl qs fs ns" "c \<noteq> 0"
  shows "uq_rep (impl\<lparr>mSem := s, mMaxSize := m, mChunkSize := c\<rparr>) qs fs ns"
  using assms by (simp add: uq_rep_def)

lemma uq_rep_empty_size: "uq_rep impl [] fs ns \<Longrightarrow> mCurrSize impl = 0"
  by (simp add: uq_rep_def)

lemma create_rep:
  assumes alloc: "uQueue_allocate True maxd chunkd = (WOMBAT_QUEUE_OK, Some impl0)" and chunkd: "chunkd \<noteq> 0"
    and mx_def: "mx = (if maxSize \<noteq> 0 then maxSize else maxd)"
    and ch_def: "ch = (if growBySize \<noteq> 0 then growBySize else chunkd)"
    and ini_def: "ini = (if initialSize = 0 then chunkd else initialSize)"
  shows "\<exists>st impl fs ns. uQueue_create mem 0 chunkd impl0 maxSize initialSize growBySize = Some (st, impl) \<and>
     uq_rep impl [] fs ns \<and> mSem impl = 0 \<and> mMaxSize impl = mx \<and> mChunkSize impl = ch \<and>
     (st = WOMBAT_QUEUE_OK \<longleftrightarrow> mem \<and> ini \<le> mx) \<and>
     ns = (if st = WOMBAT_QUEUE_OK then [unat ini] else [])"
proof -
  note rep0 = allocate_rep[OF alloc chunkd]
  define i1 where "i1 = impl0\<lparr>mSem := 0, mMaxSize := mx, mChunkSize := ch\<rparr>"
  have ini: "ini \<noteq> 0" and ch: "ch \<noteq> 0" using chunkd by (auto simp: ini_def ch_def)
  have i1: "uq_rep i1 [] [] []" "mSem i1 = 0" "mMaxSize i1 = mx" "mChunkSize i1 = ch"
    using rep0 uq_rep_params[OF _ ch] by (auto simp: i1_def)
  have i1': "i1 = (let impl = (if maxSize \<noteq> 0 then impl0\<lparr>mMaxSize := maxSize\<rparr> else impl0);
      impl = (if growBySize \<noteq> 0 then impl\<lparr>mChunkSize := growBySize\<rparr> else impl) in impl\<lparr>mSem := 0\<rparr>)"
    using rep0 by (auto simp: i1_def mx_def ch_def)
  have w0: "word_of_nat 0 + ini = ini" by simp
  from allocChunk_cases[OF i1(1) ini, of mem] obtain st impl fs ns where
    al: "uQueueImpl_allocChunk mem i1 ini = Some (st, impl)" "uq_rep impl [] fs ns" "mSem impl = 0"
      "st = WOMBAT_QUEUE_OK \<longleftrightarrow> fs \<noteq> []" "ns = (if st = WOMBAT_QUEUE_OK then [unat ini] else [])"
      "st = WOMBAT_QUEUE_OK \<longleftrightarrow> mem \<and> ini \<le> mx"
    unfolding i1(2,3) append_Nil w0 by blast
  obtain f where f: "mHeap impl QFree = Some f" using uq_rep_alloc[OF al(2), of QFree] by auto
  have nf: "mNext f = None \<longleftrightarrow> st \<noteq> WOMBAT_QUEUE_OK"
    using al(2,4) f by (cases fs) (auto simp: uq_rep_def nxt_def)
  have par: "mMaxSize impl = mx" "mChunkSize impl = ch"
    using al(1) i1 by (auto simp: uQueueImpl_allocChunk_def Let_def bind_Some_conv split: if_splits)
  have "uQueue_create mem 0 chunkd impl0 maxSize initialSize growBySize =
      Some (if st = WOMBAT_QUEUE_OK then (WOMBAT_QUEUE_OK, impl\<lparr>mCurrSize := 0\<rparr>) else (WOMBAT_QUEUE_NOMEM, impl))"
    using al(1) f nf unfolding i1' ini_def by (simp add: uQueue_create_def Let_def)
  moreover have "impl\<lparr>mCurrSize := 0\<rparr> = impl"
    using uq_rep_empty_size[OF al(2)] by simp
  ultimately show ?thesis
    using al par by (cases "st = WOMBAT_QUEUE_OK") auto
qed

subsection \<open>Destruction\<close>

lemma uq_free_chunks_all:
  assumes "chunk_list h p n" "\<forall>c < n. h (QItem c 0) \<noteq> None"
  shows "\<exists>h'. uq_free_chunks n h p = Some h' \<and> dom h' = dom h - {QItem c i | c i. c < n}"
  using assms
proof (induction n arbitrary: h p)
  case 0
  then show ?case by (auto simp: chunk_list_def)
next
  case (Suc n)
  obtain it where it: "h (QItem n 0) = Some it" using Suc.prems(2) by auto
  define g where "g = (\<lambda>b. case b of QItem c' i \<Rightarrow> if c' = n then None else h b | _ \<Rightarrow> h b)"
  have g: "g (QItem c i) = (if c = n then None else h (QItem c i))" for c i by (simp add: g_def)
  have fc: "uq_free_chunk h (QItem n 0) = Some g" using it by (simp add: uq_free_chunk_def g_def)
  have "chunk_list g (mChunkNext it) n"
    using Suc.prems(1) it by (auto simp: chunk_list_def chn_def g)
  moreover have "\<forall>c < n. g (QItem c 0) \<noteq> None" using Suc.prems(2) by (auto simp: g)
  ultimately obtain h' where h': "uq_free_chunks n g (mChunkNext it) = Some h'"
    "dom h' = dom g - {QItem c i | c i. c < n}" using Suc.IH by blast
  have "dom g = dom h - {QItem c i | c i. c = n}"
    by (auto simp: g_def split: uq_addr.splits if_splits)
  then have "dom h' = dom h - {QItem c i | c i. c < Suc n}" using h'(2) by (auto simp: less_Suc_eq)
  moreover have "p = Some (QItem n 0)" using Suc.prems(1) by (simp add: chunk_list_def)
  ultimately show ?case using it fc h'(1) by simp
qed

lemma destroy_frees:
  assumes "uq_inv k impl"
  shows "\<exists>h'. uq_free_chunks (mFresh impl) (mHeap impl) (mChunks impl) = Some h' \<and>
     dom h' = {QHead, QTail, QFree}"
proof -
  from assms obtain qs fs ns where rep: "uq_rep impl qs fs ns" by (auto simp: uq_inv_def)
  then have f: "mFresh impl = length ns" and cl: "chunk_list (mHeap impl) (mChunks impl) (length ns)"
    and d: "dom (mHeap impl) = {QHead, QTail, QFree} \<union> uq_nodes ns" and pos: "\<forall>n \<in> set ns. 0 < n"
    by (auto simp: uq_rep_def)
  have "\<forall>c < length ns. QItem c 0 \<in> dom (mHeap impl)" using pos unfolding d by (auto simp: uq_nodes_def)
  with uq_free_chunks_all[OF cl] obtain h' where
    "uq_free_chunks (length ns) (mHeap impl) (mChunks impl) = Some h'"
    "dom h' = dom (mHeap impl) - {QItem c i | c i. c < length ns}" by blast
  with d f show ?thesis by (auto simp: uq_nodes_def)
qed

subsection \<open>Capacity\<close>

lemma finite_uq_nodes: "finite (uq_nodes ns) \<and> card (uq_nodes ns) = sum_list ns"
proof (induction ns rule: rev_induct)
  case Nil
  then show ?case by (simp add: uq_nodes_def)
next
  case (snoc n ns)
  have "uq_nodes ns \<inter> QItem (length ns) ` {0..<n} = {}" by (auto simp: uq_nodes_def)
  moreover have "card (QItem (length ns) ` {0..<n}) = n" by (simp add: card_image inj_on_def)
  ultimately show ?case using snoc by (simp add: uq_nodes_snoc card_Un_disjoint)
qed

lemma uq_rep_card:
  assumes "uq_rep impl qs fs ns"
  shows "card (dom (mHeap impl)) = sum_list ns + 3" and "length qs + length fs = sum_list ns"
proof -
  have "dom (mHeap impl) = {QHead, QTail, QFree} \<union> uq_nodes ns" "distinct (qs @ fs)" "set (qs @ fs) = uq_nodes ns"
    using assms by (auto simp: uq_rep_def)
  moreover have "card ({QHead, QTail, QFree} \<union> uq_nodes ns) = sum_list ns + 3"
    using finite_uq_nodes[of ns] by (subst card_Un_disjoint) auto
  moreover have "length (qs @ fs) = card (set (qs @ fs))" using calculation(2) by (metis distinct_card)
  ultimately show "card (dom (mHeap impl)) = sum_list ns + 3" "length qs + length fs = sum_list ns"
    using finite_uq_nodes[of ns] by auto
qed

lemma no_wrap_add:
  fixes c m :: "32 word"
  assumes "word_of_nat s + c \<le> m" "s + unat c < 2 ^ 32"
  shows "s + unat c \<le> unat m"
proof -
  have s: "unat (word_of_nat s :: 32 word) = s" using assms(2) by (simp add: unat_of_nat take_bit_eq_mod)
  have "unat (word_of_nat s + c) = s + unat c"
    using assms(2) s by (subst unat_plus_if') simp
  with assms(1) show ?thesis by (simp add: word_le_nat_alt)
qed

text \<open>
  \<open>uq_cap K\<close>: the nodes that exist, with \<open>K\<close> the number of dispatchers that may hold a
  semaphore unit at the same time.
\<close>

definition uq_cap :: "nat \<Rightarrow> ('b, 'm) uQueueImpl \<Rightarrow> bool" where
  "uq_cap K impl \<longleftrightarrow> card (dom (mHeap impl)) \<le> unat (mMaxSize impl) + K + 3"

lemma uq_inv_length:
  assumes "uq_inv k impl"
  shows "length (uq_elems impl) + 3 \<le> card (dom (mHeap impl))" "mSem impl + k = length (uq_elems impl)"
proof -
  from assms obtain qs fs ns where rep: "uq_rep impl qs fs ns" "mSem impl + k = length qs" by (auto simp: uq_inv_def)
  show "length (uq_elems impl) + 3 \<le> card (dom (mHeap impl))" "mSem impl + k = length (uq_elems impl)"
    using uq_rep_card[OF rep(1)] uq_rep_length[OF rep(1)] rep(2) by auto
qed

lemma enqueue_params [oz_frame]:
  "uQueue_enqueue mem impl cb data closure isMsg = Some (st, impl') \<Longrightarrow>
     mMaxSize impl' = mMaxSize impl \<and> mChunkSize impl' = mChunkSize impl"
  by (auto simp: uQueue_enqueue_def uQueueImpl_allocChunk_def Let_def bind_Some_conv
      split: if_splits option.splits)

lemma take_params [oz_frame]:
  "uq_take impl = Some (st, impl', c) \<Longrightarrow>
     mMaxSize impl' = mMaxSize impl \<and> mChunkSize impl' = mChunkSize impl"
  by (auto simp: uq_take_def UQ_REMOVE_def bind_Some_conv split: if_splits option.splits)

lemma enqueue_cap:
  assumes inv: "uq_inv k impl" and v: "val_ok (cb, data, isMsg, closure)" and cap: "uq_cap K impl" and k: "k \<le> K"
    and nowrap: "unat (mMaxSize impl) + K + unat (mChunkSize impl) < 2 ^ 32"
    and run: "uQueue_enqueue mem impl cb data closure isMsg = Some (st, impl')"
  shows "uq_cap K impl'"
proof -
  from inv obtain qs fs ns where rep: "uq_rep impl qs fs ns" and sem: "mSem impl + k = length qs"
    by (auto simp: uq_inv_def)
  from enqueue_rep[OF rep v, of mem] run obtain qs' fs' ns' where
    e: "uq_rep impl' qs' fs' ns'"
      "st = WOMBAT_QUEUE_OK \<longleftrightarrow> fs \<noteq> [] \<or> mem \<and> word_of_nat (mSem impl) + mChunkSize impl \<le> mMaxSize impl"
      "ns' = (if fs = [] \<and> st = WOMBAT_QUEUE_OK then ns @ [unat (mChunkSize impl)] else ns)"
    by (metis option.inject prod.inject)
  have par: "mMaxSize impl' = mMaxSize impl" using enqueue_params[OF run] by simp
  have old: "sum_list ns \<le> unat (mMaxSize impl) + K" using cap uq_rep_card(1)[OF rep] by (simp add: uq_cap_def)
  have "sum_list ns' \<le> unat (mMaxSize impl) + K"
  proof (cases "fs = [] \<and> st = WOMBAT_QUEUE_OK")
    case True
    then have "mSem impl + unat (mChunkSize impl) \<le> unat (mMaxSize impl)"
      using e(2) old sem uq_rep_card(2)[OF rep] nowrap by (intro no_wrap_add) auto
    with True e(3) sem k uq_rep_card(2)[OF rep] show ?thesis by simp
  qed (use e(3) old in auto)
  with uq_rep_card(1)[OF e(1)] par show ?thesis by (simp add: uq_cap_def)
qed

subsection \<open>The queue as an event queue\<close>

definition uq_enq :: "bool \<Rightarrow> ('b, 'm) uq_val \<Rightarrow> ('b, 'm) uQueueImpl \<Rightarrow> (bool \<times> ('b, 'm) uQueueImpl) option" where
  "uq_enq mem v impl = (case v of (cb, data, isMsg, closure) \<Rightarrow>
     map_option (\<lambda>(st, impl'). (st = WOMBAT_QUEUE_OK, impl')) (uQueue_enqueue mem impl cb data closure isMsg))"

definition uq_rmv :: "('b, 'm) uQueueImpl \<Rightarrow> (('b, 'm) uQueueImpl \<times> ('b, 'm) uq_call option) option" where
  "uq_rmv impl = map_option snd (uq_take impl)"

lemma uq_enq_law:
  assumes "uq_inv k impl" "val_ok v"
  shows "\<exists>b impl'. uq_enq mem v impl = Some (b, impl') \<and> uq_inv k impl' \<and>
     uq_elems impl' = (if b then uq_elems impl @ [v] else uq_elems impl)"
proof -
  obtain cb data m u where v: "v = (cb, data, m, u)" by (cases v) auto
  from enqueue_spec[OF assms(1) assms(2)[unfolded v], of mem] show ?thesis by (auto simp: v uq_enq_def)
qed

lemma uq_rmv_law:
  assumes "uq_inv (Suc k) impl"
  shows "\<exists>impl' v. uq_rmv impl = Some (impl', uq_call_of v) \<and> uq_inv k impl' \<and> uq_elems impl = v # uq_elems impl'"
  using take_spec[OF assms] by (force simp: uq_rmv_def)

lemma uq_held_law: "uq_inv k impl \<Longrightarrow> k \<le> length (uq_elems impl)"
  using uq_inv_length(2)[of k impl] by simp

lemma uq_acq_ready: "uq_inv k impl \<Longrightarrow> k < length (uq_elems impl) \<Longrightarrow> uq_sem_take impl \<noteq> None"
  using uq_inv_length(2)[of k impl] by (simp add: uq_sem_take_def)

interpretation uq: event_queue uq_inv uq_elems uq_enq uq_sem_take uq_rmv val_ok uq_call_of
  by unfold_locales (rule uq_enq_law uq_held_law uq_acq_ready sem_take_spec uq_rmv_law; assumption)+

text \<open>A dispatch that acquires the semaphore is an acquisition followed by a removal.\<close>

lemma dispatchInt_acquired:
  "uQueue_dispatchInt (SemAcquired # rs) impl isTimed = do { impl' \<leftarrow> uq_sem_take impl; uq_take impl' }"
  by (simp add: uQueue_dispatchInt_def)

lemma dispatchInt_first:
  assumes "uq_inv 0 impl" "uq_elems impl = v # vs"
  shows "\<exists>impl'. uQueue_dispatchInt (SemAcquired # rs) impl isTimed = Some (WOMBAT_QUEUE_OK, impl', uq_call_of v) \<and>
     uq_inv 0 impl' \<and> uq_elems impl' = vs"
proof -
  obtain i1 where i1: "uq_sem_take impl = Some i1" using uq.acq_ready[of 0 impl] assms by auto
  from sem_take_spec[OF assms(1) i1] have "uq_inv (Suc 0) i1" "uq_elems i1 = v # vs" using assms(2) by auto
  with take_spec[OF this(1)] i1 show ?thesis by (auto simp: dispatchInt_acquired)
qed

lemma uq_wait_eintr:
  "uq_wait (replicate n SemEINTR @ rs) = uq_wait rs"
  by (induction n) auto

text \<open>The system of producers and dispatchers around one queue keeps the capacity bound.\<close>

definition uq_params :: "32 word \<Rightarrow> 32 word \<Rightarrow> ('b, 'm) uQueueImpl \<Rightarrow> bool" where
  "uq_params mx ch impl \<longleftrightarrow> mMaxSize impl = mx \<and> mChunkSize impl = ch"

lemma sem_take_frame [oz_frame]:
  "uq_sem_take impl = Some impl' \<Longrightarrow>
     mMaxSize impl' = mMaxSize impl \<and> mChunkSize impl' = mChunkSize impl \<and> mHeap impl' = mHeap impl"
  by (auto simp: uq_sem_take_def split: if_splits)

lemma uq_store_dom: "uq_store h p f = Some h' \<Longrightarrow> dom h' = dom h"
  by (auto simp: uq_store_def split: option.splits if_splits)

lemma UQ_REMOVE_dom: "UQ_REMOVE impl p = Some impl' \<Longrightarrow> dom (mHeap impl') = dom (mHeap impl)"
  unfolding UQ_REMOVE_def bind_Some_conv by (elim exE conjE) (drule uq_store_dom | simp | drule sym, simp)+

lemma take_dom [oz_frame]:
  "uq_take impl = Some (st, impl', c) \<Longrightarrow> dom (mHeap impl') = dom (mHeap impl)"
  unfolding uq_take_def
  by (simp add: bind_Some_conv split: if_split_asm) (metis UQ_REMOVE_dom)

type_synonym ('b, 'm) uq_system = "(('b, 'm) uQueueImpl, ('b, 'm) uq_val, ('b, 'm) uq_call option) q_system"

abbreviation uq_step :: "nat \<Rightarrow> ('b, 'm) uq_system \<Rightarrow> ('b, 'm) uq_system \<Rightarrow> bool" where
  "uq_step \<equiv> q_step uq_enq uq_sem_take uq_rmv val_ok"

lemma uq_acceptI:
  "val_ok v \<Longrightarrow> uq_enq e v q = Some (True, q') \<Longrightarrow> uq_step K (q, k, ins, outs) (q', k, ins @ [v], outs)"
  by (rule q_step.accept)

lemma uq_acquireI: "k < K \<Longrightarrow> uq_sem_take q = Some q' \<Longrightarrow> uq_step K (q, k, ins, outs) (q', Suc k, ins, outs)"
  by (rule q_step.acquire)

definition uq_good_cap :: "nat \<Rightarrow> 32 word \<Rightarrow> 32 word \<Rightarrow> ('b, 'm) uq_system \<Rightarrow> bool" where
  "uq_good_cap K mx ch s \<longleftrightarrow> uq.good K s \<and> uq_params mx ch (fst s) \<and> uq_cap K (fst s)"

lemma uq_good_cap_step:
  assumes good: "uq_good_cap K mx ch s" and nowrap: "unat mx + K + unat ch < 2 ^ 32"
    and step: "uq_step K s s'"
  shows "uq_good_cap K mx ch s'"
proof -
  have g: "uq.good K s" and g': "uq.good K s'"
    using good uq.good_step[OF _ step] by (auto simp: uq_good_cap_def)
  have enq: "uq_params mx ch q' \<and> uq_cap K q'"
    if "s = (q, k, ins, outs)" "val_ok v" "uq_enq mem v q = Some (b, q')" for q k ins outs v mem b q'
  proof -
    obtain cb data m u where v: "v = (cb, data, m, u)" by (cases v) auto
    from that(3) obtain st where run: "uQueue_enqueue mem q cb data u m = Some (st, q')"
      by (auto simp: v uq_enq_def)
    have k: "uq_inv k q" "k \<le> K" and p: "mMaxSize q = mx" "mChunkSize q = ch" "uq_cap K q"
      using good that(1) by (auto simp: uq_good_cap_def uq.good_def uq_params_def)
    have "uq_cap K q'"
      using enqueue_cap[OF k(1) that(2)[unfolded v] p(3) k(2) _ run] nowrap p by simp
    with enqueue_params[OF run] p show ?thesis by (simp add: uq_params_def)
  qed
  from step show ?thesis
  proof cases
    case (accept v e q q' k ins outs)
    with enq[of q k ins outs v e True q'] g' show ?thesis by (simp add: uq_good_cap_def)
  next
    case (refuse v e q q' k ins outs)
    with enq[of q k ins outs v e False q'] g' show ?thesis by (simp add: uq_good_cap_def)
  next
    case (acquire k q q' ins outs)
    with sem_take_frame[of q q'] good g' show ?thesis by (auto simp: uq_good_cap_def uq_params_def uq_cap_def)
  next
    case (remove q q' c k ins outs)
    then obtain st where t: "uq_take q = Some (st, q', c)" by (auto simp: uq_rmv_def)
    from take_params[OF t] take_dom[OF t] remove good g' show ?thesis
      by (auto simp: uq_good_cap_def uq_params_def uq_cap_def)
  qed
qed

lemma uq_good_cap_reachable:
  assumes "(uq_step K)\<^sup>*\<^sup>* s s'" "uq_good_cap K mx ch s" "unat mx + K + unat ch < 2 ^ 32"
  shows "uq_good_cap K mx ch s'"
  using assms by (induction rule: rtranclp_induct) (auto intro: uq_good_cap_step)

text \<open>A queue that \<open>uQueue_create\<close> reports as created starts a good system.\<close>

definition uq_new :: "32 word \<Rightarrow> 32 word \<Rightarrow> 32 word \<Rightarrow> 32 word \<Rightarrow> 32 word \<Rightarrow> ('b, 'm) uQueueImpl \<Rightarrow> bool" where
  "uq_new maxd chunkd maxSize initialSize growBySize impl \<longleftrightarrow>
     (\<exists>impl0 mem. uQueue_allocate True maxd chunkd = (WOMBAT_QUEUE_OK, Some impl0) \<and>
        uQueue_create mem 0 chunkd impl0 maxSize initialSize growBySize = Some (WOMBAT_QUEUE_OK, impl))"

lemma uq_new_start:
  assumes "uq_new maxd chunkd maxSize initialSize growBySize impl" "chunkd \<noteq> 0"
  shows "uq_inv 0 impl" "uq_elems impl = []"
    "uq_params (if maxSize \<noteq> 0 then maxSize else maxd) (if growBySize \<noteq> 0 then growBySize else chunkd) impl"
    "uq_cap 0 impl"
proof -
  from assms(1) obtain impl0 mem where
    a: "uQueue_allocate True maxd chunkd = (WOMBAT_QUEUE_OK, Some impl0)" and
    c: "uQueue_create mem 0 chunkd impl0 maxSize initialSize growBySize = Some (WOMBAT_QUEUE_OK, impl)"
    by (auto simp: uq_new_def)
  define ini where "ini = (if initialSize = 0 then chunkd else initialSize)"
  from create_rep[OF a assms(2) refl refl ini_def, of mem maxSize growBySize]
  obtain st impl' fs ns where r: "uQueue_create mem 0 chunkd impl0 maxSize initialSize growBySize = Some (st, impl')"
    "uq_rep impl' [] fs ns" "mSem impl' = 0" "mMaxSize impl' = (if maxSize \<noteq> 0 then maxSize else maxd)"
    "mChunkSize impl' = (if growBySize \<noteq> 0 then growBySize else chunkd)"
    "st = WOMBAT_QUEUE_OK \<longleftrightarrow> mem \<and> ini \<le> (if maxSize \<noteq> 0 then maxSize else maxd)"
    "ns = (if st = WOMBAT_QUEUE_OK then [unat ini] else [])" by blast
  from r(1) c have e: "impl' = impl" "st = WOMBAT_QUEUE_OK" by auto
  show "uq_inv 0 impl" using r(2,3) e by (auto intro: uq_invI)
  show "uq_elems impl = []" using uq_rep_elems[OF r(2)] e by simp
  show "uq_params (if maxSize \<noteq> 0 then maxSize else maxd) (if growBySize \<noteq> 0 then growBySize else chunkd) impl"
    using r(4,5) e by (simp add: uq_params_def)
  have "ini \<le> mMaxSize impl" using r(4,6) e by simp
  then show "uq_cap 0 impl" using uq_rep_card(1)[OF r(2)] r(7) e by (simp add: uq_cap_def word_le_nat_alt)
qed

lemma uq_new_good:
  assumes "uq_new maxd chunkd maxSize initialSize growBySize impl" "chunkd \<noteq> 0"
  shows "uq.good K (impl, 0, [], [])"
  using uq_new_start[OF assms] by (simp add: uq.good_def)

subsection \<open>A small queue\<close>

text \<open>A queue with a chunk of two nodes, and what one event leaves of it: the instances below use it.\<close>

definition uq_demo0 :: "(nat, nat) uQueueImpl" where
  "uq_demo0 = snd (the (uQueue_create True 0 2 (the (snd (uQueue_allocate True 10 2))) 0 0 0))"

definition uq_demo1 :: "(nat, nat) uQueueImpl" where
  "uq_demo1 = snd (the (uq_enq True (Some 7, None, 1, Msg 5) uq_demo0))"

definition uq_demo2 :: "(nat, nat) uQueueImpl" where
  "uq_demo2 = snd (the (uq_enq True (Some 8, Some 3, 0, Closure None) uq_demo1))"

definition uq_demo3 :: "(nat, nat) uQueueImpl" where
  "uq_demo3 = the (uq_sem_take uq_demo2)"

lemma uq_demo_new: "uq_new 10 2 0 0 0 uq_demo0"
proof -
  have "fst (the (uQueue_create True 0 2 (the (snd (uQueue_allocate True 10 2))) 0 0 0)) = WOMBAT_QUEUE_OK"
    by code_simp
  moreover have "uQueue_create True 0 2 (the (snd (uQueue_allocate True 10 2))) 0 0 0 \<noteq> (None :: (_ \<times> (nat, nat) uQueueImpl) option)"
    by code_simp
  moreover have "uQueue_allocate True 10 2 = (WOMBAT_QUEUE_OK, Some (the (snd (uQueue_allocate True 10 2))))"
    by (simp add: uQueue_allocate_def)
  ultimately show ?thesis
    unfolding uq_new_def uq_demo0_def by (metis option.collapse prod.collapse)
qed

lemma uq_demo_step1: "uq_step 1 (uq_demo0, 0, [], []) (uq_demo1, 0, [(Some 7, None, 1, Msg 5)], [])"
proof -
  have "map_option fst (uq_enq True (Some 7, None, 1, Msg 5) uq_demo0) = Some True"
    unfolding uq_demo0_def by code_simp
  then have "uq_enq True (Some 7, None, 1, Msg 5) uq_demo0 = Some (True, uq_demo1)"
    unfolding uq_demo1_def by auto
  from uq_acceptI[OF _ this, of 1 0 "[]" "[]"] show ?thesis by (simp add: val_ok_def)
qed

lemma uq_demo_step2:
  "uq_step 1 (uq_demo1, 0, ins, []) (uq_demo2, 0, ins @ [(Some 8, Some 3, 0, Closure None)], [])"
proof -
  have "map_option fst (uq_enq True (Some 8, Some 3, 0, Closure None) uq_demo1) = Some True"
    unfolding uq_demo1_def uq_demo0_def by code_simp
  then have "uq_enq True (Some 8, Some 3, 0, Closure None) uq_demo1 = Some (True, uq_demo2)"
    unfolding uq_demo2_def by auto
  from uq_acceptI[OF _ this, of 1 0 ins "[]"] show ?thesis by (simp add: val_ok_def)
qed

lemma uq_demo_step3: "uq_step 1 (uq_demo2, 0, ins, []) (uq_demo3, 1, ins, [])"
proof -
  have "map_option mSem (uq_sem_take uq_demo2) = Some 1"
    unfolding uq_demo2_def uq_demo1_def uq_demo0_def by code_simp
  then have "uq_sem_take uq_demo2 = Some uq_demo3" unfolding uq_demo3_def by auto
  from uq_acquireI[OF _ this, of 0 1 ins "[]"] show ?thesis by simp
qed

lemma uq_demo_run:
  "(uq_step 1)\<^sup>*\<^sup>* (uq_demo0, 0, [], [])
     (uq_demo3, 1, [(Some 7, None, 1, Msg 5), (Some 8, Some 3, 0, Closure None)], [])"
  using uq_demo_step1 uq_demo_step2[of "[(Some 7, None, 1, Msg 5)]"]
    uq_demo_step3[of "[(Some 7, None, 1, Msg 5), (Some 8, Some 3, 0, Closure None)]"]
  by (auto intro: converse_rtranclp_into_rtranclp)

subsection \<open>Properties\<close>



text \<open>
  C20. The queue never holds more nodes than its maximum size plus one per dispatcher thread
  (an event that a dispatcher has claimed no longer counts against the maximum), so neither
  the events nor the memory grow beyond that; the 32-bit size test does not wrap as long as
  the sum of the maximum, the chunk size and the dispatchers stays below \<open>2 ^ 32\<close>.
\<close>

theorem uQueue_capacity:
  assumes "uq_new maxd chunkd maxSize initialSize growBySize q0" "chunkd \<noteq> 0"
    and "unat (mMaxSize q0) + K + unat (mChunkSize q0) < 2 ^ 32"
    and "(uq_step K)\<^sup>*\<^sup>* (q0, 0, [], []) (q, k, ins, outs)"
  shows "card (dom (mHeap q)) \<le> unat (mMaxSize q0) + K + 3 \<and>
     length (uq_elems q) \<le> unat (mMaxSize q0) + K"
proof -
  note s = uq_new_start[OF assms(1,2)]
  have "uq_cap K q0" using s(4) by (simp add: uq_cap_def)
  then have "uq_good_cap K (mMaxSize q0) (mChunkSize q0) (q0, 0, [], [])"
    using uq_new_good[OF assms(1,2)] by (simp add: uq_good_cap_def uq_params_def)
  from uq_good_cap_reachable[OF assms(4) this assms(3)]
  have "uq_inv k q" "card (dom (mHeap q)) \<le> unat (mMaxSize q0) + K + 3"
    by (auto simp: uq_good_cap_def uq.good_def uq_params_def uq_cap_def)
  with uq_inv_length(1)[of k q] show ?thesis by linarith
qed

theorem uQueue_capacity_witness:
  "mMaxSize uq_demo0 = 10 \<and> mChunkSize uq_demo0 = 2 \<and> length (uq_elems uq_demo3) \<le> 11"
proof -
  have p: "mMaxSize uq_demo0 = 10" "mChunkSize uq_demo0 = 2"
    unfolding uq_demo0_def by code_simp+
  with uQueue_capacity[OF uq_demo_new _ _ uq_demo_run] show ?thesis by simp
qed

text \<open>
  C21. Whatever is queued, the dispatchers can drain the queue: from every reachable state a
  finite number of their own steps makes the callbacks of all accepted events and leaves the
  queue empty.
\<close>

theorem uQueue_can_drain:
  assumes "uq_new maxd chunkd maxSize initialSize growBySize q0" "chunkd \<noteq> 0" "0 < K"
    and "(uq_step K)\<^sup>*\<^sup>* (q0, 0, [], []) (q, k, ins, outs)"
  shows "\<exists>q'. (uq_step K)\<^sup>*\<^sup>* (q, k, ins, outs) (q', 0, ins, map uq_call_of ins) \<and> uq_elems q' = []"
  using uq.good_drain[OF uq.good_reachable[OF assms(4) uq_new_good[OF assms(1,2)]] assms(3)] .

theorem uQueue_can_drain_witness:
  "\<exists>q'. (uq_step 1)\<^sup>*\<^sup>* (uq_demo3, 1, [(Some 7, None, 1, Msg 5), (Some 8, Some 3, 0, Closure None)], [])
     (q', 0, [(Some 7, None, 1, Msg 5), (Some 8, Some 3, 0, Closure None)],
      [Some (7, None, Msg 5), Some (8, Some 3, Closure None)]) \<and> uq_elems q' = []"
  using uQueue_can_drain[OF uq_demo_new _ _ uq_demo_run] by (simp add: uq_call_of_def)

text \<open>
  C22. \<open>uQueue_destroy\<close> of a queue in any reachable state releases every chunk exactly once: the
  loop over \<open>mChunks\<close> ends within the number of chunks, touches no released node, and leaves
  only the three nodes inside the structure, which is released as well unless the semaphore
  could not be destroyed.
\<close>

theorem uQueue_destroy_frees:
  assumes "uq_new maxd chunkd maxSize initialSize growBySize q0" "chunkd \<noteq> 0"
    and "(uq_step K)\<^sup>*\<^sup>* (q0, 0, [], []) (q, k, ins, outs)"
  shows "\<exists>h. uq_free_chunks (mFresh q) (mHeap q) (mChunks q) = Some h \<and> dom h = {QHead, QTail, QFree} \<and>
     uQueue_destroy semrc q =
       Some (if semrc = 0 then (WOMBAT_QUEUE_OK, None) else (WOMBAT_QUEUE_SEM_ERR, Some (q\<lparr>mHeap := h\<rparr>)))"
proof -
  have "uq_inv k q"
    using uq.good_reachable[OF assms(3) uq_new_good[OF assms(1,2)]] by (simp add: uq.good_def)
  from destroy_frees[OF this] show ?thesis by (auto simp: uQueue_destroy_def uQueue_deallocate_def)
qed

theorem uQueue_destroy_frees_witness:
  "\<exists>h. uq_free_chunks (mFresh uq_demo3) (mHeap uq_demo3) (mChunks uq_demo3) = Some h \<and>
     dom h = {QHead, QTail, QFree} \<and> uQueue_destroy 0 uq_demo3 = Some (WOMBAT_QUEUE_OK, None)"
  using uQueue_destroy_frees[OF uq_demo_new _ uq_demo_run, of 0] by auto

text \<open>
  Enqueueing on a reachable queue has exactly two outcomes: the event is appended, when a
  free node exists or a chunk can be allocated within the maximum; or \<open>WOMBAT_QUEUE_FULL\<close> is
  returned and the queued events are unchanged. An interrupted wait is retried, and a dispatch that acquires
  the semaphore then removes the oldest event and hands its callback data to the caller.
\<close>

theorem uQueue_enqueue_dispatch:
  assumes "uq_inv 0 q" "val_ok (cb, data, isMsg, closure)"
  shows "\<exists>st q'. uQueue_enqueue mem q cb data closure isMsg = Some (st, q') \<and> uq_inv 0 q' \<and>
     (st = WOMBAT_QUEUE_OK \<longleftrightarrow> nxt (mHeap q) QFree \<noteq> None \<or>
        mem \<and> word_of_nat (mSem q) + mChunkSize q \<le> mMaxSize q) \<and>
     (if st = WOMBAT_QUEUE_OK
      then uq_elems q' = uq_elems q @ [(cb, data, isMsg, closure)] \<and>
        (\<exists>q''. uQueue_dispatch (replicate n SemEINTR @ [SemAcquired]) q' =
           Some (WOMBAT_QUEUE_OK, q'', uq_call_of (hd (uq_elems q'))) \<and>
           uq_inv 0 q'' \<and> uq_elems q'' = tl (uq_elems q'))
      else st = WOMBAT_QUEUE_FULL \<and> uq_elems q' = uq_elems q)"
proof -
  from enqueue_spec[OF assms, of mem] obtain st q' where
    e: "uQueue_enqueue mem q cb data closure isMsg = Some (st, q')" "uq_inv 0 q'"
      "st = WOMBAT_QUEUE_OK \<and> uq_elems q' = uq_elems q @ [(cb, data, isMsg, closure)] \<or>
       st = WOMBAT_QUEUE_FULL \<and> uq_elems q' = uq_elems q"
      "st = WOMBAT_QUEUE_OK \<longleftrightarrow> nxt (mHeap q) QFree \<noteq> None \<or>
        mem \<and> word_of_nat (mSem q) + mChunkSize q \<le> mMaxSize q" by blast
  have d: "uQueue_dispatch (replicate n SemEINTR @ [SemAcquired]) i = uQueue_dispatchInt [SemAcquired] i False" for i
    by (simp add: uQueue_dispatch_def uQueue_dispatchInt_def uq_wait_eintr)
  show ?thesis
  proof (cases "st = WOMBAT_QUEUE_OK")
    case True
    with e have el: "uq_elems q' = uq_elems q @ [(cb, data, isMsg, closure)]" by auto
    then obtain v vs where v: "uq_elems q' = v # vs" by (metis append_is_Nil_conv list.exhaust not_Cons_self2)
    from dispatchInt_first[OF e(2) v, of "[]" False] v
    have "\<exists>q''. uQueue_dispatch (replicate n SemEINTR @ [SemAcquired]) q' =
       Some (WOMBAT_QUEUE_OK, q'', uq_call_of (hd (uq_elems q'))) \<and> uq_inv 0 q'' \<and> uq_elems q'' = tl (uq_elems q')"
      by (simp add: d)
    with True e(1,2,4) el show ?thesis by (intro exI[of _ st] exI[of _ q']) presburger
  qed (use e in auto)
qed

theorem uQueue_enqueue_dispatch_witness:
  "\<exists>st q'. uQueue_enqueue True uq_demo0 (Some 7) None (Msg 5) 1 = Some (st, q') \<and> st = WOMBAT_QUEUE_OK \<and>
     (\<exists>q''. uQueue_dispatch [SemEINTR, SemAcquired] q' = Some (WOMBAT_QUEUE_OK, q'', Some (7, None, Msg 5)))"
proof -
  have i: "uq_inv 0 uq_demo0" "uq_elems uq_demo0 = []"
    using uq_new_start[OF uq_demo_new] by auto
  have "map_option fst (uQueue_enqueue True uq_demo0 (Some 7) None (Msg 5) 1) = Some WOMBAT_QUEUE_OK"
    unfolding uq_demo0_def by code_simp
  with uQueue_enqueue_dispatch[OF i(1), of "Some 7" None 1 "Msg 5" True 1] i(2) show ?thesis
    by (auto simp: val_ok_def uq_call_of_def)
qed

end
