(* ===== verification/MamaQueue.thy ===== *)
theory MamaQueue
  imports UQueue_Correct "HOL-Library.Sublist"
begin

text \<open>
  The queue bridge of \<open>src/src/queue.c\<close>: the MAMA queue operations on top of the event queue,
  with the active flag, the watermarks, the enqueue callback and the dispatch loop.

  Callbacks into the MAMA library and the application are reported in the order in which they
  are made, as a list of \<open>q_event\<close>s.
\<close>

subsection \<open>Data\<close>

record ('b, 'e, 'm) zmqQueueBridge =
  q_mParent :: voidp
  mQueue :: "('b, 'm) uQueueImpl option"
  mEnqueueClosure :: voidp
  mHighWaterFired :: "8 word"
  mHighWatermark :: "64 word"
  mLowWatermark :: "64 word"
  q_mIsDispatching :: "32 word"
  mIsActive :: "32 word"
  mEnqueueCallback :: "'e option"

datatype ('b, 'e, 'm) q_event =
    HighWatermark voidp "64 word"
  | LowWatermark voidp "64 word"
  | EnqueueCB 'e voidp voidp
  | Callback "('b, 'm) uq_call"

definition zeroQueueBridge :: "('b, 'e, 'm) zmqQueueBridge" where
  "zeroQueueBridge = \<lparr>q_mParent = None, mQueue = None, mEnqueueClosure = None, mHighWaterFired = 0,
     mHighWatermark = 0, mLowWatermark = 0, q_mIsDispatching = 0, mIsActive = 0, mEnqueueCallback = None\<rparr>"

text \<open>The macro \<open>CHECK_QUEUE\<close>: return at once unless the bridge and its queue exist.\<close>

definition CHECK_QUEUE ::
  "('b, 'e, 'm) zmqQueueBridge option \<Rightarrow> (mama_status \<Rightarrow> 'r)
     \<Rightarrow> (('b, 'e, 'm) zmqQueueBridge \<Rightarrow> ('b, 'm) uQueueImpl \<Rightarrow> 'r) \<Rightarrow> 'r" where
  "CHECK_QUEUE impl ret k =
     (case impl of
        None \<Rightarrow> ret MAMA_STATUS_NULL_ARG
      | Some i \<Rightarrow> (case mQueue i of None \<Rightarrow> ret MAMA_STATUS_NULL_ARG | Some q \<Rightarrow> k i q))"

subsection \<open>Creation and destruction\<close>

text \<open>
  \<open>zmqBridgeMamaQueue_create\<close>. The three memory arguments are the outcomes of the allocations
  of the bridge, of the queue structure and of its first chunk; \<open>maxq\<close>, \<open>iniq\<close> and \<open>chunkq\<close> are
  the wombat constants behind \<open>ZMQ_QUEUE_MAX_SIZE\<close>, \<open>ZMQ_QUEUE_INITIAL_SIZE\<close> and
  \<open>ZMQ_QUEUE_CHUNK_SIZE\<close>; \<open>semrc\<close> is the result of \<open>wsem_init\<close>.
\<close>

definition zmqBridgeMamaQueue_create ::
  "bool \<Rightarrow> bool \<Rightarrow> bool \<Rightarrow> int \<Rightarrow> 32 word \<Rightarrow> 32 word \<Rightarrow> 32 word \<Rightarrow> bool \<Rightarrow> voidp
     \<Rightarrow> (mama_status \<times> ('b, 'e, 'm) zmqQueueBridge option) option" where
  "zmqBridgeMamaQueue_create memb memq memc semrc maxq iniq chunkq queue parent =
     (if \<not> queue \<or> parent = None then Some (MAMA_STATUS_NULL_ARG, None)
      else if \<not> memb then Some (MAMA_STATUS_NOMEM, None)
      else (let impl = zeroQueueBridge\<lparr>mIsActive := 1, q_mParent := parent\<rparr> in
        case uQueue_allocate memq maxq chunkq of
          (_, None) \<Rightarrow> Some (MAMA_STATUS_NOMEM, None)
        | (underlyingStatus, Some q) \<Rightarrow>
            if underlyingStatus \<noteq> WOMBAT_QUEUE_OK then Some (MAMA_STATUS_NOMEM, None)
            else (case uQueue_create memc semrc chunkq q maxq iniq chunkq of
                None \<Rightarrow> None
              | Some (underlyingStatus, q) \<Rightarrow>
                  if underlyingStatus \<noteq> WOMBAT_QUEUE_OK then Some (MAMA_STATUS_PLATFORM, None)
                  else Some (MAMA_STATUS_OK, Some (impl\<lparr>mQueue := Some q\<rparr>)))))"

definition zmqBridgeMamaQueue_create_usingNative ::
  "bool \<Rightarrow> bool \<Rightarrow> voidp \<Rightarrow> ('b, 'm) uQueueImpl option \<Rightarrow> mama_status \<times> ('b, 'e, 'm) zmqQueueBridge option" where
  "zmqBridgeMamaQueue_create_usingNative mem queue parent nativeQueue =
     (if \<not> queue \<or> parent = None \<or> nativeQueue = None then (MAMA_STATUS_NULL_ARG, None)
      else if \<not> mem then (MAMA_STATUS_NOMEM, None)
      else (MAMA_STATUS_OK, Some (zeroQueueBridge\<lparr>q_mParent := parent, mQueue := nativeQueue\<rparr>)))"

text \<open>
  \<open>zmqBridgeMamaQueue_destroy\<close>: the bridge is always released; the last component is the
  underlying queue structure that is still allocated.
\<close>

definition zmqBridgeMamaQueue_destroy ::
  "int \<Rightarrow> ('b, 'e, 'm) zmqQueueBridge option \<Rightarrow> (mama_status \<times> ('b, 'm) uQueueImpl option) option" where
  "zmqBridgeMamaQueue_destroy semrc queue =
     CHECK_QUEUE queue (\<lambda>s. Some (s, None)) (\<lambda>impl q. do {
       (status, left) \<leftarrow> uQueue_destroy semrc q;
       Some (if status \<noteq> WOMBAT_QUEUE_OK then MAMA_STATUS_PLATFORM else MAMA_STATUS_OK, left)
     })"

subsection \<open>Size and watermarks\<close>

definition zmqBridgeMamaQueue_getEventCount ::
  "('b, 'e, 'm) zmqQueueBridge option \<Rightarrow> bool \<Rightarrow> mama_status \<times> 64 word option" where
  "zmqBridgeMamaQueue_getEventCount queue count =
     (if \<not> count then (MAMA_STATUS_NULL_ARG, None)
      else CHECK_QUEUE queue (\<lambda>s. (s, None)) (\<lambda>impl q.
        (MAMA_STATUS_OK, Some (word_of_int (snd (uQueue_getSize q))))))"

definition zmqBridgeMamaQueueImpl_checkWatermarks ::
  "('b, 'e, 'm) zmqQueueBridge \<Rightarrow> ('b, 'e, 'm) zmqQueueBridge \<times> ('b, 'e, 'm) q_event list" where
  "zmqBridgeMamaQueueImpl_checkWatermarks impl =
     (let eventCount = (case zmqBridgeMamaQueue_getEventCount (Some impl) True of
                          (_, Some n) \<Rightarrow> n | (_, None) \<Rightarrow> 0) in
      if mHighWaterFired impl \<noteq> 0 \<and> eventCount = mLowWatermark impl
      then (impl\<lparr>mHighWaterFired := 0\<rparr>, [LowWatermark (q_mParent impl) eventCount])
      else if mHighWaterFired impl = 0 \<and> eventCount \<ge> mHighWatermark impl
      then (impl\<lparr>mHighWaterFired := 1\<rparr>, [HighWatermark (q_mParent impl) eventCount])
      else (impl, []))"

definition zmqBridgeMamaQueue_setHighWatermark ::
  "('b, 'e, 'm) zmqQueueBridge option \<Rightarrow> 64 word \<Rightarrow> mama_status \<times> ('b, 'e, 'm) zmqQueueBridge option" where
  "zmqBridgeMamaQueue_setHighWatermark queue highWatermark =
     (if highWatermark = 0 then (MAMA_STATUS_NULL_ARG, queue)
      else CHECK_QUEUE queue (\<lambda>s. (s, queue)) (\<lambda>impl q.
        (MAMA_STATUS_OK, Some (impl\<lparr>mHighWatermark := highWatermark\<rparr>))))"

definition zmqBridgeMamaQueue_setLowWatermark ::
  "('b, 'e, 'm) zmqQueueBridge option \<Rightarrow> 64 word \<Rightarrow> mama_status \<times> ('b, 'e, 'm) zmqQueueBridge option" where
  "zmqBridgeMamaQueue_setLowWatermark queue lowWatermark =
     (if lowWatermark = 0 then (MAMA_STATUS_NULL_ARG, queue)
      else CHECK_QUEUE queue (\<lambda>s. (s, queue)) (\<lambda>impl q.
        (MAMA_STATUS_OK, Some (impl\<lparr>mLowWatermark := lowWatermark\<rparr>))))"

subsection \<open>Enqueue\<close>

text \<open>\<open>zmqBridgeMamaQueue_enqueueEventInt\<close>: the enqueue callback is made whatever the queue answered.\<close>

definition zmqBridgeMamaQueue_enqueueEventInt ::
  "bool \<Rightarrow> ('b, 'e, 'm) zmqQueueBridge option \<Rightarrow> 'b option \<Rightarrow> 'm uq_union \<Rightarrow> 8 word
     \<Rightarrow> (mama_status \<times> ('b, 'e, 'm) zmqQueueBridge option \<times> ('b, 'e, 'm) q_event list) option" where
  "zmqBridgeMamaQueue_enqueueEventInt mem queue callback closure isMsg =
     (if callback = None then Some (MAMA_STATUS_NULL_ARG, queue, [])
      else CHECK_QUEUE queue (\<lambda>s. Some (s, queue, [])) (\<lambda>impl q. do {
        (status, q') \<leftarrow> uQueue_enqueue mem q callback (q_mParent impl) closure isMsg;
        let evs = (case mEnqueueCallback impl of
                     None \<Rightarrow> [] | Some cb \<Rightarrow> [EnqueueCB cb (q_mParent impl) (mEnqueueClosure impl)]);
        Some (if status \<noteq> WOMBAT_QUEUE_OK then MAMA_STATUS_PLATFORM else MAMA_STATUS_OK,
              Some (impl\<lparr>mQueue := Some q'\<rparr>), evs)
      }))"

definition zmqBridgeMamaQueue_enqueueEvent ::
  "bool \<Rightarrow> ('b, 'e, 'm) zmqQueueBridge option \<Rightarrow> 'b option \<Rightarrow> voidp
     \<Rightarrow> (mama_status \<times> ('b, 'e, 'm) zmqQueueBridge option \<times> ('b, 'e, 'm) q_event list) option" where
  "zmqBridgeMamaQueue_enqueueEvent mem queue callback closure =
     zmqBridgeMamaQueue_enqueueEventInt mem queue callback (Closure closure) 0"

text \<open>
  The two entry points below read the active flag before any check, so a \<open>NULL\<close> queue has no
  defined result. Events for an inactive queue are dropped and reported as \<open>MAMA_STATUS_OK\<close>.
\<close>

definition zmqBridgeMamaQueue_enqueueEventEx ::
  "bool \<Rightarrow> ('b, 'e, 'm) zmqQueueBridge option \<Rightarrow> 'b option \<Rightarrow> voidp
     \<Rightarrow> (mama_status \<times> ('b, 'e, 'm) zmqQueueBridge option \<times> ('b, 'e, 'm) q_event list) option" where
  "zmqBridgeMamaQueue_enqueueEventEx mem queue callback closure = do {
     impl \<leftarrow> queue;
     if mIsActive impl = 1 then zmqBridgeMamaQueue_enqueueEvent mem queue callback closure
     else Some (MAMA_STATUS_OK, queue, [])
   }"

definition zmqBridgeMamaQueue_enqueueMsg ::
  "bool \<Rightarrow> ('b, 'e, 'm) zmqQueueBridge option \<Rightarrow> 'b option \<Rightarrow> 'm
     \<Rightarrow> (mama_status \<times> ('b, 'e, 'm) zmqQueueBridge option \<times> ('b, 'e, 'm) q_event list) option" where
  "zmqBridgeMamaQueue_enqueueMsg mem queue callback msg = do {
     impl \<leftarrow> queue;
     if mIsActive impl = 1 then zmqBridgeMamaQueue_enqueueEventInt mem queue callback (Msg msg) 1
     else Some (MAMA_STATUS_OK, queue, [])
   }"

subsection \<open>Flags, callbacks, handle\<close>

definition zmqBridgeMamaQueue_stopDispatch ::
  "('b, 'e, 'm) zmqQueueBridge option \<Rightarrow> mama_status \<times> ('b, 'e, 'm) zmqQueueBridge option" where
  "zmqBridgeMamaQueue_stopDispatch queue =
     CHECK_QUEUE queue (\<lambda>s. (s, queue)) (\<lambda>impl q. (MAMA_STATUS_OK, Some (impl\<lparr>q_mIsDispatching := 0\<rparr>)))"

definition zmqBridgeMamaQueue_setEnqueueCallback ::
  "('b, 'e, 'm) zmqQueueBridge option \<Rightarrow> 'e option \<Rightarrow> voidp \<Rightarrow> mama_status \<times> ('b, 'e, 'm) zmqQueueBridge option" where
  "zmqBridgeMamaQueue_setEnqueueCallback queue callback closure =
     (if callback = None then (MAMA_STATUS_NULL_ARG, queue)
      else CHECK_QUEUE queue (\<lambda>s. (s, queue)) (\<lambda>impl q.
        (MAMA_STATUS_OK, Some (impl\<lparr>mEnqueueCallback := callback, mEnqueueClosure := closure\<rparr>))))"

definition zmqBridgeMamaQueue_removeEnqueueCallback ::
  "('b, 'e, 'm) zmqQueueBridge option \<Rightarrow> mama_status \<times> ('b, 'e, 'm) zmqQueueBridge option" where
  "zmqBridgeMamaQueue_removeEnqueueCallback queue =
     CHECK_QUEUE queue (\<lambda>s. (s, queue)) (\<lambda>impl q.
       (MAMA_STATUS_OK, Some (impl\<lparr>mEnqueueCallback := None, mEnqueueClosure := None\<rparr>)))"

text \<open>The handle is the bridge itself, not the queue it holds.\<close>

definition zmqBridgeMamaQueue_getNativeHandle ::
  "('b, 'e, 'm) zmqQueueBridge option \<Rightarrow> bool \<Rightarrow> mama_status \<times> ('b, 'e, 'm) zmqQueueBridge option" where
  "zmqBridgeMamaQueue_getNativeHandle queue nativeHandle =
     (if \<not> nativeHandle then (MAMA_STATUS_NULL_ARG, None)
      else CHECK_QUEUE queue (\<lambda>s. (s, None)) (\<lambda>impl q. (MAMA_STATUS_OK, queue)))"

definition zmqBridgeMamaQueue_activate ::
  "('b, 'e, 'm) zmqQueueBridge option \<Rightarrow> (mama_status \<times> ('b, 'e, 'm) zmqQueueBridge option) option" where
  "zmqBridgeMamaQueue_activate queue = do {
     impl \<leftarrow> queue;
     Some (MAMA_STATUS_OK, Some (impl\<lparr>mIsActive := 1\<rparr>))
   }"

definition zmqBridgeMamaQueue_deactivate ::
  "('b, 'e, 'm) zmqQueueBridge option \<Rightarrow> (mama_status \<times> ('b, 'e, 'm) zmqQueueBridge option) option" where
  "zmqBridgeMamaQueue_deactivate queue = do {
     impl \<leftarrow> queue;
     Some (MAMA_STATUS_OK, Some (impl\<lparr>mIsActive := 0\<rparr>))
   }"

subsection \<open>Dispatch\<close>

text \<open>
  What happens around one iteration of a dispatch loop: the events that other threads enqueue
  before its wait returns, an error of the wait if there is one, and whether
  \<open>zmqBridgeMamaQueue_stopDispatch\<close> is called (by another thread or by the callback) before
  the flag is tested.
\<close>

datatype ('b, 'm) q_arrival = ArriveMsg 'b 'm bool | ArriveEvent 'b voidp bool

record ('b, 'm) q_iter =
  arrivals :: "('b, 'm) q_arrival list"
  waitError :: "sem_rc option"
  stops :: bool

fun q_arrive ::
  "('b, 'm) q_arrival list \<Rightarrow> ('b, 'e, 'm) zmqQueueBridge
     \<Rightarrow> (('b, 'e, 'm) zmqQueueBridge \<times> ('b, 'e, 'm) q_event list) option" where
  "q_arrive [] impl = Some (impl, [])"
| "q_arrive (a # as) impl = do {
     (_, impl', evs) \<leftarrow>
       (case a of
          ArriveMsg cb m mem \<Rightarrow> zmqBridgeMamaQueue_enqueueMsg mem (Some impl) (Some cb) m
        | ArriveEvent cb c mem \<Rightarrow> zmqBridgeMamaQueue_enqueueEventEx mem (Some impl) (Some cb) c);
     impl' \<leftarrow> impl';
     (impl'', evs') \<leftarrow> q_arrive as impl';
     Some (impl'', evs @ evs')
   }"

text \<open>
  The timed wait: without an error it acquires the semaphore when its value is positive and
  runs into the timeout otherwise.
\<close>

definition timedwait_rc :: "('b, 'm) uQueueImpl \<Rightarrow> sem_rc option \<Rightarrow> sem_rc" where
  "timedwait_rc q err =
     (case err of
        Some e \<Rightarrow> if e = SemAcquired \<and> mSem q = 0 then SemError else e
      | None \<Rightarrow> if mSem q = 0 then SemError else SemAcquired)"

definition call_events :: "('b, 'm) uq_call option \<Rightarrow> ('b, 'e, 'm) q_event list" where
  "call_events c = (case c of None \<Rightarrow> [] | Some c \<Rightarrow> [Callback c])"

text \<open>The loop of \<open>zmqBridgeMamaQueue_dispatch\<close>; \<open>None\<close> while it is still running.\<close>

fun q_dispatch_loop ::
  "('b, 'm) q_iter list \<Rightarrow> ('b, 'e, 'm) zmqQueueBridge
     \<Rightarrow> (wombatQueueStatus \<times> ('b, 'e, 'm) zmqQueueBridge \<times> ('b, 'e, 'm) q_event list) option" where
  "q_dispatch_loop [] impl = None"
| "q_dispatch_loop (it # its) impl = do {
     (impl, ev0) \<leftarrow> q_arrive (arrivals it) impl;
     let (impl, ev1) = zmqBridgeMamaQueueImpl_checkWatermarks impl;
     q \<leftarrow> mQueue impl;
     (status, q', call) \<leftarrow> uQueue_timedDispatch [timedwait_rc q (waitError it)] q;
     let impl = impl\<lparr>mQueue := Some q'\<rparr>;
     impl \<leftarrow> (if stops it then snd (zmqBridgeMamaQueue_stopDispatch (Some impl)) else Some impl);
     let evs = ev0 @ ev1 @ call_events call;
     if (status = WOMBAT_QUEUE_OK \<or> status = WOMBAT_QUEUE_TIMEOUT) \<and> q_mIsDispatching impl = 1
     then do { (status, impl, evs') \<leftarrow> q_dispatch_loop its impl; Some (status, impl, evs @ evs') }
     else Some (status, impl, evs)
   }"

definition zmqBridgeMamaQueue_dispatch ::
  "('b, 'm) q_iter list \<Rightarrow> ('b, 'e, 'm) zmqQueueBridge option
     \<Rightarrow> (mama_status \<times> ('b, 'e, 'm) zmqQueueBridge option \<times> ('b, 'e, 'm) q_event list) option" where
  "zmqBridgeMamaQueue_dispatch its queue =
     CHECK_QUEUE queue (\<lambda>s. Some (s, queue, [])) (\<lambda>impl q. do {
       let impl = impl\<lparr>q_mIsDispatching := 1\<rparr>;
       (status, impl, evs) \<leftarrow> q_dispatch_loop its impl;
       Some (if status \<noteq> WOMBAT_QUEUE_OK \<and> status \<noteq> WOMBAT_QUEUE_TIMEOUT
             then MAMA_STATUS_PLATFORM else MAMA_STATUS_OK, Some impl, evs)
     })"

definition zmqBridgeMamaQueue_timedDispatch ::
  "sem_rc option \<Rightarrow> ('b, 'e, 'm) zmqQueueBridge option
     \<Rightarrow> (mama_status \<times> ('b, 'e, 'm) zmqQueueBridge option \<times> ('b, 'e, 'm) q_event list) option" where
  "zmqBridgeMamaQueue_timedDispatch err queue =
     CHECK_QUEUE queue (\<lambda>s. Some (s, queue, [])) (\<lambda>impl q. do {
       let (impl, ev1) = zmqBridgeMamaQueueImpl_checkWatermarks impl;
       (status, q', call) \<leftarrow> uQueue_timedDispatch [timedwait_rc q err] q;
       Some (if status \<noteq> WOMBAT_QUEUE_OK \<and> status \<noteq> WOMBAT_QUEUE_TIMEOUT
             then MAMA_STATUS_PLATFORM else MAMA_STATUS_OK,
             Some (impl\<lparr>mQueue := Some q'\<rparr>), ev1 @ call_events call)
     })"

text \<open>\<open>zmqBridgeMamaQueue_dispatchEvent\<close>, over the results of the calls of the untimed wait.\<close>

definition zmqBridgeMamaQueue_dispatchEvent ::
  "sem_rc list \<Rightarrow> ('b, 'e, 'm) zmqQueueBridge option
     \<Rightarrow> (mama_status \<times> ('b, 'e, 'm) zmqQueueBridge option \<times> ('b, 'e, 'm) q_event list) option" where
  "zmqBridgeMamaQueue_dispatchEvent rcs queue =
     CHECK_QUEUE queue (\<lambda>s. Some (s, queue, [])) (\<lambda>impl q. do {
       let (impl, ev1) = zmqBridgeMamaQueueImpl_checkWatermarks impl;
       (status, q', call) \<leftarrow> uQueue_dispatch rcs q;
       Some (if status \<noteq> WOMBAT_QUEUE_OK \<and> status \<noteq> WOMBAT_QUEUE_TIMEOUT
             then MAMA_STATUS_PLATFORM else MAMA_STATUS_OK,
             Some (impl\<lparr>mQueue := Some q'\<rparr>), ev1 @ call_events call)
     })"

subsection \<open>The invariant of a bridge queue\<close>

definition mq_ok :: "nat \<Rightarrow> ('b, 'e, 'm) zmqQueueBridge \<Rightarrow> bool" where
  "mq_ok k impl \<longleftrightarrow> (\<exists>q. mQueue impl = Some q \<and> uq_inv k q)"

definition mq_elems :: "('b, 'e, 'm) zmqQueueBridge \<Rightarrow> ('b, 'm) uq_val list" where
  "mq_elems impl = (case mQueue impl of None \<Rightarrow> [] | Some q \<Rightarrow> uq_elems q)"

text \<open>The event that an arrival becomes.\<close>

fun arrival_val :: "voidp \<Rightarrow> ('b, 'm) q_arrival \<Rightarrow> ('b, 'm) uq_val" where
  "arrival_val parent (ArriveMsg cb m mem) = (Some cb, parent, 1, Msg m)"
| "arrival_val parent (ArriveEvent cb c mem) = (Some cb, parent, 0, Closure c)"

lemma enqueueEventInt_spec:
  assumes "mq_ok k impl" "isMsg \<noteq> 0 \<longrightarrow> (\<exists>m. closure = Msg m)"
  shows "\<exists>st impl' evs. zmqBridgeMamaQueue_enqueueEventInt mem (Some impl) (Some cb) closure isMsg =
       Some (st, Some impl', evs) \<and> mq_ok k impl' \<and>
     (st = MAMA_STATUS_OK \<and> mq_elems impl' = mq_elems impl @ [(Some cb, q_mParent impl, isMsg, closure)] \<or>
      st = MAMA_STATUS_PLATFORM \<and> mq_elems impl' = mq_elems impl) \<and>
     (\<exists>q. impl' = impl\<lparr>mQueue := Some q\<rparr>) \<and>
     evs = (case mEnqueueCallback impl of None \<Rightarrow> [] | Some e \<Rightarrow> [EnqueueCB e (q_mParent impl) (mEnqueueClosure impl)])"
proof -
  from assms(1) obtain q where q: "mQueue impl = Some q" "uq_inv k q" by (auto simp: mq_ok_def)
  have "val_ok (Some cb, q_mParent impl, isMsg, closure)" using assms(2) by (simp add: val_ok_def)
  from enqueue_spec[OF q(2) this, of mem] obtain st q' where
    e: "uQueue_enqueue mem q (Some cb) (q_mParent impl) closure isMsg = Some (st, q')" "uq_inv k q'"
      "st = WOMBAT_QUEUE_OK \<and> uq_elems q' = uq_elems q @ [(Some cb, q_mParent impl, isMsg, closure)] \<or>
       st = WOMBAT_QUEUE_FULL \<and> uq_elems q' = uq_elems q" by blast
  then show ?thesis using q
    by (auto simp: zmqBridgeMamaQueue_enqueueEventInt_def CHECK_QUEUE_def mq_ok_def mq_elems_def)
qed

text \<open>An arrival appends its event, or is dropped.\<close>

definition no_calls :: "('b, 'e, 'm) q_event list \<Rightarrow> bool" where
  "no_calls evs \<longleftrightarrow> list_all (\<lambda>e. case e of EnqueueCB _ _ _ \<Rightarrow> True | _ \<Rightarrow> False) evs"

lemma arrive_one:
  assumes "mq_ok k impl"
  shows "\<exists>st impl' evs. (case a of
          ArriveMsg cb m mem \<Rightarrow> zmqBridgeMamaQueue_enqueueMsg mem (Some impl) (Some cb) m
        | ArriveEvent cb c mem \<Rightarrow> zmqBridgeMamaQueue_enqueueEventEx mem (Some impl) (Some cb) c) =
       Some (st, Some impl', evs) \<and> mq_ok k impl' \<and> no_calls evs \<and>
     mq_elems impl' \<in> {mq_elems impl, mq_elems impl @ [arrival_val (q_mParent impl) a]} \<and>
     (\<exists>q. impl' = impl\<lparr>mQueue := q\<rparr>)"
proof (cases "mIsActive impl = 1")
  case False
  with assms show ?thesis
    by (cases a) (auto simp: zmqBridgeMamaQueue_enqueueMsg_def zmqBridgeMamaQueue_enqueueEventEx_def no_calls_def
        intro!: exI[of _ "mQueue impl"])
next
  case True
  show ?thesis
  proof (cases a)
    case (ArriveMsg cb m mem)
    with enqueueEventInt_spec[OF assms, of 1 "Msg m" mem cb] True show ?thesis
      by (auto simp: zmqBridgeMamaQueue_enqueueMsg_def no_calls_def split: option.splits)
  next
    case (ArriveEvent cb c mem)
    with enqueueEventInt_spec[OF assms, of 0 "Closure c" mem cb] True show ?thesis
      by (auto simp: zmqBridgeMamaQueue_enqueueEventEx_def zmqBridgeMamaQueue_enqueueEvent_def no_calls_def
          split: option.splits)
  qed
qed

lemma arrive_all:
  assumes "mq_ok k impl"
  shows "\<exists>impl' evs acc. q_arrive as impl = Some (impl', evs) \<and> mq_ok k impl' \<and> no_calls evs \<and>
     subseq acc (map (arrival_val (q_mParent impl)) as) \<and> mq_elems impl' = mq_elems impl @ acc \<and>
     (\<exists>q. impl' = impl\<lparr>mQueue := q\<rparr>)"
  using assms
proof (induction as arbitrary: impl)
  case Nil
  then show ?case by (auto simp: no_calls_def intro!: exI[of _ "mQueue impl"])
next
  case (Cons a as)
  from arrive_one[OF Cons.prems, of a] obtain st impl1 ev1 q1 where
    a: "(case a of
          ArriveMsg cb m mem \<Rightarrow> zmqBridgeMamaQueue_enqueueMsg mem (Some impl) (Some cb) m
        | ArriveEvent cb c mem \<Rightarrow> zmqBridgeMamaQueue_enqueueEventEx mem (Some impl) (Some cb) c) =
       Some (st, Some impl1, ev1)" "mq_ok k impl1" "no_calls ev1"
      "mq_elems impl1 \<in> {mq_elems impl, mq_elems impl @ [arrival_val (q_mParent impl) a]}"
      "impl1 = impl\<lparr>mQueue := q1\<rparr>" by blast
  from Cons.IH[OF a(2)] obtain impl' evs acc q' where
    r: "q_arrive as impl1 = Some (impl', evs)" "mq_ok k impl'" "no_calls evs"
      "subseq acc (map (arrival_val (q_mParent impl1)) as)" "mq_elems impl' = mq_elems impl1 @ acc"
      "impl' = impl1\<lparr>mQueue := q'\<rparr>" by blast
  have run: "q_arrive (a # as) impl = Some (impl', ev1 @ evs)" using a(1) r(1) by simp
  have "no_calls (ev1 @ evs)" using a(3) r(3) by (simp add: no_calls_def)
  moreover have "impl' = impl\<lparr>mQueue := q'\<rparr>" using a(5) r(6) by simp
  moreover have "\<exists>acc. subseq acc (map (arrival_val (q_mParent impl)) (a # as)) \<and> mq_elems impl' = mq_elems impl @ acc"
  proof (cases "mq_elems impl1 = mq_elems impl")
    case True
    with r(4,5) a(5) show ?thesis by (intro exI[of _ acc]) auto
  next
    case False
    with a(4) have "mq_elems impl1 = mq_elems impl @ [arrival_val (q_mParent impl) a]" by auto
    with r(4,5) a(5) show ?thesis by (intro exI[of _ "arrival_val (q_mParent impl) a # acc"]) auto
  qed
  ultimately show ?case using run r(2) by blast
qed

text \<open>The calls that queued events lead to, and those among the reported events.\<close>

definition calls_of :: "('b, 'm) uq_val list \<Rightarrow> ('b, 'm) uq_call list" where
  "calls_of vs = List.map_filter uq_call_of vs"

definition callbacks :: "('b, 'e, 'm) q_event list \<Rightarrow> ('b, 'm) uq_call list" where
  "callbacks evs = List.map_filter (\<lambda>e. case e of Callback c \<Rightarrow> Some c | _ \<Rightarrow> None) evs"

text \<open>
  Watermark notifications alternate; \<open>b\<close> says whether the last one was for the high mark.
  \<open>wm_after\<close> is the flag after a list of events.
\<close>

fun alternates :: "bool \<Rightarrow> ('b, 'e, 'm) q_event list \<Rightarrow> bool" where
  "alternates b [] \<longleftrightarrow> True"
| "alternates b (HighWatermark p n # es) \<longleftrightarrow> \<not> b \<and> alternates True es"
| "alternates b (LowWatermark p n # es) \<longleftrightarrow> b \<and> alternates False es"
| "alternates b (e # es) \<longleftrightarrow> alternates b es"

fun wm_after :: "bool \<Rightarrow> ('b, 'e, 'm) q_event list \<Rightarrow> bool" where
  "wm_after b [] = b"
| "wm_after b (HighWatermark p n # es) = wm_after True es"
| "wm_after b (LowWatermark p n # es) = wm_after False es"
| "wm_after b (e # es) = wm_after b es"

lemma alternates_append: "alternates b (es @ fs) \<longleftrightarrow> alternates b es \<and> alternates (wm_after b es) fs"
  by (induction b es rule: alternates.induct) auto

lemma wm_after_append: "wm_after b (es @ fs) = wm_after (wm_after b es) fs"
  by (induction b es rule: alternates.induct) auto

lemma no_calls_simps:
  assumes "no_calls evs"
  shows "alternates b evs" "wm_after b evs = b" "callbacks evs = []"
proof -
  show "alternates b evs" "wm_after b evs = b"
    using assms by (induction b evs rule: alternates.induct) (auto simp: no_calls_def)
  show "callbacks evs = []"
    using assms by (induction evs) (auto simp: no_calls_def callbacks_def map_filter_simps split: q_event.splits)
qed

lemma callbacks_append: "callbacks (es @ fs) = callbacks es @ callbacks fs"
  by (induction es) (auto simp: callbacks_def map_filter_simps split: option.splits)

lemma calls_of_append: "calls_of (us @ vs) = calls_of us @ calls_of vs"
  by (induction us) (auto simp: calls_of_def map_filter_simps split: option.splits)

lemma call_events_simps [simp]:
  "alternates b (call_events c)" "wm_after b (call_events c) = b"
  "callbacks (call_events c) = (case c of None \<Rightarrow> [] | Some x \<Rightarrow> [x])"
  by (auto simp: call_events_def callbacks_def map_filter_simps split: option.splits)

lemma checkWatermarks_spec:
  assumes "zmqBridgeMamaQueueImpl_checkWatermarks impl = (impl', evs)"
  shows "\<exists>f. impl' = impl\<lparr>mHighWaterFired := f\<rparr>" "callbacks evs = []"
    "alternates (mHighWaterFired impl \<noteq> 0) evs" "wm_after (mHighWaterFired impl \<noteq> 0) evs \<longleftrightarrow> mHighWaterFired impl' \<noteq> 0"
proof -
  show "\<exists>f. impl' = impl\<lparr>mHighWaterFired := f\<rparr>"
    using assms by (auto simp: zmqBridgeMamaQueueImpl_checkWatermarks_def Let_def split: if_splits
        intro: exI[of _ "mHighWaterFired impl"])
qed (use assms in \<open>auto simp: zmqBridgeMamaQueueImpl_checkWatermarks_def Let_def callbacks_def map_filter_simps
      split: if_splits\<close>)

lemma calls_of_Cons: "calls_of (v # vs) = (case uq_call_of v of None \<Rightarrow> [] | Some x \<Rightarrow> [x]) @ calls_of vs"
  by (simp add: calls_of_def map_filter_simps split: option.splits)

lemma timedDispatch_spec:
  assumes "uq_inv 0 q"
  shows "\<exists>st q' c. uQueue_timedDispatch [timedwait_rc q err] q = Some (st, q', c) \<and> uq_inv 0 q' \<and>
     st \<in> {WOMBAT_QUEUE_OK, WOMBAT_QUEUE_TIMEOUT} \<and>
     calls_of (uq_elems q) = (case c of None \<Rightarrow> [] | Some x \<Rightarrow> [x]) @ calls_of (uq_elems q')"
proof (cases "timedwait_rc q err = SemAcquired")
  case True
  then have "mSem q \<noteq> 0" by (auto simp: timedwait_rc_def split: option.splits if_splits)
  then obtain v vs where v: "uq_elems q = v # vs"
    using uq_inv_length(2)[OF assms] by (cases "uq_elems q") auto
  from dispatchInt_first[OF assms v, of "[]" True] obtain q' where
    "uQueue_dispatchInt [SemAcquired] q True = Some (WOMBAT_QUEUE_OK, q', uq_call_of v)" "uq_inv 0 q'" "uq_elems q' = vs"
    by blast
  with True v show ?thesis
    by (intro exI[of _ WOMBAT_QUEUE_OK] exI[of _ q'] exI[of _ "uq_call_of v"])
      (simp add: uQueue_timedDispatch_def calls_of_Cons)
next
  case False
  with assms show ?thesis by (simp add: uQueue_timedDispatch_def uQueue_dispatchInt_def)
qed

subsection \<open>The dispatch loop\<close>

text \<open>One iteration of the loop, up to the test of its condition.\<close>

lemma loop_iteration:
  fixes impl :: "('b, 'e, 'm) zmqQueueBridge"
  assumes ok: "mq_ok 0 impl" and disp: "q_mIsDispatching impl = 1"
  shows "\<exists>st impl' evs acc. mq_ok 0 impl' \<and> st \<in> {WOMBAT_QUEUE_OK, WOMBAT_QUEUE_TIMEOUT} \<and>
     q_mParent impl' = q_mParent impl \<and> q_mIsDispatching impl' = (if stops it then 0 else 1) \<and>
     subseq acc (map (arrival_val (q_mParent impl)) (arrivals it)) \<and>
     callbacks evs @ calls_of (mq_elems impl') = calls_of (mq_elems impl @ acc) \<and>
     alternates (mHighWaterFired impl \<noteq> 0) evs \<and>
     wm_after (mHighWaterFired impl \<noteq> 0) evs = (mHighWaterFired impl' \<noteq> 0) \<and>
     (\<forall>its. q_dispatch_loop (it # its) impl =
       (if stops it then Some (st, impl', evs)
        else do { (st, i, evs') \<leftarrow> q_dispatch_loop its impl'; Some (st, i, evs @ evs') }))"
proof -
  from arrive_all[OF ok, of "arrivals it"] obtain i1 ev0 acc q0 where
    a: "q_arrive (arrivals it) impl = Some (i1, ev0)" "mq_ok 0 i1" "no_calls ev0"
      "subseq acc (map (arrival_val (q_mParent impl)) (arrivals it))" "mq_elems i1 = mq_elems impl @ acc"
      "i1 = impl\<lparr>mQueue := q0\<rparr>" by blast
  obtain i2 ev1 where w: "zmqBridgeMamaQueueImpl_checkWatermarks i1 = (i2, ev1)" by (cases "zmqBridgeMamaQueueImpl_checkWatermarks i1")
  note ws = checkWatermarks_spec[OF w]
  from ws(1) obtain f where i2: "i2 = i1\<lparr>mHighWaterFired := f\<rparr>" by blast
  from a(2) obtain q where q: "mQueue i1 = Some q" "uq_inv 0 q" by (auto simp: mq_ok_def)
  from timedDispatch_spec[OF q(2), of "waitError it"] obtain st q' c where
    d: "uQueue_timedDispatch [timedwait_rc q (waitError it)] q = Some (st, q', c)" "uq_inv 0 q'"
      "st \<in> {WOMBAT_QUEUE_OK, WOMBAT_QUEUE_TIMEOUT}"
      "calls_of (uq_elems q) = (case c of None \<Rightarrow> [] | Some x \<Rightarrow> [x]) @ calls_of (uq_elems q')" by blast
  define i3 where "i3 = (if stops it then i2\<lparr>mQueue := Some q', q_mIsDispatching := 0\<rparr> else i2\<lparr>mQueue := Some q'\<rparr>)"
  define evs where "evs = ev0 @ ev1 @ call_events c"
  have i3: "mQueue i3 = Some q'" "q_mParent i3 = q_mParent impl" "mHighWaterFired i3 = mHighWaterFired i2"
    "q_mIsDispatching i3 = (if stops it then 0 else 1)"
    using disp a(6) by (auto simp: i3_def i2)
  have run: "q_dispatch_loop (it # its) impl =
       (if stops it then Some (st, i3, evs)
        else do { (st, i, evs') \<leftarrow> q_dispatch_loop its i3; Some (st, i, evs @ evs') })" for its
    using a(1) w q(1) d(1,3) i3(4) i2
    by (auto simp: evs_def i3_def zmqBridgeMamaQueue_stopDispatch_def CHECK_QUEUE_def)
  have el: "mq_elems i1 = uq_elems q" "mq_elems i3 = uq_elems q'" using q i3 by (auto simp: mq_elems_def)
  have fired: "mHighWaterFired i1 = mHighWaterFired impl" using a(6) by simp
  have "callbacks evs @ calls_of (mq_elems i3) = calls_of (mq_elems impl @ acc)"
    using d(4) el ws(2) no_calls_simps(3)[OF a(3)] a(5) by (simp add: evs_def callbacks_append)
  moreover have "alternates (mHighWaterFired impl \<noteq> 0) evs \<and>
      wm_after (mHighWaterFired impl \<noteq> 0) evs = (mHighWaterFired i3 \<noteq> 0)"
    using ws(3,4) no_calls_simps(1,2)[OF a(3)] i3(3) fired
    by (simp add: evs_def alternates_append wm_after_append)
  moreover have "mq_ok 0 i3" using i3(1) d(2) by (simp add: mq_ok_def)
  ultimately show ?thesis using run d(3) i3(2,4) a(4) by blast
qed

lemma dispatch_loop_stops:
  assumes "mq_ok 0 impl" "q_mIsDispatching impl = 1"
    and "list_all (\<lambda>it. \<not> stops it) pre" "stops final"
  shows "\<exists>st impl' evs acc. q_dispatch_loop (pre @ [final]) impl = Some (st, impl', evs) \<and> mq_ok 0 impl' \<and>
     st \<in> {WOMBAT_QUEUE_OK, WOMBAT_QUEUE_TIMEOUT} \<and> q_mIsDispatching impl' = 0 \<and>
     subseq acc (map (arrival_val (q_mParent impl)) (concat (map arrivals (pre @ [final])))) \<and>
     callbacks evs @ calls_of (mq_elems impl') = calls_of (mq_elems impl @ acc) \<and>
     alternates (mHighWaterFired impl \<noteq> 0) evs"
  using assms(1-3)
proof (induction pre arbitrary: impl)
  case Nil
  from loop_iteration[OF Nil(1,2), of final] assms(4) show ?case by auto
next
  case (Cons it pre)
  from loop_iteration[OF Cons.prems(1,2), of it] Cons.prems(3) obtain st i1 ev1 acc1 where
    one: "mq_ok 0 i1" "q_mParent i1 = q_mParent impl" "q_mIsDispatching i1 = 1"
      "subseq acc1 (map (arrival_val (q_mParent impl)) (arrivals it))"
      "callbacks ev1 @ calls_of (mq_elems i1) = calls_of (mq_elems impl @ acc1)"
      "alternates (mHighWaterFired impl \<noteq> 0) ev1"
      "wm_after (mHighWaterFired impl \<noteq> 0) ev1 = (mHighWaterFired i1 \<noteq> 0)"
      "\<And>its. q_dispatch_loop (it # its) impl =
         do { (st, i, evs') \<leftarrow> q_dispatch_loop its i1; Some (st, i, ev1 @ evs') }" by auto
  from Cons.IH[OF one(1,3)] Cons.prems(3) obtain st2 i2 ev2 acc2 where
    two: "q_dispatch_loop (pre @ [final]) i1 = Some (st2, i2, ev2)" "mq_ok 0 i2"
      "st2 \<in> {WOMBAT_QUEUE_OK, WOMBAT_QUEUE_TIMEOUT}" "q_mIsDispatching i2 = 0"
      "subseq acc2 (map (arrival_val (q_mParent impl)) (concat (map arrivals (pre @ [final]))))"
      "callbacks ev2 @ calls_of (mq_elems i2) = calls_of (mq_elems i1 @ acc2)"
      "alternates (mHighWaterFired i1 \<noteq> 0) ev2" using one(2) by auto
  have "q_dispatch_loop ((it # pre) @ [final]) impl = Some (st2, i2, ev1 @ ev2)"
    using one(8)[of "pre @ [final]"] two(1) by simp
  moreover have "subseq (acc1 @ acc2) (map (arrival_val (q_mParent impl)) (concat (map arrivals ((it # pre) @ [final]))))"
    using list_emb_append_mono[OF one(4) two(5)] by simp
  moreover have "callbacks (ev1 @ ev2) @ calls_of (mq_elems i2) = calls_of (mq_elems impl @ acc1 @ acc2)"
  proof -
    have "callbacks (ev1 @ ev2) @ calls_of (mq_elems i2) = (callbacks ev1 @ calls_of (mq_elems i1)) @ calls_of acc2"
      using two(6) by (simp add: callbacks_append calls_of_append)
    with one(5) show ?thesis by (simp add: calls_of_append)
  qed
  moreover have "alternates (mHighWaterFired impl \<noteq> 0) (ev1 @ ev2)"
    using one(6,7) two(7) by (simp add: alternates_append)
  ultimately show ?case using two(2,3,4) by blast
qed

subsection \<open>The bridge queue as an event queue\<close>

definition mq_inv :: "voidp \<Rightarrow> nat \<Rightarrow> ('b, 'e, 'm) zmqQueueBridge \<Rightarrow> bool" where
  "mq_inv parent k impl \<longleftrightarrow> mq_ok k impl \<and> q_mParent impl = parent \<and> mIsActive impl = 1"

definition mq_val_ok :: "voidp \<Rightarrow> ('b, 'm) uq_val \<Rightarrow> bool" where
  "mq_val_ok parent v \<longleftrightarrow> (\<exists>a. v = arrival_val parent a)"

definition mq_enq ::
  "bool \<Rightarrow> ('b, 'm) uq_val \<Rightarrow> ('b, 'e, 'm) zmqQueueBridge \<Rightarrow> (bool \<times> ('b, 'e, 'm) zmqQueueBridge) option" where
  "mq_enq mem v impl = do {
     (st, impl', _) \<leftarrow>
       (case v of (cb, _, _, u) \<Rightarrow>
         (case u of
            Msg m \<Rightarrow> zmqBridgeMamaQueue_enqueueMsg mem (Some impl) cb m
          | Closure c \<Rightarrow> zmqBridgeMamaQueue_enqueueEventEx mem (Some impl) cb c));
     impl' \<leftarrow> impl';
     Some (st = MAMA_STATUS_OK, impl')
   }"

definition mq_acq :: "('b, 'e, 'm) zmqQueueBridge \<Rightarrow> ('b, 'e, 'm) zmqQueueBridge option" where
  "mq_acq impl = do { q \<leftarrow> mQueue impl; q' \<leftarrow> uq_sem_take q; Some (impl\<lparr>mQueue := Some q'\<rparr>) }"

definition mq_rmv ::
  "('b, 'e, 'm) zmqQueueBridge \<Rightarrow> (('b, 'e, 'm) zmqQueueBridge \<times> ('b, 'm) uq_call option) option" where
  "mq_rmv impl = do { q \<leftarrow> mQueue impl; (q', c) \<leftarrow> uq_rmv q; Some (impl\<lparr>mQueue := Some q'\<rparr>, c) }"

lemma mq_enq_law:
  assumes "mq_inv parent k impl" "mq_val_ok parent v"
  shows "\<exists>b impl'. mq_enq mem v impl = Some (b, impl') \<and> mq_inv parent k impl' \<and>
     mq_elems impl' = (if b then mq_elems impl @ [v] else mq_elems impl)"
proof -
  from assms(1) have i: "mq_ok k impl" "q_mParent impl = parent" "mIsActive impl = 1" by (auto simp: mq_inv_def)
  from assms(2) obtain a where "v = arrival_val parent a" by (auto simp: mq_val_ok_def)
  then show ?thesis
  proof (cases a)
    case (ArriveMsg cb m mm)
    with enqueueEventInt_spec[OF i(1), of 1 "Msg m" mem cb] i \<open>v = _\<close> show ?thesis
      by (auto simp: mq_enq_def zmqBridgeMamaQueue_enqueueMsg_def mq_inv_def)
  next
    case (ArriveEvent cb c mm)
    with enqueueEventInt_spec[OF i(1), of 0 "Closure c" mem cb] i \<open>v = _\<close> show ?thesis
      by (auto simp: mq_enq_def zmqBridgeMamaQueue_enqueueEventEx_def zmqBridgeMamaQueue_enqueueEvent_def mq_inv_def)
  qed
qed

lemma mq_acq_law:
  "mq_inv parent k impl \<Longrightarrow> mq_acq impl = Some impl' \<Longrightarrow> mq_inv parent (Suc k) impl' \<and> mq_elems impl' = mq_elems impl"
  using sem_take_spec by (fastforce simp: mq_inv_def mq_ok_def mq_acq_def mq_elems_def bind_Some_conv)

lemma mq_acq_ready: "mq_inv parent k impl \<Longrightarrow> k < length (mq_elems impl) \<Longrightarrow> mq_acq impl \<noteq> None"
  using uq_acq_ready by (fastforce simp: mq_inv_def mq_ok_def mq_acq_def mq_elems_def bind_eq_None_conv)

lemma mq_held_law: "mq_inv parent k impl \<Longrightarrow> k \<le> length (mq_elems impl)"
  using uq_held_law by (fastforce simp: mq_inv_def mq_ok_def mq_elems_def)

lemma mq_rmv_law:
  assumes "mq_inv parent (Suc k) impl"
  shows "\<exists>impl' v. mq_rmv impl = Some (impl', uq_call_of v) \<and> mq_inv parent k impl' \<and> mq_elems impl = v # mq_elems impl'"
proof -
  from assms obtain q where q: "mQueue impl = Some q" "uq_inv (Suc k) q" "q_mParent impl = parent" "mIsActive impl = 1"
    by (auto simp: mq_inv_def mq_ok_def)
  from uq_rmv_law[OF q(2)] obtain q' v where
    "uq_rmv q = Some (q', uq_call_of v)" "uq_inv k q'" "uq_elems q = v # uq_elems q'" by blast
  with q show ?thesis
    by (intro exI[of _ "impl\<lparr>mQueue := Some q'\<rparr>"] exI[of _ v]) (simp add: mq_rmv_def mq_inv_def mq_ok_def mq_elems_def)
qed

interpretation mq: event_queue "mq_inv parent" mq_elems mq_enq mq_acq mq_rmv "mq_val_ok parent" uq_call_of
  for parent
  by unfold_locales (rule mq_enq_law mq_held_law mq_acq_ready mq_acq_law mq_rmv_law; assumption)+

lemma create_active:
  assumes "zmqBridgeMamaQueue_create memb memq memc semrc maxq iniq chunkq True parent =
      Some (MAMA_STATUS_OK, Some impl)" "chunkq \<noteq> 0"
  shows "mq_inv parent 0 impl" "mq_elems impl = []"
    "mHighWaterFired impl = 0 \<and> mHighWatermark impl = 0 \<and> mLowWatermark impl = 0"
proof -
  from assms(1) obtain q0 q where
    a: "memq" "uQueue_allocate True maxq chunkq = (WOMBAT_QUEUE_OK, Some q0)"
      "uQueue_create memc semrc chunkq q0 maxq iniq chunkq = Some (WOMBAT_QUEUE_OK, q)"
      "impl = zeroQueueBridge\<lparr>mIsActive := 1, q_mParent := parent, mQueue := Some q\<rparr>"
    by (auto simp: zmqBridgeMamaQueue_create_def Let_def uQueue_allocate_def split: if_splits option.splits)
  moreover have "semrc = 0" using a(3) by (auto simp: uQueue_create_def Let_def split: if_splits)
  ultimately have "uq_new maxq chunkq maxq iniq chunkq q" unfolding uq_new_def by blast
  from uq_new_start[OF this assms(2)] a(4) show "mq_inv parent 0 impl" "mq_elems impl = []"
    "mHighWaterFired impl = 0 \<and> mHighWatermark impl = 0 \<and> mLowWatermark impl = 0"
    by (auto simp: mq_inv_def mq_ok_def mq_elems_def zeroQueueBridge_def)
qed

subsection \<open>Properties\<close>

text \<open>A queue as \<open>zmqBridgeMamaQueue_create\<close> returns it.\<close>

definition mq_demo :: "(nat, nat, nat) zmqQueueBridge" where
  "mq_demo = the (snd (the (zmqBridgeMamaQueue_create True True True 0 10 0 2 True (Some 1))))"

lemma mq_demo_created:
  "zmqBridgeMamaQueue_create True True True 0 10 0 2 True (Some 1) = Some (MAMA_STATUS_OK, Some mq_demo)"
proof -
  have "map_option fst (zmqBridgeMamaQueue_create True True True 0 10 0 2 True (Some 1) ::
      (_ \<times> (nat, nat, nat) zmqQueueBridge option) option) = Some MAMA_STATUS_OK"
    by code_simp
  moreover have "map_option (map_option q_mParent \<circ> snd) (zmqBridgeMamaQueue_create True True True 0 10 0 2 True (Some 1) ::
      (_ \<times> (nat, nat, nat) zmqQueueBridge option) option) = Some (Some (Some 1))"
    by code_simp
  ultimately show ?thesis unfolding mq_demo_def by (auto split: option.splits)
qed





text \<open>
  What an enqueue does depends on the active flag only: on an active queue the event is
  appended with \<open>MAMA_STATUS_OK\<close> or refused with \<open>MAMA_STATUS_PLATFORM\<close>; on an inactive one it is
  dropped although \<open>MAMA_STATUS_OK\<close> is returned. A queue from \<open>zmqBridgeMamaQueue_create\<close> is
  active; one from \<open>zmqBridgeMamaQueue_create_usingNative\<close> is not, so it drops every event
  until \<open>zmqBridgeMamaQueue_activate\<close> is called.
\<close>

theorem queue_active_flag:
  assumes "uq_inv 0 q" "parent \<noteq> None"
  shows "\<exists>impl. zmqBridgeMamaQueue_create_usingNative True True parent (Some q) = (MAMA_STATUS_OK, Some impl) \<and>
     zmqBridgeMamaQueue_enqueueMsg mem (Some impl) (Some cb) m = Some (MAMA_STATUS_OK, Some impl, []) \<and>
     (\<exists>impl1. zmqBridgeMamaQueue_activate (Some impl) = Some (MAMA_STATUS_OK, Some impl1) \<and>
        (\<exists>st impl2. zmqBridgeMamaQueue_enqueueMsg mem (Some impl1) (Some cb) m = Some (st, Some impl2, []) \<and>
          (if st = MAMA_STATUS_OK then mq_elems impl2 = uq_elems q @ [(Some cb, parent, 1, Msg m)]
           else st = MAMA_STATUS_PLATFORM \<and> mq_elems impl2 = uq_elems q)))"
proof -
  define impl :: "('a, 'c, 'b) zmqQueueBridge" where "impl = zeroQueueBridge\<lparr>q_mParent := parent, mQueue := Some q\<rparr>"
  define impl1 where "impl1 = impl\<lparr>mIsActive := 1\<rparr>"
  have "mq_ok 0 impl1" using assms(1) by (simp add: mq_ok_def impl1_def impl_def)
  from enqueueEventInt_spec[OF this, of 1 "Msg m" mem cb] obtain st impl2 where
    e: "zmqBridgeMamaQueue_enqueueEventInt mem (Some impl1) (Some cb) (Msg m) 1 = Some (st, Some impl2, [])"
      "st = MAMA_STATUS_OK \<and> mq_elems impl2 = mq_elems impl1 @ [(Some cb, q_mParent impl1, 1, Msg m)] \<or>
       st = MAMA_STATUS_PLATFORM \<and> mq_elems impl2 = mq_elems impl1"
    by (auto simp: impl1_def impl_def zeroQueueBridge_def)
  have "zmqBridgeMamaQueue_enqueueMsg mem (Some impl1) (Some cb) m = Some (st, Some impl2, [])"
    using e(1) by (simp add: zmqBridgeMamaQueue_enqueueMsg_def impl1_def)
  moreover have "mq_elems impl1 = uq_elems q" "q_mParent impl1 = parent" by (auto simp: impl1_def impl_def mq_elems_def)
  moreover have "zmqBridgeMamaQueue_activate (Some impl) = Some (MAMA_STATUS_OK, Some impl1)"
    by (simp add: zmqBridgeMamaQueue_activate_def impl1_def)
  moreover have "zmqBridgeMamaQueue_create_usingNative True True parent (Some q) = (MAMA_STATUS_OK, Some impl)"
    using assms(2) by (simp add: zmqBridgeMamaQueue_create_usingNative_def impl_def)
  moreover have "zmqBridgeMamaQueue_enqueueMsg mem (Some impl) (Some cb) m = Some (MAMA_STATUS_OK, Some impl, [])"
    by (simp add: zmqBridgeMamaQueue_enqueueMsg_def impl_def zeroQueueBridge_def)
  ultimately show ?thesis using e(2) by (intro exI[of _ impl] conjI exI[of _ impl1] exI[of _ st] exI[of _ impl2]) auto
qed

theorem queue_active_flag_witness:
  "\<exists>impl. zmqBridgeMamaQueue_create_usingNative True True (Some 1) (Some uq_demo0) =
       (MAMA_STATUS_OK, Some (impl :: (nat, nat, nat) zmqQueueBridge)) \<and>
     zmqBridgeMamaQueue_enqueueMsg True (Some impl) (Some 7) 5 = Some (MAMA_STATUS_OK, Some impl, [])"
  using queue_active_flag[of uq_demo0 "Some 1" True 7 5] uq_new_start(1)[OF uq_demo_new] by auto

text \<open>
  The watermark callbacks are not tied to watermarks being set: on a queue from
  \<open>zmqBridgeMamaQueue_create\<close>, where both marks are still zero, the first check reports the high
  watermark as exceeded with no event queued, the second one reports the low
  watermark, and the queue is then back in its initial state.
\<close>

theorem queue_unset_watermarks_fire:
  assumes "zmqBridgeMamaQueue_create memb memq memc semrc maxq iniq chunkq True parent =
      Some (MAMA_STATUS_OK, Some impl)" "chunkq \<noteq> 0"
  shows "\<exists>impl1. zmqBridgeMamaQueueImpl_checkWatermarks impl = (impl1, [HighWatermark parent 0]) \<and>
     zmqBridgeMamaQueueImpl_checkWatermarks impl1 = (impl, [LowWatermark parent 0])"
proof -
  note c = create_active[OF assms]
  from c(1) obtain q where q: "mQueue impl = Some q" "uq_inv 0 q" "q_mParent impl = parent" by (auto simp: mq_inv_def mq_ok_def)
  have "mSem q = 0" using uq_inv_length(2)[OF q(2)] c(2) q(1) by (simp add: mq_elems_def)
  then have n: "zmqBridgeMamaQueue_getEventCount (Some (impl\<lparr>mHighWaterFired := f\<rparr>)) True = (MAMA_STATUS_OK, Some 0)" for f
    using q(1) by (simp add: zmqBridgeMamaQueue_getEventCount_def CHECK_QUEUE_def uQueue_getSize_def)
  let ?i = "impl\<lparr>mHighWaterFired := 1\<rparr>"
  have same: "impl\<lparr>mHighWaterFired := 0\<rparr> = impl" using c(3) by simp
  have "zmqBridgeMamaQueueImpl_checkWatermarks impl = (?i, [HighWatermark parent 0])"
    using n[of 0] c(3) q(3) unfolding same by (simp add: zmqBridgeMamaQueueImpl_checkWatermarks_def)
  moreover have "zmqBridgeMamaQueueImpl_checkWatermarks ?i = (impl, [LowWatermark parent 0])"
    using n[of 1] c(3) q(3) same by (simp add: zmqBridgeMamaQueueImpl_checkWatermarks_def)
  ultimately show ?thesis by blast
qed

theorem queue_unset_watermarks_fire_witness:
  "\<exists>impl1. zmqBridgeMamaQueueImpl_checkWatermarks mq_demo = (impl1, [HighWatermark (Some 1) 0])"
  using queue_unset_watermarks_fire[OF mq_demo_created] by auto

end
