(* ===== verification/OZ_Util.thy ===== *)
theory OZ_Util
  imports OZ_Prelude
begin

text \<open>
  \<open>src/src/util.c\<close>: unique identifiers, and the names, log levels and masks of the socket
  events that ZeroMQ reports to the monitor thread.
\<close>

unbundle bit_operations_syntax

subsection \<open>Identifiers\<close>

text \<open>
  \<open>zmqBridge_generateUuid\<close>: the result of the UUID library, \<open>rc\<close> and the string that
  \<open>wUuid_unparse\<close> writes, is an argument; \<open>None\<close> is \<open>NULL\<close>.
\<close>

definition zmqBridge_generateUuid :: "int \<Rightarrow> cstring \<Rightarrow> cstring option" where
  "zmqBridge_generateUuid rc unparsed = (if rc = -1 then None else Some unparsed)"

definition hexdigit :: "nat \<Rightarrow> char" where
  "hexdigit d = ''0123456789abcdef'' ! d"

fun hex_of :: "nat \<Rightarrow> string" where
  "hex_of n = (if n < 16 then [hexdigit n] else hex_of (n div 16) @ [hexdigit (n mod 16)])"

declare hex_of.simps [simp del]

text \<open>\<open>sprintf(temp, "%016llx", next)\<close>\<close>

definition fmt_016llx :: "64 word \<Rightarrow> string" where
  "fmt_016llx w = (let h = hex_of (unat w) in replicate (16 - length h) (CHR ''0'') @ h)"

text \<open>
  \<open>zmqBridge_generateSerial\<close>: the counter is incremented atomically and modulo \<open>2 ^ 64\<close>; the
  result is the new counter and the string.
\<close>

definition zmqBridge_generateSerial :: "64 word \<Rightarrow> 64 word \<times> cstring" where
  "zmqBridge_generateSerial uid = (let nxt = uid + 1 in (nxt, fmt_016llx nxt))"

text \<open>The strings of \<open>n\<close> successive calls on one counter.\<close>

fun serials :: "nat \<Rightarrow> 64 word \<Rightarrow> cstring list" where
  "serials 0 uid = []"
| "serials (Suc n) uid = (case zmqBridge_generateSerial uid of (uid', s) \<Rightarrow> s # serials n uid')"

text \<open>Reading a hexadecimal string back.\<close>

definition hexval :: "char \<Rightarrow> nat" where
  "hexval c = (if of_char c < (58 :: nat) then of_char c - 48 else of_char c - 87)"

definition hex_to_nat :: "string \<Rightarrow> nat" where
  "hex_to_nat s = foldl (\<lambda>a c. 16 * a + hexval c) 0 s"

subsection \<open>Socket events\<close>

text \<open>The log levels of OpenMAMA, by name; the order of their values is an argument where it matters.\<close>

datatype MamaLogLevel =
    MAMA_LOG_LEVEL_OFF
  | MAMA_LOG_LEVEL_SEVERE
  | MAMA_LOG_LEVEL_ERROR
  | MAMA_LOG_LEVEL_WARN
  | MAMA_LOG_LEVEL_NORMAL
  | MAMA_LOG_LEVEL_FINE
  | MAMA_LOG_LEVEL_FINER
  | MAMA_LOG_LEVEL_FINEST

text \<open>
  The events that the sources name. The codes of the first eleven come from \<open>zmq.h\<close> and are
  the argument \<open>z\<close>; \<open>util.c\<close> itself defines the last four.
\<close>

datatype zmq_event =
    ZMQ_EVENT_CONNECTED | ZMQ_EVENT_CONNECT_DELAYED | ZMQ_EVENT_CONNECT_RETRIED
  | ZMQ_EVENT_LISTENING | ZMQ_EVENT_BIND_FAILED | ZMQ_EVENT_ACCEPTED | ZMQ_EVENT_ACCEPT_FAILED
  | ZMQ_EVENT_CLOSED | ZMQ_EVENT_CLOSE_FAILED | ZMQ_EVENT_DISCONNECTED | ZMQ_EVENT_MONITOR_STOPPED
  | ZMQ_EVENT_HANDSHAKE_FAILED_NO_DETAIL | ZMQ_EVENT_HANDSHAKE_SUCCEEDED
  | ZMQ_EVENT_HANDSHAKE_FAILED_PROTOCOL | ZMQ_EVENT_HANDSHAKE_FAILED_AUTH

definition event_code :: "(zmq_event \<Rightarrow> 64 word) \<Rightarrow> zmq_event \<Rightarrow> 64 word" where
  "event_code z e =
     (case e of
        ZMQ_EVENT_HANDSHAKE_FAILED_NO_DETAIL \<Rightarrow> 0x0800
      | ZMQ_EVENT_HANDSHAKE_SUCCEEDED \<Rightarrow> 0x1000
      | ZMQ_EVENT_HANDSHAKE_FAILED_PROTOCOL \<Rightarrow> 0x2000
      | ZMQ_EVENT_HANDSHAKE_FAILED_AUTH \<Rightarrow> 0x4000
      | _ \<Rightarrow> z e)"

text \<open>A \<open>switch\<close> over event codes: the first case whose code matches, or the default.\<close>

fun switch :: "('a \<times> 'b) list \<Rightarrow> 'b \<Rightarrow> 'a \<Rightarrow> 'b" where
  "switch [] d x = d"
| "switch ((c, r) # cs) d x = (if x = c then r else switch cs d x)"

definition get_zmqEventName :: "(zmq_event \<Rightarrow> 64 word) \<Rightarrow> 64 word \<Rightarrow> cstring" where
  "get_zmqEventName z = switch (map (\<lambda>(e, r). (event_code z e, r))
     [(ZMQ_EVENT_CONNECTED, ''CONNECTED''),
      (ZMQ_EVENT_CONNECT_DELAYED, ''CONNECT_DELAYED''),
      (ZMQ_EVENT_CONNECT_RETRIED, ''CONNECT_RETRIED''),
      (ZMQ_EVENT_LISTENING, ''LISTENING''),
      (ZMQ_EVENT_BIND_FAILED, ''BIND_FAILED''),
      (ZMQ_EVENT_ACCEPTED, ''ACCEPTED''),
      (ZMQ_EVENT_ACCEPT_FAILED, ''ACCEPT_FAILED''),
      (ZMQ_EVENT_CLOSED, ''CLOSED''),
      (ZMQ_EVENT_CLOSE_FAILED, ''CLOSE_FAILED''),
      (ZMQ_EVENT_DISCONNECTED, ''DISCONNECTED''),
      (ZMQ_EVENT_MONITOR_STOPPED, ''MONITOR_STOPPED''),
      (ZMQ_EVENT_HANDSHAKE_FAILED_NO_DETAIL, ''HANDSHAKE_FAILED_NO_DETAIL''),
      (ZMQ_EVENT_HANDSHAKE_SUCCEEDED, ''HANDSHAKE_SUCCEEDED''),
      (ZMQ_EVENT_HANDSHAKE_FAILED_PROTOCOL, ''HANDSHAKE_FAILED_PROTOCOL''),
      (ZMQ_EVENT_HANDSHAKE_FAILED_AUTH, ''HANDSHAKE_FAILED_AUTH'')]) ''UNKNOWN''"

definition get_zmqEventLogLevel :: "(zmq_event \<Rightarrow> 64 word) \<Rightarrow> 64 word \<Rightarrow> MamaLogLevel" where
  "get_zmqEventLogLevel z = switch (map (\<lambda>(e, r). (event_code z e, r))
     [(ZMQ_EVENT_CONNECTED, MAMA_LOG_LEVEL_NORMAL),
      (ZMQ_EVENT_CONNECT_DELAYED, MAMA_LOG_LEVEL_FINER),
      (ZMQ_EVENT_CONNECT_RETRIED, MAMA_LOG_LEVEL_FINE),
      (ZMQ_EVENT_LISTENING, MAMA_LOG_LEVEL_NORMAL),
      (ZMQ_EVENT_BIND_FAILED, MAMA_LOG_LEVEL_ERROR),
      (ZMQ_EVENT_ACCEPTED, MAMA_LOG_LEVEL_NORMAL),
      (ZMQ_EVENT_ACCEPT_FAILED, MAMA_LOG_LEVEL_ERROR),
      (ZMQ_EVENT_CLOSED, MAMA_LOG_LEVEL_NORMAL),
      (ZMQ_EVENT_CLOSE_FAILED, MAMA_LOG_LEVEL_ERROR),
      (ZMQ_EVENT_DISCONNECTED, MAMA_LOG_LEVEL_NORMAL),
      (ZMQ_EVENT_MONITOR_STOPPED, MAMA_LOG_LEVEL_FINE),
      (ZMQ_EVENT_HANDSHAKE_FAILED_NO_DETAIL, MAMA_LOG_LEVEL_ERROR),
      (ZMQ_EVENT_HANDSHAKE_SUCCEEDED, MAMA_LOG_LEVEL_NORMAL),
      (ZMQ_EVENT_HANDSHAKE_FAILED_PROTOCOL, MAMA_LOG_LEVEL_ERROR),
      (ZMQ_EVENT_HANDSHAKE_FAILED_AUTH, MAMA_LOG_LEVEL_ERROR)]) MAMA_LOG_LEVEL_ERROR"

text \<open>
  \<open>get_zmqEventMask\<close>: the cases of the \<open>switch\<close> fall through, so a level adds its own events
  and those of the cases below it. No case exists for the other levels.
\<close>

definition or_events :: "(zmq_event \<Rightarrow> 64 word) \<Rightarrow> zmq_event list \<Rightarrow> 64 word \<Rightarrow> 64 word" where
  "or_events z es m = fold (\<lambda>e m. m OR event_code z e) es m"

definition get_zmqEventMask :: "(zmq_event \<Rightarrow> 64 word) \<Rightarrow> MamaLogLevel \<Rightarrow> 64 word" where
  "get_zmqEventMask z logLevel =
     (let finer = or_events z [ZMQ_EVENT_CONNECT_DELAYED];
          fine = or_events z [ZMQ_EVENT_CONNECT_RETRIED, ZMQ_EVENT_MONITOR_STOPPED];
          normal = or_events z [ZMQ_EVENT_CONNECTED, ZMQ_EVENT_ACCEPTED, ZMQ_EVENT_DISCONNECTED,
            ZMQ_EVENT_HANDSHAKE_SUCCEEDED, ZMQ_EVENT_LISTENING, ZMQ_EVENT_CLOSED];
          error = or_events z [ZMQ_EVENT_BIND_FAILED, ZMQ_EVENT_ACCEPT_FAILED, ZMQ_EVENT_CLOSE_FAILED,
            ZMQ_EVENT_HANDSHAKE_FAILED_NO_DETAIL, ZMQ_EVENT_HANDSHAKE_FAILED_PROTOCOL,
            ZMQ_EVENT_HANDSHAKE_FAILED_AUTH]
      in case logLevel of
           MAMA_LOG_LEVEL_FINEST \<Rightarrow> error (normal (fine (finer 0)))
         | MAMA_LOG_LEVEL_FINER \<Rightarrow> error (normal (fine (finer 0)))
         | MAMA_LOG_LEVEL_FINE \<Rightarrow> error (normal (fine 0))
         | MAMA_LOG_LEVEL_NORMAL \<Rightarrow> error (normal 0)
         | MAMA_LOG_LEVEL_ERROR \<Rightarrow> error 0
         | _ \<Rightarrow> 0)"

text \<open>\<open>getNamingLogLevel\<close>: the two levels are global variables that \<open>params.c\<close> sets.\<close>

definition getNamingLogLevel :: "'l \<Rightarrow> 'l \<Rightarrow> char \<Rightarrow> 'l" where
  "getNamingLogLevel log_level_beacon log_level_naming mType =
     (if mType = CHR ''c'' then log_level_beacon else log_level_naming)"

text \<open>\<open>getMillis\<close> of a \<open>gettimeofday\<close> result.\<close>

definition getMillis :: "64 word \<Rightarrow> 64 word \<Rightarrow> 64 word" where
  "getMillis tv_sec tv_usec = tv_sec * 1000 + tv_usec div 1000"

subsection \<open>Serial numbers\<close>

lemma hexdigit_val: "d < 16 \<Longrightarrow> hexval (hexdigit d) = d"
proof -
  assume "d < 16"
  then have "d \<in> set [0..<16]" by simp
  moreover have "\<forall>d \<in> set [0..<16]. hexval (hexdigit d) = d" by code_simp
  ultimately show ?thesis by blast
qed

lemma hexdigit_cstring: "d < 16 \<Longrightarrow> hexdigit d \<noteq> NUL"
proof -
  assume "d < 16"
  then have "d \<in> set [0..<16]" by simp
  moreover have "\<forall>d \<in> set [0..<16]. hexdigit d \<noteq> NUL" by code_simp
  ultimately show ?thesis by blast
qed

lemma hex_of_val: "hex_to_nat (hex_of n) = n"
proof (induction n rule: hex_of.induct)
  case (1 n)
  then show ?case
    by (subst hex_of.simps) (auto simp: hex_to_nat_def hexdigit_val)
qed

lemma hex_of_length: "0 < k \<Longrightarrow> n < 16 ^ k \<Longrightarrow> length (hex_of n) \<le> k"
proof (induction n arbitrary: k rule: hex_of.induct)
  case (1 n)
  show ?case
  proof (cases "n < 16")
    case True
    then show ?thesis using 1(2) by (subst hex_of.simps) simp
  next
    case False
    then obtain j where j: "k = Suc j" "0 < j"
      using 1(2,3) by (cases k; cases "k - 1") auto
    then have "n div 16 < 16 ^ j" using 1(3) by (simp add: less_mult_imp_div_less mult.commute)
    from 1(1)[OF False j(2) this] False j show ?thesis by (subst hex_of.simps) simp
  qed
qed

lemma hex_of_cstring: "is_cstring (hex_of n)"
proof (induction n rule: hex_of.induct)
  case (1 n)
  then show ?case by (subst hex_of.simps) (auto simp: hexdigit_cstring)
qed

lemma hex_to_nat_zeros: "hex_to_nat (replicate k (CHR ''0'') @ s) = hex_to_nat s"
proof -
  have "foldl (\<lambda>a c. 16 * a + hexval c) 0 (replicate k (CHR ''0'')) = 0"
    by (induction k) (auto simp: hexval_def)
  then show ?thesis by (simp add: hex_to_nat_def)
qed

lemma fmt_length: "length (fmt_016llx w) = 16"
proof -
  have "unat w < 16 ^ 16" using unsigned_less[of w, where ?'a = nat] by simp
  then have "length (hex_of (unat w)) \<le> 16" by (intro hex_of_length) auto
  then show ?thesis by (simp add: fmt_016llx_def Let_def)
qed

lemma fmt_val: "hex_to_nat (fmt_016llx w) = unat w"
  by (simp add: fmt_016llx_def Let_def hex_to_nat_zeros hex_of_val)

lemma fmt_cstring: "is_cstring (fmt_016llx w)"
  using hex_of_cstring by (auto simp: fmt_016llx_def Let_def is_cstring_def)

lemma fmt_inj: "fmt_016llx v = fmt_016llx w \<longleftrightarrow> v = w"
  by (metis fmt_val word_unat_eq_iff)

lemma serials_eq: "serials n uid = map (\<lambda>i. fmt_016llx (uid + word_of_nat (Suc i))) [0..<n]"
proof (induction n arbitrary: uid)
  case (Suc n)
  have "serials (Suc n) uid =
      fmt_016llx (uid + 1) # map (\<lambda>i. fmt_016llx (uid + 1 + word_of_nat (Suc i))) [0..<n]"
    using Suc by (simp add: zmqBridge_generateSerial_def Let_def)
  also have "\<dots> = map (\<lambda>i. fmt_016llx (uid + word_of_nat (Suc i))) (0 # map Suc [0..<n])"
    by (simp add: ac_simps)
  also have "0 # map Suc [0..<n] = [0..<Suc n]" by (simp add: map_Suc_upt upt_conv_Cons del: upt_Suc)
  finally show ?case .
qed simp

text \<open>
  The serial numbers of inboxes and subscriptions: each has exactly sixteen characters (so
  it fits \<open>temp\<close> and the fields sized for it) and no null, its value is the counter, and up
  to \<open>2 ^ 64\<close> successive calls on one counter never return the same string, wherever the
  counter starts.
\<close>

theorem serials_unique:
  assumes "n \<le> 2 ^ 64"
  shows "distinct (serials n uid) \<and>
     list_all (\<lambda>s. length s = 16 \<and> is_cstring s) (serials n uid) \<and>
     map hex_to_nat (serials n uid) = map (\<lambda>i. (unat uid + Suc i) mod 2 ^ 64) [0..<n]"
proof (intro conjI)
  have "i = j" if "i < n" "j < n" "(word_of_nat (Suc i) :: 64 word) = word_of_nat (Suc j)" for i j
  proof -
    have "Suc i mod 2 ^ 64 = Suc j mod 2 ^ 64"
      using that(3) unfolding word_of_nat_eq_iff take_bit_eq_mod by simp
    with that(1,2) assms show ?thesis
      by (cases "Suc i = 2 ^ 64"; cases "Suc j = 2 ^ 64") auto
  qed
  then show "distinct (serials n uid)"
    unfolding serials_eq distinct_map by (auto simp: inj_on_def fmt_inj)
  show "list_all (\<lambda>s. length s = 16 \<and> is_cstring s) (serials n uid)"
    by (simp add: serials_eq list_all_iff fmt_length fmt_cstring)
  show "map hex_to_nat (serials n uid) = map (\<lambda>i. (unat uid + Suc i) mod 2 ^ 64) [0..<n]"
    by (simp add: serials_eq fmt_val unat_word_ariths unat_of_nat take_bit_eq_mod mod_simps)
qed

theorem serials_unique_witness:
  "distinct (serials 2 9) \<and> serials 2 9 = [''000000000000000a'', ''000000000000000b'']"
proof -
  have "hex_of 10 = ''a''" "hex_of 11 = ''b''" by (simp_all add: hex_of.simps hexdigit_def)
  then have "serials 2 9 = [''000000000000000a'', ''000000000000000b'']"
    by (simp add: serials_eq fmt_016llx_def Let_def upt_rec) (simp add: numeral_eq_Suc)
  with serials_unique[of 2 9] show ?thesis by simp
qed

subsection \<open>Event masks\<close>

text \<open>What \<open>zmq.h\<close> documents: its events are distinct single bits below those that \<open>util.c\<close> adds.\<close>

definition zmq_codes :: "(zmq_event \<Rightarrow> 64 word) \<Rightarrow> bool" where
  "zmq_codes z \<longleftrightarrow>
     (\<exists>bitno. (\<forall>e. event_code z e = 2 ^ bitno e) \<and> (\<forall>e. bitno e < 15) \<and> inj bitno)"

text \<open>The order of the log levels of OpenMAMA, from \<open>OFF\<close> to \<open>FINEST\<close>.\<close>

definition log_ranked :: "(MamaLogLevel \<Rightarrow> nat) \<Rightarrow> bool" where
  "log_ranked rank \<longleftrightarrow>
     rank MAMA_LOG_LEVEL_OFF < rank MAMA_LOG_LEVEL_SEVERE \<and>
     rank MAMA_LOG_LEVEL_SEVERE < rank MAMA_LOG_LEVEL_ERROR \<and>
     rank MAMA_LOG_LEVEL_ERROR < rank MAMA_LOG_LEVEL_WARN \<and>
     rank MAMA_LOG_LEVEL_WARN < rank MAMA_LOG_LEVEL_NORMAL \<and>
     rank MAMA_LOG_LEVEL_NORMAL < rank MAMA_LOG_LEVEL_FINE \<and>
     rank MAMA_LOG_LEVEL_FINE < rank MAMA_LOG_LEVEL_FINER \<and>
     rank MAMA_LOG_LEVEL_FINER < rank MAMA_LOG_LEVEL_FINEST"

lemma pow2_bit: "i < 64 \<Longrightarrow> bit (2 ^ j :: 64 word) i \<longleftrightarrow> i = j"
  by (auto simp: bit_simps)

lemma event_code_inj:
  assumes "zmq_codes z"
  shows "event_code z e = event_code z e' \<longleftrightarrow> e = e'"
proof -
  from assms obtain b where b: "\<And>e. event_code z e = 2 ^ b e" "\<And>e. b e < 15" "inj b"
    by (auto simp: zmq_codes_def)
  have "bit (event_code z x) (b y) \<longleftrightarrow> x = y" for x y
    using b(2)[of y] pow2_bit[of "b y" "b x"] b(3) by (auto simp: b(1) inj_eq)
  then show ?thesis by metis
qed

text \<open>A mask that was built from events contains exactly these events.\<close>

lemma or_events_and:
  assumes "zmq_codes z"
  shows "or_events z es m AND event_code z e \<noteq> 0 \<longleftrightarrow> m AND event_code z e \<noteq> 0 \<or> e \<in> set es"
proof -
  from assms obtain b where b: "\<And>e. event_code z e = 2 ^ b e" "\<And>e. b e < 15" "inj b"
    by (auto simp: zmq_codes_def)
  have code: "bit (event_code z x) (b y) \<longleftrightarrow> x = y" for x y
    using b(2)[of y] pow2_bit[of "b y" "b x"] b(3) by (auto simp: b(1) inj_eq)
  have test: "w AND event_code z e \<noteq> 0 \<longleftrightarrow> bit w (b e)" for w
    using b(2)[of e] unfolding b(1) bit_eq_iff[of _ "0 :: 64 word"]
    by (auto simp: bit_simps)
  have "bit (or_events z es m) (b e) \<longleftrightarrow> bit m (b e) \<or> e \<in> set es"
    unfolding or_events_def by (induction es arbitrary: m) (auto simp: bit_simps code)
  then show ?thesis by (simp add: test)
qed

lemma switch_codes:
  assumes "zmq_codes z"
  shows "switch (map (\<lambda>(e, r). (event_code z e, r)) cs) d (event_code z e) = switch cs d e"
  using assms by (induction cs) (auto simp: event_code_inj)

text \<open>
  C23. The event mask agrees with the log levels of the events, as both comments in \<open>util.c\<close>
  demand: the monitor of a process that logs at \<open>level\<close> asks for exactly the events whose
  own level is at or below it. The one exception is \<open>MAMA_LOG_LEVEL_WARN\<close>, for which the
  \<open>switch\<close> has no case: no event is requested at all, not even those of level \<open>ERROR\<close>.
\<close>

theorem event_mask_matches_levels:
  assumes "zmq_codes z" "log_ranked rank"
  shows "get_zmqEventMask z MAMA_LOG_LEVEL_WARN = 0 \<and>
    (level \<noteq> MAMA_LOG_LEVEL_WARN \<longrightarrow>
     (get_zmqEventMask z level AND event_code z e \<noteq> 0 \<longleftrightarrow>
        rank (get_zmqEventLogLevel z (event_code z e)) \<le> rank level))"
proof -
  have "get_zmqEventMask z MAMA_LOG_LEVEL_WARN = 0" by (simp add: get_zmqEventMask_def Let_def)
  moreover have "get_zmqEventMask z level AND event_code z e \<noteq> 0 \<longleftrightarrow>
     rank (get_zmqEventLogLevel z (event_code z e)) \<le> rank level" if "level \<noteq> MAMA_LOG_LEVEL_WARN"
    using that assms(2) unfolding get_zmqEventMask_def get_zmqEventLogLevel_def switch_codes[OF assms(1)] Let_def
    by (cases level; cases e) (auto simp: or_events_and[OF assms(1), simplified] log_ranked_def)
  ultimately show ?thesis by blast
qed

text \<open>A numbering of the events and of the levels with the documented properties.\<close>

definition demo_codes :: "zmq_event \<Rightarrow> 64 word" where
  "demo_codes e = (case e of ZMQ_EVENT_CONNECTED \<Rightarrow> 1 | ZMQ_EVENT_CONNECT_DELAYED \<Rightarrow> 2
     | ZMQ_EVENT_CONNECT_RETRIED \<Rightarrow> 4 | ZMQ_EVENT_LISTENING \<Rightarrow> 8 | ZMQ_EVENT_BIND_FAILED \<Rightarrow> 16
     | ZMQ_EVENT_ACCEPTED \<Rightarrow> 32 | ZMQ_EVENT_ACCEPT_FAILED \<Rightarrow> 64 | ZMQ_EVENT_CLOSED \<Rightarrow> 128
     | ZMQ_EVENT_CLOSE_FAILED \<Rightarrow> 256 | ZMQ_EVENT_DISCONNECTED \<Rightarrow> 512 | _ \<Rightarrow> 1024)"

definition demo_bit :: "zmq_event \<Rightarrow> nat" where
  "demo_bit e = (case e of ZMQ_EVENT_CONNECTED \<Rightarrow> 0 | ZMQ_EVENT_CONNECT_DELAYED \<Rightarrow> 1
     | ZMQ_EVENT_CONNECT_RETRIED \<Rightarrow> 2 | ZMQ_EVENT_LISTENING \<Rightarrow> 3 | ZMQ_EVENT_BIND_FAILED \<Rightarrow> 4
     | ZMQ_EVENT_ACCEPTED \<Rightarrow> 5 | ZMQ_EVENT_ACCEPT_FAILED \<Rightarrow> 6 | ZMQ_EVENT_CLOSED \<Rightarrow> 7
     | ZMQ_EVENT_CLOSE_FAILED \<Rightarrow> 8 | ZMQ_EVENT_DISCONNECTED \<Rightarrow> 9 | ZMQ_EVENT_MONITOR_STOPPED \<Rightarrow> 10
     | ZMQ_EVENT_HANDSHAKE_FAILED_NO_DETAIL \<Rightarrow> 11 | ZMQ_EVENT_HANDSHAKE_SUCCEEDED \<Rightarrow> 12
     | ZMQ_EVENT_HANDSHAKE_FAILED_PROTOCOL \<Rightarrow> 13 | ZMQ_EVENT_HANDSHAKE_FAILED_AUTH \<Rightarrow> 14)"

definition demo_rank :: "MamaLogLevel \<Rightarrow> nat" where
  "demo_rank l = (case l of MAMA_LOG_LEVEL_OFF \<Rightarrow> 0 | MAMA_LOG_LEVEL_SEVERE \<Rightarrow> 1
     | MAMA_LOG_LEVEL_ERROR \<Rightarrow> 2 | MAMA_LOG_LEVEL_WARN \<Rightarrow> 3 | MAMA_LOG_LEVEL_NORMAL \<Rightarrow> 4
     | MAMA_LOG_LEVEL_FINE \<Rightarrow> 5 | MAMA_LOG_LEVEL_FINER \<Rightarrow> 6 | MAMA_LOG_LEVEL_FINEST \<Rightarrow> 7)"

lemma demo_codes_ok: "zmq_codes demo_codes"
proof -
  have "event_code demo_codes e = 2 ^ demo_bit e" "demo_bit e < 15" for e
    by (cases e; simp add: event_code_def demo_codes_def demo_bit_def)+
  moreover have "inj demo_bit"
  proof (rule injI)
    fix x y assume "demo_bit x = demo_bit y"
    then show "x = y" by (cases x; cases y) (simp_all add: demo_bit_def)
  qed
  ultimately show ?thesis unfolding zmq_codes_def by blast
qed

theorem event_mask_matches_levels_witness:
  "zmq_codes demo_codes \<and> log_ranked demo_rank \<and>
   get_zmqEventMask demo_codes MAMA_LOG_LEVEL_FINE AND event_code demo_codes ZMQ_EVENT_CLOSED \<noteq> 0"
proof -
  have r: "log_ranked demo_rank" by (simp add: log_ranked_def demo_rank_def)
  have "get_zmqEventLogLevel demo_codes (event_code demo_codes ZMQ_EVENT_CLOSED) = MAMA_LOG_LEVEL_NORMAL"
    unfolding get_zmqEventLogLevel_def switch_codes[OF demo_codes_ok] by simp
  with event_mask_matches_levels[OF demo_codes_ok r, of MAMA_LOG_LEVEL_FINE ZMQ_EVENT_CLOSED] r demo_codes_ok
  show ?thesis by (simp add: demo_rank_def)
qed

end
