(* ===== verification/OZ_Msg.thy ===== *)
theory OZ_Msg
  imports OZ_Prelude
begin

text \<open>
  Bridge messages, \<open>src/src/msg.c\<close>: the structure that accompanies a MAMA message, its setters
  and getters, and the wire format of application messages with the routines that write and
  read it, byte by byte.
\<close>

subsection \<open>Data\<close>

definition MAX_SUBJECT_LENGTH :: nat where "MAX_SUBJECT_LENGTH = 256"
definition UUID_STRING_SIZE :: nat where "UUID_STRING_SIZE = 36"
definition ZMQ_INBOX_SUBJECT_SIZE :: nat where "ZMQ_INBOX_SUBJECT_SIZE = 6 + 1 + UUID_STRING_SIZE"
definition ZMQ_REPLYHANDLE_INBOXNAME_INDEX :: nat where
  "ZMQ_REPLYHANDLE_INBOXNAME_INDEX = ZMQ_INBOX_SUBJECT_SIZE + 1"
definition ZMQ_REPLYHANDLE_INBOXNAME_SIZE :: nat where "ZMQ_REPLYHANDLE_INBOXNAME_SIZE = 16"
definition ZMQ_REPLYHANDLE_SIZE :: nat where
  "ZMQ_REPLYHANDLE_SIZE = ZMQ_INBOX_SUBJECT_SIZE + 1 + ZMQ_REPLYHANDLE_INBOXNAME_SIZE"

lemmas oz_sizes = MAX_SUBJECT_LENGTH_def UUID_STRING_SIZE_def ZMQ_INBOX_SUBJECT_SIZE_def
  ZMQ_REPLYHANDLE_INBOXNAME_INDEX_def ZMQ_REPLYHANDLE_INBOXNAME_SIZE_def ZMQ_REPLYHANDLE_SIZE_def

text \<open>The values of \<open>zmqMsgType\<close>, as the byte that \<open>mMsgType\<close> holds.\<close>

definition ZMQ_MSG_UNKNOWN :: byte where "ZMQ_MSG_UNKNOWN = CHR 0x00"
definition ZMQ_MSG_PUB_SUB :: byte where "ZMQ_MSG_PUB_SUB = CHR 0x01"
definition ZMQ_MSG_INBOX_REQUEST :: byte where "ZMQ_MSG_INBOX_REQUEST = CHR 0x02"
definition ZMQ_MSG_INBOX_RESPONSE :: byte where "ZMQ_MSG_INBOX_RESPONSE = CHR 0x03"

lemmas msg_types = ZMQ_MSG_UNKNOWN_def ZMQ_MSG_PUB_SUB_def ZMQ_MSG_INBOX_REQUEST_def
  ZMQ_MSG_INBOX_RESPONSE_def

record zmqBridgeMsgImpl =
  msg_mParent :: voidp
  mMsgType :: byte
  mReplyHandle :: cstring
  mSendSubject :: cstring

text \<open>The strings fit the arrays that hold them.\<close>

definition msg_wf :: "zmqBridgeMsgImpl \<Rightarrow> bool" where
  "msg_wf impl \<longleftrightarrow> is_cstring (mReplyHandle impl) \<and> length (mReplyHandle impl) \<le> ZMQ_REPLYHANDLE_SIZE \<and>
     is_cstring (mSendSubject impl) \<and> length (mSendSubject impl) \<le> MAX_SUBJECT_LENGTH"

subsection \<open>Creation and accessors\<close>

definition zmqBridgeMamaMsgImpl_init :: "zmqBridgeMsgImpl \<Rightarrow> mama_status \<times> zmqBridgeMsgImpl" where
  "zmqBridgeMamaMsgImpl_init msg =
     (MAMA_STATUS_OK, msg\<lparr>msg_mParent := None, mMsgType := ZMQ_MSG_PUB_SUB, mReplyHandle := '''', mSendSubject := ''''\<rparr>)"

text \<open>\<open>mem\<close>: whether \<open>calloc\<close> succeeds; \<open>out\<close>: whether the pointer for the result is not \<open>NULL\<close>.\<close>

definition zmqBridgeMamaMsgImpl_createMsgOnly :: "bool \<Rightarrow> bool \<Rightarrow> mama_status \<times> zmqBridgeMsgImpl option" where
  "zmqBridgeMamaMsgImpl_createMsgOnly mem out =
     (if \<not> out then (MAMA_STATUS_NULL_ARG, None)
      else if \<not> mem then (MAMA_STATUS_NOMEM, None)
      else (let impl = \<lparr>msg_mParent = None, mMsgType = CHR 0x00, mReplyHandle = '''', mSendSubject = ''''\<rparr>
            in map_prod id Some (zmqBridgeMamaMsgImpl_init impl)))"

definition zmqBridgeMamaMsg_create :: "bool \<Rightarrow> bool \<Rightarrow> voidp \<Rightarrow> mama_status \<times> zmqBridgeMsgImpl option" where
  "zmqBridgeMamaMsg_create mem out parent =
     (if \<not> out \<or> parent = None then (MAMA_STATUS_NULL_ARG, None)
      else (case zmqBridgeMamaMsgImpl_createMsgOnly mem out of
              (s, msg) \<Rightarrow>
                if s \<noteq> MAMA_STATUS_OK then (s, msg)
                else (MAMA_STATUS_OK, map_option (\<lambda>impl. impl\<lparr>msg_mParent := parent\<rparr>) msg)))"

definition zmqBridgeMamaMsg_isFromInbox :: "zmqBridgeMsgImpl option \<Rightarrow> bool" where
  "zmqBridgeMamaMsg_isFromInbox msg =
     (case msg of
        None \<Rightarrow> False
      | Some impl \<Rightarrow>
          if mMsgType impl = ZMQ_MSG_INBOX_REQUEST then True
          else mReplyHandle impl \<noteq> [])"

text \<open>\<open>zmqBridgeMamaMsg_destroy\<close>: the second component is the object that is still allocated.\<close>

definition zmqBridgeMamaMsg_destroy :: "zmqBridgeMsgImpl option \<Rightarrow> mama_status \<times> zmqBridgeMsgImpl option" where
  "zmqBridgeMamaMsg_destroy msg =
     (case msg of None \<Rightarrow> (MAMA_STATUS_NULL_ARG, None) | Some _ \<Rightarrow> (MAMA_STATUS_OK, None))"

definition zmqBridgeMamaMsg_destroyMiddlewareMsg ::
  "zmqBridgeMsgImpl option \<Rightarrow> mama_status \<times> zmqBridgeMsgImpl option" where
  "zmqBridgeMamaMsg_destroyMiddlewareMsg msg = zmqBridgeMamaMsg_destroy msg"

text \<open>\<open>setOwner\<close> is \<open>mamaMsgImpl_setMessageOwner\<close> of the MAMA library.\<close>

definition zmqBridgeMamaMsg_detach :: "(voidp \<Rightarrow> mama_status) \<Rightarrow> zmqBridgeMsgImpl option \<Rightarrow> mama_status" where
  "zmqBridgeMamaMsg_detach setOwner msg =
     (case msg of None \<Rightarrow> MAMA_STATUS_NULL_ARG | Some impl \<Rightarrow> setOwner (msg_mParent impl))"

definition zmqBridgeMamaMsg_getPlatformError :: "zmqBridgeMsgImpl option \<Rightarrow> mama_status \<times> voidp" where
  "zmqBridgeMamaMsg_getPlatformError msg = (MAMA_STATUS_NOT_IMPLEMENTED, None)"

text \<open>
  \<open>wm size source\<close> is \<open>wmStrSizeCpy\<close> of the wombat library: the number of bytes copied into an
  array of \<open>size\<close> bytes, and the string it then holds. \<open>upd\<close> is \<open>mamaMsg_updateString\<close>.
\<close>

definition zmqBridgeMamaMsg_setSendSubject ::
  "(nat \<Rightarrow> cstring \<Rightarrow> nat \<times> cstring) \<Rightarrow> (voidp \<Rightarrow> cstring \<Rightarrow> mama_status)
     \<Rightarrow> zmqBridgeMsgImpl option \<Rightarrow> cstring option \<Rightarrow> cstring option
     \<Rightarrow> mama_status \<times> zmqBridgeMsgImpl option" where
  "zmqBridgeMamaMsg_setSendSubject wm upd msg symbol subject =
     (case (msg, symbol) of
        (Some impl, Some symb) \<Rightarrow>
          (case wm (MAX_SUBJECT_LENGTH + 1) symb of
             (n, copied) \<Rightarrow>
               (let impl = impl\<lparr>mSendSubject := copied\<rparr> in
                if n \<noteq> length symb then (MAMA_STATUS_PLATFORM, Some impl)
                else if msg_mParent impl \<noteq> None
                then (let s = upd (msg_mParent impl) symb in
                      if s \<noteq> MAMA_STATUS_OK then (s, Some impl) else (MAMA_STATUS_OK, Some impl))
                else (MAMA_STATUS_OK, Some impl)))
      | _ \<Rightarrow> (MAMA_STATUS_NULL_ARG, msg))"

text \<open>The contract of \<open>wmStrSizeCpy\<close>: a bounded copy that reports the bytes copied.\<close>

definition wmStrSizeCpy_ok :: "(nat \<Rightarrow> cstring \<Rightarrow> nat \<times> cstring) \<Rightarrow> bool" where
  "wmStrSizeCpy_ok wm \<longleftrightarrow> (\<forall>n s. wm (Suc n) s = (min n (length s), take n s))"

definition zmqBridgeMamaMsg_getNativeHandle ::
  "zmqBridgeMsgImpl option \<Rightarrow> bool \<Rightarrow> mama_status \<times> zmqBridgeMsgImpl option" where
  "zmqBridgeMamaMsg_getNativeHandle msg result =
     (if msg = None \<or> \<not> result then (MAMA_STATUS_NULL_ARG, None) else (MAMA_STATUS_OK, msg))"

definition zmqBridgeMamaMsg_getReplyHandle :: "zmqBridgeMsgImpl option \<Rightarrow> cstring option" where
  "zmqBridgeMamaMsg_getReplyHandle msg = map_option mReplyHandle msg"

text \<open>\<open>strdup\<close> returns \<open>NULL\<close> when there is no memory; the status is \<open>OK\<close> all the same.\<close>

definition zmqBridgeMamaMsg_copyReplyHandle ::
  "bool \<Rightarrow> cstring option \<Rightarrow> bool \<Rightarrow> mama_status \<times> cstring option" where
  "zmqBridgeMamaMsg_copyReplyHandle mem src dest =
     (case src of
        None \<Rightarrow> (MAMA_STATUS_NULL_ARG, None)
      | Some s \<Rightarrow> if \<not> dest then (MAMA_STATUS_NULL_ARG, None)
                  else (MAMA_STATUS_OK, if mem then Some s else None))"

definition zmqBridgeMamaMsg_duplicateReplyHandle ::
  "bool \<Rightarrow> zmqBridgeMsgImpl option \<Rightarrow> bool \<Rightarrow> mama_status \<times> cstring option" where
  "zmqBridgeMamaMsg_duplicateReplyHandle mem msg handle =
     (if msg = None \<or> \<not> handle then (MAMA_STATUS_NULL_ARG, None)
      else (let replyHandle = zmqBridgeMamaMsg_getReplyHandle msg in
            if replyHandle = None then (MAMA_STATUS_INVALID_ARG, None)
            else zmqBridgeMamaMsg_copyReplyHandle mem replyHandle handle))"

definition zmqBridgeMamaMsg_destroyReplyHandle :: "cstring option \<Rightarrow> mama_status" where
  "zmqBridgeMamaMsg_destroyReplyHandle result =
     (case result of None \<Rightarrow> MAMA_STATUS_NULL_ARG | Some _ \<Rightarrow> MAMA_STATUS_OK)"

definition zmqBridgeMamaMsgImpl_setReplyHandle ::
  "zmqBridgeMsgImpl option \<Rightarrow> cstring option \<Rightarrow> (mama_status \<times> zmqBridgeMsgImpl option) option" where
  "zmqBridgeMamaMsgImpl_setReplyHandle msg handle =
     (case (msg, handle) of
        (Some impl, Some h) \<Rightarrow> do {
          r \<leftarrow> strcpy_into (ZMQ_REPLYHANDLE_SIZE + 1) h;
          Some (MAMA_STATUS_OK, Some (impl\<lparr>mReplyHandle := r\<rparr>))
        }
      | _ \<Rightarrow> Some (MAMA_STATUS_NULL_ARG, msg))"

definition zmqBridgeMamaMsgImpl_setReplyHandleAndIncrement ::
  "zmqBridgeMsgImpl option \<Rightarrow> cstring option \<Rightarrow> (mama_status \<times> zmqBridgeMsgImpl option) option" where
  "zmqBridgeMamaMsgImpl_setReplyHandleAndIncrement msg handle = zmqBridgeMamaMsgImpl_setReplyHandle msg handle"

definition zmqBridgeMamaMsgImpl_setMsgType ::
  "zmqBridgeMsgImpl option \<Rightarrow> byte \<Rightarrow> mama_status \<times> zmqBridgeMsgImpl option" where
  "zmqBridgeMamaMsgImpl_setMsgType msg type =
     (case msg of
        None \<Rightarrow> (MAMA_STATUS_NULL_ARG, None)
      | Some impl \<Rightarrow> (MAMA_STATUS_OK, Some (impl\<lparr>mMsgType := type\<rparr>)))"

definition zmqBridgeMamaMsgImpl_getSendSubject ::
  "zmqBridgeMsgImpl option \<Rightarrow> mama_status \<times> cstring option" where
  "zmqBridgeMamaMsgImpl_getSendSubject msg =
     (case msg of
        None \<Rightarrow> (MAMA_STATUS_NULL_ARG, None)
      | Some impl \<Rightarrow> (MAMA_STATUS_OK, Some (mSendSubject impl)))"

subsection \<open>The wire format\<close>

text \<open>
  \<open>zmqBridgeMamaMsgImpl_serialize\<close>. \<open>payload\<close> is the result of \<open>mamaMsg_getByteBuffer\<close>: its
  status and the bytes. \<open>rc\<close> and \<open>fresh\<close> are the results of \<open>zmq_msg_init_size\<close>: its return
  code and the memory it allocated, of the requested size and with arbitrary contents.
  Every write into the buffer is checked against its size.
\<close>

definition serializedSize :: "zmqBridgeMsgImpl \<Rightarrow> bytes \<Rightarrow> nat" where
  "serializedSize impl payload =
     (length (mSendSubject impl) + 1) + 1 + length payload +
     (if mMsgType impl = ZMQ_MSG_INBOX_REQUEST then length (mReplyHandle impl) else 0) + 1"

definition zmqBridgeMamaMsgImpl_serialize ::
  "mama_status \<times> bytes \<Rightarrow> int \<Rightarrow> (nat \<Rightarrow> bytes) \<Rightarrow> zmqBridgeMsgImpl option
     \<Rightarrow> (mama_status \<times> bytes option) option" where
  "zmqBridgeMamaMsgImpl_serialize source rc fresh msg =
     (case msg of
        None \<Rightarrow> Some (MAMA_STATUS_NULL_ARG, None)
      | Some impl \<Rightarrow>
          (case source of (s, payloadBuffer) \<Rightarrow>
            if s \<noteq> MAMA_STATUS_OK then Some (s, None)
            else if rc \<noteq> 0 then Some (MAMA_STATUS_PLATFORM, None)
            else do {
              let buf = fresh (serializedSize impl payloadBuffer);
              let bufferPos = 0;
              buf \<leftarrow> memcpy_at buf bufferPos (mSendSubject impl @ [NUL]);
              let bufferPos = bufferPos + (length (mSendSubject impl) + 1);
              buf \<leftarrow> memcpy_at buf bufferPos [mMsgType impl];
              let bufferPos = bufferPos + 1;
              (buf, bufferPos) \<leftarrow>
                (if mMsgType impl = ZMQ_MSG_INBOX_REQUEST
                 then do {
                   buf \<leftarrow> memcpy_at buf bufferPos (mReplyHandle impl);
                   Some (buf, bufferPos + length (mReplyHandle impl))
                 }
                 else Some (buf, bufferPos));
              buf \<leftarrow> memcpy_at buf bufferPos [NUL];
              let bufferPos = bufferPos + 1;
              buf \<leftarrow> memcpy_at buf bufferPos payloadBuffer;
              Some (MAMA_STATUS_OK, Some buf)
            }))"

text \<open>
  \<open>zmqBridgeMamaMsgImpl_deserialize\<close>. \<open>setBuf\<close> is \<open>mamaMsgImpl_setMsgBuffer\<close>, called with the
  payload and its first byte; the third component of the result is that call. The difference of
  the two sizes is a \<open>size_t\<close> that is converted to a 32-bit \<open>int\<close>. Copies into
  \<open>mReplyHandle\<close> and reads of the message are checked against the sizes of the objects.
\<close>

definition payload_size :: "nat \<Rightarrow> nat \<Rightarrow> int" where
  "payload_size sz pos = sint (word_of_int (int sz - int pos) :: 32 word)"

definition zmqBridgeMamaMsgImpl_deserialize ::
  "(bytes \<Rightarrow> byte \<Rightarrow> mama_status) \<Rightarrow> zmqBridgeMsgImpl option \<Rightarrow> bytes
     \<Rightarrow> (mama_status \<times> zmqBridgeMsgImpl option \<times> (bytes \<times> byte) option) option" where
  "zmqBridgeMamaMsgImpl_deserialize setBuf msg source =
     (case msg of
        None \<Rightarrow> Some (MAMA_STATUS_NULL_ARG, None, None)
      | Some impl \<Rightarrow> do {
          subject \<leftarrow> cstr_at source;
          let bufferPos = length subject + 1;
          type \<leftarrow> byte_at source bufferPos;
          let impl = impl\<lparr>mMsgType := type\<rparr>;
          let bufferPos = bufferPos + 1;
          (impl, bufferPos) \<leftarrow>
            (if type = ZMQ_MSG_INBOX_REQUEST
             then do {
               s \<leftarrow> cstr_at (drop bufferPos source);
               r \<leftarrow> strcpy_into (ZMQ_REPLYHANDLE_SIZE + 1) s;
               Some (impl\<lparr>mReplyHandle := r\<rparr>, bufferPos + length s)
             }
             else if type = ZMQ_MSG_INBOX_RESPONSE
             then do {
               r \<leftarrow> strcpy_into (ZMQ_REPLYHANDLE_SIZE + 1) subject;
               Some (impl\<lparr>mReplyHandle := r\<rparr>, bufferPos)
             }
             else Some (impl, bufferPos));
          let bufferPos = bufferPos + 1;
          let payloadSize = payload_size (length source) bufferPos;
          if payloadSize < 0 then Some (MAMA_STATUS_SYSTEM_ERROR, Some impl, None)
          else do {
            first \<leftarrow> byte_at source bufferPos;
            let payload = take (nat payloadSize) (drop bufferPos source);
            Some (setBuf payload first, Some impl, Some (payload, first))
          }
        })"

text \<open>\<open>zmqBridgeMamaMsgImpl_getBridgeMsg\<close>; \<open>get\<close> is \<open>mamaMsgImpl_getBridgeMsg\<close>.\<close>

definition zmqBridgeMamaMsgImpl_getBridgeMsg ::
  "(nat \<Rightarrow> mama_status \<times> 'm) \<Rightarrow> voidp \<Rightarrow> 'm option" where
  "zmqBridgeMamaMsgImpl_getBridgeMsg get mamaMsg =
     (case mamaMsg of
        None \<Rightarrow> None
      | Some m \<Rightarrow> (case get m of (status, bridgeMsg) \<Rightarrow>
          if status \<noteq> MAMA_STATUS_OK then None else Some bridgeMsg))"

subsection \<open>What is sent\<close>

text \<open>The frame that \<open>doc/Wire-Formats.md\<close> describes.\<close>

definition app_frame :: "cstring \<Rightarrow> byte \<Rightarrow> cstring \<Rightarrow> bytes \<Rightarrow> bytes" where
  "app_frame subject type reply payload = subject @ [NUL] @ [type] @ reply @ [NUL] @ payload"

definition wire_reply :: "zmqBridgeMsgImpl \<Rightarrow> cstring" where
  "wire_reply impl = (if mMsgType impl = ZMQ_MSG_INBOX_REQUEST then mReplyHandle impl else [])"

lemma memcpy_at_seq:
  assumes "length pre = p" "length src \<le> length rest"
  shows "memcpy_at (pre @ rest) p src = Some ((pre @ src) @ drop (length src) rest)"
  using assms by (simp add: memcpy_at_def)

lemma serialize_frame:
  assumes "\<And>n. length (fresh n) = n"
  shows "zmqBridgeMamaMsgImpl_serialize (MAMA_STATUS_OK, payload) 0 fresh (Some impl) =
     Some (MAMA_STATUS_OK, Some (app_frame (mSendSubject impl) (mMsgType impl) (wire_reply impl) payload))"
proof -
  let ?n = "serializedSize impl payload"
  define buf where "buf = fresh ?n"
  have len: "length buf = ?n" using assms by (simp add: buf_def)
  define ls lr lp where l: "ls = length (mSendSubject impl)" "lr = length (wire_reply impl)" "lp = length payload"
  have n: "?n = ls + 1 + 1 + lp + lr + 1"
    by (simp add: serializedSize_def l wire_reply_def)
  have "memcpy_at ([] @ buf) 0 (mSendSubject impl @ [NUL]) =
      Some (([] @ mSendSubject impl @ [NUL]) @ drop (ls + 1) buf)"
    using len n by (subst memcpy_at_seq) (auto simp: l)
  moreover have "memcpy_at ((mSendSubject impl @ [NUL]) @ drop (ls + 1) buf) (ls + 1) [mMsgType impl] =
      Some ((mSendSubject impl @ [NUL, mMsgType impl]) @ drop (ls + 2) buf)"
    using len n by (subst memcpy_at_seq) (auto simp: l)
  moreover have "memcpy_at ((mSendSubject impl @ [NUL, mMsgType impl]) @ drop (ls + 2) buf) (ls + 2) (wire_reply impl) =
      Some ((mSendSubject impl @ [NUL, mMsgType impl] @ wire_reply impl) @ drop (ls + 2 + lr) buf)"
    using len n by (subst memcpy_at_seq) (auto simp: l add.commute)
  moreover have "memcpy_at ((mSendSubject impl @ [NUL, mMsgType impl] @ wire_reply impl) @ drop (ls + 2 + lr) buf)
      (ls + 2 + lr) [NUL] =
      Some ((mSendSubject impl @ [NUL, mMsgType impl] @ wire_reply impl @ [NUL]) @ drop (ls + 3 + lr) buf)"
    using len n by (subst memcpy_at_seq) (auto simp: l numeral_3_eq_3)
  moreover have "memcpy_at ((mSendSubject impl @ [NUL, mMsgType impl] @ wire_reply impl @ [NUL]) @ drop (ls + 3 + lr) buf)
      (ls + 3 + lr) payload = Some (app_frame (mSendSubject impl) (mMsgType impl) (wire_reply impl) payload)"
    using len n by (subst memcpy_at_seq) (auto simp: l app_frame_def)
  ultimately show ?thesis
    by (cases "mMsgType impl = ZMQ_MSG_INBOX_REQUEST")
      (simp_all add: zmqBridgeMamaMsgImpl_serialize_def buf_def Let_def l wire_reply_def numeral_eq_Suc)
qed

subsection \<open>What is received\<close>

lemma sint_word_of_int_32: "- (2 ^ 31) \<le> x \<Longrightarrow> x < 2 ^ 31 \<Longrightarrow> sint (word_of_int x :: 32 word) = x"
  by (simp add: signed_of_int signed_take_bit_int_eq_self)

lemma payload_size_diff:
  assumes "sz < 2 ^ 31" "pos \<le> sz + 1"
  shows "payload_size sz pos = int sz - int pos"
  unfolding payload_size_def using assms by (intro sint_word_of_int_32) auto

lemma payload_size_small: "n < 2 ^ 31 \<Longrightarrow> payload_size (p + n) p = int n"
  unfolding payload_size_def by (subst sint_word_of_int_32) auto

lemma cstr_at_none: "is_cstring b \<Longrightarrow> cstr_at b = None"
  by (simp add: cstr_at_def is_cstring_def)

text \<open>The message after the type byte: what the rest of the frame does to the reply handle.\<close>

definition read_reply :: "cstring \<Rightarrow> byte \<Rightarrow> bytes \<Rightarrow> (cstring option \<times> nat) option" where
  "read_reply subject type rest =
     (if type = ZMQ_MSG_INBOX_REQUEST
      then do { s \<leftarrow> cstr_at rest; r \<leftarrow> strcpy_into (ZMQ_REPLYHANDLE_SIZE + 1) s; Some (Some r, length s + 1) }
      else if type = ZMQ_MSG_INBOX_RESPONSE
      then do { r \<leftarrow> strcpy_into (ZMQ_REPLYHANDLE_SIZE + 1) subject; Some (Some r, 1) }
      else Some (None, 1))"

lemma deserialize_split:
  assumes "is_cstring subject"
  shows "zmqBridgeMamaMsgImpl_deserialize setBuf (Some impl) (subject @ [NUL, type] @ rest) =
     (case read_reply subject type rest of
        None \<Rightarrow> None
      | Some (r, k) \<Rightarrow>
          let impl' = impl\<lparr>mMsgType := type, mReplyHandle := (case r of None \<Rightarrow> mReplyHandle impl | Some h \<Rightarrow> h)\<rparr>;
              sz = payload_size (length subject + 2 + length rest) (length subject + 2 + k) in
          if sz < 0 then Some (MAMA_STATUS_SYSTEM_ERROR, Some impl', None)
          else do {
            first \<leftarrow> byte_at rest k;
            let payload = take (nat sz) (drop k rest);
            Some (setBuf payload first, Some impl', Some (payload, first)) })"
proof -
  have "cstr_at (subject @ NUL # type # rest) = Some subject" using assms by simp
  moreover have "byte_at (subject @ NUL # type # rest) (Suc (length subject)) = Some type"
    using byte_at_next[of "subject @ [NUL]" type rest] by simp
  moreover have "byte_at (subject @ NUL # type # rest) (Suc (Suc (Suc (length subject + k)))) = byte_at rest (Suc k)" for k
    by (simp add: byte_at_def nth_append)
  moreover from this[of 0]
  have "byte_at (subject @ NUL # type # rest) (Suc (Suc (Suc (length subject)))) = byte_at rest (Suc 0)" by simp
  moreover have "ZMQ_MSG_INBOX_RESPONSE \<noteq> ZMQ_MSG_INBOX_REQUEST" by (simp add: msg_types)
  ultimately show ?thesis
    by (cases "type = ZMQ_MSG_INBOX_REQUEST"; cases "type = ZMQ_MSG_INBOX_RESPONSE"; cases "cstr_at rest")
      (simp_all add: zmqBridgeMamaMsgImpl_deserialize_def read_reply_def Let_def strcpy_into_def numeral_3_eq_3)
qed

lemma deserialize_frame:
  assumes "is_cstring subject" "is_cstring reply" "payload \<noteq> []" "length payload < 2 ^ 31"
    and "if type = ZMQ_MSG_INBOX_REQUEST then length reply \<le> ZMQ_REPLYHANDLE_SIZE
         else reply = [] \<and> (type = ZMQ_MSG_INBOX_RESPONSE \<longrightarrow> length subject \<le> ZMQ_REPLYHANDLE_SIZE)"
  shows "zmqBridgeMamaMsgImpl_deserialize setBuf (Some impl) (app_frame subject type reply payload) =
     Some (setBuf payload (hd payload),
       Some (impl\<lparr>mMsgType := type,
         mReplyHandle := (if type = ZMQ_MSG_INBOX_REQUEST then reply
           else if type = ZMQ_MSG_INBOX_RESPONSE then subject else mReplyHandle impl)\<rparr>),
       Some (payload, hd payload))"
proof -
  let ?rest = "reply @ NUL # payload"
  have rr: "read_reply subject type ?rest =
     Some (if type = ZMQ_MSG_INBOX_REQUEST then Some reply
           else if type = ZMQ_MSG_INBOX_RESPONSE then Some subject else None, length reply + 1)"
    using assms by (auto simp: read_reply_def strcpy_into_def msg_types)
  have sz: "payload_size (length subject + 2 + length ?rest) (length subject + 2 + (length reply + 1)) = int (length payload)"
    using payload_size_small[OF assms(4), of "length subject + 2 + (length reply + 1)"] by (simp add: ac_simps)
  have "byte_at ?rest (length reply + 1) = Some (hd payload)"
    using assms(3) byte_at_next[of "reply @ [NUL]" "hd payload" "tl payload"] by simp
  moreover have "app_frame subject type reply payload = subject @ [NUL, type] @ ?rest" by (simp add: app_frame_def)
  ultimately show ?thesis
    using assms(1) sz by (simp add: deserialize_split rr Let_def del: append_Cons append_assoc)
qed

lemma read_reply_pos:
  "read_reply subject type rest = Some (r, k) \<Longrightarrow> k \<le> length rest + 1"
  by (auto simp: read_reply_def bind_Some_conv strcpy_into_def split: if_splits dest: cstr_at_length)

lemma deserialize_defined:
  assumes "is_cstring subject" "length subject + 2 + length rest < 2 ^ 31"
  shows "zmqBridgeMamaMsgImpl_deserialize setBuf (Some impl) (subject @ [NUL, type] @ rest) \<noteq> None \<longleftrightarrow>
     (\<exists>r k. read_reply subject type rest = Some (r, k) \<and> length rest \<noteq> k)"
proof (cases "read_reply subject type rest")
  case None
  then show ?thesis using deserialize_split[OF assms(1), of setBuf impl type rest] by simp
next
  case (Some a)
  obtain r k where a: "a = (r, k)" by (cases a)
  have "payload_size (length subject + 2 + length rest) (length subject + 2 + k) = int (length rest) - int k"
    using assms(2) read_reply_pos[OF Some[unfolded a]] by (subst payload_size_diff) auto
  then show ?thesis
    using deserialize_split[OF assms(1), of setBuf impl type rest] Some a
    by (auto simp: Let_def byte_at_def)
qed

lemma read_reply_request:
  "(\<exists>r k. read_reply subject ZMQ_MSG_INBOX_REQUEST rest = Some (r, k) \<and> length rest \<noteq> k) \<longleftrightarrow>
     (\<exists>reply payload. rest = reply @ NUL # payload \<and> is_cstring reply \<and>
        length reply \<le> ZMQ_REPLYHANDLE_SIZE \<and> payload \<noteq> [])"
  (is "?A \<longleftrightarrow> ?B")
proof
  assume ?A
  then obtain s where s: "cstr_at rest = Some s" "length s \<le> ZMQ_REPLYHANDLE_SIZE" "length rest \<noteq> length s + 1"
    by (auto simp: read_reply_def bind_Some_conv)
  from cstr_at_split[OF s(1)] cstr_at_cstring[OF s(1)] s(2,3) show ?B by fastforce
next
  assume ?B
  then show ?A by (auto simp: read_reply_def strcpy_into_def)
qed

lemma read_reply_other:
  "type \<noteq> ZMQ_MSG_INBOX_REQUEST \<Longrightarrow>
   (\<exists>r k. read_reply subject type rest = Some (r, k) \<and> length rest \<noteq> k) \<longleftrightarrow>
     (type = ZMQ_MSG_INBOX_RESPONSE \<longrightarrow> length subject \<le> ZMQ_REPLYHANDLE_SIZE) \<and> length rest \<noteq> 1"
  by (auto simp: read_reply_def strcpy_into_def)

subsection \<open>Properties\<close>

text \<open>
  C6. Sending and receiving a message: \<open>serialize\<close> never writes outside the buffer that it asked
  for, fills all of it with the frame that the wire-format document describes, and
  \<open>deserialize\<close> on any message object recovers the type and exactly the payload, and sets the
  reply handle to the one in the frame of a request, to the subject of a response, and leaves
  it alone otherwise. (A response is sent to the subject of a reply handle, which has at most
  60 bytes; the payload is not empty and shorter than \<open>2 ^ 31\<close> bytes.)
\<close>

theorem serialize_deserialize:
  assumes "msg_wf impl" "\<forall>n. length (fresh n) = n" "payload \<noteq> []" "length payload < 2 ^ 31"
    and "mMsgType impl = ZMQ_MSG_INBOX_RESPONSE \<longrightarrow> length (mSendSubject impl) \<le> ZMQ_REPLYHANDLE_SIZE"
  shows "\<exists>wire. zmqBridgeMamaMsgImpl_serialize (MAMA_STATUS_OK, payload) 0 fresh (Some impl) =
       Some (MAMA_STATUS_OK, Some wire) \<and>
     wire = app_frame (mSendSubject impl) (mMsgType impl) (wire_reply impl) payload \<and>
     zmqBridgeMamaMsgImpl_deserialize setBuf (Some target) wire =
       Some (setBuf payload (hd payload),
         Some (target\<lparr>mMsgType := mMsgType impl,
           mReplyHandle := (if mMsgType impl = ZMQ_MSG_INBOX_REQUEST then mReplyHandle impl
             else if mMsgType impl = ZMQ_MSG_INBOX_RESPONSE then mSendSubject impl
             else mReplyHandle target)\<rparr>),
         Some (payload, hd payload))"
proof -
  have "zmqBridgeMamaMsgImpl_deserialize setBuf (Some target)
      (app_frame (mSendSubject impl) (mMsgType impl) (wire_reply impl) payload) =
       Some (setBuf payload (hd payload),
         Some (target\<lparr>mMsgType := mMsgType impl,
           mReplyHandle := (if mMsgType impl = ZMQ_MSG_INBOX_REQUEST then wire_reply impl
             else if mMsgType impl = ZMQ_MSG_INBOX_RESPONSE then mSendSubject impl
             else mReplyHandle target)\<rparr>),
         Some (payload, hd payload))"
    using assms by (intro deserialize_frame) (auto simp: msg_wf_def wire_reply_def)
  with serialize_frame[of fresh payload impl] assms(2) show ?thesis by (simp add: wire_reply_def)
qed

theorem serialize_deserialize_witness:
  "\<exists>wire. zmqBridgeMamaMsgImpl_serialize (MAMA_STATUS_OK, ''hello'') 0 (\<lambda>n. replicate n (CHR ''?''))
       (Some \<lparr>msg_mParent = None, mMsgType = ZMQ_MSG_INBOX_REQUEST, mReplyHandle = ''_INBOX.u.1'', mSendSubject = ''t''\<rparr>) =
       Some (MAMA_STATUS_OK, Some wire) \<and>
     wire = ''t'' @ [NUL, CHR 0x02] @ ''_INBOX.u.1'' @ [NUL] @ ''hello'' \<and>
     zmqBridgeMamaMsgImpl_deserialize (\<lambda>_ _. MAMA_STATUS_OK)
       (Some \<lparr>msg_mParent = None, mMsgType = ZMQ_MSG_PUB_SUB, mReplyHandle = [], mSendSubject = []\<rparr>) wire =
       Some (MAMA_STATUS_OK,
         Some \<lparr>msg_mParent = None, mMsgType = ZMQ_MSG_INBOX_REQUEST, mReplyHandle = ''_INBOX.u.1'', mSendSubject = []\<rparr>,
         Some (''hello'', CHR ''h''))"
  using serialize_deserialize[of
      "\<lparr>msg_mParent = None, mMsgType = ZMQ_MSG_INBOX_REQUEST, mReplyHandle = ''_INBOX.u.1'', mSendSubject = ''t''\<rparr>"
      "\<lambda>n. replicate n (CHR ''?'')" "''hello''" "\<lambda>_ _. MAMA_STATUS_OK"
      "\<lparr>msg_mParent = None, mMsgType = ZMQ_MSG_PUB_SUB, mReplyHandle = [], mSendSubject = []\<rparr>"]
  by (simp add: msg_wf_def oz_sizes app_frame_def wire_reply_def msg_types)

text \<open>The received messages that the code handles inside its objects.\<close>

definition frame_ok :: "bytes \<Rightarrow> bool" where
  "frame_ok source \<longleftrightarrow>
     (\<exists>subject type rest. source = subject @ [NUL, type] @ rest \<and> is_cstring subject \<and>
        (if type = ZMQ_MSG_INBOX_REQUEST
         then \<exists>reply payload. rest = reply @ NUL # payload \<and> is_cstring reply \<and>
                length reply \<le> ZMQ_REPLYHANDLE_SIZE \<and> payload \<noteq> []
         else (type = ZMQ_MSG_INBOX_RESPONSE \<longrightarrow> length subject \<le> ZMQ_REPLYHANDLE_SIZE) \<and> length rest \<noteq> 1))"

lemma frame_ok_request:
  assumes "is_cstring subject" "is_cstring reply" "frame_ok (app_frame subject ZMQ_MSG_INBOX_REQUEST reply payload)"
  shows "length reply \<le> ZMQ_REPLYHANDLE_SIZE"
proof -
  from assms(3) obtain subject' type rest where
    e0: "app_frame subject ZMQ_MSG_INBOX_REQUEST reply payload = subject' @ [NUL, type] @ rest" and
    c: "is_cstring subject'" and
    r: "type = ZMQ_MSG_INBOX_REQUEST \<longrightarrow> (\<exists>reply payload. rest = reply @ NUL # payload \<and> is_cstring reply \<and>
                length reply \<le> ZMQ_REPLYHANDLE_SIZE \<and> payload \<noteq> [])"
    unfolding frame_ok_def by metis
  from e0 have e: "subject @ NUL # (ZMQ_MSG_INBOX_REQUEST # reply @ NUL # payload) = subject' @ NUL # (type # rest)"
    by (simp add: app_frame_def)
  have "subject' = subject"
    using arg_cong[OF e, of cstr_at] assms(1) c by simp
  with e have t: "type = ZMQ_MSG_INBOX_REQUEST" "rest = reply @ NUL # payload" by auto
  with r obtain reply' payload' where
    p: "reply @ NUL # payload = reply' @ NUL # payload'" "is_cstring reply'" "length reply' \<le> ZMQ_REPLYHANDLE_SIZE" by auto
  from arg_cong[OF p(1), of cstr_at] p(2) assms(2) have "reply' = reply" by simp
  with p(3) show ?thesis by simp
qed

lemma deserialize_frame_ok:
  assumes "length source < 2 ^ 31"
  shows "zmqBridgeMamaMsgImpl_deserialize setBuf (Some impl) source \<noteq> None \<longleftrightarrow> frame_ok source"
    (is "?L \<longleftrightarrow> _")
proof
  assume L: ?L
  then obtain subject type where st: "cstr_at source = Some subject" "byte_at source (length subject + 1) = Some type"
    by (auto simp: zmqBridgeMamaMsgImpl_deserialize_def Let_def bind_eq_None_conv)
  obtain r where "source = subject @ NUL # r" using cstr_at_split[OF st(1)] by blast
  with st(2) obtain rest where s: "source = subject @ [NUL, type] @ rest"
    by (cases r) (auto simp: byte_at_def nth_append split: if_splits)
  have "\<exists>r k. read_reply subject type rest = Some (r, k) \<and> length rest \<noteq> k"
    using deserialize_defined[of subject rest setBuf impl type] cstr_at_cstring[OF st(1)] L s assms by simp
  then show "frame_ok source"
    using s cstr_at_cstring[OF st(1)] read_reply_request[of subject rest] read_reply_other[of type subject rest]
    unfolding frame_ok_def by (cases "type = ZMQ_MSG_INBOX_REQUEST") (intro exI[of _ subject] exI[of _ type] exI[of _ rest], simp)+
next
  assume "frame_ok source"
  then obtain subject type rest where s: "source = subject @ [NUL, type] @ rest" "is_cstring subject" and
    R: "if type = ZMQ_MSG_INBOX_REQUEST
         then \<exists>reply payload. rest = reply @ NUL # payload \<and> is_cstring reply \<and>
                length reply \<le> ZMQ_REPLYHANDLE_SIZE \<and> payload \<noteq> []
         else (type = ZMQ_MSG_INBOX_RESPONSE \<longrightarrow> length subject \<le> ZMQ_REPLYHANDLE_SIZE) \<and> length rest \<noteq> 1"
    unfolding frame_ok_def by blast
  from R have "\<exists>r k. read_reply subject type rest = Some (r, k) \<and> length rest \<noteq> k"
    using read_reply_request[of subject rest] read_reply_other[of type subject rest]
    by (cases "type = ZMQ_MSG_INBOX_REQUEST") simp_all
  with s deserialize_defined[of subject rest setBuf impl type] assms show ?L by auto
qed

text \<open>
  C16. Exactly which received messages \<open>deserialize\<close> handles without leaving its objects: the
  subject and the type byte must be there; a request must carry a null-terminated reply address
  of at most 60 bytes and a payload; a response must have a subject of at most 60 bytes; and the payload must
  not be empty, because \<open>*bufferPos\<close> is read even then. Nothing in the code checks any of this,
  so the messages outside this set make it read or write out of bounds.
\<close>

theorem deserialize_defined_iff:
  assumes "length source < 2 ^ 31"
  shows "zmqBridgeMamaMsgImpl_deserialize setBuf (Some impl) source \<noteq> None \<longleftrightarrow> frame_ok source"
  using deserialize_frame_ok[OF assms] .

theorem deserialize_defined_iff_witness:
  "zmqBridgeMamaMsgImpl_deserialize (\<lambda>_ _. MAMA_STATUS_OK)
     (Some \<lparr>msg_mParent = None, mMsgType = ZMQ_MSG_PUB_SUB, mReplyHandle = [], mSendSubject = []\<rparr>)
     (app_frame ''t'' ZMQ_MSG_INBOX_REQUEST (replicate 61 (CHR ''a'')) ''x'') = None"
proof -
  have "\<not> frame_ok (app_frame ''t'' ZMQ_MSG_INBOX_REQUEST (replicate 61 (CHR ''a'')) ''x'')"
    using frame_ok_request[of "''t''" "replicate 61 (CHR ''a'')" "''x''"] by (auto simp: is_cstring_def oz_sizes)
  moreover have "length (app_frame ''t'' ZMQ_MSG_INBOX_REQUEST (replicate 61 (CHR ''a'')) ''x'') < 2 ^ 31"
    by (simp add: app_frame_def)
  ultimately show ?thesis using deserialize_defined_iff by blast
qed

end
