(* ===== verification/Sockets.thy ===== *)
theory Sockets
  imports OZ_Util OZ_Msg "HOL-Library.State_Monad"
begin

text \<open>
  The socket functions of \<open>src/src/transport.c\<close>: every ZeroMQ socket comes with a lock, and the
  functions set options, connect, bind and close under it.

  ZeroMQ and the locks are not part of the sources. A function of the model is a computation
  over the history of the calls that were made; what a call returns is an arbitrary function
  of that history, the environment \<open>env\<close>. The theorems therefore hold for every behaviour of the library.
\<close>

subsection \<open>Calls\<close>

datatype sockopt =
    ZMQ_IDENTITY cstring
  | ZMQ_LINGER int
  | ZMQ_HEARTBEAT_IVL int
  | ZMQ_RECONNECT_IVL int
  | ZMQ_RECONNECT_STOP int
  | ZMQ_RCVHWM int
  | ZMQ_SNDHWM int
  | ZMQ_BACKLOG int
  | ZMQ_SUBSCRIBE cstring
  | ZMQ_UNSUBSCRIBE cstring

datatype zmq_socktype = ZMQ_PULL | ZMQ_PUSH | ZMQ_PUB | ZMQ_SUB | ZMQ_PAIR | ZMQ_SERVER | ZMQ_CLIENT

text \<open>
  Handles of sockets and locks are numbers; the threads are named by the function they run. Besides
  the calls to ZeroMQ and the locks, the history has the other calls of the transport whose result it
  tests or that it waits for.
\<close>

datatype oz_thread = DispatchThread | PublishThread | MonitorThread

datatype zcall =
    Wlock_create
  | Wlock_lock nat
  | Wlock_unlock nat
  | Wlock_destroy nat
  | Zmq_socket zmq_socktype
  | Zmq_setsockopt nat sockopt
  | Zmq_get_last_endpoint nat
  | Zmq_get_events nat
  | Zmq_socket_monitor nat "cstring option" "64 word"
  | Zmq_connect nat cstring
  | Zmq_disconnect nat cstring
  | Zmq_bind nat cstring
  | Zmq_unbind nat cstring
  | Zmq_close nat
  | Zmq_send nat bytes
  | Zmq_msg_send nat bytes
  | Zmq_msg_recv nat
  | Zmq_poll nat int
  | Zmq_ctx_new
  | Zmq_ctx_shutdown
  | Zmq_ctx_term
  | Wthread_create oz_thread
  | Wthread_join oz_thread
  | Usleep int

type_synonym zworld = "zcall list"
type_synonym zenv = "zworld \<Rightarrow> zcall \<Rightarrow> int"
type_synonym 'a zop = "(zworld, 'a) state"

text \<open>One call: the environment decides what it returns.\<close>

definition zdo :: "zenv \<Rightarrow> zcall \<Rightarrow> int zop" where
  "zdo env c = State (\<lambda>w. (env w c, w @ [c]))"

lemma run_zdo [simp]: "run_state (zdo env c) w = (env w c, w @ [c])"
  by (simp add: zdo_def)

record zmqSocket =
  mSocket :: nat
  mLock :: nat
  mMonitor :: int

subsection \<open>Socket functions\<close>

text \<open>
  \<open>zmqBridgeMamaTransportImpl_createSocket\<close>. A negative result of \<open>zmq_socket\<close> stands for \<open>NULL\<close>;
  \<open>evmask\<close> is \<open>get_zmqEventMask(gMamaLogLevel)\<close>.
\<close>

definition zmqBridgeMamaTransportImpl_createSocket ::
  "zenv \<Rightarrow> 64 word \<Rightarrow> zmqSocket \<Rightarrow> zmq_socktype \<Rightarrow> cstring option \<Rightarrow> int \<Rightarrow> (mama_status \<times> zmqSocket) zop" where
  "zmqBridgeMamaTransportImpl_createSocket env evmask socket type name monitor = do {
     temp \<leftarrow> zdo env (Zmq_socket type);
     if temp < 0 then State_Monad.return (MAMA_STATUS_PLATFORM, socket)
     else do {
       lock \<leftarrow> zdo env Wlock_create;
       let socket = \<lparr>mSocket = nat temp, mLock = nat lock, mMonitor = monitor\<rparr>;
       rc \<leftarrow> (case name of
                None \<Rightarrow> State_Monad.return 0
              | Some n \<Rightarrow> zdo env (Zmq_setsockopt (mSocket socket) (ZMQ_IDENTITY n)));
       if rc < 0 then State_Monad.return (MAMA_STATUS_PLATFORM, socket)
       else do {
         rc \<leftarrow> (case name of
                  Some n \<Rightarrow> if mMonitor socket \<noteq> 0
                            then zdo env (Zmq_socket_monitor (mSocket socket) (Some (''inproc://'' @ n)) evmask)
                            else State_Monad.return 0
                | None \<Rightarrow> State_Monad.return 0);
         if rc < 0 then State_Monad.return (MAMA_STATUS_PLATFORM, socket)
         else do {
           let linger = (if name = Some ''namingPub'' then 100 else 0);
           rc \<leftarrow> zdo env (Zmq_setsockopt (mSocket socket) (ZMQ_LINGER linger));
           if rc < 0 then State_Monad.return (MAMA_STATUS_PLATFORM, socket)
           else State_Monad.return (MAMA_STATUS_OK, socket)
         }
       }
     }
   }"

definition zmqBridgeMamaTransportImpl_connectSocket ::
  "zenv \<Rightarrow> zmqSocket \<Rightarrow> cstring \<Rightarrow> int \<Rightarrow> int \<Rightarrow> mama_status zop" where
  "zmqBridgeMamaTransportImpl_connectSocket env socket uri reconnectInterval heartbeatInterval = do {
     zdo env (Wlock_lock (mLock socket));
     rc \<leftarrow> zdo env (Zmq_setsockopt (mSocket socket) (ZMQ_HEARTBEAT_IVL heartbeatInterval));
     status \<leftarrow>
       (if rc \<noteq> 0 then State_Monad.return MAMA_STATUS_PLATFORM
        else do {
          rc \<leftarrow> zdo env (Zmq_setsockopt (mSocket socket) (ZMQ_RECONNECT_IVL reconnectInterval));
          if rc \<noteq> 0 then State_Monad.return MAMA_STATUS_PLATFORM
          else do {
            rc \<leftarrow> zdo env (Zmq_connect (mSocket socket) uri);
            State_Monad.return (if rc \<noteq> 0 then MAMA_STATUS_PLATFORM else MAMA_STATUS_OK)
          }
        });
     zdo env (Wlock_unlock (mLock socket));
     State_Monad.return status
   }"

definition zmqBridgeMamaTransportImpl_disconnectSocket :: "zenv \<Rightarrow> zmqSocket \<Rightarrow> cstring \<Rightarrow> mama_status zop" where
  "zmqBridgeMamaTransportImpl_disconnectSocket env socket uri = do {
     zdo env (Wlock_lock (mLock socket));
     rc \<leftarrow> zdo env (Zmq_disconnect (mSocket socket) uri);
     zdo env (Wlock_unlock (mLock socket));
     State_Monad.return (if rc \<noteq> 0 then MAMA_STATUS_PLATFORM else MAMA_STATUS_OK)
   }"

text \<open>
  \<open>zmqBridgeMamaTransportImpl_bindSocket\<close>: \<open>endpoint w\<close> is the string that \<open>ZMQ_LAST_ENDPOINT\<close>
  yields; the second component of the result is what \<open>*endpointName\<close> is set to.
\<close>

definition zmqBridgeMamaTransportImpl_bindSocket ::
  "zenv \<Rightarrow> (zworld \<Rightarrow> cstring) \<Rightarrow> zmqSocket \<Rightarrow> cstring \<Rightarrow> bool \<Rightarrow> (mama_status \<times> cstring option) zop" where
  "zmqBridgeMamaTransportImpl_bindSocket env endpoint socket uri endpointName = do {
     zdo env (Wlock_lock (mLock socket));
     rc \<leftarrow> zdo env (Zmq_bind (mSocket socket) uri);
     result \<leftarrow>
       (if rc \<noteq> 0 then State_Monad.return (MAMA_STATUS_PLATFORM, None)
        else if endpointName
        then do {
          rc \<leftarrow> zdo env (Zmq_get_last_endpoint (mSocket socket));
          w \<leftarrow> State_Monad.get;
          State_Monad.return (if rc \<noteq> 0 then (MAMA_STATUS_PLATFORM, None) else (MAMA_STATUS_OK, Some (endpoint w)))
        }
        else State_Monad.return (MAMA_STATUS_OK, None));
     zdo env (Wlock_unlock (mLock socket));
     State_Monad.return result
   }"

definition zmqBridgeMamaTransportImpl_unbindSocket :: "zenv \<Rightarrow> zmqSocket \<Rightarrow> cstring \<Rightarrow> mama_status zop" where
  "zmqBridgeMamaTransportImpl_unbindSocket env socket uri = do {
     zdo env (Wlock_lock (mLock socket));
     rc \<leftarrow> zdo env (Zmq_unbind (mSocket socket) uri);
     zdo env (Wlock_unlock (mLock socket));
     State_Monad.return (if rc \<noteq> 0 then MAMA_STATUS_PLATFORM else MAMA_STATUS_OK)
   }"

definition zmqBridgeMamaTransportImpl_destroySocket :: "zenv \<Rightarrow> 64 word \<Rightarrow> zmqSocket \<Rightarrow> mama_status zop" where
  "zmqBridgeMamaTransportImpl_destroySocket env allEvents socket = do {
     zdo env (Wlock_lock (mLock socket));
     rc1 \<leftarrow> (if mMonitor socket \<noteq> 0
             then zdo env (Zmq_socket_monitor (mSocket socket) None allEvents)
             else State_Monad.return 0);
     rc2 \<leftarrow> zdo env (Zmq_close (mSocket socket));
     zdo env (Wlock_unlock (mLock socket));
     zdo env (Wlock_destroy (mLock socket));
     State_Monad.return (if rc1 \<noteq> 0 \<or> rc2 \<noteq> 0 then MAMA_STATUS_PLATFORM else MAMA_STATUS_OK)
   }"

definition zmqBridgeMamaTransportImpl_stopReconnectOnError :: "zenv \<Rightarrow> zmqSocket \<Rightarrow> int \<Rightarrow> mama_status zop" where
  "zmqBridgeMamaTransportImpl_stopReconnectOnError env socket reconnectOptions = do {
     zdo env (Wlock_lock (mLock socket));
     rc \<leftarrow> zdo env (Zmq_setsockopt (mSocket socket) (ZMQ_RECONNECT_STOP reconnectOptions));
     zdo env (Wlock_unlock (mLock socket));
     State_Monad.return (if rc \<noteq> 0 then MAMA_STATUS_PLATFORM else MAMA_STATUS_OK)
   }"

definition zmqBridgeMamaTransportImpl_setCommonSocketOptions :: "zenv \<Rightarrow> zmqSocket \<Rightarrow> mama_status zop" where
  "zmqBridgeMamaTransportImpl_setCommonSocketOptions env socket = do {
     zdo env (Wlock_lock (mLock socket));
     rc1 \<leftarrow> zdo env (Zmq_setsockopt (mSocket socket) (ZMQ_RCVHWM 0));
     rc2 \<leftarrow> zdo env (Zmq_setsockopt (mSocket socket) (ZMQ_SNDHWM 0));
     rc3 \<leftarrow> zdo env (Zmq_setsockopt (mSocket socket) (ZMQ_BACKLOG 200));
     zdo env (Wlock_unlock (mLock socket));
     State_Monad.return (if rc1 \<noteq> 0 \<or> rc2 \<noteq> 0 \<or> rc3 \<noteq> 0 then MAMA_STATUS_PLATFORM else MAMA_STATUS_OK)
   }"

text \<open>The subscribe functions work on the bare socket; the dispatch thread holds its lock all the time.\<close>

definition zmqBridgeMamaTransportImpl_subscribe :: "zenv \<Rightarrow> nat \<Rightarrow> cstring \<Rightarrow> mama_status zop" where
  "zmqBridgeMamaTransportImpl_subscribe env socket topic = do {
     rc \<leftarrow> zdo env (Zmq_setsockopt socket (ZMQ_SUBSCRIBE topic));
     State_Monad.return (if rc < 0 then MAMA_STATUS_PLATFORM else MAMA_STATUS_OK)
   }"

definition zmqBridgeMamaTransportImpl_unsubscribe :: "zenv \<Rightarrow> nat \<Rightarrow> cstring \<Rightarrow> mama_status zop" where
  "zmqBridgeMamaTransportImpl_unsubscribe env socket topic = do {
     rc \<leftarrow> zdo env (Zmq_setsockopt socket (ZMQ_UNSUBSCRIBE topic));
     State_Monad.return (if rc < 0 then MAMA_STATUS_PLATFORM else MAMA_STATUS_OK)
   }"

subsection \<open>Bind or connect\<close>

datatype zmqTransportType =
    ZMQ_TPORT_TYPE_UNKNOWN | ZMQ_TPORT_TYPE_TCP | ZMQ_TPORT_TYPE_IPC | ZMQ_TPORT_TYPE_PGM | ZMQ_TPORT_TYPE_EPGM

datatype zmqTransportDirection =
    ZMQ_TPORT_DIRECTION_UNKNOWN | ZMQ_TPORT_DIRECTION_INCOMING | ZMQ_TPORT_DIRECTION_OUTGOING

text \<open>The scheme of a URI: its first fifteen characters up to a colon; \<open>wm\<close> is \<open>wmStrSizeCpy\<close>.\<close>

definition tportTypeStr :: "(nat \<Rightarrow> cstring \<Rightarrow> nat \<times> cstring) \<Rightarrow> cstring \<Rightarrow> cstring" where
  "tportTypeStr wm uri = takeWhile (\<lambda>c. c \<noteq> CHR '':'') (snd (wm 16 uri))"

definition tport_type :: "cstring \<Rightarrow> zmqTransportType" where
  "tport_type s =
     (if s = ''tcp'' then ZMQ_TPORT_TYPE_TCP
      else if s = ''epgm'' then ZMQ_TPORT_TYPE_EPGM
      else if s = ''pgm'' then ZMQ_TPORT_TYPE_PGM
      else if s = ''ipc'' then ZMQ_TPORT_TYPE_IPC
      else ZMQ_TPORT_TYPE_UNKNOWN)"

text \<open>The nested \<open>switch\<close>: whether to bind, or \<open>None\<close> for the return of \<open>MAMA_STATUS_INVALID_ARG\<close>.\<close>

definition tport_isBinding :: "zmqTransportType \<Rightarrow> zmqTransportDirection \<Rightarrow> cstring \<Rightarrow> bool option" where
  "tport_isBinding t direction uri =
     (case direction of
        ZMQ_TPORT_DIRECTION_INCOMING \<Rightarrow>
          (case t of ZMQ_TPORT_TYPE_TCP \<Rightarrow> Some (CHR ''*'' \<in> set uri) | _ \<Rightarrow> Some False)
      | ZMQ_TPORT_DIRECTION_OUTGOING \<Rightarrow>
          (case t of
             ZMQ_TPORT_TYPE_TCP \<Rightarrow> Some (CHR ''*'' \<in> set uri)
           | ZMQ_TPORT_TYPE_IPC \<Rightarrow> Some True
           | _ \<Rightarrow> Some False)
      | _ \<Rightarrow> None)"

definition zmqBridgeMamaTransportImpl_bindOrConnect ::
  "zenv \<Rightarrow> (zworld \<Rightarrow> cstring) \<Rightarrow> (nat \<Rightarrow> cstring \<Rightarrow> nat \<times> cstring) \<Rightarrow> zmqSocket \<Rightarrow> cstring
     \<Rightarrow> zmqTransportDirection \<Rightarrow> int \<Rightarrow> int \<Rightarrow> mama_status zop" where
  "zmqBridgeMamaTransportImpl_bindOrConnect env endpoint wm socket uri direction reconnectInterval heartbeatInterval =
     (let t = tport_type (tportTypeStr wm uri) in
      if t = ZMQ_TPORT_TYPE_UNKNOWN then State_Monad.return MAMA_STATUS_INVALID_ARG
      else (case tport_isBinding t direction uri of
              None \<Rightarrow> State_Monad.return MAMA_STATUS_INVALID_ARG
            | Some True \<Rightarrow> do {
                r \<leftarrow> zmqBridgeMamaTransportImpl_bindSocket env endpoint socket uri False;
                State_Monad.return (fst r)
              }
            | Some False \<Rightarrow>
                zmqBridgeMamaTransportImpl_connectSocket env socket uri reconnectInterval heartbeatInterval))"

subsection \<open>Locking\<close>

text \<open>The socket a call works on, and how often a lock is held after a history.\<close>

fun on_socket :: "zcall \<Rightarrow> nat option" where
  "on_socket (Zmq_setsockopt s _) = Some s"
| "on_socket (Zmq_get_last_endpoint s) = Some s"
| "on_socket (Zmq_get_events s) = Some s"
| "on_socket (Zmq_socket_monitor s _ _) = Some s"
| "on_socket (Zmq_connect s _) = Some s"
| "on_socket (Zmq_disconnect s _) = Some s"
| "on_socket (Zmq_bind s _) = Some s"
| "on_socket (Zmq_unbind s _) = Some s"
| "on_socket (Zmq_close s) = Some s"
| "on_socket (Zmq_send s _) = Some s"
| "on_socket (Zmq_msg_send s _) = Some s"
| "on_socket _ = None"

fun held :: "nat \<Rightarrow> zworld \<Rightarrow> int" where
  "held l [] = 0"
| "held l (c # w) = (if c = Wlock_lock l then 1 else if c = Wlock_unlock l then -1 else 0) + held l w"

text \<open>
  \<open>guarded s l d w\<close>: in the history \<open>w\<close>, entered with lock \<open>l\<close> held \<open>d\<close> times, every call on
  socket \<open>s\<close> is made while \<open>l\<close> is held.
\<close>

fun guarded :: "nat \<Rightarrow> nat \<Rightarrow> int \<Rightarrow> zworld \<Rightarrow> bool" where
  "guarded s l d [] \<longleftrightarrow> True"
| "guarded s l d (c # w) \<longleftrightarrow> (on_socket c = Some s \<longrightarrow> 0 < d) \<and> guarded s l (d + held l [c]) w"

lemma held_append [simp]: "held l (u @ v) = held l u + held l v"
  by (induction u) auto

lemma guarded_append [simp]: "guarded s l d (u @ v) \<longleftrightarrow> guarded s l d u \<and> guarded s l (d + held l u) v"
  by (induction u arbitrary: d) (auto simp: add.assoc)

lemma socket_call_no_lock: "on_socket c \<noteq> None \<Longrightarrow> held l (c # w) = held l w"
  by (cases c) auto

lemma body_held: "list_all (\<lambda>c. on_socket c = Some s) body \<Longrightarrow> held l body = 0"
  by (induction body) (auto simp: socket_call_no_lock simp del: held.simps(2))

lemma body_guarded: "list_all (\<lambda>c. on_socket c = Some s) body \<Longrightarrow> s' = s \<longrightarrow> 0 < d \<Longrightarrow> guarded s' l d body"
proof (induction body arbitrary: d)
  case (Cons c body)
  then have "held l [c] = 0" using socket_call_no_lock[of c l "[]"] by auto
  with Cons show ?case by auto
qed simp

text \<open>
  An operation on one socket: it takes the lock of the socket, works on that socket only, and
  releases the lock, on every path.
\<close>

locale locked_op =
  fixes op :: "zenv \<Rightarrow> 'a zop" and socket :: zmqSocket
  assumes shape: "\<exists>body. snd (run_state (op env) w) =
      w @ Wlock_lock (mLock socket) # body @ [Wlock_unlock (mLock socket)] \<and>
      list_all (\<lambda>c. on_socket c = Some (mSocket socket)) body"
begin

lemma balanced: "held l (snd (run_state (op env) w)) = held l w"
  using shape[of env w] by (auto simp: body_held)

lemma keeps_guard:
  assumes "guarded s l 0 w" "0 \<le> held l w" "s = mSocket socket \<longrightarrow> l = mLock socket"
  shows "guarded s l 0 (snd (run_state (op env) w))"
proof -
  from shape[of env w] obtain body where
    b: "snd (run_state (op env) w) = w @ Wlock_lock (mLock socket) # body @ [Wlock_unlock (mLock socket)]"
      "list_all (\<lambda>c. on_socket c = Some (mSocket socket)) body" by blast
  have "guarded s l (held l w + held l [Wlock_lock (mLock socket)]) body"
    using assms by (intro body_guarded[OF b(2)]) auto
  with assms(1) b(1) show ?thesis by (auto simp: body_held[OF b(2)])
qed

end

lemmas zop_defs =
  zmqBridgeMamaTransportImpl_connectSocket_def zmqBridgeMamaTransportImpl_disconnectSocket_def
  zmqBridgeMamaTransportImpl_bindSocket_def zmqBridgeMamaTransportImpl_unbindSocket_def
  zmqBridgeMamaTransportImpl_stopReconnectOnError_def zmqBridgeMamaTransportImpl_setCommonSocketOptions_def

interpretation connectSocket: locked_op
  "\<lambda>env. zmqBridgeMamaTransportImpl_connectSocket env socket uri reconnectInterval heartbeatInterval" socket
  for socket uri reconnectInterval heartbeatInterval
  by unfold_locales (auto simp: zop_defs split: if_splits)

interpretation disconnectSocket: locked_op "\<lambda>env. zmqBridgeMamaTransportImpl_disconnectSocket env socket uri" socket
  for socket uri
  by unfold_locales (auto simp: zop_defs)

interpretation bindSocket: locked_op
  "\<lambda>env. zmqBridgeMamaTransportImpl_bindSocket env endpoint socket uri endpointName" socket
  for endpoint socket uri endpointName
  by unfold_locales (auto simp: zop_defs split: if_splits)

interpretation unbindSocket: locked_op "\<lambda>env. zmqBridgeMamaTransportImpl_unbindSocket env socket uri" socket
  for socket uri
  by unfold_locales (auto simp: zop_defs)

interpretation stopReconnectOnError: locked_op
  "\<lambda>env. zmqBridgeMamaTransportImpl_stopReconnectOnError env socket opts" socket
  for socket opts
  by unfold_locales (auto simp: zop_defs)

interpretation setCommonSocketOptions: locked_op
  "\<lambda>env. zmqBridgeMamaTransportImpl_setCommonSocketOptions env socket" socket
  for socket
  by unfold_locales (auto simp: zop_defs)

subsection \<open>Properties\<close>

text \<open>The operations that the transport performs on its sockets while it is running.\<close>

datatype sock_op =
    OpConnect cstring int int
  | OpDisconnect cstring
  | OpBind cstring bool
  | OpUnbind cstring
  | OpStopReconnect int
  | OpSetCommon
  | OpBindOrConnect cstring zmqTransportDirection int int

fun run_sock_op ::
  "zenv \<Rightarrow> (zworld \<Rightarrow> cstring) \<Rightarrow> (nat \<Rightarrow> cstring \<Rightarrow> nat \<times> cstring) \<Rightarrow> zmqSocket \<times> sock_op \<Rightarrow> zworld \<Rightarrow> zworld" where
  "run_sock_op env ep wm (sk, OpConnect uri r h) w = snd (run_state (zmqBridgeMamaTransportImpl_connectSocket env sk uri r h) w)"
| "run_sock_op env ep wm (sk, OpDisconnect uri) w = snd (run_state (zmqBridgeMamaTransportImpl_disconnectSocket env sk uri) w)"
| "run_sock_op env ep wm (sk, OpBind uri b) w = snd (run_state (zmqBridgeMamaTransportImpl_bindSocket env ep sk uri b) w)"
| "run_sock_op env ep wm (sk, OpUnbind uri) w = snd (run_state (zmqBridgeMamaTransportImpl_unbindSocket env sk uri) w)"
| "run_sock_op env ep wm (sk, OpStopReconnect n) w = snd (run_state (zmqBridgeMamaTransportImpl_stopReconnectOnError env sk n) w)"
| "run_sock_op env ep wm (sk, OpSetCommon) w = snd (run_state (zmqBridgeMamaTransportImpl_setCommonSocketOptions env sk) w)"
| "run_sock_op env ep wm (sk, OpBindOrConnect uri d r h) w =
     snd (run_state (zmqBridgeMamaTransportImpl_bindOrConnect env ep wm sk uri d r h) w)"

lemma bindOrConnect_cases:
  "snd (run_state (zmqBridgeMamaTransportImpl_bindOrConnect env ep wm sk uri d r h) w) \<in>
     {w, snd (run_state (zmqBridgeMamaTransportImpl_bindSocket env ep sk uri False) w),
      snd (run_state (zmqBridgeMamaTransportImpl_connectSocket env sk uri r h) w)}"
  by (auto simp: zmqBridgeMamaTransportImpl_bindOrConnect_def Let_def split: option.splits bool.splits prod.splits)

lemmas locked_balanced =
  connectSocket.balanced disconnectSocket.balanced bindSocket.balanced unbindSocket.balanced
  stopReconnectOnError.balanced setCommonSocketOptions.balanced

lemmas locked_guards =
  connectSocket.keeps_guard disconnectSocket.keeps_guard bindSocket.keeps_guard unbindSocket.keeps_guard
  stopReconnectOnError.keeps_guard setCommonSocketOptions.keeps_guard

lemma run_sock_op_balanced: "held l (run_sock_op env ep wm (sk, opn) w) = held l w"
proof (cases opn)
  case (OpBindOrConnect uri d r h)
  with bindOrConnect_cases[of env ep wm sk uri d r h w] show ?thesis by (auto simp: locked_balanced)
qed (auto simp: locked_balanced)

lemma run_sock_op_guarded:
  assumes "guarded s l 0 w" "0 \<le> held l w" "s = mSocket sk \<longrightarrow> l = mLock sk"
  shows "guarded s l 0 (run_sock_op env ep wm (sk, opn) w)"
proof (cases opn)
  case (OpBindOrConnect uri d r h)
  with bindOrConnect_cases[of env ep wm sk uri d r h w] assms(1)
    connectSocket.keeps_guard[OF assms, of env uri r h] bindSocket.keeps_guard[OF assms, of env ep uri False]
  show ?thesis by (simp only: run_sock_op.simps insert_iff empty_iff) (elim disjE; simp)
qed (auto intro: locked_guards[OF assms])



lemma tportTypeStr_scheme:
  assumes "wmStrSizeCpy_ok wm" "CHR '':'' \<notin> set scheme" "length scheme \<le> 14"
  shows "tportTypeStr wm (scheme @ CHR '':'' # rest) = scheme"
proof -
  have "wm 16 (scheme @ CHR '':'' # rest) = (min 15 (length (scheme @ CHR '':'' # rest)), take 15 (scheme @ CHR '':'' # rest))"
    using assms(1)[unfolded wmStrSizeCpy_ok_def, rule_format, of 15 "scheme @ CHR '':'' # rest"] by simp
  moreover have "take 15 (scheme @ CHR '':'' # rest) = scheme @ CHR '':'' # take (14 - length scheme) rest"
    using assms(3) by (simp add: take_Cons' not_le)
  ultimately show ?thesis using assms(2)
    by (simp add: tportTypeStr_def takeWhile_append)
qed

text \<open>
  Whether a transport without naming binds or connects: an unknown scheme or direction is
  refused without touching the socket; \<open>tcp\<close> binds exactly when the URI has a wildcard, \<open>ipc\<close>
  exactly when the direction is outgoing, and \<open>pgm\<close> and \<open>epgm\<close> always connect. The
  direction matters for \<open>ipc\<close> only, as the comment on the function says.
\<close>

theorem bindOrConnect_decision:
  assumes "wmStrSizeCpy_ok wm" "CHR '':'' \<notin> set scheme" "length scheme \<le> 14" "uri = scheme @ CHR '':'' # rest"
  shows "run_state (zmqBridgeMamaTransportImpl_bindOrConnect env ep wm sk uri d r h) w =
     (if scheme \<notin> {''tcp'', ''epgm'', ''pgm'', ''ipc''} \<or> d = ZMQ_TPORT_DIRECTION_UNKNOWN
      then (MAMA_STATUS_INVALID_ARG, w)
      else if scheme = ''tcp'' \<and> CHR ''*'' \<in> set uri \<or> scheme = ''ipc'' \<and> d = ZMQ_TPORT_DIRECTION_OUTGOING
      then (case run_state (zmqBridgeMamaTransportImpl_bindSocket env ep sk uri False) w of ((st, _), w') \<Rightarrow> (st, w'))
      else run_state (zmqBridgeMamaTransportImpl_connectSocket env sk uri r h) w)"
  using tportTypeStr_scheme[OF assms(1-3), of rest]
  by (cases d)
    (auto simp: zmqBridgeMamaTransportImpl_bindOrConnect_def Let_def assms(4) tport_type_def tport_isBinding_def
      split: prod.splits bool.splits)

theorem bindOrConnect_decision_witness:
  "run_state (zmqBridgeMamaTransportImpl_bindOrConnect (\<lambda>w c. 0) (\<lambda>w. []) (\<lambda>n s. (min (n - 1) (length s), take (n - 1) s))
      \<lparr>mSocket = 1, mLock = 11, mMonitor = 0\<rparr> ''ipc:///tmp/x'' ZMQ_TPORT_DIRECTION_OUTGOING 10 20) [] =
     (MAMA_STATUS_OK, [Wlock_lock 11, Zmq_bind 1 ''ipc:///tmp/x'', Wlock_unlock 11])"
  using bindOrConnect_decision[of "\<lambda>n s. (min (n - 1) (length s), take (n - 1) s)" "''ipc''" "''ipc:///tmp/x''" "''///tmp/x''"
      "\<lambda>w c. 0" "\<lambda>w. []" "\<lparr>mSocket = 1, mLock = 11, mMonitor = 0\<rparr>" ZMQ_TPORT_DIRECTION_OUTGOING 10 20 "[]"]
  by (simp add: wmStrSizeCpy_ok_def zmqBridgeMamaTransportImpl_bindSocket_def)

end
