(* ===== verification/Subject_Key.thy ===== *)
theory Subject_Key
  imports OZ_Msg
begin

text \<open>
  Subject keys, \<open>zmqBridgeMamaSubscriptionImpl_generateSubjectKey\<close> of \<open>src/src/subscription.c\<close>:
  the topic under which subscriptions are registered and messages are published. The model
  keeps the stack buffer, the write position and the \<open>size_t\<close> of the bytes that remain, since
  the function relies on the return value of \<open>snprintf\<close>. The prefix that a wildcard
  subscription registers with ZeroMQ is computed in \<open>wildcard_prefix\<close>.
\<close>

subsection \<open>Building a key\<close>

text \<open>
  \<open>snprintf(buf + pos, n, "%s", s)\<close>: writes at most \<open>n - 1\<close> bytes and a null and returns the
  length of \<open>s\<close>; with \<open>n = 0\<close> it writes nothing. A write outside the buffer is undefined.
\<close>

definition snprintf_at :: "bytes \<Rightarrow> nat \<Rightarrow> 64 word \<Rightarrow> cstring \<Rightarrow> (bytes \<times> nat) option" where
  "snprintf_at buf pos n s =
     (if n = 0 then Some (buf, length s)
      else do {
        buf' \<leftarrow> memcpy_at buf pos (take (unat n - 1) s @ [NUL]);
        Some (buf', length s)
      })"

text \<open>One part of the key: preceded by a period unless it is the first in the buffer.\<close>

definition key_append :: "bytes \<times> nat \<times> 64 word \<Rightarrow> cstring option \<Rightarrow> (bytes \<times> nat \<times> 64 word) option" where
  "key_append st part =
     (case part of
        None \<Rightarrow> Some st
      | Some p \<Rightarrow> (case st of (buf, pos, bytesRemaining) \<Rightarrow> do {
          (buf', written) \<leftarrow> snprintf_at buf pos bytesRemaining (if pos \<noteq> 0 then CHR ''.'' # p else p);
          Some (buf', pos + written, bytesRemaining - word_of_nat written)
        }))"

text \<open>
  \<open>junk\<close> is the initial content of the array \<open>subject\<close>, \<open>mem\<close> the outcome of \<open>strdup\<close>. With no part
  at all, \<open>strdup\<close> reads the uninitialised array.
\<close>

definition zmqBridgeMamaSubscriptionImpl_generateSubjectKey ::
  "bytes \<Rightarrow> bool \<Rightarrow> cstring option \<Rightarrow> cstring option \<Rightarrow> cstring option \<Rightarrow> (mama_status \<times> cstring option) option" where
  "zmqBridgeMamaSubscriptionImpl_generateSubjectKey junk mem root source topic = do {
     st \<leftarrow> key_append (junk, 0, word_of_nat MAX_SUBJECT_LENGTH) root;
     st \<leftarrow> key_append st source;
     (subject, _, _) \<leftarrow> key_append st topic;
     key \<leftarrow> (if root = None \<and> source = None \<and> topic = None then None else cstr_at subject);
     Some (if mem then (MAMA_STATUS_OK, Some key) else (MAMA_STATUS_NOMEM, None))
   }"

text \<open>\<open>zmqBridgeMamaPublisherImpl_buildSendSubject\<close> of \<open>src/src/publisher.c\<close>; the status of the key is ignored.\<close>

definition zmqBridgeMamaPublisherImpl_buildSendSubject ::
  "bytes \<Rightarrow> bool \<Rightarrow> cstring option \<Rightarrow> cstring option \<Rightarrow> cstring option \<Rightarrow> (mama_status \<times> cstring option) option" where
  "zmqBridgeMamaPublisherImpl_buildSendSubject junk mem root source topic = do {
     (_, keyTarget) \<leftarrow>
       (case root of
          Some r \<Rightarrow>
            if r = ''_MDDD'' then zmqBridgeMamaSubscriptionImpl_generateSubjectKey junk mem root source topic
            else zmqBridgeMamaSubscriptionImpl_generateSubjectKey junk mem root source None
        | None \<Rightarrow> zmqBridgeMamaSubscriptionImpl_generateSubjectKey junk mem None source topic);
     Some (MAMA_STATUS_OK, keyTarget)
   }"

subsection \<open>The prefix of a wildcard subscription\<close>

text \<open>\<open>strstr\<close>: the index of the first occurrence.\<close>

fun strstr :: "cstring \<Rightarrow> cstring \<Rightarrow> nat option" where
  "strstr [] pat = (if pat = [] then Some 0 else None)"
| "strstr (c # s) pat =
     (if take (length pat) (c # s) = pat then Some 0 else map_option Suc (strstr s pat))"

text \<open>
  The part of \<open>zmqBridgeMamaSubscription_createWildCard\<close> that derives the ZeroMQ prefix: skip a
  leading anchor, cut at the first wildcard, else cut a trailing \<open>/.*\<close> after its slash. The
  comparison at \<open>prefix[l-3]\<close> is undefined when that lies before the array.
\<close>

definition wildcard_prefix :: "cstring \<Rightarrow> cstring option" where
  "wildcard_prefix regex =
     (let skip = (if take 1 regex = ''^'' then 1 else 0);
          prefix = drop skip regex in
      case strstr prefix ''[^/]+'' of
        Some i \<Rightarrow> Some (take i prefix)
      | None \<Rightarrow>
          let l = length prefix in
          if skip + l < 3 then None
          else if drop (skip + l - 3) regex = ''/.*'' then Some (take (l - 2) prefix)
          else Some prefix)"

subsection \<open>What a key is\<close>

definition key_join :: "cstring \<Rightarrow> cstring \<Rightarrow> cstring" where
  "key_join acc p = (if acc = [] then p else acc @ CHR ''.'' # p)"

definition option_list :: "'a option \<Rightarrow> 'a list" where
  "option_list x = (case x of None \<Rightarrow> [] | Some a \<Rightarrow> [a])"

definition key_parts :: "cstring option \<Rightarrow> cstring option \<Rightarrow> cstring option \<Rightarrow> cstring list" where
  "key_parts root source topic = option_list root @ option_list source @ option_list topic"

definition subject_key :: "cstring list \<Rightarrow> cstring" where
  "subject_key ps = foldl key_join [] ps"

text \<open>The buffer after the parts \<open>acc\<close> were appended; \<open>ini\<close> says whether anything was written.\<close>

definition key_state :: "bool \<Rightarrow> cstring \<Rightarrow> bytes \<times> nat \<times> 64 word \<Rightarrow> bool" where
  "key_state ini acc st \<longleftrightarrow>
     (case st of (buf, pos, bytesRemaining) \<Rightarrow>
        length buf = 257 \<and> pos = length acc \<and> bytesRemaining = 256 - word_of_nat (length acc) \<and>
        is_cstring acc \<and> (if ini then \<exists>r. buf = take 255 acc @ NUL # r else acc = []))"

lemma key_append_step:
  assumes st: "key_state ini acc (buf, pos, n)" and p: "is_cstring p" and fits: "length acc \<le> 256"
  shows "\<exists>st'. key_append (buf, pos, n) (Some p) = Some st' \<and> key_state True (key_join acc p) st'"
proof -
  define s where "s = (if pos \<noteq> 0 then CHR ''.'' # p else p)"
  have acc: "length buf = 257" "pos = length acc" "n = 256 - word_of_nat (length acc)" "is_cstring acc"
    using st by (auto simp: key_state_def)
  have join: "key_join acc p = acc @ s" by (simp add: key_join_def s_def acc(2))
  have cs: "is_cstring (acc @ s)" using acc(4) p by (simp add: s_def)
  have rem: "n - word_of_nat (length s) = 256 - word_of_nat (length (acc @ s))"
    by (simp add: acc(3))
  show ?thesis
  proof (cases "length acc = 256")
    case True
    then have "n = 0" by (simp add: acc(3))
    then have run: "key_append (buf, pos, n) (Some p) = Some (buf, pos + length s, n - word_of_nat (length s))"
      by (simp add: key_append_def snprintf_at_def s_def)
    have "acc \<noteq> []" using True by auto
    with st have "\<exists>r. buf = take 255 acc @ NUL # r" by (simp add: key_state_def split: if_splits)
    then have "key_state True (key_join acc p) (buf, pos + length s, n - word_of_nat (length s))"
      using True acc cs rem by (simp add: key_state_def join)
    with run show ?thesis by blast
  next
    case False
    then have lt: "length acc < 256" using fits by simp
    have "n = word_of_nat (256 - length acc)" using lt by (simp add: acc(3) of_nat_diff)
    then have un: "unat n = 256 - length acc" by (simp add: unat_of_nat take_bit_nat_eq_self)
    then have n0: "n \<noteq> 0" using lt by auto
    have "take (length acc) buf = acc"
    proof (cases ini)
      case True
      then obtain r where "buf = take 255 acc @ NUL # r" using st by (auto simp: key_state_def)
      with lt show ?thesis by simp
    next
      case False
      with st have "acc = []" by (simp add: key_state_def)
      then show ?thesis by simp
    qed
    define r where "r = drop (length acc + min (255 - length acc) (length s) + 1) buf"
    have "memcpy_at buf pos (take (unat n - 1) s @ [NUL]) = Some (acc @ take (255 - length acc) s @ NUL # r)"
      using lt acc(1,2) un \<open>take (length acc) buf = acc\<close> by (auto simp: memcpy_at_def min_def r_def)
    moreover have "acc @ take (255 - length acc) s @ NUL # r = take 255 (acc @ s) @ NUL # r" using lt by simp
    ultimately have m: "memcpy_at buf pos (take (unat n - 1) s @ [NUL]) = Some (take 255 (acc @ s) @ NUL # r)"
      by (simp only:)
    have run: "key_append (buf, pos, n) (Some p) =
        Some (take 255 (acc @ s) @ NUL # r, pos + length s, n - word_of_nat (length s))"
      using n0 m unfolding key_append_def snprintf_at_def s_def by simp
    have len: "length (take 255 (acc @ s) @ NUL # r) = 257" using memcpy_at_length[OF m] acc(1) by (simp only:)
    have "key_state True (key_join acc p) (take 255 (acc @ s) @ NUL # r, pos + length s, n - word_of_nat (length s))"
      using len cs rem acc(2) by (auto simp: key_state_def join)
    with run show ?thesis by blast
  qed
qed

text \<open>Once more than 256 bytes were produced, the size wraps around and the next part is written past the array.\<close>

lemma key_append_overrun:
  assumes st: "key_state ini acc (buf, pos, n)" and big: "256 < length acc" "length acc < 2 ^ 62"
  shows "key_append (buf, pos, n) (Some p) = None"
proof -
  have acc: "length buf = 257" "pos = length acc" "n = 256 - word_of_nat (length acc)"
    using st by (auto simp: key_state_def)
  have "word_of_nat (length acc) \<noteq> (256 :: 64 word)"
  proof
    assume "word_of_nat (length acc) = (256 :: 64 word)"
    then have "unat (word_of_nat (length acc) :: 64 word) = unat (256 :: 64 word)" by simp
    moreover have "unat (word_of_nat (length acc) :: 64 word) = length acc"
      using big(2) by (simp add: unat_of_nat take_bit_nat_eq_self)
    ultimately show False using big(1) by simp
  qed
  then have "n \<noteq> 0" using acc(3) by simp
  then show ?thesis using acc(1,2) big(1) by (simp add: key_append_def snprintf_at_def memcpy_at_def)
qed

text \<open>The parts one after the other: defined exactly as long as all but the last fit in 256 bytes.\<close>

fun key_fold :: "bytes \<times> nat \<times> 64 word \<Rightarrow> cstring list \<Rightarrow> (bytes \<times> nat \<times> 64 word) option" where
  "key_fold st [] = Some st"
| "key_fold st (p # ps) = do { st' \<leftarrow> key_append st (Some p); key_fold st' ps }"

lemma key_append_None [simp]: "key_append st None = Some st"
  by (simp add: key_append_def)

lemma key_fold_parts:
  "do { st1 \<leftarrow> key_append st root; st2 \<leftarrow> key_append st1 source; key_append st2 topic } =
     key_fold st (key_parts root source topic)"
  by (cases root; cases source; cases topic)
    (simp_all add: key_parts_def option_list_def)

lemma length_key_join: "length acc \<le> length (key_join acc p)" "length (key_join acc p) \<le> length acc + length p + 1"
  by (auto simp: key_join_def)

lemma length_foldl_join: "length acc \<le> length (foldl key_join acc ps)"
proof (induction ps arbitrary: acc)
  case (Cons p ps)
  from Cons[of "key_join acc p"] length_key_join(1)[of acc p] show ?case by simp
qed simp

lemma key_fold_result:
  assumes "key_state ini acc st" "list_all is_cstring ps" "ps \<noteq> []"
    and small: "length acc + sum_list (map length ps) + length ps < 2 ^ 62"
  shows "(if length (foldl key_join acc (butlast ps)) \<le> 256
          then \<exists>st'. key_fold st ps = Some st' \<and> key_state True (foldl key_join acc ps) st'
          else key_fold st ps = None)"
  using assms
proof (induction ps arbitrary: ini acc st)
  case Nil
  then show ?case by simp
next
  case (Cons p ps)
  obtain buf pos n where st: "st = (buf, pos, n)" by (cases st) auto
  show ?case
  proof (cases "length acc \<le> 256")
    case False
    have "length acc \<le> length (foldl key_join acc (butlast (p # ps)))" by (rule length_foldl_join)
    moreover have "key_append st (Some p) = None"
      using key_append_overrun[of ini acc buf pos n p] Cons.prems False st by simp
    ultimately show ?thesis using False by simp
  next
    case True
    then obtain st' where st': "key_append st (Some p) = Some st'" "key_state True (key_join acc p) st'"
      using key_append_step[of ini acc buf pos n p] Cons.prems st by auto
    show ?thesis
    proof (cases "ps = []")
      case True
      with st' \<open>length acc \<le> 256\<close> show ?thesis by simp
    next
      case False
      have "length (key_join acc p) + sum_list (map length ps) + length ps < 2 ^ 62"
        using Cons.prems(4) length_key_join(2)[of acc p] by simp
      from Cons.IH[OF st'(2) _ False this] Cons.prems(2) False st'(1) show ?thesis
        by (simp del: split_paired_Ex)
    qed
  qed
qed

lemma generateSubjectKey_result:
  assumes "length junk = 257" "list_all is_cstring (key_parts root source topic)" "key_parts root source topic \<noteq> []"
    and "sum_list (map length (key_parts root source topic)) < 2 ^ 61"
  shows "zmqBridgeMamaSubscriptionImpl_generateSubjectKey junk mem root source topic =
     (if length (subject_key (butlast (key_parts root source topic))) \<le> 256
      then Some (if mem then (MAMA_STATUS_OK, Some (take 255 (subject_key (key_parts root source topic))))
                 else (MAMA_STATUS_NOMEM, None))
      else None)"
proof -
  let ?ps = "key_parts root source topic" and ?st = "(junk, 0, 256) :: bytes \<times> nat \<times> 64 word"
  have some: "\<not> (root = None \<and> source = None \<and> topic = None)"
    using assms(3) by (auto simp: key_parts_def option_list_def)
  have len: "length ?ps \<le> 3"
    by (cases root; cases source; cases topic) (simp_all add: key_parts_def option_list_def)
  have "zmqBridgeMamaSubscriptionImpl_generateSubjectKey junk mem root source topic = do {
      (subject, _, _) \<leftarrow> do { st1 \<leftarrow> key_append ?st root; st2 \<leftarrow> key_append st1 source; key_append st2 topic };
      key \<leftarrow> cstr_at subject;
      Some (if mem then (MAMA_STATUS_OK, Some key) else (MAMA_STATUS_NOMEM, None)) }"
    unfolding zmqBridgeMamaSubscriptionImpl_generateSubjectKey_def MAX_SUBJECT_LENGTH_def if_not_P[OF some]
    by (simp add: Option.bind_assoc)
  also have "\<dots> = do {
      (subject, _, _) \<leftarrow> key_fold ?st ?ps;
      key \<leftarrow> cstr_at subject;
      Some (if mem then (MAMA_STATUS_OK, Some key) else (MAMA_STATUS_NOMEM, None)) }"
    unfolding key_fold_parts ..
  finally have run: "zmqBridgeMamaSubscriptionImpl_generateSubjectKey junk mem root source topic = \<dots>" .
  have "key_state False [] ?st" using assms(1) by (simp add: key_state_def)
  from key_fold_result[OF this assms(2,3)] assms(4) len
  have res: "if length (subject_key (butlast ?ps)) \<le> 256
          then \<exists>st'. key_fold ?st ?ps = Some st' \<and> key_state True (subject_key ?ps) st'
          else key_fold ?st ?ps = None"
    by (simp add: subject_key_def del: split_paired_Ex)
  show ?thesis
  proof (cases "length (subject_key (butlast ?ps)) \<le> 256")
    case True
    with res obtain buf pos n where
      f: "key_fold ?st ?ps = Some (buf, pos, n)" "key_state True (subject_key ?ps) (buf, pos, n)" by auto
    then obtain r where "buf = take 255 (subject_key ?ps) @ NUL # r" "is_cstring (subject_key ?ps)"
      by (auto simp: key_state_def)
    then have "cstr_at buf = Some (take 255 (subject_key ?ps))" by (simp add: is_cstring_take)
    with f(1) True run show ?thesis by simp
  next
    case False
    with res run show ?thesis by simp
  qed
qed

lemma strstr_prefix: "strstr s pat = Some i \<Longrightarrow> i \<le> length s \<and> take (length pat) (drop i s) = pat"
  by (induction s arbitrary: i) (auto split: if_splits)

lemma strstr_first: "hd pat \<notin> set lit \<Longrightarrow> pat \<noteq> [] \<Longrightarrow> strstr (lit @ pat @ rest) pat = Some (length lit)"
proof (induction lit)
  case Nil
  then show ?case by (cases pat) auto
next
  case (Cons c lit)
  have "take (length pat) (c # lit @ pat @ rest) \<noteq> pat"
    using Cons.prems by (cases pat) auto
  with Cons show ?case by simp
qed

lemma strstr_absent: "hd pat \<notin> set s \<Longrightarrow> pat \<noteq> [] \<Longrightarrow> strstr s pat = None"
proof (induction s)
  case (Cons c s)
  then show ?case by (cases pat) auto
qed simp

lemma wildcard_prefix_defined:
  "wildcard_prefix regex \<noteq> None \<longleftrightarrow> 3 \<le> length regex"
proof -
  define skip :: nat where "skip = (if take 1 regex = ''^'' then 1 else 0)"
  note unfolded = wildcard_prefix_def[of regex, folded skip_def, unfolded Let_def]
  have len: "skip + length (drop skip regex) = length regex"
    by (cases regex) (auto simp: skip_def)
  show ?thesis
  proof (cases "strstr (drop skip regex) ''[^/]+''")
    case None
    with len show ?thesis by (auto simp: unfolded)
  next
    case (Some i)
    from strstr_prefix[OF Some] have "take (length ''[^/]+'') (drop i (drop skip regex)) = ''[^/]+''" ..
    then have "length (take (length ''[^/]+'') (drop i (drop skip regex))) = length ''[^/]+''" by (rule arg_cong)
    then have "3 \<le> length regex" by simp
    with Some show ?thesis by (simp add: unfolded)
  qed
qed

lemma buildSendSubject_key:
  "zmqBridgeMamaPublisherImpl_buildSendSubject junk mem root source topic =
     map_option (\<lambda>(_, key). (MAMA_STATUS_OK, key))
       (zmqBridgeMamaSubscriptionImpl_generateSubjectKey junk mem root source
          (if root = None \<or> root = Some ''_MDDD'' then topic else None))"
proof -
  have "Option.bind x (\<lambda>(_, k). Some (MAMA_STATUS_OK, k)) = map_option (\<lambda>(_, key). (MAMA_STATUS_OK, key)) x"
    for x :: "(mama_status \<times> cstring option) option"
    by (cases x) (auto split: prod.splits)
  then show ?thesis
    by (cases root) (simp_all add: zmqBridgeMamaPublisherImpl_buildSendSubject_def)
qed

subsection \<open>Properties\<close>

text \<open>
  C24. The key of a subscription or publisher is the join of its parts with periods, cut to 255
  bytes; the function stays inside its buffer exactly when all parts but the last take at most
  256 bytes together. Beyond that the unsigned \<open>bytesRemaining\<close> wraps around and the next
  part is written past the end of the stack buffer.
\<close>

theorem subject_key_exact:
  assumes "length junk = 257" "list_all is_cstring (key_parts root source topic)" "key_parts root source topic \<noteq> []"
    and "sum_list (map length (key_parts root source topic)) < 2 ^ 61"
  shows "zmqBridgeMamaSubscriptionImpl_generateSubjectKey junk True root source topic =
     (if length (subject_key (butlast (key_parts root source topic))) \<le> 256
      then Some (MAMA_STATUS_OK, Some (take 255 (subject_key (key_parts root source topic))))
      else None)"
  using generateSubjectKey_result[OF assms, of True] by simp

theorem subject_key_exact_witness:
  "zmqBridgeMamaSubscriptionImpl_generateSubjectKey (replicate 257 (CHR ''?'')) True None (Some ''NASDAQ'') (Some ''MSFT'') =
     Some (MAMA_STATUS_OK, Some ''NASDAQ.MSFT'') \<and>
   zmqBridgeMamaSubscriptionImpl_generateSubjectKey (replicate 257 (CHR ''?'')) True None
     (Some (replicate 257 (CHR ''a''))) (Some ''MSFT'') = None"
  using subject_key_exact[of "replicate 257 (CHR ''?'')" None "Some ''NASDAQ''" "Some ''MSFT''"]
    subject_key_exact[of "replicate 257 (CHR ''?'')" None "Some (replicate 257 (CHR ''a''))" "Some ''MSFT''"]
  by (simp add: key_parts_def option_list_def subject_key_def key_join_def is_cstring_def)

text \<open>
  The ZeroMQ prefix of a wildcard subscription: for a pattern of the form
  \<open>^lit[^/]+...\<close> it is \<open>lit\<close>, for \<open>^lit/.*\<close> it is \<open>lit/\<close>. It is computed inside the array exactly when
  the pattern has at least three characters; for a shorter one the comparison with \<open>/.*\<close> starts before the
  array.
\<close>

theorem wildcard_prefix_correct:
  assumes "CHR ''['' \<notin> set lit"
  shows "wildcard_prefix (''^'' @ lit @ ''[^/]+'' @ rest) = Some lit \<and>
     wildcard_prefix (''^'' @ lit @ ''/.*'') = Some (lit @ ''/'') \<and>
     (wildcard_prefix regex = None \<longleftrightarrow> length regex < 3)"
proof (intro conjI)
  show "wildcard_prefix (''^'' @ lit @ ''[^/]+'' @ rest) = Some lit"
    using strstr_first[of "''[^/]+''" lit rest] assms by (simp add: wildcard_prefix_def)
  have "strstr (lit @ ''/.*'') ''[^/]+'' = None"
    using assms by (intro strstr_absent) auto
  then show "wildcard_prefix (''^'' @ lit @ ''/.*'') = Some (lit @ ''/'')"
    by (simp add: wildcard_prefix_def)
  show "wildcard_prefix regex = None \<longleftrightarrow> length regex < 3"
    using wildcard_prefix_defined[of regex] by auto
qed

theorem wildcard_prefix_correct_witness:
  "wildcard_prefix ''^OZ/A/[^/]+/B'' = Some ''OZ/A/'' \<and> wildcard_prefix ''^.'' = None"
  using wildcard_prefix_correct[of "''OZ/A/''" "''/B''" "''^.''"] by simp

end
