(* ===== verification/Bridge_State.thy ===== *)
theory Bridge_State
  imports MamaQueue Sockets Subject_Key
begin

text \<open>
  The state that the components of the bridge share: the structures of \<open>src/src/zmqdefs.h\<close>,
  the objects a process has allocated, the functions of the MAMA and wombat libraries that the
  bridge calls, and what the process has called so far.
\<close>

subsection \<open>Structures\<close>

text \<open>
  One process with one transport. A pointer to the transport is \<open>Some ()\<close>, or \<open>None\<close> for
  \<open>NULL\<close>; pointers to inboxes, subscriptions and queues are addresses in the stores below.
\<close>

type_synonym tport_ptr = "unit option"

record zmqTransportMsg =
  tm_mTransport :: tport_ptr
  tm_mEndpointIdentifier :: cstring
  tm_mZmsg :: bytes

text \<open>The functions that the dispatch thread enqueues.\<close>

datatype tport_cb =
    zmqBridgeMamaTransportImpl_inboxCallback
  | zmqBridgeMamaTransportImpl_subCallback
  | zmqBridgeMamaTransportImpl_wcCallback

type_synonym zqueue = "(tport_cb, nat, zmqTransportMsg) zmqQueueBridge"

record zmqInboxImpl =
  ib_mClosure :: voidp
  ib_mMamaQueue :: voidp
  ib_mZmqQueue :: "nat option"
  ib_mTransport :: tport_ptr
  ib_mMsgCB :: "nat option"
  ib_mErrCB :: "nat option"
  ib_mOnInboxDestroyed :: "nat option"
  ib_mParent :: voidp
  ib_mReplyHandle :: "cstring option"

text \<open>\<open>sb_mMamaCallback\<close> is the \<open>onDestroy\<close> member, the only callback the bridge itself calls.\<close>

record zmqSubscription =
  sb_mMamaCallback :: "nat option"
  sb_mMamaSubscription :: voidp
  sb_mMamaQueue :: voidp
  sb_mZmqQueue :: "nat option"
  sb_mClosure :: voidp
  mIsNotMuted :: int
  sb_mIsValid :: int
  mIsTportDisconnected :: int
  sb_mTransport :: tport_ptr
  sb_mSubjectKey :: "cstring option"
  sb_mEndpointIdentifier :: "cstring option"
  mIsWildcard :: int
  mOrigRegex :: "cstring option"
  mCompRegex :: "cstring option"

text \<open>
  The transport. \<open>'t\<close> is the type of the hash table of inboxes, \<open>'u\<close> that of the table of
  peers, \<open>'p\<close> that of the endpoint pool and \<open>'l\<close> that of wombat lists. The arrays of
  addresses are lists with an entry for each element, \<open>None\<close> for \<open>NULL\<close>. The counters are statistics only.
\<close>

record ('t, 'u, 'p, 'l) zmqTransportBridge =
  t_mName :: cstring
  mIsReady :: nat
  mNamingConnected :: "32 word"
  t_mIsValid :: int
  t_mTransport :: voidp
  mIsNaming :: int
  mPublishAddress :: cstring
  mUuid :: cstring
  mHeartbeatInterval :: int
  mReconnectInterval :: int
  mDisableRefresh :: int
  mReconnectOptions :: int
  mZmqControlSub :: zmqSocket
  mZmqControlPub :: zmqSocket
  mZmqNamingPub :: zmqSocket
  mZmqNamingSub :: zmqSocket
  mPubEndpoint :: cstring
  mNamingAddress :: "cstring option list"
  mNamingWaitForConnect :: int
  mNamingConnectRetries :: int
  mNamingConnectInterval :: int
  mBeaconInterval :: "32 word"
  mZmqDataPub :: zmqSocket
  mZmqDataSub :: zmqSocket
  mIncomingAddress :: "cstring option list"
  mOutgoingAddress :: "cstring option list"
  t_mIsDispatching :: "32 word"
  mOmzmqDispatchStatus :: mama_status
  mZmqMonitorPub :: zmqSocket
  mZmqMonitorSub :: zmqSocket
  mIsMonitoring :: "32 word"
  mSocketMonitor :: int
  mPeers :: 'u
  mSubEndpoints :: 'p
  mSubsLock :: nat
  mSubUid :: "64 word"
  mWcEndpoints :: 'l
  mWcsLock :: nat
  mWcsUid :: "64 word"
  mInboxSubject :: cstring
  mInboxes :: 't
  mInboxesLock :: nat
  mInboxUid :: "64 word"
  mNormalMessages :: int
  mNamingMessages :: int
  mControlMessages :: int
  mSubMessages :: int
  mInboxMessages :: int
  mPolls :: int

end
