(* ===== verification/Bridge_Process.thy ===== *)
theory Bridge_Process
  imports Bridge_State
begin

text \<open>
  A process: its transport, the objects it has allocated, the calls it has made. This theory
  also has the functions of \<open>src/src/transport.c\<close> by which inboxes, wildcard subscriptions and
  commands reach the transport: the registries and the control socket.
\<close>

subsection \<open>Libraries\<close>

text \<open>
  The functions of the wombat and MAMA libraries and of POSIX that the data path calls. Their
  results are arguments of the model; \<open>lib_ok\<close> below is what the bridge relies on.
  \<open>list_elements\<close> is the sequence of elements that \<open>list_for_each\<close> visits; \<open>calloc_ok\<close> is the
  outcome of the allocation that an enqueue may need.
\<close>

record ('t, 'p, 'l) mama_lib =
  wtable_lookup :: "'t \<Rightarrow> cstring \<Rightarrow> nat option"
  wtable_insert :: "'t \<Rightarrow> cstring \<Rightarrow> nat \<Rightarrow> int \<times> 't"
  wtable_remove :: "'t \<Rightarrow> cstring \<Rightarrow> nat option \<times> 't"
  endpointPool_registerWithIdentifier :: "'p \<Rightarrow> cstring \<Rightarrow> cstring \<Rightarrow> nat \<Rightarrow> mama_status \<times> 'p"
  endpointPool_unregister :: "'p \<Rightarrow> cstring \<Rightarrow> cstring \<Rightarrow> mama_status \<times> 'p"
  endpointPool_getRegistered :: "'p \<Rightarrow> cstring \<Rightarrow> mama_status \<times> nat list"
  endpointPool_getEndpointByIdentifiers :: "'p \<Rightarrow> cstring \<Rightarrow> cstring \<Rightarrow> nat option"
  list_elements :: "'l \<Rightarrow> nat list"
  list_push_back :: "'l \<Rightarrow> nat \<Rightarrow> 'l"
  list_remove_element :: "'l \<Rightarrow> nat \<Rightarrow> 'l"
  mamaQueueImpl_getMsg :: "voidp \<Rightarrow> nat option"
  mamaMsgImpl_getBridgeMsg :: "nat \<Rightarrow> mama_status"
  mamaMsgImpl_setMsgBuffer :: "nat \<Rightarrow> bytes \<Rightarrow> byte \<Rightarrow> mama_status"
  regexec :: "cstring \<Rightarrow> cstring \<Rightarrow> int"
  wmStrSizeCpy :: "nat \<Rightarrow> cstring \<Rightarrow> nat \<times> cstring"
  calloc_ok :: "zqueue \<Rightarrow> bool"

definition wtable_ok :: "('t, 'p, 'l) mama_lib \<Rightarrow> bool" where
  "wtable_ok L \<longleftrightarrow>
     (\<forall>t k v. wtable_lookup L t k = None \<longrightarrow>
        0 \<le> fst (wtable_insert L t k v) \<and>
        wtable_lookup L (snd (wtable_insert L t k v)) = (wtable_lookup L t)(k \<mapsto> v)) \<and>
     (\<forall>t k. fst (wtable_remove L t k) = wtable_lookup L t k \<and>
        wtable_lookup L (snd (wtable_remove L t k)) = (wtable_lookup L t)(k := None))"

text \<open>An endpoint is found by its topic and identifier; \<open>getRegistered\<close> lists those of a topic.\<close>

abbreviation pool_map :: "('t, 'p, 'l) mama_lib \<Rightarrow> 'p \<Rightarrow> cstring \<times> cstring \<Rightarrow> nat option" where
  "pool_map L p \<equiv> (\<lambda>(s, i). endpointPool_getEndpointByIdentifiers L p s i)"

definition pool_ok :: "('t, 'p, 'l) mama_lib \<Rightarrow> bool" where
  "pool_ok L \<longleftrightarrow>
     (\<forall>p s i v. pool_map L p (s, i) = None \<longrightarrow>
        pool_map L (snd (endpointPool_registerWithIdentifier L p s i v)) = (pool_map L p)((s, i) \<mapsto> v)) \<and>
     (\<forall>p s i. pool_map L (snd (endpointPool_unregister L p s i)) = (pool_map L p)((s, i) := None)) \<and>
     (\<forall>p s. \<exists>ids. distinct ids \<and> set ids = {i. pool_map L p (s, i) \<noteq> None} \<and>
        (if ids = [] then fst (endpointPool_getRegistered L p s) \<noteq> MAMA_STATUS_OK \<or> snd (endpointPool_getRegistered L p s) = []
         else endpointPool_getRegistered L p s = (MAMA_STATUS_OK, map (\<lambda>i. the (pool_map L p (s, i))) ids)))"

definition wlist_ok :: "('t, 'p, 'l) mama_lib \<Rightarrow> bool" where
  "wlist_ok L \<longleftrightarrow>
     (\<forall>l x. list_elements L (list_push_back L l x) = list_elements L l @ [x]) \<and>
     (\<forall>l x. list_elements L (list_remove_element L l x) = remove1 x (list_elements L l))"

definition lib_ok :: "('t, 'p, 'l) mama_lib \<Rightarrow> bool" where
  "lib_ok L \<longleftrightarrow> wtable_ok L \<and> pool_ok L \<and> wlist_ok L \<and> wmStrSizeCpy_ok (wmStrSizeCpy L)"

subsection \<open>The process\<close>

text \<open>
  Calls into the application and the MAMA library, in the order in which they are made. The
  message callbacks carry the bridge message and the payload that the MAMA message has then.
\<close>

datatype app_event =
    InboxMsg nat nat voidp "zmqBridgeMsgImpl option" "bytes option"
  | InboxDestroyed nat voidp voidp
  | InboxError nat mama_status voidp
  | SubscriptionMsg voidp nat "zmqBridgeMsgImpl option" "bytes option"
  | WildcardMsg voidp nat cstring voidp "zmqBridgeMsgImpl option" "bytes option"
  | SubscriptionDestroyed nat voidp voidp
  | PublisherDestroyed nat voidp voidp
  | DisableRefresh voidp nat
  | QueueEvent "(tport_cb, nat, zmqTransportMsg) q_event"

record ('t, 'u, 'p, 'l) oz_proc =
  tport :: "('t, 'u, 'p, 'l) zmqTransportBridge"
  inbox_store :: "nat \<Rightarrow> zmqInboxImpl option"
  sub_store :: "nat \<Rightarrow> zmqSubscription option"
  queue_store :: "nat \<Rightarrow> zqueue option"
  bridge_msgs :: "nat \<Rightarrow> zmqBridgeMsgImpl option"
  msg_buffers :: "nat \<Rightarrow> bytes option"
  zcalls :: zworld
  app_events :: "app_event list"

text \<open>Running a socket function, taking and releasing a lock, reporting a callback.\<close>

definition zrun :: "'a zop \<Rightarrow> ('t, 'u, 'p, 'l) oz_proc \<Rightarrow> 'a \<times> ('t, 'u, 'p, 'l) oz_proc" where
  "zrun m w = (case run_state m (zcalls w) of (r, z) \<Rightarrow> (r, w\<lparr>zcalls := z\<rparr>))"

definition wlock_lock :: "nat \<Rightarrow> ('t, 'u, 'p, 'l) oz_proc \<Rightarrow> ('t, 'u, 'p, 'l) oz_proc" where
  "wlock_lock l w = w\<lparr>zcalls := zcalls w @ [Wlock_lock l]\<rparr>"

definition wlock_unlock :: "nat \<Rightarrow> ('t, 'u, 'p, 'l) oz_proc \<Rightarrow> ('t, 'u, 'p, 'l) oz_proc" where
  "wlock_unlock l w = w\<lparr>zcalls := zcalls w @ [Wlock_unlock l]\<rparr>"

definition emit :: "app_event \<Rightarrow> ('t, 'u, 'p, 'l) oz_proc \<Rightarrow> ('t, 'u, 'p, 'l) oz_proc" where
  "emit e w = w\<lparr>app_events := app_events w @ [e]\<rparr>"

abbreviation upd_tport ::
  "(('t, 'u, 'p, 'l) zmqTransportBridge \<Rightarrow> ('t, 'u, 'p, 'l) zmqTransportBridge)
     \<Rightarrow> ('t, 'u, 'p, 'l) oz_proc \<Rightarrow> ('t, 'u, 'p, 'l) oz_proc" where
  "upd_tport f w \<equiv> w\<lparr>tport := f (tport w)\<rparr>"

text \<open>
  \<open>zmqBridgeMamaQueue_enqueueMsg\<close> on the queue that a pointer refers to; the callers ignore its
  status.
\<close>

definition enqueue_at ::
  "('t, 'p, 'l) mama_lib \<Rightarrow> nat option \<Rightarrow> tport_cb \<Rightarrow> zmqTransportMsg
     \<Rightarrow> ('t, 'u, 'p, 'l) oz_proc \<Rightarrow> ('t, 'u, 'p, 'l) oz_proc option" where
  "enqueue_at L queue cb tmsg w = do {
     a \<leftarrow> queue;
     q \<leftarrow> queue_store w a;
     (_, q', evs) \<leftarrow> zmqBridgeMamaQueue_enqueueMsg (calloc_ok L q) (Some q) (Some cb) tmsg;
     Some (w\<lparr>queue_store := (queue_store w)(a := q'), app_events := app_events w @ map QueueEvent evs\<rparr>)
   }"

subsection \<open>Commands\<close>

text \<open>
  \<open>zmqControlMsg\<close>: one byte and an array of 257 bytes. The subscribe functions fill the array
  with \<open>wmStrSizeCpy\<close> and leave the rest of it as it is on the stack, \<open>junk\<close>.
\<close>

definition control_msg :: "byte \<Rightarrow> bytes \<Rightarrow> bytes" where
  "control_msg command arg1 = command # arg1"

definition zmqBridgeMamaTransportImpl_sendCommand ::
  "zenv \<Rightarrow> ('t, 'u, 'p, 'l) zmqTransportBridge \<Rightarrow> bytes \<Rightarrow> mama_status zop" where
  "zmqBridgeMamaTransportImpl_sendCommand env impl msg = do {
     zdo env (Wlock_lock (mLock (mZmqControlPub impl)));
     i \<leftarrow> zdo env (Zmq_send (mSocket (mZmqControlPub impl)) msg);
     zdo env (Wlock_unlock (mLock (mZmqControlPub impl)));
     State_Monad.return (if i \<le> 0 then MAMA_STATUS_PLATFORM else MAMA_STATUS_OK)
   }"

definition topic_command ::
  "('t, 'p, 'l) mama_lib \<Rightarrow> zenv \<Rightarrow> byte \<Rightarrow> bytes \<Rightarrow> tport_ptr \<Rightarrow> cstring option
     \<Rightarrow> ('t, 'u, 'p, 'l) oz_proc \<Rightarrow> (mama_status \<times> ('t, 'u, 'p, 'l) oz_proc) option" where
  "topic_command L env command junk transport topic w = do {
     topic \<leftarrow> topic;
     let copied = snd (wmStrSizeCpy L (MAX_SUBJECT_LENGTH + 1) topic);
     arg1 \<leftarrow> memcpy_at junk 0 (copied @ [NUL]);
     _ \<leftarrow> transport;
     let (s, w) = zrun (zmqBridgeMamaTransportImpl_sendCommand env (tport w) (control_msg command arg1)) w;
     if s \<noteq> MAMA_STATUS_OK then Some (s, w) else Some (MAMA_STATUS_OK, w)
   }"

definition zmqBridgeMamaSubscriptionImpl_subscribe ::
  "('t, 'p, 'l) mama_lib \<Rightarrow> zenv \<Rightarrow> bytes \<Rightarrow> tport_ptr \<Rightarrow> cstring option
     \<Rightarrow> ('t, 'u, 'p, 'l) oz_proc \<Rightarrow> (mama_status \<times> ('t, 'u, 'p, 'l) oz_proc) option" where
  "zmqBridgeMamaSubscriptionImpl_subscribe L env = topic_command L env (CHR ''S'')"

definition zmqBridgeMamaSubscriptionImpl_unsubscribe ::
  "('t, 'p, 'l) mama_lib \<Rightarrow> zenv \<Rightarrow> bytes \<Rightarrow> tport_ptr \<Rightarrow> cstring option
     \<Rightarrow> ('t, 'u, 'p, 'l) oz_proc \<Rightarrow> (mama_status \<times> ('t, 'u, 'p, 'l) oz_proc) option" where
  "zmqBridgeMamaSubscriptionImpl_unsubscribe L env = topic_command L env (CHR ''U'')"

text \<open>
  \<open>zmqBridgeMamaTransportImpl_dispatchControlMsg\<close>, on the dispatch thread. The topic is read
  from the message as a C string, for the two commands that use it.
\<close>

definition zmqBridgeMamaTransportImpl_dispatchControlMsg ::
  "zenv \<Rightarrow> bytes \<Rightarrow> ('t, 'u, 'p, 'l) oz_proc \<Rightarrow> (mama_status \<times> ('t, 'u, 'p, 'l) oz_proc) option" where
  "zmqBridgeMamaTransportImpl_dispatchControlMsg env zmsg w = do {
     let w = upd_tport (\<lambda>t. t\<lparr>mControlMessages := mControlMessages t + 1\<rparr>) w;
     command \<leftarrow> byte_at zmsg 0;
     if command = CHR ''S'' then do {
       arg1 \<leftarrow> cstr_at (drop 1 zmsg);
       Some (zrun (zmqBridgeMamaTransportImpl_subscribe env (mSocket (mZmqDataSub (tport w))) arg1) w)
     }
     else if command = CHR ''U'' then do {
       arg1 \<leftarrow> cstr_at (drop 1 zmsg);
       Some (zrun (zmqBridgeMamaTransportImpl_unsubscribe env (mSocket (mZmqDataSub (tport w))) arg1) w)
     }
     else if command = CHR ''X'' then
       Some (MAMA_STATUS_OK, upd_tport (\<lambda>t. t\<lparr>t_mIsDispatching := 0\<rparr>) w)
     else Some (MAMA_STATUS_OK, w)
   }"

subsection \<open>Inbox registry\<close>

text \<open>The name of an inbox is the tail of its reply handle; reading past the end of the handle is undefined.\<close>

definition inbox_name :: "zmqInboxImpl \<Rightarrow> cstring option" where
  "inbox_name inbox = do {
     h \<leftarrow> ib_mReplyHandle inbox;
     if ZMQ_REPLYHANDLE_INBOXNAME_INDEX \<le> length h then Some (drop ZMQ_REPLYHANDLE_INBOXNAME_INDEX h) else None
   }"

definition zmqBridgeMamaTransportImpl_getInboxSubject :: "('t, 'u, 'p, 'l) zmqTransportBridge option \<Rightarrow> bool \<Rightarrow> mama_status \<times> cstring option" where
  "zmqBridgeMamaTransportImpl_getInboxSubject impl out =
     (case impl of
        None \<Rightarrow> (MAMA_STATUS_NULL_ARG, None)
      | Some t \<Rightarrow> if \<not> out then (MAMA_STATUS_NULL_ARG, None) else (MAMA_STATUS_OK, Some (mInboxSubject t)))"

definition zmqBridgeMamaTransportImpl_registerInbox ::
  "('t, 'p, 'l) mama_lib \<Rightarrow> nat \<Rightarrow> ('t, 'u, 'p, 'l) oz_proc \<Rightarrow> (mama_status \<times> ('t, 'u, 'p, 'l) oz_proc) option" where
  "zmqBridgeMamaTransportImpl_registerInbox L a w = do {
     inbox \<leftarrow> inbox_store w a;
     name \<leftarrow> inbox_name inbox;
     let w = wlock_lock (mInboxesLock (tport w)) w;
     let (rc, tab) = wtable_insert L (mInboxes (tport w)) name a;
     let w = upd_tport (\<lambda>t. t\<lparr>mInboxes := tab\<rparr>) w;
     let w = wlock_unlock (mInboxesLock (tport w)) w;
     Some (if 0 \<le> rc then MAMA_STATUS_OK else MAMA_STATUS_NOT_FOUND, w)
   }"

definition zmqBridgeMamaTransportImpl_unregisterInbox ::
  "('t, 'p, 'l) mama_lib \<Rightarrow> nat \<Rightarrow> ('t, 'u, 'p, 'l) oz_proc \<Rightarrow> (mama_status \<times> ('t, 'u, 'p, 'l) oz_proc) option" where
  "zmqBridgeMamaTransportImpl_unregisterInbox L a w = do {
     inbox \<leftarrow> inbox_store w a;
     name \<leftarrow> inbox_name inbox;
     let w = wlock_lock (mInboxesLock (tport w)) w;
     let (old, tab) = wtable_remove L (mInboxes (tport w)) name;
     let w = upd_tport (\<lambda>t. t\<lparr>mInboxes := tab\<rparr>) w;
     let w = wlock_unlock (mInboxesLock (tport w)) w;
     Some (if old = Some a then MAMA_STATUS_OK else MAMA_STATUS_NOT_FOUND, w)
   }"

subsection \<open>Wildcard registry\<close>

text \<open>
  The callbacks that \<open>list_for_each\<close> makes read every subscription of the list, so a released
  one among them is undefined. \<open>removeWildcard\<close> removes each element with the identifier;
  \<open>findWildcard\<close> keeps the last one.
\<close>

fun zmqBridgeMamaTransportImpl_removeWildcard ::
  "('t, 'p, 'l) mama_lib \<Rightarrow> (nat \<Rightarrow> zmqSubscription option) \<Rightarrow> cstring \<Rightarrow> nat list \<Rightarrow> 'l \<Rightarrow> 'l option" where
  "zmqBridgeMamaTransportImpl_removeWildcard L store ident [] l = Some l"
| "zmqBridgeMamaTransportImpl_removeWildcard L store ident (a # as) l = do {
     subscription \<leftarrow> store a;
     i \<leftarrow> sb_mEndpointIdentifier subscription;
     zmqBridgeMamaTransportImpl_removeWildcard L store ident as
       (if i = ident then list_remove_element L l a else l)
   }"

definition zmqBridgeMamaTransportImpl_unregisterWildcard ::
  "('t, 'p, 'l) mama_lib \<Rightarrow> cstring \<Rightarrow> ('t, 'u, 'p, 'l) oz_proc \<Rightarrow> ('t, 'u, 'p, 'l) oz_proc option" where
  "zmqBridgeMamaTransportImpl_unregisterWildcard L ident w = do {
     l \<leftarrow> zmqBridgeMamaTransportImpl_removeWildcard L (sub_store w) ident
            (list_elements L (mWcEndpoints (tport w))) (mWcEndpoints (tport w));
     Some (upd_tport (\<lambda>t. t\<lparr>mWcEndpoints := l\<rparr>) w)
   }"

fun zmqBridgeMamaTransportImpl_findWildcard ::
  "(nat \<Rightarrow> zmqSubscription option) \<Rightarrow> cstring \<Rightarrow> nat list \<Rightarrow> nat option \<Rightarrow> nat option option" where
  "zmqBridgeMamaTransportImpl_findWildcard store ident [] found = Some found"
| "zmqBridgeMamaTransportImpl_findWildcard store ident (a # as) found = do {
     subscription \<leftarrow> store a;
     i \<leftarrow> sb_mEndpointIdentifier subscription;
     zmqBridgeMamaTransportImpl_findWildcard store ident as (if i = ident then Some a else found)
   }"

end
