(* ===== verification/Naming.thy ===== *)
theory Naming
  imports Bridge_Process
begin

text \<open>
  The naming protocol of \<open>src/src/transport.c\<close>, by which transports find each other through the
  naming service: the wire format of \<open>zmqNamingMsg\<close>, the announcement of the own endpoint, the
  handler for the messages of peers, and the thread that announces until its own message comes back.
\<close>

subsection \<open>Wire format\<close>

text \<open>
  \<open>zmqNamingMsg\<close> is packed, so the offset of a member is the sum of the sizes before it.
  \<open>MAXHOSTNAMELEN\<close> is 64 and a \<open>long\<close> has eight bytes, least significant first, as on the platforms
  the makefiles name.
\<close>

definition ZMQ_NAMING_PREFIX :: cstring where "ZMQ_NAMING_PREFIX = ''_NAMING''"
definition ZMQ_MAX_ENDPOINT_LENGTH :: nat where "ZMQ_MAX_ENDPOINT_LENGTH = 256"
definition MAXHOSTNAMELEN :: nat where "MAXHOSTNAMELEN = 64"

record zmqNamingMsg =
  nm_mTopic :: cstring
  nm_mType :: byte
  nm_mProgName :: cstring
  nm_mHost :: bytes
  nm_mPid :: "64 word"
  nm_mUuid :: cstring
  nm_mEndPointAddr :: cstring

definition off_mType :: nat where "off_mType = MAX_SUBJECT_LENGTH + 1"
definition off_mProgName :: nat where "off_mProgName = off_mType + 1"
definition off_mHost :: nat where "off_mHost = off_mProgName + (256 + 1)"
definition off_mPid :: nat where "off_mPid = off_mHost + (MAXHOSTNAMELEN + 1)"
definition off_mUuid :: nat where "off_mUuid = off_mPid + 8"
definition off_mEndPointAddr :: nat where "off_mEndPointAddr = off_mUuid + (UUID_STRING_SIZE + 1)"
definition sizeof_zmqNamingMsg :: nat where
  "sizeof_zmqNamingMsg = off_mEndPointAddr + (ZMQ_MAX_ENDPOINT_LENGTH + 1)"

lemmas naming_layout = off_mType_def off_mProgName_def off_mHost_def off_mPid_def off_mUuid_def
  off_mEndPointAddr_def sizeof_zmqNamingMsg_def MAXHOSTNAMELEN_def ZMQ_MAX_ENDPOINT_LENGTH_def
  MAX_SUBJECT_LENGTH_def UUID_STRING_SIZE_def

definition long_bytes :: "64 word \<Rightarrow> bytes" where
  "long_bytes n = map (\<lambda>i. char_of (unat (drop_bit (8 * i) n) mod 256)) [0..<8]"

text \<open>The content of an array that was zeroed before a string was written to it.\<close>

definition char_array :: "nat \<Rightarrow> bytes \<Rightarrow> bytes" where
  "char_array n s = s @ replicate (n - length s) NUL"

definition naming_bytes :: "zmqNamingMsg \<Rightarrow> bytes" where
  "naming_bytes m = char_array (MAX_SUBJECT_LENGTH + 1) (nm_mTopic m) @ [nm_mType m] @ char_array (256 + 1) (nm_mProgName m) @
     char_array (MAXHOSTNAMELEN + 1) (nm_mHost m) @ long_bytes (nm_mPid m) @ char_array (UUID_STRING_SIZE + 1) (nm_mUuid m) @
     char_array (ZMQ_MAX_ENDPOINT_LENGTH + 1) (nm_mEndPointAddr m)"

text \<open>Reading members of a received message; a member beyond the end of the message is undefined.\<close>

definition naming_type :: "bytes \<Rightarrow> byte option" where
  "naming_type zmsg = byte_at zmsg off_mType"

definition naming_uuid :: "bytes \<Rightarrow> cstring option" where
  "naming_uuid zmsg = cstr_at (drop off_mUuid zmsg)"

definition naming_addr :: "bytes \<Rightarrow> cstring option" where
  "naming_addr zmsg = cstr_at (drop off_mEndPointAddr zmsg)"

subsection \<open>Announcing the own endpoint\<close>

text \<open>
  What the operating system supplies: \<open>program_invocation_short_name\<close>, the bytes that
  \<open>gethostname\<close> writes and the process identifier.
\<close>

record host_env =
  he_prog :: cstring
  he_host :: bytes
  he_pid :: "64 word"

text \<open>\<open>strcpy\<close> to a member of \<open>n\<close> bytes at offset \<open>p\<close>.\<close>

definition strcpy_at :: "bytes \<Rightarrow> nat \<Rightarrow> nat \<Rightarrow> cstring \<Rightarrow> bytes option" where
  "strcpy_at buf p n s = (if length s < n then memcpy_at buf p (s @ [NUL]) else None)"

definition endpoints_msg ::
  "(nat \<Rightarrow> cstring \<Rightarrow> nat \<times> cstring) \<Rightarrow> host_env \<Rightarrow> byte \<Rightarrow> cstring \<Rightarrow> cstring \<Rightarrow> bytes option" where
  "endpoints_msg wm h command uuid endpoint = do {
     let msg = replicate sizeof_zmqNamingMsg NUL;
     msg \<leftarrow> strcpy_at msg 0 (MAX_SUBJECT_LENGTH + 1) ZMQ_NAMING_PREFIX;
     msg \<leftarrow> memcpy_at msg off_mType [command];
     msg \<leftarrow> memcpy_at msg off_mProgName (snd (wm (256 + 1) (he_prog h)) @ [NUL]);
     msg \<leftarrow> memcpy_at msg off_mHost (he_host h);
     msg \<leftarrow> memcpy_at msg off_mPid (long_bytes (he_pid h));
     msg \<leftarrow> strcpy_at msg off_mUuid (UUID_STRING_SIZE + 1) uuid;
     strcpy_at msg off_mEndPointAddr (ZMQ_MAX_ENDPOINT_LENGTH + 1) endpoint
   }"

definition zmqBridgeMamaTransportImpl_sendEndpointsMsg ::
  "('t, 'p, 'l) mama_lib \<Rightarrow> host_env \<Rightarrow> zenv \<Rightarrow> byte
     \<Rightarrow> ('t, 'u, 'p, 'l) oz_proc \<Rightarrow> (mama_status \<times> ('t, 'u, 'p, 'l) oz_proc) option" where
  "zmqBridgeMamaTransportImpl_sendEndpointsMsg L h env command w = do {
     msg \<leftarrow> endpoints_msg (wmStrSizeCpy L) h command (mUuid (tport w)) (mPubEndpoint (tport w));
     Some (zrun (do {
       zdo env (Wlock_lock (mLock (mZmqNamingPub (tport w))));
       i \<leftarrow> zdo env (Zmq_send (mSocket (mZmqNamingPub (tport w))) msg);
       zdo env (Wlock_unlock (mLock (mZmqNamingPub (tport w))));
       State_Monad.return (if i \<noteq> int sizeof_zmqNamingMsg then MAMA_STATUS_PLATFORM else MAMA_STATUS_OK)
     }) w)
   }"

subsection \<open>Messages from peers\<close>

text \<open>The table of peers, from the identifier of a transport to a copy of its message.\<close>

record 'u peer_lib =
  peers_lookup :: "'u \<Rightarrow> cstring \<Rightarrow> bytes option"
  peers_insert :: "'u \<Rightarrow> cstring \<Rightarrow> bytes \<Rightarrow> 'u"
  peers_remove :: "'u \<Rightarrow> cstring \<Rightarrow> bytes option \<times> 'u"

definition peers_ok :: "'u peer_lib \<Rightarrow> bool" where
  "peers_ok P \<longleftrightarrow>
     (\<forall>t k m. peers_lookup P t k = None \<longrightarrow> peers_lookup P (peers_insert P t k m) = (peers_lookup P t)(k \<mapsto> m)) \<and>
     (\<forall>t k. fst (peers_remove P t k) = peers_lookup P t k \<and>
        peers_lookup P (snd (peers_remove P t k)) = (peers_lookup P t)(k := None))"

text \<open>A peer that is not in the table; \<open>mem\<close> is the outcome of \<open>malloc\<close>.\<close>

definition naming_new_peer ::
  "('t, 'p, 'l) mama_lib \<Rightarrow> 'u peer_lib \<Rightarrow> host_env \<Rightarrow> zenv \<Rightarrow> bool \<Rightarrow> bytes
     \<Rightarrow> ('t, 'u, 'p, 'l) oz_proc \<Rightarrow> (mama_status \<times> ('t, 'u, 'p, 'l) oz_proc) option" where
  "naming_new_peer L P h env mem zmsg w = do {
     addr \<leftarrow> naming_addr zmsg;
     CALL_MAMA_FUNC
       (Some (zrun (zmqBridgeMamaTransportImpl_connectSocket env (mZmqDataSub (tport w)) addr
          (mReconnectInterval (tport w)) (mHeartbeatInterval (tport w))) w)) (\<lambda>w.
     CALL_MAMA_FUNC (zmqBridgeMamaTransportImpl_sendEndpointsMsg L h env (CHR ''C'') w) (\<lambda>w.
       if \<not> mem then Some (MAMA_STATUS_NOMEM, w)
       else if length zmsg < sizeof_zmqNamingMsg then None
       else do {
         let pOrigMsg = take sizeof_zmqNamingMsg zmsg;
         key \<leftarrow> naming_uuid pOrigMsg;
         Some (MAMA_STATUS_OK, upd_tport (\<lambda>t. t\<lparr>mPeers := peers_insert P (mPeers t) key pOrigMsg\<rparr>) w)
       }))
   }"

definition zmqBridgeMamaTransportImpl_dispatchNamingMsg ::
  "('t, 'p, 'l) mama_lib \<Rightarrow> 'u peer_lib \<Rightarrow> host_env \<Rightarrow> zenv \<Rightarrow> bool \<Rightarrow> bytes
     \<Rightarrow> ('t, 'u, 'p, 'l) oz_proc \<Rightarrow> (mama_status \<times> ('t, 'u, 'p, 'l) oz_proc) option" where
  "zmqBridgeMamaTransportImpl_dispatchNamingMsg L P h env mem zmsg w = do {
     let w = upd_tport (\<lambda>t. t\<lparr>mNamingMessages := mNamingMessages t + 1\<rparr>) w;
     mType \<leftarrow> naming_type zmsg;
     if mType = CHR ''C'' \<or> mType = CHR ''c'' then do {
       uuid \<leftarrow> naming_uuid zmsg;
       CALL_MAMA_FUNC
         (if peers_lookup P (mPeers (tport w)) uuid = None then naming_new_peer L P h env mem zmsg w
          else Some (MAMA_STATUS_OK, w)) (\<lambda>w.
         Some (MAMA_STATUS_OK,
           if mNamingConnected (tport w) \<noteq> 1 \<and> uuid = mUuid (tport w)
           then upd_tport (\<lambda>t. t\<lparr>mNamingConnected := 1\<rparr>) w else w))
     }
     else if mType = CHR ''D'' then do {
       uuid \<leftarrow> naming_uuid zmsg;
       let w = upd_tport (\<lambda>t. t\<lparr>mPeers := snd (peers_remove P (mPeers t) uuid)\<rparr>) w;
       addr \<leftarrow> naming_addr zmsg;
       let (_, w) = zrun (zmqBridgeMamaTransportImpl_disconnectSocket env (mZmqDataSub (tport w)) addr) w;
       let w = wlock_lock (mLock (mZmqDataPub (tport w))) w;
       let (_, w) = zrun (zdo env (Zmq_get_events (mSocket (mZmqDataPub (tport w))))) w;
       Some (MAMA_STATUS_OK, wlock_unlock (mLock (mZmqDataPub (tport w))) w)
     }
     else if mType = CHR ''W'' then do {
       addr \<leftarrow> naming_addr zmsg;
       let (status, w) = zrun (zmqBridgeMamaTransportImpl_connectSocket env (mZmqNamingPub (tport w)) addr
          (mReconnectInterval (tport w)) (mHeartbeatInterval (tport w))) w;
       if status \<noteq> MAMA_STATUS_OK then Some (MAMA_STATUS_PLATFORM, w)
       else do {
         let (rc, w) = zrun (zdo env (Wthread_create PublishThread)) w;
         Some (if rc \<noteq> 0 then MAMA_STATUS_PLATFORM else MAMA_STATUS_OK, w)
       }
     }
     else Some (MAMA_STATUS_PLATFORM, w)
   }"

subsection \<open>The publish thread\<close>

text \<open>
  The loop of \<open>zmqBridgeMamaTransportImpl_publishEndpoints\<close>. The other threads change the state
  meanwhile: \<open>echo n\<close> is what they do between the announcement and the test of \<open>mNamingConnected\<close>
  in the iteration that leaves \<open>retries\<close> at \<open>n\<close>, \<open>idle n\<close> what they do while it sleeps.
\<close>

function publish_loop ::
  "('t, 'p, 'l) mama_lib \<Rightarrow> host_env \<Rightarrow> zenv \<Rightarrow> (int \<Rightarrow> ('t, 'u, 'p, 'l) oz_proc \<Rightarrow> ('t, 'u, 'p, 'l) oz_proc)
     \<Rightarrow> (int \<Rightarrow> ('t, 'u, 'p, 'l) oz_proc \<Rightarrow> ('t, 'u, 'p, 'l) oz_proc) \<Rightarrow> int
     \<Rightarrow> ('t, 'u, 'p, 'l) oz_proc \<Rightarrow> ('t, 'u, 'p, 'l) oz_proc option" where
  "publish_loop L h env echo idle retries w =
     (if 0 < retries - 1 \<and> t_mIsDispatching (tport w) = 1
      then do {
        (_, w) \<leftarrow> zmqBridgeMamaTransportImpl_sendEndpointsMsg L h env (CHR ''C'') w;
        let w = echo (retries - 1) w;
        if mNamingConnected (tport w) = 1 then Some w
        else do {
          let (_, w) = zrun (zdo env (Usleep (mNamingConnectInterval (tport w)))) w;
          publish_loop L h env echo idle (retries - 1) (idle (retries - 1) w)
        }
      }
      else Some w)"
  by pat_completeness auto
termination
  by (relation "measure (\<lambda>(L, h, env, echo, idle, retries, w). nat retries)") auto

declare publish_loop.simps [simp del]

definition zmqBridgeMamaTransportImpl_publishEndpoints ::
  "('t, 'p, 'l) mama_lib \<Rightarrow> host_env \<Rightarrow> zenv \<Rightarrow> (int \<Rightarrow> ('t, 'u, 'p, 'l) oz_proc \<Rightarrow> ('t, 'u, 'p, 'l) oz_proc)
     \<Rightarrow> (int \<Rightarrow> ('t, 'u, 'p, 'l) oz_proc \<Rightarrow> ('t, 'u, 'p, 'l) oz_proc)
     \<Rightarrow> ('t, 'u, 'p, 'l) oz_proc \<Rightarrow> ('t, 'u, 'p, 'l) oz_proc option" where
  "zmqBridgeMamaTransportImpl_publishEndpoints L h env echo idle w =
     (let w = upd_tport (\<lambda>t. t\<lparr>mNamingConnected := 0\<rparr>) w
      in publish_loop L h env echo idle (mNamingConnectRetries (tport w)) w)"

end
