(* ===== verification/Inbox.thy ===== *)
theory Inbox
  imports Bridge_Process
begin

text \<open>
  Inboxes, \<open>src/src/inbox.c\<close>: the reply handle that identifies an inbox, its registration with
  the transport, and the callback that hands a reply to the application.
\<close>

definition zeroInbox :: zmqInboxImpl where
  "zeroInbox = \<lparr>ib_mClosure = None, ib_mMamaQueue = None, ib_mZmqQueue = None, ib_mTransport = None, ib_mMsgCB = None,
     ib_mErrCB = None, ib_mOnInboxDestroyed = None, ib_mParent = None, ib_mReplyHandle = None\<rparr>"

text \<open>
  \<open>zmqBridgeMamaInbox_createByIndex\<close>. \<open>mem\<close> and \<open>dup\<close> are the outcomes of \<open>calloc\<close> and
  \<open>strdup\<close>, \<open>a\<close> is the address that \<open>calloc\<close> returns, \<open>tb\<close> the transport bridge that belongs to
  the MAMA transport and \<open>native\<close> the handle that \<open>mamaQueue_getNativeHandle\<close> stores. The second
  component of the result is what \<open>*bridge\<close> is set to.
\<close>

definition zmqBridgeMamaInbox_createByIndex ::
  "('t, 'p, 'l) mama_lib \<Rightarrow> bool \<Rightarrow> bool \<Rightarrow> nat \<Rightarrow> tport_ptr \<Rightarrow> nat option
     \<Rightarrow> bool \<Rightarrow> voidp \<Rightarrow> voidp \<Rightarrow> nat option \<Rightarrow> nat option \<Rightarrow> nat option \<Rightarrow> voidp \<Rightarrow> voidp
     \<Rightarrow> ('t, 'u, 'p, 'l) oz_proc \<Rightarrow> (mama_status \<times> nat option \<times> ('t, 'u, 'p, 'l) oz_proc) option" where
  "zmqBridgeMamaInbox_createByIndex L mem dup a tb native bridge transport queue msgCB errorCB onInboxDestroyed closure parent w =
     (if \<not> bridge \<or> transport = None \<or> queue = None \<or> msgCB = None then Some (MAMA_STATUS_NULL_ARG, None, w)
      else if \<not> mem then Some (MAMA_STATUS_NOMEM, None, w)
      else do {
        let impl = zeroInbox\<lparr>ib_mTransport := tb, ib_mMamaQueue := queue, ib_mZmqQueue := native\<rparr>;
        inboxSubject \<leftarrow> snd (zmqBridgeMamaTransportImpl_getInboxSubject (map_option (\<lambda>_. tport w) tb) True);
        let (next, uid) = zmqBridge_generateSerial (mInboxUid (tport w));
        let w = upd_tport (\<lambda>t. t\<lparr>mInboxUid := next\<rparr>) w;
        replyHandle \<leftarrow> strcpy_into (ZMQ_REPLYHANDLE_SIZE + 1) (inboxSubject @ ''.'' @ uid);
        let impl = impl\<lparr>ib_mReplyHandle := if dup then Some replyHandle else None, ib_mClosure := closure,
          ib_mMsgCB := msgCB, ib_mErrCB := errorCB, ib_mOnInboxDestroyed := onInboxDestroyed, ib_mParent := parent\<rparr>;
        let w = w\<lparr>inbox_store := (inbox_store w)(a \<mapsto> impl)\<rparr>;
        (s, w) \<leftarrow> zmqBridgeMamaTransportImpl_registerInbox L a w;
        if s \<noteq> MAMA_STATUS_OK then Some (s, None, w)
        else Some (MAMA_STATUS_OK, Some a, w)
      })"

definition zmqBridgeMamaInbox_create ::
  "('t, 'p, 'l) mama_lib \<Rightarrow> bool \<Rightarrow> bool \<Rightarrow> nat \<Rightarrow> tport_ptr \<Rightarrow> nat option
     \<Rightarrow> bool \<Rightarrow> voidp \<Rightarrow> voidp \<Rightarrow> nat option \<Rightarrow> nat option \<Rightarrow> nat option \<Rightarrow> voidp \<Rightarrow> voidp
     \<Rightarrow> ('t, 'u, 'p, 'l) oz_proc \<Rightarrow> (mama_status \<times> nat option \<times> ('t, 'u, 'p, 'l) oz_proc) option" where
  "zmqBridgeMamaInbox_create = zmqBridgeMamaInbox_createByIndex"

definition zmqBridgeMamaInbox_destroy ::
  "('t, 'p, 'l) mama_lib \<Rightarrow> nat option \<Rightarrow> ('t, 'u, 'p, 'l) oz_proc
     \<Rightarrow> (mama_status \<times> ('t, 'u, 'p, 'l) oz_proc) option" where
  "zmqBridgeMamaInbox_destroy L inbox w =
     (case inbox of
        None \<Rightarrow> Some (MAMA_STATUS_NULL_ARG, w)
      | Some a \<Rightarrow> do {
          impl \<leftarrow> inbox_store w a;
          _ \<leftarrow> ib_mTransport impl;
          (status, w) \<leftarrow> zmqBridgeMamaTransportImpl_unregisterInbox L a w;
          let w = (case ib_mOnInboxDestroyed impl of
                     None \<Rightarrow> w
                   | Some cb \<Rightarrow> emit (InboxDestroyed cb (ib_mParent impl) (ib_mClosure impl)) w);
          Some (status, w\<lparr>inbox_store := (inbox_store w)(a := None)\<rparr>)
        })"

definition zmqBridgeMamaInboxImpl_getReplyHandle ::
  "nat option \<Rightarrow> ('t, 'u, 'p, 'l) oz_proc \<Rightarrow> cstring option option" where
  "zmqBridgeMamaInboxImpl_getReplyHandle inbox w =
     (case inbox of
        None \<Rightarrow> Some None
      | Some a \<Rightarrow> do { impl \<leftarrow> inbox_store w a; Some (ib_mReplyHandle impl) })"

text \<open>
  \<open>zmqBridgeMamaInboxImpl_onMsg\<close>. The status of \<open>mamaMsgImpl_getBridgeMsg\<close> is not looked at; when
  it fails, the pointer it should have set is used uninitialised.
\<close>

definition zmqBridgeMamaInboxImpl_onMsg ::
  "('t, 'p, 'l) mama_lib \<Rightarrow> nat \<Rightarrow> nat option \<Rightarrow> ('t, 'u, 'p, 'l) oz_proc \<Rightarrow> ('t, 'u, 'p, 'l) oz_proc option" where
  "zmqBridgeMamaInboxImpl_onMsg L m closure w =
     (case closure of
        None \<Rightarrow> Some w
      | Some a \<Rightarrow> do {
          impl \<leftarrow> inbox_store w a;
          if mamaMsgImpl_getBridgeMsg L m \<noteq> MAMA_STATUS_OK then None
          else (case zmqBridgeMamaMsg_getReplyHandle (bridge_msgs w m) of
              None \<Rightarrow> Some w
            | Some msgReplyHandle \<Rightarrow>
                if msgReplyHandle = [] then Some w
                else do {
                  replyHandle \<leftarrow> ib_mReplyHandle impl;
                  if replyHandle \<noteq> msgReplyHandle then Some w
                  else (case ib_mMsgCB impl of
                      None \<Rightarrow> Some w
                    | Some cb \<Rightarrow> Some (emit (InboxMsg cb m (ib_mClosure impl) (bridge_msgs w m) (msg_buffers w m)) w))
                })
        })"

text \<open>The callbacks of an inbox subscription.\<close>

definition zmqBridgeMamaInboxImpl_onDestroy ::
  "nat option \<Rightarrow> ('t, 'u, 'p, 'l) oz_proc \<Rightarrow> ('t, 'u, 'p, 'l) oz_proc option" where
  "zmqBridgeMamaInboxImpl_onDestroy closure w =
     (case closure of
        None \<Rightarrow> Some w
      | Some a \<Rightarrow> do {
          impl \<leftarrow> inbox_store w a;
          Some (case ib_mOnInboxDestroyed impl of
                  None \<Rightarrow> w | Some cb \<Rightarrow> emit (InboxDestroyed cb (ib_mParent impl) (ib_mClosure impl)) w)
        })"

definition zmqBridgeMamaInboxImpl_onError ::
  "mama_status \<Rightarrow> nat option \<Rightarrow> ('t, 'u, 'p, 'l) oz_proc \<Rightarrow> ('t, 'u, 'p, 'l) oz_proc option" where
  "zmqBridgeMamaInboxImpl_onError status closure w =
     (case closure of
        None \<Rightarrow> Some w
      | Some a \<Rightarrow> do {
          impl \<leftarrow> inbox_store w a;
          Some (case ib_mErrCB impl of
                  None \<Rightarrow> w | Some cb \<Rightarrow> emit (InboxError cb status (ib_mClosure impl)) w)
        })"

end
