(* ===== verification/Subscription.thy ===== *)
theory Subscription
  imports Bridge_Process
begin

text \<open>
  Subscriptions, \<open>src/src/subscription.c\<close>: regular subscriptions live in the transport's
  endpoint pool, wildcard subscriptions in its list; both tell the dispatch thread to subscribe
  by a command.
\<close>

subsection \<open>Creation\<close>

text \<open>
  \<open>zmqBridgeMamaSubscriptionImpl_allocate\<close> without the allocation itself: \<open>tb\<close> and \<open>native\<close> are
  the pointers that the MAMA library stores for the transport and the queue.
\<close>

definition zmqBridgeMamaSubscriptionImpl_allocate ::
  "tport_ptr \<Rightarrow> nat option \<Rightarrow> voidp \<Rightarrow> nat option \<Rightarrow> voidp \<Rightarrow> voidp \<Rightarrow> zmqSubscription" where
  "zmqBridgeMamaSubscriptionImpl_allocate tb native queue callback subscription closure =
     \<lparr>sb_mMamaCallback = callback, sb_mMamaSubscription = subscription, sb_mMamaQueue = queue, sb_mZmqQueue = native,
      sb_mClosure = closure, mIsNotMuted = 1, sb_mIsValid = 0, mIsTportDisconnected = 1, sb_mTransport = tb,
      sb_mSubjectKey = None, sb_mEndpointIdentifier = None, mIsWildcard = 0, mOrigRegex = None, mCompRegex = None\<rparr>"

text \<open>
  What is on the stack and in memory: the contents of the buffer of
  \<open>zmqBridgeMamaSubscriptionImpl_generateSubjectKey\<close>, the outcome of its \<open>strdup\<close>, and the contents of the
  command.
\<close>

record stack_mem =
  key_junk :: bytes
  key_mem :: bool
  cmd_junk :: bytes

definition zmqBridgeMamaSubscriptionImpl_create ::
  "('t, 'p, 'l) mama_lib \<Rightarrow> zenv \<Rightarrow> stack_mem \<Rightarrow> nat \<Rightarrow> cstring option \<Rightarrow> cstring option
     \<Rightarrow> ('t, 'u, 'p, 'l) oz_proc \<Rightarrow> (mama_status \<times> ('t, 'u, 'p, 'l) oz_proc) option" where
  "zmqBridgeMamaSubscriptionImpl_create L env m a source symbol w = do {
     impl \<leftarrow> sub_store w a;
     (_, key) \<leftarrow> zmqBridgeMamaSubscriptionImpl_generateSubjectKey (key_junk m) (key_mem m) None source symbol;
     _ \<leftarrow> sb_mTransport impl;
     let (next, ident) = zmqBridge_generateSerial (mSubUid (tport w));
     let w = upd_tport (\<lambda>t. t\<lparr>mSubUid := next\<rparr>) w;
     let impl = impl\<lparr>sb_mSubjectKey := key, sb_mEndpointIdentifier := Some ident\<rparr>;
     let w = w\<lparr>sub_store := (sub_store w)(a \<mapsto> impl)\<rparr>;
     topic \<leftarrow> key;
     let (_, pool) = endpointPool_registerWithIdentifier L (mSubEndpoints (tport w)) topic ident a;
     let w = upd_tport (\<lambda>t. t\<lparr>mSubEndpoints := pool\<rparr>) w;
     CALL_MAMA_FUNC (zmqBridgeMamaSubscriptionImpl_subscribe L env (cmd_junk m) (sb_mTransport impl) key w) (\<lambda>w.
       Some (MAMA_STATUS_OK, w\<lparr>sub_store := (sub_store w)(a \<mapsto> impl\<lparr>sb_mIsValid := 1\<rparr>)\<rparr>))
   }"

text \<open>\<open>el\<close> is the outcome of \<open>list_allocate_element\<close>, whose result is used unchecked.\<close>

definition zmqBridgeMamaSubscriptionImpl_createWildcard ::
  "('t, 'p, 'l) mama_lib \<Rightarrow> zenv \<Rightarrow> stack_mem \<Rightarrow> bool \<Rightarrow> nat \<Rightarrow> cstring option \<Rightarrow> cstring option
     \<Rightarrow> ('t, 'u, 'p, 'l) oz_proc \<Rightarrow> (mama_status \<times> ('t, 'u, 'p, 'l) oz_proc) option" where
  "zmqBridgeMamaSubscriptionImpl_createWildcard L env m el a source symbol w = do {
     impl \<leftarrow> sub_store w a;
     (_, key) \<leftarrow> zmqBridgeMamaSubscriptionImpl_generateSubjectKey (key_junk m) (key_mem m) None source symbol;
     _ \<leftarrow> sb_mTransport impl;
     let (next, ident) = zmqBridge_generateSerial (mWcsUid (tport w));
     let w = upd_tport (\<lambda>t. t\<lparr>mWcsUid := next\<rparr>) w;
     let impl = impl\<lparr>sb_mSubjectKey := key, sb_mEndpointIdentifier := Some ident\<rparr>;
     let w = w\<lparr>sub_store := (sub_store w)(a \<mapsto> impl)\<rparr>;
     _ \<leftarrow> (if el then Some () else None);
     let w = upd_tport (\<lambda>t. t\<lparr>mWcEndpoints := list_push_back L (mWcEndpoints t) a\<rparr>) w;
     CALL_MAMA_FUNC (zmqBridgeMamaSubscriptionImpl_subscribe L env (cmd_junk m) (sb_mTransport impl) key w) (\<lambda>w.
       Some (MAMA_STATUS_OK, w\<lparr>sub_store := (sub_store w)(a \<mapsto> impl\<lparr>sb_mIsValid := 1\<rparr>)\<rparr>))
   }"

text \<open>
  The public functions; \<open>mem\<close> is the outcome of the allocation at address \<open>a\<close>, and the second
  component of the result is what \<open>*subscriber\<close> is set to.
\<close>

definition zmqBridgeMamaSubscription_create ::
  "('t, 'p, 'l) mama_lib \<Rightarrow> zenv \<Rightarrow> stack_mem \<Rightarrow> bool \<Rightarrow> nat \<Rightarrow> tport_ptr \<Rightarrow> nat option
     \<Rightarrow> bool \<Rightarrow> cstring option \<Rightarrow> cstring option \<Rightarrow> voidp \<Rightarrow> voidp \<Rightarrow> nat option \<Rightarrow> voidp \<Rightarrow> voidp
     \<Rightarrow> ('t, 'u, 'p, 'l) oz_proc \<Rightarrow> (mama_status \<times> nat option \<times> ('t, 'u, 'p, 'l) oz_proc) option" where
  "zmqBridgeMamaSubscription_create L env m mem a tb native subscriber source symbol transport queue callback subscription closure w =
     (if \<not> subscriber \<or> subscription = None \<or> transport = None then Some (MAMA_STATUS_NULL_ARG, None, w)
      else if \<not> mem then Some (MAMA_STATUS_NULL_ARG, None, w)
      else do {
        let impl = zmqBridgeMamaSubscriptionImpl_allocate tb native queue callback subscription closure;
        let w = w\<lparr>sub_store := (sub_store w)(a \<mapsto> impl)\<rparr>;
        (s, w) \<leftarrow> zmqBridgeMamaSubscriptionImpl_create L env m a source symbol w;
        if s \<noteq> MAMA_STATUS_OK then Some (s, None, w) else Some (MAMA_STATUS_OK, Some a, w)
      })"

text \<open>
  \<open>dup\<close> and \<open>memr\<close> are the outcomes of \<open>strdup\<close> and of the allocation of the compiled
  expression, \<open>rc\<close> is the result of \<open>regcomp\<close>. The compiled expression is represented by its
  pattern.
\<close>

definition zmqBridgeMamaSubscription_createWildCard ::
  "('t, 'p, 'l) mama_lib \<Rightarrow> zenv \<Rightarrow> stack_mem \<Rightarrow> bool \<Rightarrow> bool \<Rightarrow> bool \<Rightarrow> int \<Rightarrow> bool \<Rightarrow> nat \<Rightarrow> tport_ptr \<Rightarrow> nat option
     \<Rightarrow> bool \<Rightarrow> cstring option \<Rightarrow> voidp \<Rightarrow> voidp \<Rightarrow> nat option \<Rightarrow> voidp \<Rightarrow> voidp
     \<Rightarrow> ('t, 'u, 'p, 'l) oz_proc \<Rightarrow> (mama_status \<times> nat option \<times> ('t, 'u, 'p, 'l) oz_proc) option" where
  "zmqBridgeMamaSubscription_createWildCard L env m mem dup memr rc el a tb native subscriber source transport queue callback
       subscription closure w =
     (case source of
        None \<Rightarrow> Some (MAMA_STATUS_NULL_ARG, None, w)
      | Some regex \<Rightarrow>
          if \<not> subscriber \<or> subscription = None \<or> transport = None then Some (MAMA_STATUS_NULL_ARG, None, w)
          else if \<not> mem then Some (MAMA_STATUS_NULL_ARG, None, w)
          else do {
            let impl = (zmqBridgeMamaSubscriptionImpl_allocate tb native queue callback subscription closure)\<lparr>mIsWildcard := 1\<rparr>;
            let impl = impl\<lparr>mOrigRegex := if dup then Some regex else None\<rparr>;
            let w = w\<lparr>sub_store := (sub_store w)(a \<mapsto> impl)\<rparr>;
            if \<not> dup then Some (MAMA_STATUS_NULL_ARG, None, w)
            else do {
              prefix \<leftarrow> wildcard_prefix regex;
              if \<not> memr then Some (MAMA_STATUS_NOMEM, None, w)
              else if rc \<noteq> 0 then Some (MAMA_STATUS_INVALID_ARG, None, w\<lparr>sub_store := (sub_store w)(a := None)\<rparr>)
              else do {
                let w = w\<lparr>sub_store := (sub_store w)(a \<mapsto> impl\<lparr>mCompRegex := Some regex\<rparr>)\<rparr>;
                (s, w) \<leftarrow> zmqBridgeMamaSubscriptionImpl_createWildcard L env m el a None (Some prefix) w;
                if s \<noteq> MAMA_STATUS_OK then Some (s, None, w) else Some (MAMA_STATUS_OK, Some a, w)
              }
            }
          })"

subsection \<open>Use and destruction\<close>

definition zmqBridgeMamaSubscription_mute ::
  "nat option \<Rightarrow> ('t, 'u, 'p, 'l) oz_proc \<Rightarrow> (mama_status \<times> ('t, 'u, 'p, 'l) oz_proc) option" where
  "zmqBridgeMamaSubscription_mute subscriber w =
     (case subscriber of
        None \<Rightarrow> Some (MAMA_STATUS_NULL_ARG, w)
      | Some a \<Rightarrow> do {
          impl \<leftarrow> sub_store w a;
          Some (MAMA_STATUS_OK, w\<lparr>sub_store := (sub_store w)(a \<mapsto> impl\<lparr>mIsNotMuted := 0\<rparr>)\<rparr>)
        })"

definition zmqBridgeMamaSubscription_muteCurrentTopic ::
  "nat option \<Rightarrow> ('t, 'u, 'p, 'l) oz_proc \<Rightarrow> (mama_status \<times> ('t, 'u, 'p, 'l) oz_proc) option" where
  "zmqBridgeMamaSubscription_muteCurrentTopic subscriber w = zmqBridgeMamaSubscription_mute subscriber w"

text \<open>The removal from the registry, the first part of \<open>zmqBridgeMamaSubscription_destroy\<close>.\<close>

definition unregister_subscription ::
  "('t, 'p, 'l) mama_lib \<Rightarrow> zmqSubscription \<Rightarrow> ('t, 'u, 'p, 'l) oz_proc \<Rightarrow> ('t, 'u, 'p, 'l) oz_proc option" where
  "unregister_subscription L impl w =
     (if mIsWildcard impl = 0
      then (case (sb_mTransport impl, sb_mSubjectKey impl) of
              (Some _, Some key) \<Rightarrow> do {
                let w = wlock_lock (mSubsLock (tport w)) w;
                ident \<leftarrow> sb_mEndpointIdentifier impl;
                let (_, pool) = endpointPool_unregister L (mSubEndpoints (tport w)) key ident;
                let w = upd_tport (\<lambda>t. t\<lparr>mSubEndpoints := pool\<rparr>) w;
                Some (wlock_unlock (mSubsLock (tport w)) w)
              }
            | _ \<Rightarrow> Some w)
      else (case (sb_mTransport impl, sb_mEndpointIdentifier impl) of
              (Some _, Some ident) \<Rightarrow> do {
                let w = wlock_lock (mWcsLock (tport w)) w;
                w \<leftarrow> zmqBridgeMamaTransportImpl_unregisterWildcard L ident w;
                Some (wlock_unlock (mWcsLock (tport w)) w)
              }
            | _ \<Rightarrow> Some w))"

definition zmqBridgeMamaSubscription_destroy ::
  "('t, 'p, 'l) mama_lib \<Rightarrow> zenv \<Rightarrow> bytes \<Rightarrow> nat option \<Rightarrow> ('t, 'u, 'p, 'l) oz_proc
     \<Rightarrow> (mama_status \<times> ('t, 'u, 'p, 'l) oz_proc) option" where
  "zmqBridgeMamaSubscription_destroy L env junk subscriber w =
     (case subscriber of
        None \<Rightarrow> Some (MAMA_STATUS_NULL_ARG, w)
      | Some a \<Rightarrow> do {
          impl \<leftarrow> sub_store w a;
          w \<leftarrow> unregister_subscription L impl w;
          let w = (case sb_mMamaCallback impl of
                     None \<Rightarrow> w
                   | Some cb \<Rightarrow> emit (SubscriptionDestroyed cb (sb_mMamaSubscription impl) (sb_mClosure impl)) w);
          (status, w) \<leftarrow> zmqBridgeMamaSubscriptionImpl_unsubscribe L env junk (sb_mTransport impl) (sb_mSubjectKey impl) w;
          Some (status, w\<lparr>sub_store := (sub_store w)(a := None)\<rparr>)
        })"

text \<open>Queries. \<open>None\<close> is the use of a released subscription.\<close>

definition zmqBridgeMamaSubscription_isValid :: "nat option \<Rightarrow> ('t, 'u, 'p, 'l) oz_proc \<Rightarrow> int option" where
  "zmqBridgeMamaSubscription_isValid subscriber w =
     (case subscriber of None \<Rightarrow> Some 0 | Some a \<Rightarrow> map_option sb_mIsValid (sub_store w a))"

definition zmqBridgeMamaSubscription_hasWildcards :: "nat option \<Rightarrow> ('t, 'u, 'p, 'l) oz_proc \<Rightarrow> int option" where
  "zmqBridgeMamaSubscription_hasWildcards subscriber w =
     (case subscriber of None \<Rightarrow> Some 0 | Some a \<Rightarrow> map_option mIsWildcard (sub_store w a))"

definition zmqBridgeMamaSubscription_isTportDisconnected :: "nat option \<Rightarrow> ('t, 'u, 'p, 'l) oz_proc \<Rightarrow> int option" where
  "zmqBridgeMamaSubscription_isTportDisconnected subscriber w =
     (case subscriber of None \<Rightarrow> Some 1 | Some a \<Rightarrow> map_option mIsTportDisconnected (sub_store w a))"

definition zmqBridgeMamaSubscription_getPlatformError :: "nat option \<Rightarrow> mama_status" where
  "zmqBridgeMamaSubscription_getPlatformError subscriber = MAMA_STATUS_NOT_IMPLEMENTED"

definition zmqBridgeMamaSubscription_setTopicClosure :: "nat option \<Rightarrow> voidp \<Rightarrow> mama_status" where
  "zmqBridgeMamaSubscription_setTopicClosure subscriber closure = MAMA_STATUS_NOT_IMPLEMENTED"

end
