(* ===== verification/Dispatch.thy ===== *)
theory Dispatch
  imports Inbox Subscription
begin

text \<open>
  The data path of \<open>src/src/transport.c\<close>: the dispatch thread finds the inbox or the
  subscriptions that a message is for and enqueues it on their queues; the callbacks that the
  queues run find the receiver again by its identifier and hand the message to the application.
\<close>

subsection \<open>On the dispatch thread\<close>

text \<open>\<open>memcmp\<close> of a key against the start of a buffer; reading past the buffer is undefined.\<close>

definition memcmp_eq :: "bytes \<Rightarrow> bytes \<Rightarrow> bool option" where
  "memcmp_eq buf key = (if length key \<le> length buf then Some (take (length key) buf = key) else None)"

definition ZMQ_REPLYHANDLE_PREFIX :: cstring where "ZMQ_REPLYHANDLE_PREFIX = ''_INBOX''"

definition zmqBridgeMamaTransportImpl_dispatchInboxMsg ::
  "('t, 'p, 'l) mama_lib \<Rightarrow> bytes \<Rightarrow> ('t, 'u, 'p, 'l) oz_proc \<Rightarrow> (mama_status \<times> ('t, 'u, 'p, 'l) oz_proc) option" where
  "zmqBridgeMamaTransportImpl_dispatchInboxMsg L zmsg w = do {
     let w = upd_tport (\<lambda>t. t\<lparr>mInboxMessages := mInboxMessages t + 1\<rparr>) w;
     inboxName \<leftarrow> cstr_at (drop ZMQ_REPLYHANDLE_INBOXNAME_INDEX zmsg);
     let w = wlock_lock (mInboxesLock (tport w)) w;
     (case wtable_lookup L (mInboxes (tport w)) inboxName of
        None \<Rightarrow> Some (MAMA_STATUS_NOT_FOUND, wlock_unlock (mInboxesLock (tport w)) w)
      | Some a \<Rightarrow> do {
          inbox \<leftarrow> inbox_store w a;
          let queue = ib_mZmqQueue inbox;
          let w = wlock_unlock (mInboxesLock (tport w)) w;
          ident \<leftarrow> strcpy_into (ZMQ_REPLYHANDLE_INBOXNAME_SIZE + 1) inboxName;
          let tmsg = \<lparr>tm_mTransport = Some (), tm_mEndpointIdentifier = ident, tm_mZmsg = zmsg\<rparr>;
          w \<leftarrow> enqueue_at L queue zmqBridgeMamaTransportImpl_inboxCallback tmsg w;
          Some (MAMA_STATUS_OK, w)
        })
   }"

text \<open>
  \<open>zmqBridgeMamaTransportImpl_matchWildcards\<close> for one element of the list of wildcard
  subscriptions; the number of matches is the first component.
\<close>

definition zmqBridgeMamaTransportImpl_matchWildcards ::
  "('t, 'p, 'l) mama_lib \<Rightarrow> cstring \<Rightarrow> bytes \<Rightarrow> nat \<Rightarrow> nat \<times> ('t, 'u, 'p, 'l) oz_proc
     \<Rightarrow> (nat \<times> ('t, 'u, 'p, 'l) oz_proc) option" where
  "zmqBridgeMamaTransportImpl_matchWildcards L subject zmsg a = (\<lambda>(found, w). do {
     subscription \<leftarrow> sub_store w a;
     key \<leftarrow> sb_mSubjectKey subscription;
     same \<leftarrow> memcmp_eq zmsg key;
     if \<not> same then Some (found, w)
     else do {
       regex \<leftarrow> mCompRegex subscription;
       if regexec L regex subject \<noteq> 0 then Some (found, w)
       else do {
         i \<leftarrow> sb_mEndpointIdentifier subscription;
         ident \<leftarrow> strcpy_into (ZMQ_REPLYHANDLE_INBOXNAME_SIZE + 1) i;
         let tmsg = \<lparr>tm_mTransport = sb_mTransport subscription, tm_mEndpointIdentifier = ident, tm_mZmsg = zmsg\<rparr>;
         w \<leftarrow> enqueue_at L (sb_mZmqQueue subscription) zmqBridgeMamaTransportImpl_wcCallback tmsg w;
         Some (found + 1, w)
       }
     }
   })"

text \<open>A loop over pointers whose body may be undefined.\<close>

fun for_each :: "('a \<Rightarrow> 's \<Rightarrow> 's option) \<Rightarrow> 'a list \<Rightarrow> 's \<Rightarrow> 's option" where
  "for_each f [] s = Some s"
| "for_each f (a # as) s = do { s \<leftarrow> f a s; for_each f as s }"

text \<open>The body of the loop over the regular subscriptions of a subject.\<close>

definition dispatch_to_sub ::
  "('t, 'p, 'l) mama_lib \<Rightarrow> bytes \<Rightarrow> nat \<Rightarrow> ('t, 'u, 'p, 'l) oz_proc \<Rightarrow> ('t, 'u, 'p, 'l) oz_proc option" where
  "dispatch_to_sub L zmsg a w = do {
     subscription \<leftarrow> sub_store w a;
     let w = (if mIsTportDisconnected subscription = 1
              then w\<lparr>sub_store := (sub_store w)(a \<mapsto> subscription\<lparr>mIsTportDisconnected := 0\<rparr>)\<rparr> else w);
     if mIsNotMuted subscription \<noteq> 1 then Some w
     else do {
       i \<leftarrow> sb_mEndpointIdentifier subscription;
       ident \<leftarrow> strcpy_into (ZMQ_REPLYHANDLE_INBOXNAME_SIZE + 1) i;
       let tmsg = \<lparr>tm_mTransport = Some (), tm_mEndpointIdentifier = ident, tm_mZmsg = zmsg\<rparr>;
       enqueue_at L (sb_mZmqQueue subscription) zmqBridgeMamaTransportImpl_subCallback tmsg w
     }
   }"

definition zmqBridgeMamaTransportImpl_dispatchSubMsg ::
  "('t, 'p, 'l) mama_lib \<Rightarrow> bytes \<Rightarrow> ('t, 'u, 'p, 'l) oz_proc \<Rightarrow> (mama_status \<times> ('t, 'u, 'p, 'l) oz_proc) option" where
  "zmqBridgeMamaTransportImpl_dispatchSubMsg L zmsg w = do {
     let w = upd_tport (\<lambda>t. t\<lparr>mSubMessages := mSubMessages t + 1\<rparr>) w;
     subject \<leftarrow> cstr_at zmsg;
     let w = wlock_lock (mWcsLock (tport w)) w;
     (found, w) \<leftarrow> for_each (zmqBridgeMamaTransportImpl_matchWildcards L subject zmsg)
        (list_elements L (mWcEndpoints (tport w))) (0, w);
     let w = wlock_unlock (mWcsLock (tport w)) w;
     let w = wlock_lock (mSubsLock (tport w)) w;
     let (status, subs) = endpointPool_getRegistered L (mSubEndpoints (tport w)) subject;
     if status \<noteq> MAMA_STATUS_OK then Some (MAMA_STATUS_SYSTEM_ERROR, wlock_unlock (mSubsLock (tport w)) w)
     else if subs = [] then Some (MAMA_STATUS_NOT_FOUND, wlock_unlock (mSubsLock (tport w)) w)
     else do {
       w \<leftarrow> for_each (dispatch_to_sub L zmsg) subs w;
       Some (MAMA_STATUS_OK, wlock_unlock (mSubsLock (tport w)) w)
     }
   }"

definition zmqBridgeMamaTransportImpl_dispatchNormalMsg ::
  "('t, 'p, 'l) mama_lib \<Rightarrow> bytes \<Rightarrow> ('t, 'u, 'p, 'l) oz_proc \<Rightarrow> (mama_status \<times> ('t, 'u, 'p, 'l) oz_proc) option" where
  "zmqBridgeMamaTransportImpl_dispatchNormalMsg L zmsg w = do {
     let w = upd_tport (\<lambda>t. t\<lparr>mNormalMessages := mNormalMessages t + 1\<rparr>) w;
     inbox \<leftarrow> memcmp_eq zmsg ZMQ_REPLYHANDLE_PREFIX;
     if inbox then zmqBridgeMamaTransportImpl_dispatchInboxMsg L zmsg w
     else zmqBridgeMamaTransportImpl_dispatchSubMsg L zmsg w
   }"

subsection \<open>On the callback thread\<close>

text \<open>
  What the three callbacks have in common: get the message that the MAMA queue caches and its
  bridge message, and unpack the frame into them. The result is the MAMA message, or \<open>None\<close>
  when one of the calls fails.
\<close>

definition unpack_msg ::
  "('t, 'p, 'l) mama_lib \<Rightarrow> voidp \<Rightarrow> bytes \<Rightarrow> ('t, 'u, 'p, 'l) oz_proc
     \<Rightarrow> (nat option \<times> ('t, 'u, 'p, 'l) oz_proc) option" where
  "unpack_msg L queue zmsg w =
     (case mamaQueueImpl_getMsg L queue of
        None \<Rightarrow> Some (None, w)
      | Some m \<Rightarrow>
          if mamaMsgImpl_getBridgeMsg L m \<noteq> MAMA_STATUS_OK then Some (None, w)
          else do {
            (status, bridge, call) \<leftarrow>
              zmqBridgeMamaMsgImpl_deserialize (mamaMsgImpl_setMsgBuffer L m) (bridge_msgs w m) zmsg;
            let w = w\<lparr>bridge_msgs := (bridge_msgs w)(m := bridge)\<rparr>;
            let w = (case call of None \<Rightarrow> w | Some (payload, _) \<Rightarrow> w\<lparr>msg_buffers := (msg_buffers w)(m \<mapsto> payload)\<rparr>);
            Some (if status \<noteq> MAMA_STATUS_OK then None else Some m, w)
          })"

definition inboxCallback ::
  "('t, 'p, 'l) mama_lib \<Rightarrow> zmqTransportMsg \<Rightarrow> ('t, 'u, 'p, 'l) oz_proc \<Rightarrow> ('t, 'u, 'p, 'l) oz_proc option" where
  "inboxCallback L tmsg w = do {
     _ \<leftarrow> tm_mTransport tmsg;
     let w = wlock_lock (mInboxesLock (tport w)) w;
     let inbox = wtable_lookup L (mInboxes (tport w)) (tm_mEndpointIdentifier tmsg);
     let w = wlock_unlock (mInboxesLock (tport w)) w;
     (case inbox of
        None \<Rightarrow> Some w
      | Some a \<Rightarrow> do {
          impl \<leftarrow> inbox_store w a;
          (m, w) \<leftarrow> unpack_msg L (ib_mMamaQueue impl) (tm_mZmsg tmsg) w;
          (case m of None \<Rightarrow> Some w | Some m \<Rightarrow> zmqBridgeMamaInboxImpl_onMsg L m (Some a) w)
        })
   }"

definition subCallback ::
  "('t, 'p, 'l) mama_lib \<Rightarrow> zmqTransportMsg \<Rightarrow> ('t, 'u, 'p, 'l) oz_proc \<Rightarrow> ('t, 'u, 'p, 'l) oz_proc option" where
  "subCallback L tmsg w = do {
     subject \<leftarrow> cstr_at (tm_mZmsg tmsg);
     _ \<leftarrow> tm_mTransport tmsg;
     (case endpointPool_getEndpointByIdentifiers L (mSubEndpoints (tport w)) subject (tm_mEndpointIdentifier tmsg) of
        None \<Rightarrow> Some w
      | Some a \<Rightarrow> do {
          subscription \<leftarrow> sub_store w a;
          if mIsNotMuted subscription \<noteq> 1 then Some w
          else do {
            (m, w) \<leftarrow> unpack_msg L (sb_mMamaQueue subscription) (tm_mZmsg tmsg) w;
            (case m of
               None \<Rightarrow> Some w
             | Some m \<Rightarrow> Some (emit (SubscriptionMsg (sb_mMamaSubscription subscription) m (bridge_msgs w m) (msg_buffers w m)) w))
          }
        })
   }"

definition wcCallback ::
  "('t, 'p, 'l) mama_lib \<Rightarrow> zmqTransportMsg \<Rightarrow> ('t, 'u, 'p, 'l) oz_proc \<Rightarrow> ('t, 'u, 'p, 'l) oz_proc option" where
  "wcCallback L tmsg w = do {
     subject \<leftarrow> cstr_at (tm_mZmsg tmsg);
     _ \<leftarrow> tm_mTransport tmsg;
     found \<leftarrow> zmqBridgeMamaTransportImpl_findWildcard (sub_store w) (tm_mEndpointIdentifier tmsg)
        (list_elements L (mWcEndpoints (tport w))) None;
     (case found of
        None \<Rightarrow> Some w
      | Some a \<Rightarrow> do {
          subscription \<leftarrow> sub_store w a;
          if mIsNotMuted subscription \<noteq> 1 then Some w
          else do {
            (m, w) \<leftarrow> unpack_msg L (sb_mMamaQueue subscription) (tm_mZmsg tmsg) w;
            (case m of
               None \<Rightarrow> Some w
             | Some m \<Rightarrow> Some (emit (WildcardMsg (sb_mMamaSubscription subscription) m subject (sb_mClosure subscription)
                 (bridge_msgs w m) (msg_buffers w m)) w))
          }
        })
   }"

text \<open>The function that a queued event calls.\<close>

definition run_callback ::
  "('t, 'p, 'l) mama_lib \<Rightarrow> tport_cb \<Rightarrow> zmqTransportMsg \<Rightarrow> ('t, 'u, 'p, 'l) oz_proc \<Rightarrow> ('t, 'u, 'p, 'l) oz_proc option" where
  "run_callback L cb tmsg =
     (case cb of
        zmqBridgeMamaTransportImpl_inboxCallback \<Rightarrow> inboxCallback L tmsg
      | zmqBridgeMamaTransportImpl_subCallback \<Rightarrow> subCallback L tmsg
      | zmqBridgeMamaTransportImpl_wcCallback \<Rightarrow> wcCallback L tmsg)"

text \<open>
  A callback thread dispatches one event of a queue; \<open>rcs\<close> are the results of waiting for the
  semaphore. The events of this process's queues are transport messages.
\<close>

definition dispatch_event ::
  "('t, 'p, 'l) mama_lib \<Rightarrow> nat \<Rightarrow> sem_rc list \<Rightarrow> ('t, 'u, 'p, 'l) oz_proc \<Rightarrow> ('t, 'u, 'p, 'l) oz_proc option" where
  "dispatch_event L a rcs w = do {
     q \<leftarrow> queue_store w a;
     (_, q', evs) \<leftarrow> zmqBridgeMamaQueue_dispatchEvent rcs (Some q);
     let w = w\<lparr>queue_store := (queue_store w)(a := q'), app_events := app_events w @ map QueueEvent evs\<rparr>;
     for_each (\<lambda>(cb, _, u). case u of Msg tmsg \<Rightarrow> run_callback L cb tmsg | Closure _ \<Rightarrow> (\<lambda>w. Some w)) (callbacks evs) w
   }"

end
