(* ===== verification/Serial_Registry.thy ===== *)
theory Serial_Registry
  imports OZ_Util
begin

text \<open>
  The interface of the transport's registries. Inboxes, subscriptions and wildcard
  subscriptions are found by an identifier that a counter issued. A message that was enqueued
  for a receiver keeps only the identifier, and the callback looks the receiver up again; so it
  matters that an identifier is never given to another object.
\<close>

definition issued :: "64 word \<Rightarrow> cstring \<Rightarrow> bool" where
  "issued uid k \<longleftrightarrow> (\<exists>v. 0 < v \<and> v \<le> uid \<and> k = fmt_016llx v)"

lemma issued_length: "issued uid k \<Longrightarrow> length k = 16 \<and> is_cstring k"
  by (auto simp: issued_def fmt_length fmt_cstring)

lemma succ_le_self: "(uid :: 64 word) + 1 \<noteq> 0 \<Longrightarrow> \<not> uid + 1 \<le> uid"
  using unatSuc[of uid] by (simp add: word_le_nat_alt add.commute)

lemma next_not_issued: "uid + 1 \<noteq> 0 \<Longrightarrow> \<not> issued uid (fmt_016llx (uid + 1))"
  using succ_le_self[of uid] by (auto simp: issued_def fmt_inj)

lemma issued_mono: "uid + 1 \<noteq> 0 \<Longrightarrow> issued uid k \<Longrightarrow> issued (uid + 1) k"
  using succ_le_self[of uid] by (auto simp: issued_def intro: order_trans)

lemma issued_next: "uid + 1 \<noteq> 0 \<Longrightarrow> issued (uid + 1) (fmt_016llx (uid + 1))"
  by (auto simp: issued_def word_neq_0_conv)

text \<open>
  A change of a registry, given by its counter and its map: registrations are kept or removed,
  or there is a new one under the next identifier.
\<close>

definition reg_step :: "('k \<Rightarrow> cstring) \<Rightarrow> 64 word \<times> ('k \<Rightarrow> nat option) \<Rightarrow> 64 word \<times> ('k \<Rightarrow> nat option) \<Rightarrow> bool" where
  "reg_step ident r r' \<longleftrightarrow>
     fst r' = fst r \<and> (\<forall>k. snd r' k = snd r k \<or> snd r' k = None) \<or>
     fst r + 1 \<noteq> 0 \<and> fst r' = fst r + 1 \<and> (\<forall>k. snd r' k = snd r k \<or> ident k = fmt_016llx (fst r + 1))"

lemma reg_step_refl [simp]: "reg_step ident r r"
  by (simp add: reg_step_def)

lemma reg_step_remove: "reg_step ident (u, f) (u, f(k := None))"
  by (simp add: reg_step_def)

lemma reg_step_add: "u + 1 \<noteq> 0 \<Longrightarrow> ident k = fmt_016llx (u + 1) \<Longrightarrow> reg_step ident (u, f) (u + 1, f(k \<mapsto> a))"
  by (simp add: reg_step_def)

text \<open>
  A registry: \<open>find\<close> is the object that a key refers to, \<open>ident\<close> the identifier in a key. A step
  either keeps or removes registrations, or registers under the next identifier.
\<close>

locale serial_registry =
  fixes inv :: "'s \<Rightarrow> bool"
    and find :: "'s \<Rightarrow> 'k \<Rightarrow> nat option"
    and uid :: "'s \<Rightarrow> 64 word"
    and ident :: "'k \<Rightarrow> cstring"
    and step :: "'s \<Rightarrow> 's \<Rightarrow> bool"
  assumes step_inv: "inv s \<Longrightarrow> step s s' \<Longrightarrow> inv s'"
    and found_issued: "inv s \<Longrightarrow> find s k = Some a \<Longrightarrow> issued (uid s) (ident k)"
    and step_find: "inv s \<Longrightarrow> step s s' \<Longrightarrow> reg_step ident (uid s, find s) (uid s', find s')"
begin

lemma step_issued: "inv s \<Longrightarrow> step s s' \<Longrightarrow> issued (uid s) i \<Longrightarrow> issued (uid s') i"
  using step_find[of s s'] issued_mono[of "uid s" i] by (auto simp: reg_step_def)

lemma step_keeps:
  assumes "inv s" "step s s'" "issued (uid s) (ident k)"
  shows "find s' k = find s k \<or> find s' k = None"
  using step_find[OF assms(1,2)] assms(3) next_not_issued[of "uid s"] unfolding reg_step_def fst_conv snd_conv by metis

lemma steps_keep:
  assumes "rtranclp step s s'" "inv s" "issued (uid s) (ident k)"
  shows "inv s' \<and> issued (uid s') (ident k) \<and> (find s' k = find s k \<or> find s' k = None)"
  using assms
proof (induction rule: rtranclp_induct)
  case (step y z)
  then show ?case using step_inv step_issued step_keeps[of y z k] by metis
qed simp

lemma steps_inv: "rtranclp step s s' \<Longrightarrow> inv s \<Longrightarrow> inv s'"
  by (induction rule: rtranclp_induct) (auto intro: step_inv)

text \<open>An identifier that was issued and is not registered stays unregistered.\<close>

lemma never_reused:
  assumes "rtranclp step s s'" "inv s" "issued (uid s) (ident k)" "find s k = None"
  shows "find s' k = None"
  using steps_keep[OF assms(1-3)] assms(4) by auto

text \<open>What a key finds later is the object that it found before.\<close>

lemma same_object:
  assumes "rtranclp step s s'" "inv s" "find s k = Some a" "find s' k = Some b"
  shows "b = a"
  using steps_keep[OF assms(1,2) found_issued[OF assms(2,3)]] assms(3,4) by auto

text \<open>Between two moments at which a key finds an object, it always does.\<close>

lemma found_between:
  assumes "rtranclp step s t" "rtranclp step t s'" "inv s" "find s k = Some a" "find s' k = Some b"
  shows "find t k = Some a"
proof -
  from steps_keep[OF assms(1,3) found_issued[OF assms(3,4)]] have
    "inv t" "issued (uid t) (ident k)" "find t k = Some a \<or> find t k = None" using assms(4) by auto
  with never_reused[OF assms(2)] assms(5) show ?thesis by auto
qed

end

end
