(* ===== verification/Bridge_Inv.thy ===== *)
theory Bridge_Inv
  imports Dispatch Serial_Registry
begin

text \<open>
  The invariant of a process and the operations that leave the registries alone: everything
  the registries and the queues refer to is allocated, identifiers were issued by the
  counters, and the queues hold only messages that the callbacks can unpack.
\<close>

subsection \<open>The invariant\<close>

definition tmsg_ok :: "zmqTransportMsg \<Rightarrow> bool" where
  "tmsg_ok t \<longleftrightarrow> tm_mTransport t = Some () \<and> frame_ok (tm_mZmsg t) \<and> length (tm_mZmsg t) < 2 ^ 31"

definition val_good :: "(tport_cb, zmqTransportMsg) uq_val \<Rightarrow> bool" where
  "val_good v \<longleftrightarrow> (case v of (_, _, isMsg, u) \<Rightarrow> (case u of Msg t \<Rightarrow> isMsg = 1 \<and> tmsg_ok t | Closure _ \<Rightarrow> isMsg = 0))"

definition queues_ok :: "('t, 'u, 'p, 'l) oz_proc \<Rightarrow> bool" where
  "queues_ok w \<longleftrightarrow> (\<forall>a q. queue_store w a = Some q \<longrightarrow> mq_ok 0 q \<and> list_all val_good (mq_elems q))"

definition queue_ptr_ok :: "('t, 'u, 'p, 'l) oz_proc \<Rightarrow> nat option \<Rightarrow> bool" where
  "queue_ptr_ok w p \<longleftrightarrow> (\<exists>a. p = Some a \<and> a \<in> dom (queue_store w))"

abbreviation inbox_map :: "('t, 'p, 'l) mama_lib \<Rightarrow> ('t, 'u, 'p, 'l) oz_proc \<Rightarrow> cstring \<Rightarrow> nat option" where
  "inbox_map L w \<equiv> wtable_lookup L (mInboxes (tport w))"

abbreviation sub_map :: "('t, 'p, 'l) mama_lib \<Rightarrow> ('t, 'u, 'p, 'l) oz_proc \<Rightarrow> cstring \<times> cstring \<Rightarrow> nat option" where
  "sub_map L w \<equiv> pool_map L (mSubEndpoints (tport w))"

abbreviation wc_elems :: "('t, 'p, 'l) mama_lib \<Rightarrow> ('t, 'u, 'p, 'l) oz_proc \<Rightarrow> nat list" where
  "wc_elems L w \<equiv> list_elements L (mWcEndpoints (tport w))"

definition inbox_entry_ok :: "('t, 'u, 'p, 'l) oz_proc \<Rightarrow> cstring \<Rightarrow> zmqInboxImpl \<Rightarrow> bool" where
  "inbox_entry_ok w k ib \<longleftrightarrow> ib_mReplyHandle ib = Some (mInboxSubject (tport w) @ ''.'' @ k) \<and>
     ib_mTransport ib = Some () \<and> queue_ptr_ok w (ib_mZmqQueue ib)"

definition inboxes_ok :: "('t, 'p, 'l) mama_lib \<Rightarrow> ('t, 'u, 'p, 'l) oz_proc \<Rightarrow> bool" where
  "inboxes_ok L w \<longleftrightarrow> length (mInboxSubject (tport w)) = ZMQ_INBOX_SUBJECT_SIZE \<and>
     (\<forall>k a. inbox_map L w k = Some a \<longrightarrow> issued (mInboxUid (tport w)) k \<and>
        (\<exists>ib. inbox_store w a = Some ib \<and> inbox_entry_ok w k ib))"

text \<open>The part of a subscription that the registries rely on.\<close>

definition static ::
  "zmqSubscription \<Rightarrow> cstring option \<times> cstring option \<times> int \<times> tport_ptr \<times> nat option \<times> cstring option" where
  "static sb = (sb_mSubjectKey sb, sb_mEndpointIdentifier sb, mIsWildcard sb, sb_mTransport sb, sb_mZmqQueue sb, mCompRegex sb)"

definition sub_entry_ok :: "('t, 'u, 'p, 'l) oz_proc \<Rightarrow> cstring \<Rightarrow> cstring \<Rightarrow> zmqSubscription \<Rightarrow> bool" where
  "sub_entry_ok w s i sb \<longleftrightarrow> sb_mSubjectKey sb = Some s \<and> sb_mEndpointIdentifier sb = Some i \<and> mIsWildcard sb = 0 \<and>
     sb_mTransport sb = Some () \<and> queue_ptr_ok w (sb_mZmqQueue sb)"

definition subs_ok :: "('t, 'p, 'l) mama_lib \<Rightarrow> ('t, 'u, 'p, 'l) oz_proc \<Rightarrow> bool" where
  "subs_ok L w \<longleftrightarrow> (\<forall>s i a. sub_map L w (s, i) = Some a \<longrightarrow> issued (mSubUid (tport w)) i \<and>
     (\<exists>sb. sub_store w a = Some sb \<and> sub_entry_ok w s i sb))"

definition wc_entry_ok :: "('t, 'u, 'p, 'l) oz_proc \<Rightarrow> zmqSubscription \<Rightarrow> bool" where
  "wc_entry_ok w sb \<longleftrightarrow> sb_mSubjectKey sb \<noteq> None \<and> mIsWildcard sb = 1 \<and> sb_mTransport sb = Some () \<and>
     queue_ptr_ok w (sb_mZmqQueue sb) \<and> mCompRegex sb \<noteq> None \<and>
     (\<exists>i. sb_mEndpointIdentifier sb = Some i \<and> issued (mWcsUid (tport w)) i)"

definition sub_ident :: "('t, 'u, 'p, 'l) oz_proc \<Rightarrow> nat \<Rightarrow> cstring option" where
  "sub_ident w a = Option.bind (sub_store w a) sb_mEndpointIdentifier"

definition wcs_ok :: "('t, 'p, 'l) mama_lib \<Rightarrow> ('t, 'u, 'p, 'l) oz_proc \<Rightarrow> bool" where
  "wcs_ok L w \<longleftrightarrow> distinct (wc_elems L w) \<and> inj_on (sub_ident w) (set (wc_elems L w)) \<and>
     list_all (\<lambda>a. \<exists>sb. sub_store w a = Some sb \<and> wc_entry_ok w sb) (wc_elems L w)"

definition proc_ok :: "('t, 'p, 'l) mama_lib \<Rightarrow> ('t, 'u, 'p, 'l) oz_proc \<Rightarrow> bool" where
  "proc_ok L w \<longleftrightarrow> lib_ok L \<and> queues_ok w \<and> inboxes_ok L w \<and> subs_ok L w \<and> wcs_ok L w"

lemma inbox_mapD:
  assumes "inboxes_ok L w" "inbox_map L w k = Some a"
  shows "\<exists>ib. inbox_store w a = Some ib \<and> inbox_entry_ok w k ib \<and> issued (mInboxUid (tport w)) k \<and> length k = 16"
  using assms issued_length unfolding inboxes_ok_def by blast

lemma sub_mapD:
  assumes "subs_ok L w" "sub_map L w (s, i) = Some a"
  shows "\<exists>sb. sub_store w a = Some sb \<and> sub_entry_ok w s i sb \<and> issued (mSubUid (tport w)) i \<and> length i = 16"
  using assms issued_length unfolding subs_ok_def by blast

lemma wc_elemD:
  assumes "wcs_ok L w" "a \<in> set (wc_elems L w)"
  shows "\<exists>sb. sub_store w a = Some sb \<and> wc_entry_ok w sb"
  using assms unfolding wcs_ok_def list_all_iff by blast

text \<open>The parts of the process that each part of the invariant depends on.\<close>

lemma inboxes_ok_cong:
  assumes "mInboxes (tport w') = mInboxes (tport w)" "mInboxUid (tport w') = mInboxUid (tport w)"
    "mInboxSubject (tport w') = mInboxSubject (tport w)" "inbox_store w' = inbox_store w"
    "dom (queue_store w') = dom (queue_store w)"
  shows "inboxes_ok L w' \<longleftrightarrow> inboxes_ok L w"
  unfolding inboxes_ok_def inbox_entry_ok_def queue_ptr_ok_def assms ..

lemma subs_ok_cong:
  assumes "mSubEndpoints (tport w') = mSubEndpoints (tport w)" "mSubUid (tport w') = mSubUid (tport w)"
    "sub_store w' = sub_store w" "dom (queue_store w') = dom (queue_store w)"
  shows "subs_ok L w' \<longleftrightarrow> subs_ok L w"
  unfolding subs_ok_def sub_entry_ok_def queue_ptr_ok_def assms ..

lemma sub_ident_cong: "sub_store w' = sub_store w \<Longrightarrow> sub_ident w' = sub_ident w"
  by (simp add: sub_ident_def fun_eq_iff)

lemma wcs_ok_cong:
  assumes "mWcEndpoints (tport w') = mWcEndpoints (tport w)" "mWcsUid (tport w') = mWcsUid (tport w)"
    "sub_store w' = sub_store w" "dom (queue_store w') = dom (queue_store w)"
  shows "wcs_ok L w' \<longleftrightarrow> wcs_ok L w"
  unfolding wcs_ok_def wc_entry_ok_def queue_ptr_ok_def sub_ident_cong[OF assms(3)] assms ..

lemma queues_ok_cong: "queue_store w' = queue_store w \<Longrightarrow> queues_ok w' \<longleftrightarrow> queues_ok w"
  by (simp add: queues_ok_def)

subsection \<open>Operations that leave the registries alone\<close>

text \<open>\<open>same_reg w w'\<close>: the two states have the same registries, and subscriptions and queues at the same addresses.\<close>

definition same_reg :: "('t, 'u, 'p, 'l) oz_proc \<Rightarrow> ('t, 'u, 'p, 'l) oz_proc \<Rightarrow> bool" where
  "same_reg w w' \<longleftrightarrow>
     mInboxes (tport w') = mInboxes (tport w) \<and> mSubEndpoints (tport w') = mSubEndpoints (tport w) \<and>
     mWcEndpoints (tport w') = mWcEndpoints (tport w) \<and> mInboxUid (tport w') = mInboxUid (tport w) \<and>
     mSubUid (tport w') = mSubUid (tport w) \<and> mWcsUid (tport w') = mWcsUid (tport w) \<and>
     mInboxSubject (tport w') = mInboxSubject (tport w) \<and>
     mInboxesLock (tport w') = mInboxesLock (tport w) \<and> mSubsLock (tport w') = mSubsLock (tport w) \<and>
     mWcsLock (tport w') = mWcsLock (tport w) \<and>
     inbox_store w' = inbox_store w \<and> map_option static \<circ> sub_store w' = map_option static \<circ> sub_store w \<and>
     dom (queue_store w') = dom (queue_store w)"

lemma same_reg_refl [simp, intro]: "same_reg w w"
  by (simp add: same_reg_def)

lemma same_reg_trans: "same_reg w w' \<Longrightarrow> same_reg w' w'' \<Longrightarrow> same_reg w w''"
  by (simp add: same_reg_def)

lemma same_reg_static: "same_reg w w' \<Longrightarrow> map_option static (sub_store w' a) = map_option static (sub_store w a)"
  unfolding same_reg_def comp_def by (elim conjE) (drule fun_cong[of _ _ a], simp)

lemma same_reg_sub:
  assumes "same_reg w w'" "sub_store w a = Some sb"
  shows "\<exists>sb'. sub_store w' a = Some sb' \<and> static sb' = static sb"
proof -
  show ?thesis using same_reg_static[OF assms(1), of a] assms(2) by auto
qed

lemma same_reg_ptr: "same_reg w w' \<Longrightarrow> queue_ptr_ok w' p \<longleftrightarrow> queue_ptr_ok w p"
  by (auto simp: queue_ptr_ok_def same_reg_def)

lemma same_reg_ident: "same_reg w w' \<Longrightarrow> sub_ident w' = sub_ident w"
proof
  fix a assume s: "same_reg w w'"
  from same_reg_static[OF s, of a] show "sub_ident w' a = sub_ident w a"
    by (cases "sub_store w a"; cases "sub_store w' a") (auto simp: sub_ident_def static_def)
qed

lemma same_reg_inboxes: "same_reg w w' \<Longrightarrow> inboxes_ok L w' \<longleftrightarrow> inboxes_ok L w"
  unfolding inboxes_ok_def inbox_entry_ok_def queue_ptr_ok_def by (simp add: same_reg_def)

lemma same_reg_subs:
  assumes "same_reg w w'" "subs_ok L w"
  shows "subs_ok L w'"
  unfolding subs_ok_def
proof (intro allI impI)
  fix s i a assume "sub_map L w' (s, i) = Some a"
  then have "sub_map L w (s, i) = Some a" using assms(1) by (simp add: same_reg_def)
  with assms(2) obtain sb where *: "issued (mSubUid (tport w)) i" "sub_store w a = Some sb" "sub_entry_ok w s i sb"
    unfolding subs_ok_def by blast
  from same_reg_sub[OF assms(1) *(2)] obtain sb' where "sub_store w' a = Some sb'" "static sb' = static sb" by blast
  with * assms(1) show "issued (mSubUid (tport w')) i \<and> (\<exists>sb. sub_store w' a = Some sb \<and> sub_entry_ok w' s i sb)"
    by (auto simp: sub_entry_ok_def same_reg_ptr[OF assms(1)] static_def) (simp add: same_reg_def)
qed

lemma same_reg_wcs:
  assumes "same_reg w w'" "wcs_ok L w"
  shows "wcs_ok L w'"
proof -
  have e: "wc_elems L w' = wc_elems L w" using assms(1) by (simp add: same_reg_def)
  have "\<exists>sb. sub_store w' a = Some sb \<and> wc_entry_ok w' sb" if "a \<in> set (wc_elems L w)" for a
  proof -
    from that assms(2) obtain sb where *: "sub_store w a = Some sb" "wc_entry_ok w sb"
      by (auto simp: wcs_ok_def list_all_iff)
    from same_reg_sub[OF assms(1) *(1)] obtain sb' where "sub_store w' a = Some sb'" "static sb' = static sb" by blast
    with * assms(1) show ?thesis
      by (auto simp: wc_entry_ok_def same_reg_ptr[OF assms(1)] static_def) (simp add: same_reg_def)
  qed
  with assms e show ?thesis by (simp add: wcs_ok_def same_reg_ident[OF assms(1)] list_all_iff)
qed

lemma proc_ok_same_reg: "proc_ok L w \<Longrightarrow> same_reg w w' \<Longrightarrow> queues_ok w' \<Longrightarrow> proc_ok L w'"
  unfolding proc_ok_def using same_reg_inboxes same_reg_subs same_reg_wcs by blast

lemma lock_fields [simp]:
  "tport (wlock_lock l w) = tport w" "tport (wlock_unlock l w) = tport w" "tport (emit e w) = tport w"
  "inbox_store (wlock_lock l w) = inbox_store w" "inbox_store (wlock_unlock l w) = inbox_store w" "inbox_store (emit e w) = inbox_store w"
  "sub_store (wlock_lock l w) = sub_store w" "sub_store (wlock_unlock l w) = sub_store w" "sub_store (emit e w) = sub_store w"
  "queue_store (wlock_lock l w) = queue_store w" "queue_store (wlock_unlock l w) = queue_store w" "queue_store (emit e w) = queue_store w"
  "bridge_msgs (wlock_lock l w) = bridge_msgs w" "bridge_msgs (wlock_unlock l w) = bridge_msgs w" "bridge_msgs (emit e w) = bridge_msgs w"
  "msg_buffers (wlock_lock l w) = msg_buffers w" "msg_buffers (wlock_unlock l w) = msg_buffers w" "msg_buffers (emit e w) = msg_buffers w"
  "app_events (wlock_lock l w) = app_events w" "app_events (wlock_unlock l w) = app_events w"
  "app_events (emit e w) = app_events w @ [e]"
  "zcalls (wlock_lock l w) = zcalls w @ [Wlock_lock l]" "zcalls (wlock_unlock l w) = zcalls w @ [Wlock_unlock l]"
  "zcalls (emit e w) = zcalls w"
  by (simp_all add: wlock_lock_def wlock_unlock_def emit_def)

lemma zrun_fields [simp]:
  "tport (snd (zrun m w)) = tport w" "inbox_store (snd (zrun m w)) = inbox_store w" "sub_store (snd (zrun m w)) = sub_store w"
  "queue_store (snd (zrun m w)) = queue_store w" "bridge_msgs (snd (zrun m w)) = bridge_msgs w"
  "msg_buffers (snd (zrun m w)) = msg_buffers w" "app_events (snd (zrun m w)) = app_events w"
  "zcalls (snd (zrun m w)) = snd (run_state m (zcalls w))" "fst (zrun m w) = fst (run_state m (zcalls w))"
  by (simp_all add: zrun_def split: prod.splits)

lemma same_reg_simps [simp]:
  "same_reg w (wlock_lock l w') \<longleftrightarrow> same_reg w w'" "same_reg w (wlock_unlock l w') \<longleftrightarrow> same_reg w w'"
  "same_reg w (emit e w') \<longleftrightarrow> same_reg w w'" "same_reg w (snd (zrun m w')) \<longleftrightarrow> same_reg w w'"
  by (simp_all add: same_reg_def)

lemma queues_ok_simps [simp]:
  "queues_ok (wlock_lock l w) \<longleftrightarrow> queues_ok w" "queues_ok (wlock_unlock l w) \<longleftrightarrow> queues_ok w"
  "queues_ok (emit e w) \<longleftrightarrow> queues_ok w" "queues_ok (snd (zrun m w)) \<longleftrightarrow> queues_ok w"
  by (simp_all add: queues_ok_def)

end
