(* ===== verification/Dispatch_Correct.thy ===== *)
theory Dispatch_Correct
  imports Bridge_Inv
begin

text \<open>
  What the dispatch thread does with a message: an abstract specification, the list of
  enqueues that a message leads to, and the proof that the code implements it exactly.
\<close>

subsection \<open>Enqueueing\<close>

text \<open>A change of the parts of a process that an enqueue does not touch.\<close>

definition rest ::
  "('t, 'u, 'p, 'l) zmqTransportBridge \<Rightarrow> (nat \<Rightarrow> zmqSubscription option) \<Rightarrow> zworld
     \<Rightarrow> ('t, 'u, 'p, 'l) oz_proc \<Rightarrow> ('t, 'u, 'p, 'l) oz_proc" where
  "rest t f z w = w\<lparr>tport := t, sub_store := f, zcalls := z\<rparr>"

lemma rest_fields [simp]:
  "tport (rest t f z w) = t" "sub_store (rest t f z w) = f" "zcalls (rest t f z w) = z"
  "inbox_store (rest t f z w) = inbox_store w" "queue_store (rest t f z w) = queue_store w"
  "bridge_msgs (rest t f z w) = bridge_msgs w" "msg_buffers (rest t f z w) = msg_buffers w"
  "app_events (rest t f z w) = app_events w" "rest t f z (rest t' f' z' w) = rest t f z w"
  "rest (tport w) (sub_store w) (zcalls w) w = w"
  by (simp_all add: rest_def)

lemma to_rest:
  "wlock_lock l w = rest (tport w) (sub_store w) (zcalls w @ [Wlock_lock l]) w"
  "wlock_unlock l w = rest (tport w) (sub_store w) (zcalls w @ [Wlock_unlock l]) w"
  "w\<lparr>tport := t\<rparr> = rest t (sub_store w) (zcalls w) w"
  "w\<lparr>sub_store := f\<rparr> = rest (tport w) f (zcalls w) w"
  by (simp_all add: rest_def wlock_lock_def wlock_unlock_def)

lemma enqueue_at_rest:
  "enqueue_at L p cb x (rest t f z w) = map_option (rest t f z) (enqueue_at L p cb x w)"
  by (cases p; cases "queue_store w (the p)")
    (auto simp: enqueue_at_def rest_def bind_eq_None_conv split: option.splits Option.bind_splits)

lemma enqueue_at_frame:
  "enqueue_at L p cb x w = Some w' \<Longrightarrow> \<exists>q e. w' = w\<lparr>queue_store := q, app_events := e\<rparr>"
  by (auto simp: enqueue_at_def bind_Some_conv)

lemma enqueue_at_ok:
  assumes "queues_ok w" "queue_ptr_ok w p" "tmsg_ok t"
  shows "\<exists>w'. enqueue_at L p cb t w = Some w' \<and> queues_ok w' \<and> dom (queue_store w') = dom (queue_store w)"
proof -
  from assms(2) obtain a q where a: "p = Some a" "queue_store w a = Some q" by (auto simp: queue_ptr_ok_def)
  with assms(1) have q: "mq_ok 0 q" "list_all val_good (mq_elems q)" by (auto simp: queues_ok_def)
  from arrive_one[OF q(1), of "ArriveMsg cb t (calloc_ok L q)"] obtain st q' evs where
    e: "zmqBridgeMamaQueue_enqueueMsg (calloc_ok L q) (Some q) (Some cb) t = Some (st, Some q', evs)" "mq_ok 0 q'"
      "mq_elems q' \<in> {mq_elems q, mq_elems q @ [(Some cb, q_mParent q, 1, Msg t)]}" by auto
  have "list_all val_good (mq_elems q')" using e(3) q(2) assms(3) by (auto simp: val_good_def)
  with a e assms(1) show ?thesis
    by (auto simp: enqueue_at_def queues_ok_def)
qed

type_synonym enq = "nat option \<times> tport_cb \<times> zmqTransportMsg"

definition enq_all :: "('t, 'p, 'l) mama_lib \<Rightarrow> enq list \<Rightarrow> ('t, 'u, 'p, 'l) oz_proc \<Rightarrow> ('t, 'u, 'p, 'l) oz_proc option" where
  "enq_all L = for_each (\<lambda>(p, cb, t). enqueue_at L p cb t)"

lemma for_each_append: "for_each f (as @ bs) s = Option.bind (for_each f as s) (for_each f bs)"
proof (induction as arbitrary: s)
  case (Cons a as)
  then show ?case by (cases "f a s") auto
qed simp

lemma enq_all_simps [simp]:
  "enq_all L [] w = Some w"
  "enq_all L ((p, cb, t) # es) w = Option.bind (enqueue_at L p cb t w) (enq_all L es)"
  "enq_all L (es @ fs) w = Option.bind (enq_all L es w) (enq_all L fs)"
  by (simp_all add: enq_all_def for_each_append)

lemma bind_enq_all_Nil [simp]: "Option.bind x (enq_all L []) = x"
  by (cases x) simp_all

lemma enq_all_rest: "enq_all L es (rest t f z w) = map_option (rest t f z) (enq_all L es w)"
proof (induction es arbitrary: w)
  case (Cons e es)
  then show ?case by (cases e; cases "enqueue_at L (fst e) (fst (snd e)) (snd (snd e)) w") (auto simp: enqueue_at_rest)
qed simp

lemma enq_all_frame: "enq_all L es w = Some w' \<Longrightarrow> \<exists>q e. w' = w\<lparr>queue_store := q, app_events := e\<rparr>"
proof (induction es arbitrary: w)
  case Nil
  then show ?case by (auto intro!: exI[of _ "queue_store w"] exI[of _ "app_events w"])
next
  case (Cons e es)
  obtain p cb t where e: "e = (p, cb, t)" by (cases e)
  with Cons.prems obtain w1 where w1: "enqueue_at L p cb t w = Some w1" "enq_all L es w1 = Some w'"
    by (auto simp: bind_Some_conv)
  from enqueue_at_frame[OF w1(1)] Cons.IH[OF w1(2)] obtain q1 e1 q2 e2 where
    "w1 = w\<lparr>queue_store := q1, app_events := e1\<rparr>" "w' = w1\<lparr>queue_store := q2, app_events := e2\<rparr>" by blast
  then have "w' = w\<lparr>queue_store := q2, app_events := e2\<rparr>" by simp
  then show ?case by blast
qed

definition enq_ok :: "('t, 'u, 'p, 'l) oz_proc \<Rightarrow> enq \<Rightarrow> bool" where
  "enq_ok w e \<longleftrightarrow> (case e of (p, cb, t) \<Rightarrow> queue_ptr_ok w p \<and> tmsg_ok t)"

lemma enq_all_ok:
  "queues_ok w \<Longrightarrow> list_all (enq_ok w) es \<Longrightarrow>
   \<exists>w'. enq_all L es w = Some w' \<and> queues_ok w' \<and> dom (queue_store w') = dom (queue_store w)"
proof (induction es arbitrary: w)
  case (Cons e es)
  obtain p cb t where e: "e = (p, cb, t)" by (cases e)
  with Cons.prems have "queue_ptr_ok w p" "tmsg_ok t" by (auto simp: enq_ok_def)
  from enqueue_at_ok[OF Cons.prems(1) this, of L cb] obtain w1 where
    w1: "enqueue_at L p cb t w = Some w1" "queues_ok w1" "dom (queue_store w1) = dom (queue_store w)" by blast
  then have "enq_ok w1 = enq_ok w" by (auto simp: enq_ok_def queue_ptr_ok_def fun_eq_iff)
  with Cons.prems have "list_all (enq_ok w1) es" by simp
  from Cons.IH[OF w1(2) this] w1 e show ?case by auto
qed auto

subsection \<open>Where a message goes\<close>

definition tmsg_for :: "cstring \<Rightarrow> bytes \<Rightarrow> zmqTransportMsg" where
  "tmsg_for ident zmsg = \<lparr>tm_mTransport = Some (), tm_mEndpointIdentifier = ident, tm_mZmsg = zmsg\<rparr>"

text \<open>A message for an inbox goes to the queue of the inbox that its subject names.\<close>

definition inbox_route :: "('t, 'p, 'l) mama_lib \<Rightarrow> cstring \<Rightarrow> bytes \<Rightarrow> ('t, 'u, 'p, 'l) oz_proc \<Rightarrow> enq list" where
  "inbox_route L name zmsg w =
     (case inbox_map L w name of
        None \<Rightarrow> []
      | Some a \<Rightarrow> [(ib_mZmqQueue (the (inbox_store w a)), zmqBridgeMamaTransportImpl_inboxCallback, tmsg_for name zmsg)])"

text \<open>
  Any other message goes to the wildcard subscriptions whose prefix and expression match, and
  to the subscriptions of its subject that are not muted.
\<close>

definition wc_match :: "('t, 'p, 'l) mama_lib \<Rightarrow> cstring \<Rightarrow> bytes \<Rightarrow> zmqSubscription \<Rightarrow> bool" where
  "wc_match L subject zmsg sb \<longleftrightarrow>
     take (length (the (sb_mSubjectKey sb))) zmsg = the (sb_mSubjectKey sb) \<and>
     regexec L (the (mCompRegex sb)) subject = 0"

definition sub_enq :: "tport_cb \<Rightarrow> bytes \<Rightarrow> zmqSubscription \<Rightarrow> enq" where
  "sub_enq cb zmsg sb = (sb_mZmqQueue sb, cb, tmsg_for (the (sb_mEndpointIdentifier sb)) zmsg)"

definition wc_route ::
  "('t, 'p, 'l) mama_lib \<Rightarrow> cstring \<Rightarrow> bytes \<Rightarrow> (nat \<Rightarrow> zmqSubscription option) \<Rightarrow> nat list \<Rightarrow> enq list" where
  "wc_route L subject zmsg store as =
     map (\<lambda>a. sub_enq zmqBridgeMamaTransportImpl_wcCallback zmsg (the (store a)))
       (filter (\<lambda>a. wc_match L subject zmsg (the (store a))) as)"

definition sub_route :: "bytes \<Rightarrow> (nat \<Rightarrow> zmqSubscription option) \<Rightarrow> nat list \<Rightarrow> enq list" where
  "sub_route zmsg store as =
     map (\<lambda>a. sub_enq zmqBridgeMamaTransportImpl_subCallback zmsg (the (store a)))
       (filter (\<lambda>a. mIsNotMuted (the (store a)) = 1) as)"

text \<open>The subscribers of a subject, and the flag that the first message clears.\<close>

definition registered :: "('t, 'p, 'l) mama_lib \<Rightarrow> cstring \<Rightarrow> ('t, 'u, 'p, 'l) oz_proc \<Rightarrow> nat list" where
  "registered L subject w =
     (case endpointPool_getRegistered L (mSubEndpoints (tport w)) subject of
        (s, subs) \<Rightarrow> if s = MAMA_STATUS_OK then subs else [])"

definition connected :: "nat list \<Rightarrow> (nat \<Rightarrow> zmqSubscription option) \<Rightarrow> nat \<Rightarrow> zmqSubscription option" where
  "connected as store = (\<lambda>a. if a \<in> set as
     then map_option (\<lambda>sb. if mIsTportDisconnected sb = 1 then sb\<lparr>mIsTportDisconnected := 0\<rparr> else sb) (store a)
     else store a)"

subsection \<open>The loops\<close>

text \<open>What the loop bodies need of a subscription.\<close>

definition wc_ready :: "bytes \<Rightarrow> (nat \<Rightarrow> zmqSubscription option) \<Rightarrow> nat \<Rightarrow> bool" where
  "wc_ready zmsg store a \<longleftrightarrow> (\<exists>sb key regex i. store a = Some sb \<and> sb_mSubjectKey sb = Some key \<and>
     length key \<le> length zmsg \<and> mCompRegex sb = Some regex \<and> sb_mEndpointIdentifier sb = Some i \<and> length i = 16 \<and>
     sb_mTransport sb = Some ())"

lemma match_loop:
  "list_all (wc_ready zmsg (sub_store w)) as \<Longrightarrow>
   for_each (zmqBridgeMamaTransportImpl_matchWildcards L subject zmsg) as (n, w) =
     map_option (\<lambda>w'. (n + length (wc_route L subject zmsg (sub_store w) as), w'))
       (enq_all L (wc_route L subject zmsg (sub_store w) as) w)"
proof (induction as arbitrary: n w)
  case Nil
  then show ?case by (simp add: wc_route_def)
next
  case (Cons a as)
  from Cons.prems obtain sb key regex i where
    sb: "sub_store w a = Some sb" "sb_mSubjectKey sb = Some key" "length key \<le> length zmsg" "mCompRegex sb = Some regex"
      "sb_mEndpointIdentifier sb = Some i" "length i = 16" "sb_mTransport sb = Some ()"
    by (auto simp: wc_ready_def)
  show ?case
  proof (cases "wc_match L subject zmsg sb")
    case False
    then have "zmqBridgeMamaTransportImpl_matchWildcards L subject zmsg a (n, w) = Some (n, w)"
      using sb by (auto simp: zmqBridgeMamaTransportImpl_matchWildcards_def memcmp_eq_def wc_match_def)
    then show ?thesis using False sb Cons by (simp add: wc_route_def)
  next
    case True
    have step: "zmqBridgeMamaTransportImpl_matchWildcards L subject zmsg a (n, w) =
        map_option (\<lambda>w'. (n + 1, w')) (enqueue_at L (sb_mZmqQueue sb) zmqBridgeMamaTransportImpl_wcCallback (tmsg_for i zmsg) w)"
      using sb True by (cases "enqueue_at L (sb_mZmqQueue sb) zmqBridgeMamaTransportImpl_wcCallback (tmsg_for i zmsg) w")
        (auto simp: zmqBridgeMamaTransportImpl_matchWildcards_def memcmp_eq_def wc_match_def strcpy_into_def oz_sizes tmsg_for_def)
    have r: "wc_route L subject zmsg (sub_store w) (a # as) =
        (sb_mZmqQueue sb, zmqBridgeMamaTransportImpl_wcCallback, tmsg_for i zmsg) # wc_route L subject zmsg (sub_store w) as"
      using True sb by (simp add: wc_route_def sub_enq_def)
    show ?thesis
    proof (cases "enqueue_at L (sb_mZmqQueue sb) zmqBridgeMamaTransportImpl_wcCallback (tmsg_for i zmsg) w")
      case None
      with step r show ?thesis by simp
    next
      case (Some w1)
      with enqueue_at_frame[OF Some] have "sub_store w1 = sub_store w" by auto
      with Some step r Cons.IH[of w1 "n + 1"] Cons.prems show ?thesis by (simp add: comp_def)
    qed
  qed
qed

definition sub_ready :: "(nat \<Rightarrow> zmqSubscription option) \<Rightarrow> nat \<Rightarrow> bool" where
  "sub_ready store a \<longleftrightarrow> (\<exists>sb i. store a = Some sb \<and> sb_mEndpointIdentifier sb = Some i \<and> length i = 16)"

lemma connected_fields:
  assumes "store a = Some sb"
  shows "\<exists>sb'. connected as store a = Some sb' \<and> static sb' = static sb \<and> mIsNotMuted sb' = mIsNotMuted sb \<and>
     sb_mMamaQueue sb' = sb_mMamaQueue sb \<and> sb_mMamaSubscription sb' = sb_mMamaSubscription sb"
  using assms by (simp add: connected_def static_def)

lemma connected_static: "map_option static \<circ> connected as store = map_option static \<circ> store"
  by (auto simp: connected_def static_def fun_eq_iff option.map_comp comp_def intro!: map_option_cong)

lemma sub_ready_connected: "sub_ready (connected as store) a \<longleftrightarrow> sub_ready store a"
  by (cases "store a") (auto simp: sub_ready_def connected_def)

lemma sub_route_connected:
  "list_all (sub_ready store) as \<Longrightarrow> sub_route zmsg (connected bs store) as = sub_route zmsg store as"
proof (induction as)
  case (Cons a as)
  then obtain sb where "store a = Some sb" by (auto simp: sub_ready_def)
  with Cons connected_fields[of store a sb bs] show ?case
    by (auto simp: sub_route_def sub_enq_def static_def)
qed (simp add: sub_route_def)

lemma connected_Cons: "connected as (connected [a] store) = connected (a # as) store"
  by (auto simp: connected_def fun_eq_iff option.map_comp comp_def intro!: map_option_cong)

lemma sub_step:
  assumes "sub_ready (sub_store w) a"
  shows "dispatch_to_sub L zmsg a w =
     map_option (rest (tport w) (connected [a] (sub_store w)) (zcalls w)) (enq_all L (sub_route zmsg (sub_store w) [a]) w)"
proof -
  from assms obtain sb i where sb: "sub_store w a = Some sb" "sb_mEndpointIdentifier sb = Some i" "length i = 16"
    by (auto simp: sub_ready_def)
  let ?w = "if mIsTportDisconnected sb = 1 then w\<lparr>sub_store := (sub_store w)(a \<mapsto> sb\<lparr>mIsTportDisconnected := 0\<rparr>)\<rparr> else w"
  have w: "?w = rest (tport w) (connected [a] (sub_store w)) (zcalls w) w"
    using sb by (auto simp: rest_def connected_def fun_eq_iff intro!: oz_proc.equality)
  show ?thesis
  proof (cases "mIsNotMuted sb = 1")
    case True
    have "dispatch_to_sub L zmsg a w =
        enqueue_at L (sb_mZmqQueue sb) zmqBridgeMamaTransportImpl_subCallback (tmsg_for i zmsg) ?w"
      using sb True by (auto simp: dispatch_to_sub_def strcpy_into_def oz_sizes tmsg_for_def)
    also have "\<dots> = map_option (rest (tport w) (connected [a] (sub_store w)) (zcalls w))
        (enqueue_at L (sb_mZmqQueue sb) zmqBridgeMamaTransportImpl_subCallback (tmsg_for i zmsg) w)"
      unfolding w by (rule enqueue_at_rest)
    finally show ?thesis using sb True by (simp add: sub_route_def sub_enq_def)
  next
    case False
    have "dispatch_to_sub L zmsg a w = Some ?w" using sb False by (simp add: dispatch_to_sub_def)
    then show ?thesis unfolding w using sb False by (simp add: sub_route_def)
  qed
qed

lemma sub_loop:
  "list_all (sub_ready (sub_store w)) as \<Longrightarrow>
   for_each (dispatch_to_sub L zmsg) as w =
     map_option (rest (tport w) (connected as (sub_store w)) (zcalls w)) (enq_all L (sub_route zmsg (sub_store w) as) w)"
proof (induction as arbitrary: w)
  case Nil
  have "connected [] (sub_store w) = sub_store w" by (simp add: connected_def)
  then show ?case by (simp add: sub_route_def)
next
  case (Cons a as)
  have split: "sub_route zmsg (sub_store w) (a # as) = sub_route zmsg (sub_store w) [a] @ sub_route zmsg (sub_store w) as"
    by (simp add: sub_route_def)
  from Cons.prems have r: "sub_ready (sub_store w) a" "list_all (sub_ready (sub_store w)) as" by auto
  show ?case
  proof (cases "enq_all L (sub_route zmsg (sub_store w) [a]) w")
    case None
    with sub_step[OF r(1)] split show ?thesis by simp
  next
    case (Some w1)
    from enq_all_frame[OF Some] have f: "tport w1 = tport w" "zcalls w1 = zcalls w" by auto
    let ?r = "rest (tport w) (connected [a] (sub_store w)) (zcalls w)"
    have "for_each (dispatch_to_sub L zmsg) (a # as) w = for_each (dispatch_to_sub L zmsg) as (?r w1)"
      using sub_step[OF r(1)] Some by simp
    also have "\<dots> = map_option (rest (tport w) (connected (a # as) (sub_store w)) (zcalls w))
        (enq_all L (sub_route zmsg (sub_store w) as) w1)"
      using r(2) by (subst Cons.IH)
        (simp_all add: sub_ready_connected[abs_def] sub_route_connected connected_Cons enq_all_rest option.map_comp comp_def)
    finally show ?thesis using split Some by simp
  qed
qed

subsection \<open>The dispatch functions\<close>

lemma dispatchInbox_eq:
  assumes "inboxes_ok L w" "cstr_at (drop ZMQ_REPLYHANDLE_INBOXNAME_INDEX zmsg) = Some name"
  shows "zmqBridgeMamaTransportImpl_dispatchInboxMsg L zmsg w =
     map_option (\<lambda>w'. (if inbox_map L w name = None then MAMA_STATUS_NOT_FOUND else MAMA_STATUS_OK,
         rest ((tport w)\<lparr>mInboxMessages := mInboxMessages (tport w) + 1\<rparr>) (sub_store w)
           (zcalls w @ [Wlock_lock (mInboxesLock (tport w)), Wlock_unlock (mInboxesLock (tport w))]) w'))
       (enq_all L (inbox_route L name zmsg w) w)"
proof (cases "inbox_map L w name")
  case None
  then show ?thesis using assms(2)
    by (simp add: zmqBridgeMamaTransportImpl_dispatchInboxMsg_def to_rest inbox_route_def Let_def)
next
  case (Some a)
  with inbox_mapD[OF assms(1)] obtain ib where ib: "inbox_store w a = Some ib" "length name = 16" by blast
  with Some assms(2) show ?thesis
    by (cases "enqueue_at L (ib_mZmqQueue ib) zmqBridgeMamaTransportImpl_inboxCallback (tmsg_for name zmsg) w")
      (simp_all add: zmqBridgeMamaTransportImpl_dispatchInboxMsg_def to_rest inbox_route_def Let_def enqueue_at_rest
        tmsg_for_def[symmetric] strcpy_into_def ZMQ_REPLYHANDLE_INBOXNAME_SIZE_def)
qed

definition sub_status :: "('t, 'p, 'l) mama_lib \<Rightarrow> cstring \<Rightarrow> ('t, 'u, 'p, 'l) oz_proc \<Rightarrow> mama_status" where
  "sub_status L subject w =
     (case endpointPool_getRegistered L (mSubEndpoints (tport w)) subject of
        (s, subs) \<Rightarrow> if s \<noteq> MAMA_STATUS_OK then MAMA_STATUS_SYSTEM_ERROR
                      else if subs = [] then MAMA_STATUS_NOT_FOUND else MAMA_STATUS_OK)"

lemma dispatchSub_eq:
  assumes "cstr_at zmsg = Some subject" "list_all (wc_ready zmsg (sub_store w)) (wc_elems L w)"
    "list_all (sub_ready (sub_store w)) (registered L subject w)"
  shows "zmqBridgeMamaTransportImpl_dispatchSubMsg L zmsg w =
     map_option (\<lambda>w'. (sub_status L subject w,
         rest ((tport w)\<lparr>mSubMessages := mSubMessages (tport w) + 1\<rparr>) (connected (registered L subject w) (sub_store w))
           (zcalls w @ [Wlock_lock (mWcsLock (tport w)), Wlock_unlock (mWcsLock (tport w)),
              Wlock_lock (mSubsLock (tport w)), Wlock_unlock (mSubsLock (tport w))]) w'))
       (enq_all L (wc_route L subject zmsg (sub_store w) (wc_elems L w) @
          sub_route zmsg (sub_store w) (registered L subject w)) w)"
proof -
  let ?t = "(tport w)\<lparr>mSubMessages := mSubMessages (tport w) + 1\<rparr>"
  let ?w0 = "rest ?t (sub_store w) (zcalls w @ [Wlock_lock (mWcsLock (tport w))]) w"
  let ?wr = "wc_route L subject zmsg (sub_store w) (wc_elems L w)"
  have loop: "for_each (zmqBridgeMamaTransportImpl_matchWildcards L subject zmsg) (wc_elems L w) (0, ?w0) =
      map_option (\<lambda>w'. (length ?wr, rest ?t (sub_store w) (zcalls w @ [Wlock_lock (mWcsLock (tport w))]) w'))
        (enq_all L ?wr w)"
    using match_loop[of zmsg ?w0 "wc_elems L w" L subject 0] assms(2) by (simp add: enq_all_rest option.map_comp comp_def)
  show ?thesis
  proof (cases "enq_all L ?wr w")
    case None
    with loop assms(1) show ?thesis
      by (simp add: zmqBridgeMamaTransportImpl_dispatchSubMsg_def to_rest Let_def)
  next
    case (Some w1)
    from enq_all_frame[OF Some] have f: "sub_store w1 = sub_store w" "tport w1 = tport w" "zcalls w1 = zcalls w" by auto
    obtain s subs where g: "endpointPool_getRegistered L (mSubEndpoints (tport w)) subject = (s, subs)" by (rule prod.exhaust)
    have nil: "connected [] (sub_store w) = sub_store w" by (simp add: connected_def)
    let ?w2 = "rest ?t (sub_store w) (zcalls w @ [Wlock_lock (mWcsLock (tport w)), Wlock_unlock (mWcsLock (tport w)),
       Wlock_lock (mSubsLock (tport w))]) w1"
    have subs: "for_each (dispatch_to_sub L zmsg) subs ?w2 =
        map_option (rest ?t (connected subs (sub_store w)) (zcalls w @ [Wlock_lock (mWcsLock (tport w)),
          Wlock_unlock (mWcsLock (tport w)), Wlock_lock (mSubsLock (tport w))])) (enq_all L (sub_route zmsg (sub_store w) subs) w1)"
      if "s = MAMA_STATUS_OK"
      using sub_loop[of ?w2 subs L zmsg] assms(3) g that by (simp add: registered_def enq_all_rest option.map_comp comp_def)
    show ?thesis
      using loop assms(1) Some g f nil subs
      by (cases "enq_all L (sub_route zmsg (sub_store w) subs) w1")
        (auto simp: zmqBridgeMamaTransportImpl_dispatchSubMsg_def to_rest Let_def sub_status_def registered_def sub_route_def)
  qed
qed

text \<open>
  The specification of \<open>zmqBridgeMamaTransportImpl_dispatchNormalMsg\<close>: the enqueues, in order, and the
  part of the process that changes besides the queues.
\<close>

definition is_inbox_msg :: "bytes \<Rightarrow> bool" where
  "is_inbox_msg zmsg \<longleftrightarrow> take (length ZMQ_REPLYHANDLE_PREFIX) zmsg = ZMQ_REPLYHANDLE_PREFIX"

definition subject_of :: "bytes \<Rightarrow> cstring" where
  "subject_of zmsg = the (cstr_at zmsg)"

definition inbox_of :: "bytes \<Rightarrow> cstring" where
  "inbox_of zmsg = the (cstr_at (drop ZMQ_REPLYHANDLE_INBOXNAME_INDEX zmsg))"

definition route :: "('t, 'p, 'l) mama_lib \<Rightarrow> bytes \<Rightarrow> ('t, 'u, 'p, 'l) oz_proc \<Rightarrow> enq list" where
  "route L zmsg w =
     (if is_inbox_msg zmsg then inbox_route L (inbox_of zmsg) zmsg w
      else wc_route L (subject_of zmsg) zmsg (sub_store w) (wc_elems L w) @
        sub_route zmsg (sub_store w) (registered L (subject_of zmsg) w))"

definition route_status :: "('t, 'p, 'l) mama_lib \<Rightarrow> bytes \<Rightarrow> ('t, 'u, 'p, 'l) oz_proc \<Rightarrow> mama_status" where
  "route_status L zmsg w =
     (if is_inbox_msg zmsg
      then (if inbox_map L w (inbox_of zmsg) = None then MAMA_STATUS_NOT_FOUND else MAMA_STATUS_OK)
      else sub_status L (subject_of zmsg) w)"

text \<open>
  The messages that the dispatch thread handles inside its objects: long enough for every
  comparison, and null-terminated where a string is read.
\<close>

definition msg_readable :: "('t, 'p, 'l) mama_lib \<Rightarrow> bytes \<Rightarrow> ('t, 'u, 'p, 'l) oz_proc \<Rightarrow> bool" where
  "msg_readable L zmsg w \<longleftrightarrow> 6 \<le> length zmsg \<and>
     (if is_inbox_msg zmsg then NUL \<in> set (drop ZMQ_REPLYHANDLE_INBOXNAME_INDEX zmsg)
      else NUL \<in> set zmsg \<and>
        list_all (\<lambda>a. \<forall>key. Option.bind (sub_store w a) sb_mSubjectKey = Some key \<longrightarrow> length key \<le> length zmsg) (wc_elems L w))"

lemma registered_ids:
  assumes "lib_ok L"
  shows "\<exists>ids. distinct ids \<and> set ids = {i. sub_map L w (s, i) \<noteq> None} \<and>
     registered L s w = map (\<lambda>i. the (sub_map L w (s, i))) ids"
proof -
  obtain st xs where g: "endpointPool_getRegistered L (mSubEndpoints (tport w)) s = (st, xs)" by (rule prod.exhaust)
  from assms obtain ids where ids: "distinct ids" "set ids = {i. sub_map L w (s, i) \<noteq> None}"
    "if ids = [] then fst (endpointPool_getRegistered L (mSubEndpoints (tport w)) s) \<noteq> MAMA_STATUS_OK \<or>
        snd (endpointPool_getRegistered L (mSubEndpoints (tport w)) s) = []
     else endpointPool_getRegistered L (mSubEndpoints (tport w)) s =
        (MAMA_STATUS_OK, map (\<lambda>i. the (sub_map L w (s, i))) ids)"
    unfolding lib_ok_def pool_ok_def by blast
  from ids(3) g have "registered L s w = map (\<lambda>i. the (sub_map L w (s, i))) ids"
    by (cases "ids = []") (auto simp: registered_def)
  with ids(1,2) show ?thesis by blast
qed

lemma registeredD:
  assumes "lib_ok L" "a \<in> set (registered L s w)"
  shows "\<exists>i. sub_map L w (s, i) = Some a"
proof -
  from registered_ids[OF assms(1), of w s] obtain ids where
    "set ids = {i. sub_map L w (s, i) \<noteq> None}" "registered L s w = map (\<lambda>i. the (sub_map L w (s, i))) ids" by blast
  with assms(2) obtain i where "sub_map L w (s, i) \<noteq> None" "a = the (sub_map L w (s, i))" by auto
  then show ?thesis by (intro exI[of _ i]) auto
qed

lemma inbox_prefix:
  assumes "msg_readable L zmsg w"
  shows "memcmp_eq zmsg ZMQ_REPLYHANDLE_PREFIX = Some (is_inbox_msg zmsg)"
proof -
  have "length ZMQ_REPLYHANDLE_PREFIX = 6" by (simp add: ZMQ_REPLYHANDLE_PREFIX_def)
  with assms show ?thesis by (simp add: memcmp_eq_def msg_readable_def is_inbox_msg_def)
qed

text \<open>The count of messages is all that changes before the two kinds of messages are told apart.\<close>

definition counted :: "('t, 'u, 'p, 'l) oz_proc \<Rightarrow> ('t, 'u, 'p, 'l) oz_proc" where
  "counted w = w\<lparr>tport := (tport w)\<lparr>mNormalMessages := mNormalMessages (tport w) + 1\<rparr>\<rparr>"

lemma counted_ok: "proc_ok L w \<Longrightarrow> proc_ok L (counted w)"
  using proc_ok_same_reg[of L w "counted w"] by (simp add: same_reg_def proc_ok_def queues_ok_def counted_def)

lemma counted_enq:
  "enq_all L es (w\<lparr>tport := (tport w)\<lparr>mNormalMessages := mNormalMessages (tport w) + 1\<rparr>\<rparr>) =
   map_option (rest ((tport w)\<lparr>mNormalMessages := mNormalMessages (tport w) + 1\<rparr>) (sub_store w) (zcalls w)) (enq_all L es w)"
  by (simp add: to_rest enq_all_rest)

lemma dispatchInbox_counted:
  assumes ok: "proc_ok L w" and rd: "msg_readable L zmsg w" and inbox: "is_inbox_msg zmsg"
  shows "zmqBridgeMamaTransportImpl_dispatchInboxMsg L zmsg (counted w) =
    map_option (\<lambda>w'. (if inbox_map L w (inbox_of zmsg) = None then MAMA_STATUS_NOT_FOUND else MAMA_STATUS_OK,
      rest ((tport (counted w))\<lparr>mInboxMessages := mInboxMessages (tport w) + 1\<rparr>) (sub_store w)
        (zcalls w @ [Wlock_lock (mInboxesLock (tport w)), Wlock_unlock (mInboxesLock (tport w))]) w'))
      (enq_all L (inbox_route L (inbox_of zmsg) zmsg w) w)"
proof -
  have c: "cstr_at (drop ZMQ_REPLYHANDLE_INBOXNAME_INDEX zmsg) = Some (inbox_of zmsg)"
    using rd inbox by (simp add: msg_readable_def inbox_of_def cstr_at_def)
  have ir: "inbox_route L n zmsg (w\<lparr>tport := (tport w)\<lparr>mNormalMessages := mNormalMessages (tport w) + 1\<rparr>\<rparr>) = inbox_route L n zmsg w" for n
    by (cases "inbox_map L w n") (simp_all add: inbox_route_def)
  have "inboxes_ok L (counted w)" using counted_ok[OF ok] by (simp add: proc_ok_def)
  from dispatchInbox_eq[OF this c] show ?thesis by (simp add: counted_def counted_enq ir option.map_comp comp_def)
qed

lemma dispatchSub_counted:
  assumes ok: "proc_ok L w" and rd: "msg_readable L zmsg w" and sub: "\<not> is_inbox_msg zmsg"
  shows "zmqBridgeMamaTransportImpl_dispatchSubMsg L zmsg (counted w) =
    map_option (\<lambda>w'. (sub_status L (subject_of zmsg) w,
      rest ((tport (counted w))\<lparr>mSubMessages := mSubMessages (tport w) + 1\<rparr>) (connected (registered L (subject_of zmsg) w) (sub_store w))
        (zcalls w @ [Wlock_lock (mWcsLock (tport w)), Wlock_unlock (mWcsLock (tport w)),
          Wlock_lock (mSubsLock (tport w)), Wlock_unlock (mSubsLock (tport w))]) w')) (enq_all L (route L zmsg w) w)"
proof -
  have c: "cstr_at zmsg = Some (subject_of zmsg)" using sub rd by (simp add: msg_readable_def subject_of_def cstr_at_def)
  have wc: "list_all (wc_ready zmsg (sub_store (counted w))) (wc_elems L (counted w))"
    using wc_elemD[of L w] ok rd sub issued_length
    by (fastforce simp: list_all_iff proc_ok_def wc_ready_def wc_entry_ok_def msg_readable_def counted_def)
  have sb: "list_all (sub_ready (sub_store (counted w))) (registered L (subject_of zmsg) (counted w))"
    using registeredD[of L _ "subject_of zmsg" w] sub_mapD[of L w "subject_of zmsg"] ok
    by (fastforce simp: list_all_iff proc_ok_def sub_ready_def sub_entry_ok_def registered_def counted_def)
  have r: "registered L (subject_of zmsg) (counted w) = registered L (subject_of zmsg) w"
    "sub_status L (subject_of zmsg) (counted w) = sub_status L (subject_of zmsg) w"
    by (simp_all add: registered_def sub_status_def counted_def)
  from dispatchSub_eq[OF c wc sb] show ?thesis
    using sub r by (simp add: counted_def counted_enq option.map_comp comp_def route_def del: enq_all_simps)
qed

lemma dispatchNormal_eq:
  assumes ok: "proc_ok L w" and rd: "msg_readable L zmsg w"
  shows "\<exists>t z. zmqBridgeMamaTransportImpl_dispatchNormalMsg L zmsg w =
     map_option (\<lambda>w'. (route_status L zmsg w, rest t
           (if is_inbox_msg zmsg then sub_store w else connected (registered L (subject_of zmsg) w) (sub_store w))
           (zcalls w @ z) w'))
       (enq_all L (route L zmsg w) w) \<and>
     same_reg w (w\<lparr>tport := t\<rparr>) \<and> (\<forall>l. held l z = 0)"
proof (cases "is_inbox_msg zmsg")
  case True
  show ?thesis
    by (rule exI[of _ "(tport (counted w))\<lparr>mInboxMessages := mInboxMessages (tport w) + 1\<rparr>"],
        rule exI[of _ "[Wlock_lock (mInboxesLock (tport w)), Wlock_unlock (mInboxesLock (tport w))]"])
      (use True inbox_prefix[OF rd] dispatchInbox_counted[OF ok rd True] in
        \<open>simp add: zmqBridgeMamaTransportImpl_dispatchNormalMsg_def Let_def route_def route_status_def same_reg_def counted_def\<close>)
next
  case False
  show ?thesis
    by (rule exI[of _ "(tport (counted w))\<lparr>mSubMessages := mSubMessages (tport w) + 1\<rparr>"],
        rule exI[of _ "[Wlock_lock (mWcsLock (tport w)), Wlock_unlock (mWcsLock (tport w)),
          Wlock_lock (mSubsLock (tport w)), Wlock_unlock (mSubsLock (tport w))]"])
      (use False inbox_prefix[OF rd] dispatchSub_counted[OF ok rd False] in
        \<open>simp add: zmqBridgeMamaTransportImpl_dispatchNormalMsg_def Let_def route_status_def same_reg_def counted_def\<close>)
qed

lemma route_ok:
  assumes ok: "proc_ok L w" and f: "frame_ok zmsg" "length zmsg < 2 ^ 31"
  shows "list_all (enq_ok w) (route L zmsg w)"
proof -
  have t: "tmsg_ok (tmsg_for i zmsg)" for i using f by (simp add: tmsg_ok_def tmsg_for_def)
  have "list_all (enq_ok w) (inbox_route L n zmsg w)" for n
    using inbox_mapD[of L w n] ok t
    by (cases "inbox_map L w n") (auto simp: inbox_route_def enq_ok_def proc_ok_def inbox_entry_ok_def)
  moreover have "list_all (enq_ok w) (wc_route L s zmsg (sub_store w) (wc_elems L w))" for s
    using wc_elemD[of L w] ok t by (fastforce simp: list_all_iff wc_route_def sub_enq_def enq_ok_def proc_ok_def wc_entry_ok_def)
  moreover have "list_all (enq_ok w) (sub_route zmsg (sub_store w) (registered L s w))" for s
    using registeredD[of L _ s w] sub_mapD[of L w s] ok t
    by (fastforce simp: list_all_iff sub_route_def sub_enq_def enq_ok_def proc_ok_def sub_entry_ok_def)
  ultimately show ?thesis by (simp add: route_def)
qed

lemma dispatchNormal_ok:
  assumes ok: "proc_ok L w" and rd: "msg_readable L zmsg w" and f: "frame_ok zmsg" "length zmsg < 2 ^ 31"
  shows "\<exists>w1 w'. enq_all L (route L zmsg w) w = Some w1 \<and>
     zmqBridgeMamaTransportImpl_dispatchNormalMsg L zmsg w = Some (route_status L zmsg w, w') \<and>
     queue_store w' = queue_store w1 \<and> app_events w' = app_events w1 \<and>
     bridge_msgs w' = bridge_msgs w \<and> msg_buffers w' = msg_buffers w \<and>
     same_reg w w' \<and> proc_ok L w' \<and> (\<forall>l. held l (zcalls w') = held l (zcalls w))"
proof -
  let ?f = "if is_inbox_msg zmsg then sub_store w else connected (registered L (subject_of zmsg) w) (sub_store w)"
  from dispatchNormal_eq[OF ok rd] obtain t z where
    d: "zmqBridgeMamaTransportImpl_dispatchNormalMsg L zmsg w =
      map_option (\<lambda>w'. (route_status L zmsg w, rest t ?f (zcalls w @ z) w')) (enq_all L (route L zmsg w) w)"
    and t: "same_reg w (w\<lparr>tport := t\<rparr>)" and z: "\<forall>l. held l z = 0" by blast
  from enq_all_ok[OF _ route_ok[OF ok f], of L] ok obtain w1 where
    w1: "enq_all L (route L zmsg w) w = Some w1" "queues_ok w1" "dom (queue_store w1) = dom (queue_store w)"
    by (auto simp: proc_ok_def)
  from enq_all_frame[OF w1(1)] obtain q e where fr: "w1 = w\<lparr>queue_store := q, app_events := e\<rparr>" by blast
  let ?w' = "rest t ?f (zcalls w @ z) w1"
  have "map_option static \<circ> ?f = map_option static \<circ> sub_store w" by (simp add: connected_static)
  then have s: "same_reg w ?w'" using t w1(3) fr by (simp add: same_reg_def)
  moreover have "queues_ok ?w'" using w1(2) by (simp add: queues_ok_def)
  ultimately have "proc_ok L ?w'" using proc_ok_same_reg[OF ok] by blast
  with d w1 s z fr show ?thesis by (intro exI[of _ w1] exI[of _ ?w']) simp
qed

end
