(* ===== verification/Callback_Correct.thy ===== *)
theory Callback_Correct
  imports Dispatch_Correct
begin

text \<open>
  The callback thread: unpacking a queued message is defined and finds only live receivers,
  and dispatching the first event of a queue removes it and runs its callback.
\<close>

subsection \<open>Unpacking\<close>

text \<open>What a callback changes before it calls the application.\<close>

definition unpacked :: "('t, 'u, 'p, 'l) oz_proc \<Rightarrow> ('t, 'u, 'p, 'l) oz_proc \<Rightarrow> bool" where
  "unpacked w w' \<longleftrightarrow> (\<exists>b m z e. w' = w\<lparr>bridge_msgs := b, msg_buffers := m, zcalls := z, app_events := app_events w @ e\<rparr> \<and>
     (\<forall>l. held l z = held l (zcalls w)))"

lemma unpackedI:
  "w' = w\<lparr>bridge_msgs := b, msg_buffers := m, zcalls := z, app_events := app_events w @ e\<rparr> \<Longrightarrow>
   (\<And>l. held l z = held l (zcalls w)) \<Longrightarrow> unpacked w w'"
  unfolding unpacked_def by blast

lemma unpacked_refl [simp]: "unpacked w w"
  by (rule unpackedI[where b = "bridge_msgs w" and m = "msg_buffers w" and z = "zcalls w" and e = "[]"]) simp_all

lemma unpacked_trans:
  assumes "unpacked w w'" "unpacked w' w''"
  shows "unpacked w w''"
proof -
  from assms obtain b m z e b' m' z' e' where
    "w' = w\<lparr>bridge_msgs := b, msg_buffers := m, zcalls := z, app_events := app_events w @ e\<rparr>"
    "\<forall>l. held l z = held l (zcalls w)"
    "w'' = w'\<lparr>bridge_msgs := b', msg_buffers := m', zcalls := z', app_events := app_events w' @ e'\<rparr>"
    "\<forall>l. held l z' = held l (zcalls w')"
    unfolding unpacked_def by blast
  then show ?thesis by (intro unpackedI[where b = b' and m = m' and z = z' and e = "e @ e'"]) simp_all
qed

lemma unpacked_emit: "unpacked w (emit x w)"
  by (rule unpackedI[where b = "bridge_msgs w" and m = "msg_buffers w" and z = "zcalls w" and e = "[x]"]) (simp_all add: emit_def)

lemma unpacked_locked: "unpacked w (wlock_unlock l (wlock_lock l w))"
  by (rule unpackedI[where b = "bridge_msgs w" and m = "msg_buffers w" and z = "zcalls w @ [Wlock_lock l, Wlock_unlock l]" and e = "[]"])
    (simp_all add: wlock_lock_def wlock_unlock_def)

lemma unpackedD:
  assumes "unpacked w w'"
  shows "same_reg w w'" "queue_store w' = queue_store w" "sub_store w' = sub_store w" "tport w' = tport w"
    "inbox_store w' = inbox_store w" "\<forall>l. held l (zcalls w') = held l (zcalls w)"
  using assms by (auto simp: unpacked_def same_reg_def)

lemma unpacked_ok: "proc_ok L w \<Longrightarrow> unpacked w w' \<Longrightarrow> proc_ok L w'"
  using proc_ok_same_reg[of L w w'] unpackedD(1,2)[of w w'] by (auto simp: proc_ok_def queues_ok_def)

lemma unpack_msg_ok:
  assumes "frame_ok zmsg" "length zmsg < 2 ^ 31"
  shows "\<exists>m w'. unpack_msg L queue zmsg w = Some (m, w') \<and> unpacked w w' \<and>
     (\<forall>k. m = Some k \<longrightarrow> mamaMsgImpl_getBridgeMsg L k = MAMA_STATUS_OK)"
proof (cases "mamaQueueImpl_getMsg L queue")
  case None
  then show ?thesis by (simp add: unpack_msg_def)
next
  case (Some k)
  show ?thesis
  proof (cases "mamaMsgImpl_getBridgeMsg L k = MAMA_STATUS_OK")
    case False
    with Some show ?thesis by (simp add: unpack_msg_def)
  next
    case True
    have "zmqBridgeMamaMsgImpl_deserialize (mamaMsgImpl_setMsgBuffer L k) (bridge_msgs w k) zmsg \<noteq> None"
      using deserialize_frame_ok[OF assms(2)] assms(1)
      by (cases "bridge_msgs w k") (simp_all add: zmqBridgeMamaMsgImpl_deserialize_def)
    then obtain st br call where
      d: "zmqBridgeMamaMsgImpl_deserialize (mamaMsgImpl_setMsgBuffer L k) (bridge_msgs w k) zmsg = Some (st, br, call)" by auto
    let ?w = "w\<lparr>bridge_msgs := (bridge_msgs w)(k := br),
       msg_buffers := (case call of None \<Rightarrow> msg_buffers w | Some (p, _) \<Rightarrow> (msg_buffers w)(k \<mapsto> p))\<rparr>"
    have "unpack_msg L queue zmsg w = Some (if st \<noteq> MAMA_STATUS_OK then None else Some k, ?w)"
      using Some True d by (simp add: unpack_msg_def split: option.splits prod.splits)
    moreover have "unpacked w ?w"
      by (rule unpackedI[where b = "bridge_msgs ?w" and m = "msg_buffers ?w" and z = "zcalls w" and e = "[]"]) simp_all
    ultimately show ?thesis using True by auto
  qed
qed

subsection \<open>The callbacks\<close>

lemma findWildcard_ok:
  assumes "list_all (\<lambda>a. \<exists>sb i. store a = Some sb \<and> sb_mEndpointIdentifier sb = Some i) as"
  shows "\<exists>r. zmqBridgeMamaTransportImpl_findWildcard store ident as found = Some r \<and>
     (r = found \<or> (\<exists>a \<in> set as. r = Some a \<and> Option.bind (store a) sb_mEndpointIdentifier = Some ident))"
  using assms
proof (induction as arbitrary: found)
  case (Cons a as)
  then obtain sb i where sb: "store a = Some sb" "sb_mEndpointIdentifier sb = Some i" by auto
  from Cons.prems Cons.IH[of "if i = ident then Some a else found"] sb show ?case by (auto split: if_splits)
qed simp

lemma onMsg_ok:
  assumes "inbox_store w a = Some ib" "inbox_entry_ok w k ib" "mamaMsgImpl_getBridgeMsg L m = MAMA_STATUS_OK"
  shows "\<exists>w'. zmqBridgeMamaInboxImpl_onMsg L m (Some a) w = Some w' \<and> unpacked w w'"
  using assms by (cases "bridge_msgs w m"; cases "ib_mMsgCB ib")
    (auto simp: zmqBridgeMamaInboxImpl_onMsg_def inbox_entry_ok_def zmqBridgeMamaMsg_getReplyHandle_def unpacked_emit)

lemma inboxCallback_ok:
  assumes ok: "proc_ok L w" and t: "tmsg_ok t"
  shows "\<exists>w'. inboxCallback L t w = Some w' \<and> unpacked w w'"
proof -
  let ?l = "mInboxesLock (tport w)"
  let ?w = "wlock_unlock ?l (wlock_lock ?l w)"
  show ?thesis
  proof (cases "inbox_map L w (tm_mEndpointIdentifier t)")
    case None
    with t show ?thesis by (simp add: inboxCallback_def tmsg_ok_def Let_def unpacked_locked)
  next
    case (Some a)
    with inbox_mapD[of L w] ok obtain ib where
      ib: "inbox_store w a = Some ib" "inbox_entry_ok w (tm_mEndpointIdentifier t) ib" by (auto simp: proc_ok_def)
    from t unpack_msg_ok[of "tm_mZmsg t" L "ib_mMamaQueue ib" ?w] obtain m w1 where
      u: "unpack_msg L (ib_mMamaQueue ib) (tm_mZmsg t) ?w = Some (m, w1)" "unpacked ?w w1"
        "\<forall>k. m = Some k \<longrightarrow> mamaMsgImpl_getBridgeMsg L k = MAMA_STATUS_OK" by (auto simp: tmsg_ok_def)
    have w1: "unpacked w w1" using unpacked_trans[OF unpacked_locked u(2)] .
    have e: "inbox_store w1 a = Some ib" "inbox_entry_ok w1 (tm_mEndpointIdentifier t) ib"
      using ib unpackedD[OF w1] by (simp_all add: inbox_entry_ok_def queue_ptr_ok_def)
    show ?thesis
    proof (cases m)
      case None
      with u w1 Some ib t show ?thesis by (simp add: inboxCallback_def tmsg_ok_def Let_def)
    next
      case k: (Some k)
      from onMsg_ok[OF e, of L k] u(3) k obtain w2 where
        "zmqBridgeMamaInboxImpl_onMsg L k (Some a) w1 = Some w2" "unpacked w1 w2" by auto
      with u w1 Some ib t k show ?thesis
        by (auto simp: inboxCallback_def tmsg_ok_def Let_def intro: unpacked_trans)
    qed
  qed
qed

lemma frame_ok_cstr: "frame_ok zmsg \<Longrightarrow> \<exists>s. cstr_at zmsg = Some s"
  by (auto simp: frame_ok_def)

lemma subCallback_ok:
  assumes ok: "proc_ok L w" and t: "tmsg_ok t"
  shows "\<exists>w'. subCallback L t w = Some w' \<and> unpacked w w'"
proof -
  from t frame_ok_cstr obtain s where s: "cstr_at (tm_mZmsg t) = Some s" by (auto simp: tmsg_ok_def)
  show ?thesis
  proof (cases "sub_map L w (s, tm_mEndpointIdentifier t)")
    case None
    with t s show ?thesis by (simp add: subCallback_def tmsg_ok_def)
  next
    case (Some a)
    with sub_mapD[of L w] ok obtain sb where sb: "sub_store w a = Some sb" by (fastforce simp: proc_ok_def)
    from t unpack_msg_ok[of "tm_mZmsg t" L "sb_mMamaQueue sb" w] obtain m w1 where
      "unpack_msg L (sb_mMamaQueue sb) (tm_mZmsg t) w = Some (m, w1)" "unpacked w w1" by (auto simp: tmsg_ok_def)
    with Some sb s t show ?thesis
      by (cases m) (auto simp: subCallback_def tmsg_ok_def intro: unpacked_trans unpacked_emit)
  qed
qed

lemma wcCallback_ok:
  assumes ok: "proc_ok L w" and t: "tmsg_ok t"
  shows "\<exists>w'. wcCallback L t w = Some w' \<and> unpacked w w'"
proof -
  from t frame_ok_cstr obtain s where s: "cstr_at (tm_mZmsg t) = Some s" by (auto simp: tmsg_ok_def)
  have "list_all (\<lambda>a. \<exists>sb i. sub_store w a = Some sb \<and> sb_mEndpointIdentifier sb = Some i) (wc_elems L w)"
    using wc_elemD[of L w] ok by (fastforce simp: list_all_iff proc_ok_def wc_entry_ok_def)
  from findWildcard_ok[OF this, of "tm_mEndpointIdentifier t" None] obtain r where
    r: "zmqBridgeMamaTransportImpl_findWildcard (sub_store w) (tm_mEndpointIdentifier t) (wc_elems L w) None = Some r"
      "r = None \<or> (\<exists>a \<in> set (wc_elems L w). r = Some a)" by blast
  show ?thesis
  proof (cases r)
    case None
    with t s r(1) show ?thesis by (simp add: wcCallback_def tmsg_ok_def)
  next
    case (Some a)
    with r(2) wc_elemD[of L w a] ok obtain sb where sb: "sub_store w a = Some sb" by (auto simp: proc_ok_def)
    from t unpack_msg_ok[of "tm_mZmsg t" L "sb_mMamaQueue sb" w] obtain m w1 where
      "unpack_msg L (sb_mMamaQueue sb) (tm_mZmsg t) w = Some (m, w1)" "unpacked w w1" by (auto simp: tmsg_ok_def)
    with Some sb s t r(1) show ?thesis
      by (cases m) (auto simp: wcCallback_def tmsg_ok_def intro: unpacked_trans unpacked_emit)
  qed
qed

lemma run_callback_ok: "proc_ok L w \<Longrightarrow> tmsg_ok t \<Longrightarrow> \<exists>w'. run_callback L cb t w = Some w' \<and> unpacked w w'"
  by (cases cb) (simp_all add: run_callback_def inboxCallback_ok subCallback_ok wcCallback_ok)

subsection \<open>Dispatching an event of a queue\<close>

lemma dispatchEvent_first:
  assumes "mq_ok 0 q" "mq_elems q = v # vs"
  shows "\<exists>st q' evs. zmqBridgeMamaQueue_dispatchEvent [SemAcquired] (Some q) = Some (st, Some q', evs) \<and> mq_ok 0 q' \<and>
     mq_elems q' = vs \<and> callbacks evs = (case uq_call_of v of None \<Rightarrow> [] | Some c \<Rightarrow> [c])"
proof -
  from assms obtain u where u: "mQueue q = Some u" "uq_inv 0 u" "uq_elems u = v # vs"
    by (auto simp: mq_ok_def mq_elems_def)
  from dispatchInt_first[OF u(2,3), of "[]" False] obtain u' where
    d: "uQueue_dispatchInt [SemAcquired] u False = Some (WOMBAT_QUEUE_OK, u', uq_call_of v)" "uq_inv 0 u'" "uq_elems u' = vs"
    by blast
  obtain q1 ev1 where c: "zmqBridgeMamaQueueImpl_checkWatermarks q = (q1, ev1)" by (rule prod.exhaust)
  from checkWatermarks_spec(2)[OF c] have "callbacks ev1 = []" .
  with u d c show ?thesis
    by (auto simp: zmqBridgeMamaQueue_dispatchEvent_def CHECK_QUEUE_def uQueue_dispatch_def mq_ok_def mq_elems_def callbacks_append)
qed

lemma dispatch_event_ok:
  assumes ok: "proc_ok L w" and q: "queue_store w a = Some q" "mq_elems q = v # vs"
  shows "\<exists>w1 w'. dispatch_event L a [SemAcquired] w = Some w' \<and>
     (case v of (cb, parent, _, u) \<Rightarrow>
        case (cb, u) of (Some cb, Msg t) \<Rightarrow> run_callback L cb t w1 = Some w' | _ \<Rightarrow> w' = w1) \<and>
     (\<exists>q' evs. mq_elems q' = vs \<and>
        w1 = w\<lparr>queue_store := (queue_store w)(a \<mapsto> q'), app_events := app_events w @ map QueueEvent evs\<rparr>) \<and>
     same_reg w w' \<and> proc_ok L w' \<and> (\<forall>l. held l (zcalls w') = held l (zcalls w))"
proof -
  from ok q have m: "mq_ok 0 q" "list_all val_good (v # vs)"
    unfolding proc_ok_def queues_ok_def by metis+
  from dispatchEvent_first[OF m(1) q(2)] obtain st q' evs where
    d: "zmqBridgeMamaQueue_dispatchEvent [SemAcquired] (Some q) = Some (st, Some q', evs)" "mq_ok 0 q'" "mq_elems q' = vs"
      "callbacks evs = (case uq_call_of v of None \<Rightarrow> [] | Some c \<Rightarrow> [c])" by blast
  let ?w1 = "w\<lparr>queue_store := (queue_store w)(a \<mapsto> q'), app_events := app_events w @ map QueueEvent evs\<rparr>"
  have s1: "same_reg w ?w1" using q(1) by (auto simp: same_reg_def)
  have "queues_ok ?w1" using ok d(2,3) m(2) by (auto simp: proc_ok_def queues_ok_def)
  with proc_ok_same_reg[OF ok s1] have ok1: "proc_ok L ?w1" .
  obtain cb parent isMsg u where v: "v = (cb, parent, isMsg, u)" by (cases v)
  show ?thesis
  proof (cases "\<exists>c t. cb = Some c \<and> u = Msg t")
    case True
    then obtain c t where c: "cb = Some c" "u = Msg t" by blast
    with m(2) v have t: "tmsg_ok t" "isMsg = 1" by (simp_all add: val_good_def)
    from run_callback_ok[OF ok1 t(1), of c] obtain w' where
      r: "run_callback L c t ?w1 = Some w'" "unpacked ?w1 w'" by blast
    have "dispatch_event L a [SemAcquired] w = Some w'"
      using q d r(1) c v t(2) by (simp add: dispatch_event_def uq_call_of_def)
    moreover have "same_reg w w'" using same_reg_trans[OF s1 unpackedD(1)[OF r(2)]] .
    ultimately show ?thesis using r v c d(3) unpacked_ok[OF ok1 r(2)] unpackedD(6)[OF r(2)]
      by (intro exI[of _ ?w1] exI[of _ w']) auto
  next
    case False
    then have "dispatch_event L a [SemAcquired] w = Some ?w1"
      using q d v by (cases cb; cases u) (auto simp: dispatch_event_def uq_call_of_def)
    with False v d(3) s1 ok1 show ?thesis
      by (intro exI[of _ ?w1]) (cases cb; cases u; auto)
  qed
qed

end
