(* ===== verification/Registration_Correct.thy ===== *)
theory Registration_Correct
  imports Callback_Correct
begin

text \<open>
  Creating and destroying inboxes and subscriptions: each operation is defined, keeps the
  invariant, and changes the registries as a serial registry allows.
\<close>

subsection \<open>What an operation does to the registries\<close>

definition wc_find :: "('t, 'p, 'l) mama_lib \<Rightarrow> ('t, 'u, 'p, 'l) oz_proc \<Rightarrow> cstring \<Rightarrow> nat option" where
  "wc_find L w i = List.find (\<lambda>a. sub_ident w a = Some i) (wc_elems L w)"

definition good_step :: "('t, 'p, 'l) mama_lib \<Rightarrow> ('t, 'u, 'p, 'l) oz_proc \<Rightarrow> ('t, 'u, 'p, 'l) oz_proc \<Rightarrow> bool" where
  "good_step L w w' \<longleftrightarrow> proc_ok L w' \<and>
     reg_step id (mInboxUid (tport w), inbox_map L w) (mInboxUid (tport w'), inbox_map L w') \<and>
     reg_step snd (mSubUid (tport w), sub_map L w) (mSubUid (tport w'), sub_map L w') \<and>
     reg_step id (mWcsUid (tport w), wc_find L w) (mWcsUid (tport w'), wc_find L w') \<and>
     (\<forall>l. held l (zcalls w') = held l (zcalls w))"

lemma good_step_same_reg:
  assumes "same_reg w w'" "proc_ok L w'" "\<forall>l. held l (zcalls w') = held l (zcalls w)"
  shows "good_step L w w'"
proof -
  have "wc_find L w' = wc_find L w" using assms(1) same_reg_ident[OF assms(1)]
    by (simp add: wc_find_def same_reg_def fun_eq_iff)
  with assms show ?thesis by (simp add: good_step_def same_reg_def)
qed

subsection \<open>Inboxes\<close>

lemma inbox_name_entry:
  assumes "inboxes_ok L w" "ib_mReplyHandle ib = Some (mInboxSubject (tport w) @ ''.'' @ k)"
  shows "inbox_name ib = Some k"
  using assms by (simp add: inbox_name_def inboxes_ok_def oz_sizes)

lemma inbox_create_ok:
  assumes ok: "proc_ok L w" and a: "inbox_store w a = None" and q: "queue_ptr_ok w native"
    and u: "mInboxUid (tport w) + 1 \<noteq> 0"
    and nn: "transport \<noteq> None" "queue \<noteq> None" "msgCB \<noteq> None"
  shows "\<exists>ib w'. zmqBridgeMamaInbox_createByIndex L True True a (Some ()) native True transport queue msgCB errorCB cbD closure parent w =
       Some (MAMA_STATUS_OK, Some a, w') \<and> good_step L w w' \<and>
     inbox_map L w' = (inbox_map L w)(fmt_016llx (mInboxUid (tport w) + 1) \<mapsto> a) \<and> inbox_store w' = (inbox_store w)(a \<mapsto> ib) \<and>
     ib_mReplyHandle ib = Some (mInboxSubject (tport w) @ ''.'' @ fmt_016llx (mInboxUid (tport w) + 1)) \<and>
     ib_mZmqQueue ib = native \<and> ib_mMsgCB ib = msgCB \<and> ib_mClosure ib = closure \<and> ib_mMamaQueue ib = queue \<and>
     queue_store w' = queue_store w \<and> sub_store w' = sub_store w"
proof -
  let ?t = "tport w" and ?n = "mInboxUid (tport w) + 1"
  let ?k = "fmt_016llx ?n"
  let ?h = "mInboxSubject ?t @ ''.'' @ ?k"
  let ?ib = "\<lparr>ib_mClosure = closure, ib_mMamaQueue = queue, ib_mZmqQueue = native, ib_mTransport = Some (), ib_mMsgCB = msgCB,
     ib_mErrCB = errorCB, ib_mOnInboxDestroyed = cbD, ib_mParent = parent, ib_mReplyHandle = Some ?h\<rparr>"
  from ok have I: "inboxes_ok L w" and lib: "lib_ok L" by (auto simp: proc_ok_def)
  have len: "length (mInboxSubject ?t) = 43" using I by (simp add: inboxes_ok_def oz_sizes)
  have fresh: "inbox_map L w ?k = None"
    using I next_not_issued[OF u] by (cases "inbox_map L w ?k") (auto simp: inboxes_ok_def)
  obtain rc tab where ins: "wtable_insert L (mInboxes ?t) ?k a = (rc, tab)" by (rule prod.exhaust)
  have wt: "0 \<le> fst (wtable_insert L (mInboxes ?t) ?k a) \<and>
      wtable_lookup L (snd (wtable_insert L (mInboxes ?t) ?k a)) = (inbox_map L w)(?k \<mapsto> a)"
    using lib fresh unfolding lib_ok_def wtable_ok_def by blast
  then have tab: "0 \<le> rc" "wtable_lookup L tab = (inbox_map L w)(?k \<mapsto> a)" using ins by simp_all
  let ?w' = "w\<lparr>tport := ?t\<lparr>mInboxUid := ?n, mInboxes := tab\<rparr>, inbox_store := (inbox_store w)(a \<mapsto> ?ib),
     zcalls := zcalls w @ [Wlock_lock (mInboxesLock ?t), Wlock_unlock (mInboxesLock ?t)]\<rparr>"
  have run: "zmqBridgeMamaInbox_createByIndex L True True a (Some ()) native True transport queue msgCB errorCB cbD closure parent w =
      Some (MAMA_STATUS_OK, Some a, ?w')"
    using nn len tab(1) ins
    by (simp add: zmqBridgeMamaInbox_createByIndex_def zmqBridgeMamaTransportImpl_getInboxSubject_def zmqBridge_generateSerial_def
      strcpy_into_def oz_sizes fmt_length zmqBridgeMamaTransportImpl_registerInbox_def inbox_name_def zeroInbox_def Let_def
      wlock_lock_def wlock_unlock_def)
  have "inboxes_ok L ?w'"
    unfolding inboxes_ok_def
  proof (intro conjI allI impI)
    show "length (mInboxSubject (tport ?w')) = ZMQ_INBOX_SUBJECT_SIZE" using I by (simp add: inboxes_ok_def)
    fix k b assume k: "inbox_map L ?w' k = Some b"
    show "issued (mInboxUid (tport ?w')) k"
      using k I tab(2) issued_next[OF u] issued_mono[OF u] by (auto simp: inboxes_ok_def split: if_splits)
    show "\<exists>ib. inbox_store ?w' b = Some ib \<and> inbox_entry_ok ?w' k ib"
    proof (cases "k = ?k")
      case True
      with k tab(2) q show ?thesis by (simp add: inbox_entry_ok_def queue_ptr_ok_def)
    next
      case False
      with k tab(2) have "inbox_map L w k = Some b" by simp
      with inbox_mapD[OF I] obtain ib where "inbox_store w b = Some ib" "inbox_entry_ok w k ib" by blast
      moreover from this(1) a have "b \<noteq> a" by auto
      ultimately show ?thesis by (simp add: inbox_entry_ok_def queue_ptr_ok_def)
    qed
  qed
  moreover have "subs_ok L ?w'" "wcs_ok L ?w'" "queues_ok ?w'"
    using ok subs_ok_cong[of ?w' w L] wcs_ok_cong[of ?w' w L] queues_ok_cong[of ?w' w] by (simp_all add: proc_ok_def)
  ultimately have "proc_ok L ?w'" using lib by (simp add: proc_ok_def)
  moreover have "wc_find L ?w' = wc_find L w" by (simp add: wc_find_def sub_ident_def fun_eq_iff)
  ultimately have "good_step L w ?w'"
    using tab(2) reg_step_add[OF u, of id ?k "inbox_map L w" a] by (simp add: good_step_def)
  with run tab(2) show ?thesis by (intro exI[of _ ?ib] exI[of _ ?w']) simp
qed

lemma inbox_destroy_ok:
  assumes ok: "proc_ok L w" and k: "inbox_map L w k = Some a"
  shows "\<exists>w'. zmqBridgeMamaInbox_destroy L (Some a) w = Some (MAMA_STATUS_OK, w') \<and> good_step L w w' \<and>
     inbox_map L w' = (inbox_map L w)(k := None) \<and> inbox_store w' = (inbox_store w)(a := None)"
proof -
  let ?t = "tport w"
  from ok have I: "inboxes_ok L w" and lib: "lib_ok L" by (auto simp: proc_ok_def)
  from inbox_mapD[OF I k] obtain ib where ib: "inbox_store w a = Some ib" "inbox_entry_ok w k ib" by blast
  from inbox_name_entry[OF I] ib(2) have nm: "inbox_name ib = Some k" by (simp add: inbox_entry_ok_def)
  obtain old tab where rm: "wtable_remove L (mInboxes ?t) k = (old, tab)" by (rule prod.exhaust)
  have "fst (wtable_remove L (mInboxes ?t) k) = inbox_map L w k \<and>
      wtable_lookup L (snd (wtable_remove L (mInboxes ?t) k)) = (inbox_map L w)(k := None)"
    using lib unfolding lib_ok_def wtable_ok_def by blast
  then have tab: "old = Some a" "wtable_lookup L tab = (inbox_map L w)(k := None)" using rm k by simp_all
  let ?ev = "case ib_mOnInboxDestroyed ib of None \<Rightarrow> [] | Some cb \<Rightarrow> [InboxDestroyed cb (ib_mParent ib) (ib_mClosure ib)]"
  let ?w' = "w\<lparr>tport := ?t\<lparr>mInboxes := tab\<rparr>, inbox_store := (inbox_store w)(a := None),
     zcalls := zcalls w @ [Wlock_lock (mInboxesLock ?t), Wlock_unlock (mInboxesLock ?t)], app_events := app_events w @ ?ev\<rparr>"
  have run: "zmqBridgeMamaInbox_destroy L (Some a) w = Some (MAMA_STATUS_OK, ?w')"
    using ib nm rm tab(1)
    by (cases "ib_mOnInboxDestroyed ib")
      (simp_all add: zmqBridgeMamaInbox_destroy_def zmqBridgeMamaTransportImpl_unregisterInbox_def inbox_entry_ok_def Let_def
        wlock_lock_def wlock_unlock_def emit_def)
  have "inboxes_ok L ?w'"
    unfolding inboxes_ok_def
  proof (intro conjI allI impI)
    show "length (mInboxSubject (tport ?w')) = ZMQ_INBOX_SUBJECT_SIZE" using I by (simp add: inboxes_ok_def)
    fix j b assume j: "inbox_map L ?w' j = Some b"
    with tab(2) have jb: "j \<noteq> k" "inbox_map L w j = Some b" by (auto split: if_splits)
    from inbox_mapD[OF I jb(2)] obtain ib' where
      ib': "inbox_store w b = Some ib'" "inbox_entry_ok w j ib'" "issued (mInboxUid ?t) j" by blast
    with inbox_name_entry[OF I] have "inbox_name ib' = Some j" by (simp add: inbox_entry_ok_def)
    with nm jb(1) ib(1) ib'(1) have "b \<noteq> a" by auto
    with ib' show "issued (mInboxUid (tport ?w')) j" "\<exists>ib. inbox_store ?w' b = Some ib \<and> inbox_entry_ok ?w' j ib"
      by (simp_all add: inbox_entry_ok_def queue_ptr_ok_def)
  qed
  moreover have "subs_ok L ?w'" "wcs_ok L ?w'" "queues_ok ?w'"
    using ok subs_ok_cong[of ?w' w L] wcs_ok_cong[of ?w' w L] queues_ok_cong[of ?w' w] by (simp_all add: proc_ok_def)
  ultimately have "proc_ok L ?w'" using lib by (simp add: proc_ok_def)
  moreover have "wc_find L ?w' = wc_find L w" by (simp add: wc_find_def sub_ident_def fun_eq_iff)
  ultimately have "good_step L w ?w'"
    using tab(2) by (simp add: good_step_def reg_step_remove)
  with run tab(2) show ?thesis by (intro exI[of _ ?w']) simp
qed

subsection \<open>Commands\<close>

definition cmd_bytes :: "byte \<Rightarrow> bytes \<Rightarrow> cstring \<Rightarrow> bytes" where
  "cmd_bytes command junk topic =
     command # take MAX_SUBJECT_LENGTH topic @ NUL # drop (Suc (length (take MAX_SUBJECT_LENGTH topic))) junk"

lemma topic_command_ok:
  assumes "lib_ok L" "length junk = MAX_SUBJECT_LENGTH + 1"
  shows "topic_command L env command junk (Some ()) (Some topic) w =
     (let calls = [Wlock_lock (mLock (mZmqControlPub (tport w))),
                   Zmq_send (mSocket (mZmqControlPub (tport w))) (cmd_bytes command junk topic),
                   Wlock_unlock (mLock (mZmqControlPub (tport w)))];
          rc = env (zcalls w @ [hd calls]) (calls ! 1) in
      Some (if rc \<le> 0 then MAMA_STATUS_PLATFORM else MAMA_STATUS_OK, w\<lparr>zcalls := zcalls w @ calls\<rparr>))"
proof -
  have c: "snd (wmStrSizeCpy L (MAX_SUBJECT_LENGTH + 1) topic) = take MAX_SUBJECT_LENGTH topic"
    using assms(1) unfolding lib_ok_def wmStrSizeCpy_ok_def by simp
  have "memcpy_at junk 0 (take MAX_SUBJECT_LENGTH topic @ [NUL]) =
      Some (take MAX_SUBJECT_LENGTH topic @ NUL # drop (Suc (length (take MAX_SUBJECT_LENGTH topic))) junk)"
    using assms(2) by (simp add: memcpy_at_def)
  with c show ?thesis
    by (simp add: topic_command_def zmqBridgeMamaTransportImpl_sendCommand_def zrun_def Let_def run_state_bind
      control_msg_def cmd_bytes_def)
qed

subsection \<open>Subscriptions\<close>

text \<open>Changes of the store that do not concern registered subscriptions.\<close>

lemma wcs_ok_upd:
  assumes "wcs_ok L w" "\<forall>a \<in> set (wc_elems L w). sub_store w' a = sub_store w a"
    "mWcEndpoints (tport w') = mWcEndpoints (tport w)" "mWcsUid (tport w') = mWcsUid (tport w)"
    "dom (queue_store w') = dom (queue_store w)"
  shows "wcs_ok L w' \<and> wc_find L w' = wc_find L w"
proof -
  have i: "\<forall>a \<in> set (wc_elems L w). sub_ident w' a = sub_ident w a" using assms(2) by (simp add: sub_ident_def)
  then have "inj_on (sub_ident w') (set (wc_elems L w)) \<longleftrightarrow> inj_on (sub_ident w) (set (wc_elems L w))"
    by (intro inj_on_cong) simp
  moreover have "wc_find L w' = wc_find L w"
    using i assms(3) by (auto simp: wc_find_def fun_eq_iff intro!: find_cong)
  ultimately show ?thesis
    using assms by (simp add: wcs_ok_def list_all_iff wc_entry_ok_def queue_ptr_ok_def)
qed

lemma subs_ok_upd:
  assumes "subs_ok L w" "\<forall>s i a. sub_map L w (s, i) = Some a \<longrightarrow> sub_store w' a = sub_store w a"
    "mSubEndpoints (tport w') = mSubEndpoints (tport w)" "mSubUid (tport w') = mSubUid (tport w)"
    "dom (queue_store w') = dom (queue_store w)"
  shows "subs_ok L w'"
  unfolding subs_ok_def
proof (intro allI impI)
  fix s i a assume "sub_map L w' (s, i) = Some a"
  then have m: "sub_map L w (s, i) = Some a" using assms(3) by simp
  from sub_mapD[OF assms(1) m] obtain sb where "sub_store w a = Some sb" "sub_entry_ok w s i sb" "issued (mSubUid (tport w)) i"
    by blast
  moreover have "sub_store w' a = sub_store w a" using assms(2) m by blast
  ultimately show "issued (mSubUid (tport w')) i \<and> (\<exists>sb. sub_store w' a = Some sb \<and> sub_entry_ok w' s i sb)"
    using assms(4,5) by (simp add: sub_entry_ok_def queue_ptr_ok_def)
qed

lemma live_subs:
  assumes "proc_ok L w" "sub_store w a = None"
  shows "a \<notin> set (wc_elems L w)" "sub_map L w p \<noteq> Some a"
proof -
  show "a \<notin> set (wc_elems L w)" using wc_elemD[of L w a] assms by (auto simp: proc_ok_def)
  show "sub_map L w p \<noteq> Some a" using sub_mapD[of L w "fst p" "snd p" a] assms by (cases p) (auto simp: proc_ok_def)
qed

text \<open>Registering a subscription under the next identifier.\<close>

lemma sub_register_ok:
  assumes ok: "proc_ok L w" and a: "sub_store w a = None" and u: "mSubUid (tport w) + 1 \<noteq> 0"
    and sb: "sb_mSubjectKey sb = Some key" "sb_mEndpointIdentifier sb = Some (fmt_016llx (mSubUid (tport w) + 1))"
      "mIsWildcard sb = 0" "sb_mTransport sb = Some ()" "queue_ptr_ok w (sb_mZmqQueue sb)"
    and w': "w' = w\<lparr>tport := (tport w)\<lparr>mSubUid := mSubUid (tport w) + 1, mSubEndpoints :=
        snd (endpointPool_registerWithIdentifier L (mSubEndpoints (tport w)) key (fmt_016llx (mSubUid (tport w) + 1)) a)\<rparr>,
      sub_store := (sub_store w)(a \<mapsto> sb), zcalls := zcalls w @ z\<rparr>" "\<forall>l. held l z = 0"
  shows "good_step L w w' \<and> sub_map L w' = (sub_map L w)((key, fmt_016llx (mSubUid (tport w) + 1)) \<mapsto> a)"
proof -
  let ?k = "fmt_016llx (mSubUid (tport w) + 1)"
  from ok have S: "subs_ok L w" and lib: "lib_ok L" by (auto simp: proc_ok_def)
  have fresh: "sub_map L w (key, ?k) = None"
  proof (cases "sub_map L w (key, ?k)")
    case (Some b)
    with sub_mapD[OF S Some] next_not_issued[OF u] show ?thesis by blast
  qed
  then have m: "sub_map L w' = (sub_map L w)((key, ?k) \<mapsto> a)"
    using lib unfolding lib_ok_def pool_ok_def w'(1) by simp
  have "subs_ok L w'"
    unfolding subs_ok_def
  proof (intro allI impI)
    fix s i b assume k: "sub_map L w' (s, i) = Some b"
    show "issued (mSubUid (tport w')) i \<and> (\<exists>sb. sub_store w' b = Some sb \<and> sub_entry_ok w' s i sb)"
    proof (cases "(s, i) = (key, ?k)")
      case True
      with k m have "b = a" by simp
      with True sb issued_next[OF u] show ?thesis by (simp add: w'(1) sub_entry_ok_def queue_ptr_ok_def)
    next
      case False
      with k m have old: "sub_map L w (s, i) = Some b" by (auto split: if_splits)
      with live_subs(2)[OF ok a, of "(s, i)"] have "b \<noteq> a" by auto
      with sub_mapD[OF S old] issued_mono[OF u] show ?thesis by (auto simp: w'(1) sub_entry_ok_def queue_ptr_ok_def)
    qed
  qed
  moreover have "wcs_ok L w' \<and> wc_find L w' = wc_find L w"
    using ok live_subs(1)[OF ok a] by (intro wcs_ok_upd) (auto simp: w'(1) proc_ok_def)
  moreover have "inboxes_ok L w'" "queues_ok w'"
    using ok inboxes_ok_cong[of w' w L] queues_ok_cong[of w' w] by (simp_all add: w'(1) proc_ok_def)
  ultimately have "good_step L w w'"
    using lib w'(2) m reg_step_add[OF u, of snd "(key, ?k)" "sub_map L w" a] by (simp add: good_step_def proc_ok_def w'(1))
  with m show ?thesis by blast
qed

text \<open>What the stack and the allocations must provide.\<close>

definition key_made :: "stack_mem \<Rightarrow> cstring option \<Rightarrow> cstring option \<Rightarrow> cstring \<Rightarrow> bool" where
  "key_made m source symbol key \<longleftrightarrow> length (cmd_junk m) = MAX_SUBJECT_LENGTH + 1 \<and>
     zmqBridgeMamaSubscriptionImpl_generateSubjectKey (key_junk m) (key_mem m) None source symbol = Some (MAMA_STATUS_OK, Some key)"

lemma sub_create_ok:
  assumes ok: "proc_ok L w" and a: "sub_store w a = None" and q: "queue_ptr_ok w native"
    and u: "mSubUid (tport w) + 1 \<noteq> 0" and nn: "transport \<noteq> None" "subscription \<noteq> None"
    and key: "key_made m source symbol key"
  shows "\<exists>st sb w'. zmqBridgeMamaSubscription_create L env m True a (Some ()) native True source symbol transport queue callback
       subscription closure w = Some (st, if st = MAMA_STATUS_OK then Some a else None, w') \<and> good_step L w w' \<and>
     sub_map L w' = (sub_map L w)((key, fmt_016llx (mSubUid (tport w) + 1)) \<mapsto> a) \<and> sub_store w' = (sub_store w)(a \<mapsto> sb) \<and>
     sb_mMamaSubscription sb = subscription \<and> sb_mMamaQueue sb = queue \<and> mIsNotMuted sb = 1 \<and> sb_mZmqQueue sb = native \<and>
     (st = MAMA_STATUS_OK \<longleftrightarrow> sb_mIsValid sb = 1) \<and> queue_store w' = queue_store w \<and>
     mWcEndpoints (tport w') = mWcEndpoints (tport w) \<and>
     st = (if env (zcalls w @ [Wlock_lock (mLock (mZmqControlPub (tport w)))])
              (Zmq_send (mSocket (mZmqControlPub (tport w))) (cmd_bytes (CHR ''S'') (cmd_junk m) key)) \<le> 0
           then MAMA_STATUS_PLATFORM else MAMA_STATUS_OK) \<and>
     zcalls w' = zcalls w @ [Wlock_lock (mLock (mZmqControlPub (tport w))),
       Zmq_send (mSocket (mZmqControlPub (tport w))) (cmd_bytes (CHR ''S'') (cmd_junk m) key),
       Wlock_unlock (mLock (mZmqControlPub (tport w)))]"
proof -
  let ?n = "mSubUid (tport w) + 1"
  let ?z = "[Wlock_lock (mLock (mZmqControlPub (tport w))),
       Zmq_send (mSocket (mZmqControlPub (tport w))) (cmd_bytes (CHR ''S'') (cmd_junk m) key),
       Wlock_unlock (mLock (mZmqControlPub (tport w)))]"
  let ?rc = "env (zcalls w @ [hd ?z]) (?z ! 1)"
  let ?sb = "(zmqBridgeMamaSubscriptionImpl_allocate (Some ()) native queue callback subscription closure)\<lparr>
    sb_mSubjectKey := Some key, sb_mEndpointIdentifier := Some (fmt_016llx ?n), sb_mIsValid := (if ?rc \<le> 0 then 0 else 1)\<rparr>"
  let ?w' = "w\<lparr>tport := (tport w)\<lparr>mSubUid := ?n, mSubEndpoints :=
        snd (endpointPool_registerWithIdentifier L (mSubEndpoints (tport w)) key (fmt_016llx ?n) a)\<rparr>,
      sub_store := (sub_store w)(a \<mapsto> ?sb), zcalls := zcalls w @ ?z\<rparr>"
  have lib: "lib_ok L" using ok by (simp add: proc_ok_def)
  have "good_step L w ?w' \<and> sub_map L ?w' = (sub_map L w)((key, fmt_016llx ?n) \<mapsto> a)"
    by (rule sub_register_ok[OF ok a u, of ?sb key ?w' ?z]) (use q in \<open>simp_all add: zmqBridgeMamaSubscriptionImpl_allocate_def\<close>)
  moreover have "zmqBridgeMamaSubscription_create L env m True a (Some ()) native True source symbol transport queue callback
       subscription closure w = Some (if ?rc \<le> 0 then MAMA_STATUS_PLATFORM else MAMA_STATUS_OK, if ?rc \<le> 0 then None else Some a, ?w')"
    using nn key
    by (cases "endpointPool_registerWithIdentifier L (mSubEndpoints (tport w)) key (fmt_016llx ?n) a")
      (simp add: zmqBridgeMamaSubscription_create_def zmqBridgeMamaSubscriptionImpl_create_def key_made_def Let_def
        zmqBridge_generateSerial_def zmqBridgeMamaSubscriptionImpl_subscribe_def topic_command_ok[OF lib]
        zmqBridgeMamaSubscriptionImpl_allocate_def)
  ultimately show ?thesis
    by (intro exI[of _ "if ?rc \<le> 0 then MAMA_STATUS_PLATFORM else MAMA_STATUS_OK"] exI[of _ ?sb] exI[of _ ?w'])
      (simp add: zmqBridgeMamaSubscriptionImpl_allocate_def)
qed

subsection \<open>Wildcard subscriptions\<close>

lemma find_snoc: "List.find P (xs @ [a]) = (case List.find P xs of None \<Rightarrow> if P a then Some a else None | Some x \<Rightarrow> Some x)"
  by (induction xs) auto

lemma wc_find_fresh:
  assumes "wcs_ok L w" "\<not> issued (mWcsUid (tport w)) i"
  shows "wc_find L w i = None"
  unfolding wc_find_def find_None_iff
proof
  assume "\<exists>a. a \<in> set (wc_elems L w) \<and> sub_ident w a = Some i"
  then obtain a where a: "a \<in> set (wc_elems L w)" "sub_ident w a = Some i" by blast
  from wc_elemD[OF assms(1) a(1)] a(2) assms(2) show False by (auto simp: sub_ident_def wc_entry_ok_def)
qed

lemma wc_append:
  assumes W: "wcs_ok L w" and e: "wc_elems L w' = wc_elems L w @ [a]" and na: "a \<notin> set (wc_elems L w)"
    and old: "\<forall>b \<in> set (wc_elems L w). sub_ident w' b = sub_ident w b \<and> sub_ident w b \<noteq> Some k"
    and self: "sub_ident w' a = Some k" and fresh: "wc_find L w k = None"
  shows "wc_find L w' = (wc_find L w)(k \<mapsto> a)" "inj_on (sub_ident w') (set (wc_elems L w'))"
proof -
  show "wc_find L w' = (wc_find L w)(k \<mapsto> a)"
  proof
    fix i
    have f1: "List.find (\<lambda>b. sub_ident w' b = Some i) (wc_elems L w) = wc_find L w i"
      unfolding wc_find_def by (rule find_cong) (simp_all add: old)
    have f2: "wc_find L w' i =
        (case wc_find L w i of None \<Rightarrow> if sub_ident w' a = Some i then Some a else None | Some x \<Rightarrow> Some x)"
      by (subst wc_find_def) (simp only: e find_snoc f1)
    show "wc_find L w' i = ((wc_find L w)(k \<mapsto> a)) i"
      unfolding f2 self using fresh by (cases "i = k"; cases "wc_find L w i") simp_all
  qed
  have "inj_on (sub_ident w') (set (wc_elems L w)) \<longleftrightarrow> inj_on (sub_ident w) (set (wc_elems L w))"
    by (rule inj_on_cong) (simp add: old)
  then have "inj_on (sub_ident w') (set (wc_elems L w))" using W unfolding wcs_ok_def by blast
  moreover have "Some k \<notin> sub_ident w' ` set (wc_elems L w)"
  proof
    assume "Some k \<in> sub_ident w' ` set (wc_elems L w)"
    then obtain b where "b \<in> set (wc_elems L w)" "Some k = sub_ident w' b" by (rule imageE)
    with old show False by metis
  qed
  ultimately show "inj_on (sub_ident w') (set (wc_elems L w'))" unfolding e using self na by simp
qed

lemma subs_ok_new_object:
  assumes ok: "proc_ok L w" and a: "sub_store w a = None" and "sub_store w' = (sub_store w)(a \<mapsto> sb)"
    and "mSubEndpoints (tport w') = mSubEndpoints (tport w)" "mSubUid (tport w') = mSubUid (tport w)" "queue_store w' = queue_store w"
  shows "subs_ok L w'"
proof (rule subs_ok_upd[of L w])
  show "subs_ok L w" using ok by (simp add: proc_ok_def)
  show "\<forall>s i b. sub_map L w (s, i) = Some b \<longrightarrow> sub_store w' b = sub_store w b"
  proof (intro allI impI)
    fix s i b assume "sub_map L w (s, i) = Some b"
    then have "b \<noteq> a" using live_subs(2)[OF ok a, of "(s, i)"] by auto
    then show "sub_store w' b = sub_store w b" by (simp add: assms(3))
  qed
qed (simp_all add: assms)

lemma wc_register_ok:
  assumes ok: "proc_ok L w" and a: "sub_store w a = None" and u: "mWcsUid (tport w) + 1 \<noteq> 0"
    and sb: "sb_mSubjectKey sb = Some key" "sb_mEndpointIdentifier sb = Some (fmt_016llx (mWcsUid (tport w) + 1))"
      "mIsWildcard sb = 1" "sb_mTransport sb = Some ()" "queue_ptr_ok w (sb_mZmqQueue sb)" "mCompRegex sb \<noteq> None"
    and w': "w' = w\<lparr>tport := (tport w)\<lparr>mWcsUid := mWcsUid (tport w) + 1, mWcEndpoints := list_push_back L (mWcEndpoints (tport w)) a\<rparr>,
      sub_store := (sub_store w)(a \<mapsto> sb), zcalls := zcalls w @ z\<rparr>" "\<forall>l. held l z = 0"
  shows "good_step L w w' \<and> wc_elems L w' = wc_elems L w @ [a] \<and>
     wc_find L w' = (wc_find L w)(fmt_016llx (mWcsUid (tport w) + 1) \<mapsto> a)"
proof -
  let ?k = "fmt_016llx (mWcsUid (tport w) + 1)"
  from ok have W: "wcs_ok L w" and lib: "lib_ok L" by (auto simp: proc_ok_def)
  from lib have e: "wc_elems L w' = wc_elems L w @ [a]" by (simp add: lib_ok_def wlist_ok_def w'(1))
  have na: "a \<notin> set (wc_elems L w)" using live_subs(1)[OF ok a] .
  have old: "\<forall>b \<in> set (wc_elems L w). sub_ident w' b = sub_ident w b \<and> sub_ident w b \<noteq> Some ?k"
  proof
    fix b assume b: "b \<in> set (wc_elems L w)"
    from wc_elemD[OF W b] next_not_issued[OF u] b na show "sub_ident w' b = sub_ident w b \<and> sub_ident w b \<noteq> Some ?k"
      by (auto simp: sub_ident_def wc_entry_ok_def w'(1))
  qed
  have self: "sub_ident w' a = Some ?k" using sb(2) by (simp add: sub_ident_def w'(1))
  note app = wc_append[OF W e na old self wc_find_fresh[OF W next_not_issued[OF u]]]
  have la: "list_all (\<lambda>b. \<exists>sb. sub_store w' b = Some sb \<and> wc_entry_ok w' sb) (wc_elems L w')"
  proof -
    have "\<exists>sb. sub_store w' b = Some sb \<and> wc_entry_ok w' sb" if b: "b \<in> set (wc_elems L w)" for b
      using wc_elemD[OF W b] na b issued_mono[OF u] by (auto simp: w'(1) wc_entry_ok_def queue_ptr_ok_def)
    moreover have "wc_entry_ok w' sb" using sb issued_next[OF u] by (simp add: wc_entry_ok_def w'(1) queue_ptr_ok_def)
    ultimately show ?thesis by (simp add: list_all_iff e) (simp add: w'(1))
  qed
  have "distinct (wc_elems L w')" using W na unfolding e wcs_ok_def by simp
  with app(2) la have "wcs_ok L w'" unfolding wcs_ok_def by blast
  moreover have "subs_ok L w'" by (rule subs_ok_new_object[OF ok a]) (simp_all add: w'(1))
  moreover have "inboxes_ok L w'" "queues_ok w'"
    using ok inboxes_ok_cong[of w' w L] queues_ok_cong[of w' w] by (simp_all add: w'(1) proc_ok_def)
  ultimately have "good_step L w w'"
    using lib w'(2) app(1) reg_step_add[OF u, of id ?k "wc_find L w" a] by (simp add: good_step_def proc_ok_def w'(1))
  with e app(1) show ?thesis by blast
qed

lemma wc_create_ok:
  assumes ok: "proc_ok L w" and a: "sub_store w a = None" and q: "queue_ptr_ok w native"
    and u: "mWcsUid (tport w) + 1 \<noteq> 0" and nn: "transport \<noteq> None" "subscription \<noteq> None"
    and pre: "wildcard_prefix regex = Some pfx" and key: "key_made m None (Some pfx) key"
  shows "\<exists>st sb w'. zmqBridgeMamaSubscription_createWildCard L env m True True True 0 True a (Some ()) native True (Some regex)
       transport queue callback subscription closure w = Some (st, if st = MAMA_STATUS_OK then Some a else None, w') \<and>
     good_step L w w' \<and> wc_elems L w' = wc_elems L w @ [a] \<and>
     wc_find L w' = (wc_find L w)(fmt_016llx (mWcsUid (tport w) + 1) \<mapsto> a) \<and> sub_store w' = (sub_store w)(a \<mapsto> sb) \<and>
     sb_mSubjectKey sb = Some key \<and> mCompRegex sb = Some regex \<and> sb_mMamaSubscription sb = subscription \<and>
     (st = MAMA_STATUS_OK \<longleftrightarrow> sb_mIsValid sb = 1) \<and> queue_store w' = queue_store w"
proof -
  let ?n = "mWcsUid (tport w) + 1"
  let ?z = "[Wlock_lock (mLock (mZmqControlPub (tport w))),
       Zmq_send (mSocket (mZmqControlPub (tport w))) (cmd_bytes (CHR ''S'') (cmd_junk m) key),
       Wlock_unlock (mLock (mZmqControlPub (tport w)))]"
  let ?rc = "env (zcalls w @ [hd ?z]) (?z ! 1)"
  let ?sb = "(zmqBridgeMamaSubscriptionImpl_allocate (Some ()) native queue callback subscription closure)\<lparr>mIsWildcard := 1,
    mOrigRegex := Some regex, mCompRegex := Some regex, sb_mSubjectKey := Some key,
    sb_mEndpointIdentifier := Some (fmt_016llx ?n), sb_mIsValid := (if ?rc \<le> 0 then 0 else 1)\<rparr>"
  let ?w' = "w\<lparr>tport := (tport w)\<lparr>mWcsUid := ?n, mWcEndpoints := list_push_back L (mWcEndpoints (tport w)) a\<rparr>,
      sub_store := (sub_store w)(a \<mapsto> ?sb), zcalls := zcalls w @ ?z\<rparr>"
  have lib: "lib_ok L" using ok by (simp add: proc_ok_def)
  have "good_step L w ?w' \<and> wc_elems L ?w' = wc_elems L w @ [a] \<and> wc_find L ?w' = (wc_find L w)(fmt_016llx ?n \<mapsto> a)"
    by (rule wc_register_ok[OF ok a u, of ?sb key ?w' ?z]) (use q in \<open>simp_all add: zmqBridgeMamaSubscriptionImpl_allocate_def\<close>)
  moreover have "zmqBridgeMamaSubscription_createWildCard L env m True True True 0 True a (Some ()) native True (Some regex)
       transport queue callback subscription closure w =
       Some (if ?rc \<le> 0 then MAMA_STATUS_PLATFORM else MAMA_STATUS_OK, if ?rc \<le> 0 then None else Some a, ?w')"
    using nn key pre
    by (simp add: zmqBridgeMamaSubscription_createWildCard_def zmqBridgeMamaSubscriptionImpl_createWildcard_def key_made_def Let_def
        zmqBridge_generateSerial_def zmqBridgeMamaSubscriptionImpl_subscribe_def topic_command_ok[OF lib]
        zmqBridgeMamaSubscriptionImpl_allocate_def)
  ultimately show ?thesis
    by (intro exI[of _ "if ?rc \<le> 0 then MAMA_STATUS_PLATFORM else MAMA_STATUS_OK"] exI[of _ ?sb] exI[of _ ?w'])
      (simp add: zmqBridgeMamaSubscriptionImpl_allocate_def)
qed

subsection \<open>Destroying subscriptions\<close>

lemma removeWildcard_elems:
  assumes "wlist_ok L" "list_all (\<lambda>a. Option.bind (store a) sb_mEndpointIdentifier \<noteq> None) as" "distinct (list_elements L l)"
  shows "\<exists>l'. zmqBridgeMamaTransportImpl_removeWildcard L store ident as l = Some l' \<and>
     list_elements L l' = filter (\<lambda>b. \<not> (b \<in> set as \<and> Option.bind (store b) sb_mEndpointIdentifier = Some ident)) (list_elements L l)"
  using assms(2,3)
proof (induction as arbitrary: l)
  case (Cons a as)
  then obtain sb i where sb: "store a = Some sb" "sb_mEndpointIdentifier sb = Some i"
    by (cases "store a") auto
  let ?l = "if i = ident then list_remove_element L l a else l"
  have e: "list_elements L ?l = filter (\<lambda>b. \<not> (b = a \<and> i = ident)) (list_elements L l)"
    using assms(1) Cons.prems(2) by (simp add: wlist_ok_def distinct_remove1_removeAll removeAll_filter_not_eq)
      (auto intro!: filter_cong)
  then have d: "distinct (list_elements L ?l)" using Cons.prems(2) by (simp only: distinct_filter)
  have "list_all (\<lambda>a. Option.bind (store a) sb_mEndpointIdentifier \<noteq> None) as" using Cons.prems(1) by simp
  from Cons.IH[OF this d] obtain l' where l': "zmqBridgeMamaTransportImpl_removeWildcard L store ident as ?l = Some l'"
     "list_elements L l' = filter (\<lambda>b. \<not> (b \<in> set as \<and> Option.bind (store b) sb_mEndpointIdentifier = Some ident)) (list_elements L ?l)"
    by blast
  have "list_elements L l' =
      filter (\<lambda>b. \<not> (b \<in> set (a # as) \<and> Option.bind (store b) sb_mEndpointIdentifier = Some ident)) (list_elements L l)"
    unfolding l'(2) e filter_filter using sb by (intro filter_cong) auto
  with l'(1) sb show ?case by auto
qed simp

lemma sub_mute_ok:
  assumes ok: "proc_ok L w" and a: "sub_store w a = Some sb"
  shows "\<exists>w'. zmqBridgeMamaSubscription_mute (Some a) w = Some (MAMA_STATUS_OK, w') \<and> same_reg w w' \<and> good_step L w w' \<and>
     w' = w\<lparr>sub_store := (sub_store w)(a \<mapsto> sb\<lparr>mIsNotMuted := 0\<rparr>)\<rparr>"
proof -
  let ?w' = "w\<lparr>sub_store := (sub_store w)(a \<mapsto> sb\<lparr>mIsNotMuted := 0\<rparr>)\<rparr>"
  have "map_option static \<circ> sub_store ?w' = map_option static \<circ> sub_store w"
    using a by (auto simp: fun_eq_iff static_def)
  then have s: "same_reg w ?w'" by (simp add: same_reg_def)
  moreover have "queues_ok ?w'" using ok queues_ok_cong[of ?w' w] by (simp add: proc_ok_def)
  ultimately have "good_step L w ?w'" using proc_ok_same_reg[OF ok s] by (intro good_step_same_reg) simp_all
  with a s show ?thesis by (simp add: zmqBridgeMamaSubscription_mute_def)
qed

text \<open>A subscription whose creation succeeded has everything that its destruction uses.\<close>

definition sub_valid :: "zmqSubscription \<Rightarrow> bool" where
  "sub_valid sb \<longleftrightarrow> sb_mTransport sb = Some () \<and> sb_mSubjectKey sb \<noteq> None \<and> sb_mEndpointIdentifier sb \<noteq> None \<and>
     (mIsWildcard sb = 0 \<or> mIsWildcard sb = 1)"

lemma unregister_regular:
  assumes ok: "proc_ok L w" and a: "sub_store w a = Some sb"
    and sb: "mIsWildcard sb = 0" "sb_mTransport sb = Some ()" "sb_mSubjectKey sb = Some key" "sb_mEndpointIdentifier sb = Some i"
    and w': "tport w' = (tport w)\<lparr>mSubEndpoints := snd (endpointPool_unregister L (mSubEndpoints (tport w)) key i)\<rparr>"
      "sub_store w' = (sub_store w)(a := None)" "queue_store w' = queue_store w" "inbox_store w' = inbox_store w"
      "\<forall>l. held l (zcalls w') = held l (zcalls w)"
  shows "good_step L w w' \<and> sub_map L w' = (sub_map L w)((key, i) := None)"
proof -
  from ok have S: "subs_ok L w" and lib: "lib_ok L" by (auto simp: proc_ok_def)
  have m: "sub_map L w' = (sub_map L w)((key, i) := None)"
    using lib unfolding lib_ok_def pool_ok_def w'(1) by simp
  have na: "a \<notin> set (wc_elems L w)" using wc_elemD[of L w a] ok a sb(1) by (auto simp: proc_ok_def wc_entry_ok_def)
  have "subs_ok L w'"
    unfolding subs_ok_def
  proof (intro allI impI)
    fix s j b assume k: "sub_map L w' (s, j) = Some b"
    with m have old: "sub_map L w (s, j) = Some b" "(s, j) \<noteq> (key, i)" by (auto split: if_splits)
    from sub_mapD[OF S old(1)] obtain sb' where
      sb': "sub_store w b = Some sb'" "sub_entry_ok w s j sb'" "issued (mSubUid (tport w)) j" by blast
    have "b \<noteq> a" using sb' a sb old(2) by (auto simp: sub_entry_ok_def)
    with sb' show "issued (mSubUid (tport w')) j \<and> (\<exists>sb. sub_store w' b = Some sb \<and> sub_entry_ok w' s j sb)"
      by (simp add: w' sub_entry_ok_def queue_ptr_ok_def)
  qed
  moreover have "wcs_ok L w' \<and> wc_find L w' = wc_find L w"
    using ok na by (intro wcs_ok_upd) (auto simp: w' proc_ok_def)
  moreover have "inboxes_ok L w'" "queues_ok w'"
    using ok inboxes_ok_cong[of w' w L] queues_ok_cong[of w' w] by (simp_all add: w' proc_ok_def)
  ultimately show ?thesis
    using lib m w'(5) by (simp add: good_step_def proc_ok_def w'(1) reg_step_remove)
qed

lemma unregister_wc:
  assumes ok: "proc_ok L w" and a: "sub_store w a = Some sb"
    and sb: "mIsWildcard sb = 1" "sb_mEndpointIdentifier sb = Some i"
    and l: "list_elements L l = filter (\<lambda>b. sub_ident w b \<noteq> Some i) (wc_elems L w)"
    and w': "tport w' = (tport w)\<lparr>mWcEndpoints := l\<rparr>"
      "sub_store w' = (sub_store w)(a := None)" "queue_store w' = queue_store w" "inbox_store w' = inbox_store w"
      "\<forall>l. held l (zcalls w') = held l (zcalls w)"
  shows "good_step L w w' \<and> wc_elems L w' = filter (\<lambda>b. sub_ident w b \<noteq> Some i) (wc_elems L w)"
proof -
  from ok have W: "wcs_ok L w" and lib: "lib_ok L" by (auto simp: proc_ok_def)
  let ?es = "filter (\<lambda>b. sub_ident w b \<noteq> Some i) (wc_elems L w)"
  have e: "wc_elems L w' = ?es" by (simp add: w'(1) l)
  have old: "sub_store w' b = sub_store w b" "sub_ident w' b = sub_ident w b" if "b \<in> set ?es" for b
    using that a sb(2) by (auto simp: w'(2) sub_ident_def)
  have inj: "inj_on (sub_ident w') (set ?es)"
  proof -
    have "inj_on (sub_ident w) (set ?es)" using W unfolding wcs_ok_def by (auto elim: inj_on_subset)
    moreover have "inj_on (sub_ident w') (set ?es) \<longleftrightarrow> inj_on (sub_ident w) (set ?es)"
      by (rule inj_on_cong) (rule old(2))
    ultimately show ?thesis by blast
  qed
  have la: "list_all (\<lambda>b. \<exists>sb. sub_store w' b = Some sb \<and> wc_entry_ok w' sb) ?es"
    unfolding list_all_iff
  proof
    fix b assume b: "b \<in> set ?es"
    then have "b \<in> set (wc_elems L w)" by simp
    from wc_elemD[OF W this] old(1)[OF b] show "\<exists>sb. sub_store w' b = Some sb \<and> wc_entry_ok w' sb"
      by (simp add: wc_entry_ok_def queue_ptr_ok_def w')
  qed
  have "distinct ?es" using W unfolding wcs_ok_def by simp
  with inj la have "wcs_ok L w'" unfolding wcs_ok_def e by blast
  moreover have "subs_ok L w'"
  proof (rule subs_ok_upd[of L w])
    show "\<forall>s j b. sub_map L w (s, j) = Some b \<longrightarrow> sub_store w' b = sub_store w b"
    proof (intro allI impI)
      fix s j b assume "sub_map L w (s, j) = Some b"
      then have "b \<noteq> a" using sub_mapD[of L w s j b] ok a sb(1) by (auto simp: proc_ok_def sub_entry_ok_def)
      then show "sub_store w' b = sub_store w b" by (simp add: w')
    qed
  qed (use ok in \<open>simp_all add: w' proc_ok_def\<close>)
  moreover have "inboxes_ok L w'" "queues_ok w'"
    using ok inboxes_ok_cong[of w' w L] queues_ok_cong[of w' w] by (simp_all add: w' proc_ok_def)
  moreover have "wc_find L w' j = wc_find L w j \<or> wc_find L w' j = None" for j
  proof -
    have "wc_find L w' j = List.find (\<lambda>b. sub_ident w b = Some j) ?es"
      unfolding wc_find_def e by (rule find_cong) (simp_all only: old(2))
    moreover have "List.find (\<lambda>b. sub_ident w b = Some j) (filter (\<lambda>b. sub_ident w b \<noteq> Some i) xs) =
        (if j = i then None else List.find (\<lambda>b. sub_ident w b = Some j) xs)" for xs
      by (induction xs) auto
    ultimately show ?thesis by (simp add: wc_find_def)
  qed
  then have "reg_step id (mWcsUid (tport w), wc_find L w) (mWcsUid (tport w'), wc_find L w')"
    by (simp add: reg_step_def w'(1))
  ultimately show ?thesis
    using lib w'(5) e by (simp add: good_step_def proc_ok_def w'(1) l)
qed

lemma sub_destroy_ok:
  assumes ok: "proc_ok L w" and a: "sub_store w a = Some sb" and v: "sub_valid sb"
    and j: "length junk = MAX_SUBJECT_LENGTH + 1"
  shows "\<exists>st w'. zmqBridgeMamaSubscription_destroy L env junk (Some a) w = Some (st, w') \<and> good_step L w w' \<and>
     sub_store w' = (sub_store w)(a := None) \<and> queue_store w' = queue_store w"
proof -
  from v obtain key i where sb: "sb_mTransport sb = Some ()" "sb_mSubjectKey sb = Some key" "sb_mEndpointIdentifier sb = Some i"
    by (auto simp: sub_valid_def)
  from ok have W: "wcs_ok L w" and lib: "lib_ok L" by (auto simp: proc_ok_def)
  let ?ev = "case sb_mMamaCallback sb of None \<Rightarrow> [] | Some cb \<Rightarrow> [SubscriptionDestroyed cb (sb_mMamaSubscription sb) (sb_mClosure sb)]"
  have rest: "\<exists>st w'. zmqBridgeMamaSubscription_destroy L env junk (Some a) w = Some (st, w') \<and> tport w' = t \<and>
      sub_store w' = (sub_store w)(a := None) \<and> queue_store w' = queue_store w \<and> inbox_store w' = inbox_store w \<and>
      (\<forall>l. held l (zcalls w') = held l z)"
    if "unregister_subscription L sb w = Some (w\<lparr>tport := t, zcalls := z\<rparr>)" for t z
    using a sb that
    by (cases "sb_mMamaCallback sb")
      (auto simp: zmqBridgeMamaSubscription_destroy_def zmqBridgeMamaSubscriptionImpl_unsubscribe_def topic_command_ok[OF lib j]
        Let_def emit_def)
  show ?thesis
  proof (cases "mIsWildcard sb = 0")
    case True
    let ?t = "(tport w)\<lparr>mSubEndpoints := snd (endpointPool_unregister L (mSubEndpoints (tport w)) key i)\<rparr>"
    have "unregister_subscription L sb w =
        Some (w\<lparr>tport := ?t, zcalls := zcalls w @ [Wlock_lock (mSubsLock (tport w)), Wlock_unlock (mSubsLock (tport w))]\<rparr>)"
      using True sb by (simp add: unregister_subscription_def Let_def wlock_lock_def wlock_unlock_def split: prod.splits)
    from rest[OF this] obtain st w' where
      w': "zmqBridgeMamaSubscription_destroy L env junk (Some a) w = Some (st, w')" "tport w' = ?t"
        "sub_store w' = (sub_store w)(a := None)" "queue_store w' = queue_store w" "inbox_store w' = inbox_store w"
        "\<forall>l. held l (zcalls w') = held l (zcalls w)" by auto
    from unregister_regular[OF ok a True sb w'(2-6)] w' show ?thesis by blast
  next
    case False
    with v have wc: "mIsWildcard sb = 1" by (simp add: sub_valid_def)
    have "list_all (\<lambda>a. Option.bind (sub_store w a) sb_mEndpointIdentifier \<noteq> None) (wc_elems L w)"
      using wc_elemD[OF W] by (fastforce simp: list_all_iff wc_entry_ok_def)
    from removeWildcard_elems[OF _ this, where L = L and l = "mWcEndpoints (tport w)" and ident = i] lib W obtain l where
      l: "zmqBridgeMamaTransportImpl_removeWildcard L (sub_store w) i (wc_elems L w) (mWcEndpoints (tport w)) = Some l"
        "list_elements L l = filter (\<lambda>b. \<not> (b \<in> set (wc_elems L w) \<and> Option.bind (sub_store w b) sb_mEndpointIdentifier = Some i)) (wc_elems L w)"
      by (auto simp: lib_ok_def wcs_ok_def)
    from l(2) have l2: "list_elements L l = filter (\<lambda>b. sub_ident w b \<noteq> Some i) (wc_elems L w)"
      by (auto simp: sub_ident_def intro!: filter_cong)
    have "unregister_subscription L sb w = Some (w\<lparr>tport := (tport w)\<lparr>mWcEndpoints := l\<rparr>,
        zcalls := zcalls w @ [Wlock_lock (mWcsLock (tport w)), Wlock_unlock (mWcsLock (tport w))]\<rparr>)"
      using False sb l(1)
      by (simp add: unregister_subscription_def zmqBridgeMamaTransportImpl_unregisterWildcard_def wlock_lock_def wlock_unlock_def)
    from rest[OF this] obtain st w' where
      w': "zmqBridgeMamaSubscription_destroy L env junk (Some a) w = Some (st, w')" "tport w' = (tport w)\<lparr>mWcEndpoints := l\<rparr>"
        "sub_store w' = (sub_store w)(a := None)" "queue_store w' = queue_store w" "inbox_store w' = inbox_store w"
        "\<forall>l. held l (zcalls w') = held l (zcalls w)" by auto
    from unregister_wc[OF ok a wc sb(3) l2 w'(2-6)] w' show ?thesis by blast
  qed
qed

end
