(* ===== verification/Bridge_Steps.thy ===== *)
theory Bridge_Steps
  imports Registration_Correct
begin

text \<open>
  The life of a process: the application creates and destroys inboxes and subscriptions, the
  dispatch thread receives messages, the callback threads dispatch the events of the queues, in
  any order. Each operation is one step.
\<close>

subsection \<open>Operations\<close>

text \<open>
  The arguments are those of the functions, with the address that the allocation returns first
  and the native handle of the queue where there is one.
\<close>

datatype oz_op =
    CreateInbox nat nat nat nat "nat option" "nat option" voidp voidp
  | DestroyInbox nat
  | CreateSubscription nat nat stack_mem "cstring option" "cstring option" voidp "nat option" nat voidp
  | CreateWildcard nat nat stack_mem cstring voidp "nat option" nat voidp
  | Mute nat
  | DestroySubscription nat bytes
  | Receive bytes
  | DispatchEvent nat

fun oz_exec ::
  "('t, 'p, 'l) mama_lib \<Rightarrow> zenv \<Rightarrow> oz_op \<Rightarrow> ('t, 'u, 'p, 'l) oz_proc \<Rightarrow> ('t, 'u, 'p, 'l) oz_proc option" where
  "oz_exec L env (CreateInbox a q queue msgCB errorCB onDestroyed closure parent) w =
     map_option (snd \<circ> snd) (zmqBridgeMamaInbox_createByIndex L True True a (Some ()) (Some q) True (Some 0) (Some queue) (Some msgCB)
       errorCB onDestroyed closure parent w)"
| "oz_exec L env (DestroyInbox a) w = map_option snd (zmqBridgeMamaInbox_destroy L (Some a) w)"
| "oz_exec L env (CreateSubscription a q m source symbol queue callback subscription closure) w =
     map_option (snd \<circ> snd) (zmqBridgeMamaSubscription_create L env m True a (Some ()) (Some q) True source symbol (Some 0) queue
       callback (Some subscription) closure w)"
| "oz_exec L env (CreateWildcard a q m regex queue callback subscription closure) w =
     map_option (snd \<circ> snd) (zmqBridgeMamaSubscription_createWildCard L env m True True True 0 True a (Some ()) (Some q) True
       (Some regex) (Some 0) queue callback (Some subscription) closure w)"
| "oz_exec L env (Mute a) w = map_option snd (zmqBridgeMamaSubscription_mute (Some a) w)"
| "oz_exec L env (DestroySubscription a junk) w = map_option snd (zmqBridgeMamaSubscription_destroy L env junk (Some a) w)"
| "oz_exec L env (Receive zmsg) w = map_option snd (zmqBridgeMamaTransportImpl_dispatchNormalMsg L zmsg w)"
| "oz_exec L env (DispatchEvent a) w = dispatch_event L a [SemAcquired] w"

text \<open>
  What the callers of the functions guarantee: an allocation returns an address that is not in
  use and succeeds, a native handle belongs to an existing queue, a counter is not exhausted, only
  registered objects are destroyed, a received message is one that the code can read, and an event is
  dispatched only when there is one.
\<close>

definition inbox_live :: "('t, 'p, 'l) mama_lib \<Rightarrow> ('t, 'u, 'p, 'l) oz_proc \<Rightarrow> nat \<Rightarrow> bool" where
  "inbox_live L w a \<longleftrightarrow>
     (case Option.bind (inbox_store w a) inbox_name of None \<Rightarrow> False | Some k \<Rightarrow> inbox_map L w k = Some a)"

definition key_of :: "stack_mem \<Rightarrow> cstring option \<Rightarrow> cstring option \<Rightarrow> cstring option" where
  "key_of m source symbol =
     (case zmqBridgeMamaSubscriptionImpl_generateSubjectKey (key_junk m) (key_mem m) None source symbol of
        Some (MAMA_STATUS_OK, key) \<Rightarrow> key | _ \<Rightarrow> None)"

fun oz_pre :: "('t, 'p, 'l) mama_lib \<Rightarrow> ('t, 'u, 'p, 'l) oz_proc \<Rightarrow> oz_op \<Rightarrow> bool" where
  "oz_pre L w (CreateInbox a q _ _ _ _ _ _) \<longleftrightarrow>
     inbox_store w a = None \<and> queue_store w q \<noteq> None \<and> mInboxUid (tport w) + 1 \<noteq> 0"
| "oz_pre L w (DestroyInbox a) \<longleftrightarrow> inbox_live L w a"
| "oz_pre L w (CreateSubscription a q m source symbol _ _ _ _) \<longleftrightarrow>
     sub_store w a = None \<and> queue_store w q \<noteq> None \<and> mSubUid (tport w) + 1 \<noteq> 0 \<and>
     length (cmd_junk m) = MAX_SUBJECT_LENGTH + 1 \<and> key_of m source symbol \<noteq> None"
| "oz_pre L w (CreateWildcard a q m regex _ _ _ _) \<longleftrightarrow>
     sub_store w a = None \<and> queue_store w q \<noteq> None \<and> mWcsUid (tport w) + 1 \<noteq> 0 \<and>
     length (cmd_junk m) = MAX_SUBJECT_LENGTH + 1 \<and>
     (case wildcard_prefix regex of None \<Rightarrow> False | Some p \<Rightarrow> key_of m None (Some p) \<noteq> None)"
| "oz_pre L w (Mute a) \<longleftrightarrow> sub_store w a \<noteq> None"
| "oz_pre L w (DestroySubscription a junk) \<longleftrightarrow>
     length junk = MAX_SUBJECT_LENGTH + 1 \<and> (case sub_store w a of None \<Rightarrow> False | Some sb \<Rightarrow> sub_valid sb)"
| "oz_pre L w (Receive zmsg) \<longleftrightarrow> msg_readable L zmsg w \<and> frame_ok zmsg \<and> length zmsg < 2 ^ 31"
| "oz_pre L w (DispatchEvent a) \<longleftrightarrow> (case queue_store w a of None \<Rightarrow> False | Some q \<Rightarrow> mq_elems q \<noteq> [])"

inductive oz_step :: "('t, 'p, 'l) mama_lib \<Rightarrow> zenv \<Rightarrow> ('t, 'u, 'p, 'l) oz_proc \<Rightarrow> ('t, 'u, 'p, 'l) oz_proc \<Rightarrow> bool"
  for L env where
  step: "oz_pre L w op \<Longrightarrow> oz_exec L env op w = Some w' \<Longrightarrow> oz_step L env w w'"

inductive_cases oz_stepE: "oz_step L env w w'"

subsection \<open>Every operation is defined and keeps the invariant\<close>

lemma key_of_made: "length (cmd_junk m) = Suc MAX_SUBJECT_LENGTH \<Longrightarrow> key_of m s t = Some k \<Longrightarrow> key_made m s t k"
  by (auto simp: key_of_def key_made_def split: option.splits mama_status.splits)

lemma oz_exec_ok:
  assumes ok: "proc_ok L w" and pre: "oz_pre L w op"
  shows "\<exists>w'. oz_exec L env op w = Some w' \<and> good_step L w w'"
proof (cases op)
  case (CreateInbox a q queue msgCB errorCB onDestroyed closure parent)
  with pre have p: "inbox_store w a = None" "queue_ptr_ok w (Some q)" "mInboxUid (tport w) + 1 \<noteq> 0"
    by (auto simp: queue_ptr_ok_def)
  from inbox_create_ok[OF ok p, of "Some 0" "Some queue" "Some msgCB" errorCB onDestroyed closure parent] CreateInbox show ?thesis
    by fastforce
next
  case (DestroyInbox a)
  with pre obtain k where "inbox_map L w k = Some a" by (auto simp: inbox_live_def split: option.splits)
  from inbox_destroy_ok[OF ok this] DestroyInbox show ?thesis by fastforce
next
  case (CreateSubscription a q m source symbol queue callback subscription closure)
  with pre obtain key where p: "sub_store w a = None" "queue_ptr_ok w (Some q)" "mSubUid (tport w) + 1 \<noteq> 0" "key_made m source symbol key"
    by (force simp: queue_ptr_ok_def dest: key_of_made)
  from sub_create_ok[OF ok p(1-3) _ _ p(4), of "Some 0" "Some subscription" env queue callback closure] CreateSubscription
  show ?thesis by fastforce
next
  case (CreateWildcard a q m regex queue callback subscription closure)
  with pre obtain pfx key where p: "sub_store w a = None" "queue_ptr_ok w (Some q)" "mWcsUid (tport w) + 1 \<noteq> 0"
    "wildcard_prefix regex = Some pfx" "key_made m None (Some pfx) key"
    by (force simp: queue_ptr_ok_def split: option.splits dest: key_of_made)
  from wc_create_ok[OF ok p(1-3) _ _ p(4,5), of "Some 0" "Some subscription" env queue callback closure] CreateWildcard
  show ?thesis by fastforce
next
  case (Mute a)
  with pre obtain sb where "sub_store w a = Some sb" by auto
  from sub_mute_ok[OF ok this] Mute show ?thesis by auto
next
  case (DestroySubscription a junk)
  with pre obtain sb where p: "sub_store w a = Some sb" "sub_valid sb" "length junk = MAX_SUBJECT_LENGTH + 1"
    by (auto split: option.splits)
  from sub_destroy_ok[OF ok p, of env] DestroySubscription show ?thesis by fastforce
next
  case (Receive zmsg)
  with pre have p: "msg_readable L zmsg w" "frame_ok zmsg" "length zmsg < 2 ^ 31" by auto
  from dispatchNormal_ok[OF ok p] obtain w' where
    "zmqBridgeMamaTransportImpl_dispatchNormalMsg L zmsg w = Some (route_status L zmsg w, w')" "same_reg w w'" "proc_ok L w'"
    "\<forall>l. held l (zcalls w') = held l (zcalls w)" by blast
  with Receive good_step_same_reg show ?thesis by auto
next
  case (DispatchEvent a)
  with pre obtain q v vs where q: "queue_store w a = Some q" "mq_elems q = v # vs"
    by (auto split: option.splits simp: neq_Nil_conv)
  from dispatch_event_ok[OF ok q] obtain w' where
    "dispatch_event L a [SemAcquired] w = Some w'" "same_reg w w'" "proc_ok L w'" "\<forall>l. held l (zcalls w') = held l (zcalls w)" by blast
  with DispatchEvent good_step_same_reg show ?thesis by auto
qed

lemma oz_step_good: "proc_ok L w \<Longrightarrow> oz_step L env w w' \<Longrightarrow> good_step L w w'"
proof (erule oz_stepE)
  fix op assume "proc_ok L w" "oz_pre L w op" "oz_exec L env op w = Some w'"
  with oz_exec_ok[of L w op env] show "good_step L w w'" by auto
qed

subsection \<open>The registries\<close>

lemma wc_find_issued:
  assumes "proc_ok L w" "wc_find L w i = Some a"
  shows "issued (mWcsUid (tport w)) i"
  using wc_find_fresh[of L w i] assms by (auto simp: proc_ok_def)

interpretation ib: serial_registry "proc_ok L" "inbox_map L" "\<lambda>w. mInboxUid (tport w)" id "oz_step L env" for L env
proof
  show "proc_ok L w'" if "proc_ok L w" "oz_step L env w w'" for w w' :: "('a, 'd, 'b, 'c) oz_proc"
    using oz_step_good[OF that] by (simp add: good_step_def)
  show "issued (mInboxUid (tport w)) (id k)" if "proc_ok L w" "inbox_map L w k = Some a" for w :: "('a, 'd, 'b, 'c) oz_proc" and k a
    using inbox_mapD[OF _ that(2)] that(1) by (auto simp: proc_ok_def)
  show "reg_step id (mInboxUid (tport w), inbox_map L w) (mInboxUid (tport w'), inbox_map L w')"
    if "proc_ok L w" "oz_step L env w w'" for w w' :: "('a, 'd, 'b, 'c) oz_proc"
    using oz_step_good[OF that] by (simp add: good_step_def)
qed

interpretation sb: serial_registry "proc_ok L" "sub_map L" "\<lambda>w. mSubUid (tport w)" snd "oz_step L env" for L env
proof
  show "proc_ok L w'" if "proc_ok L w" "oz_step L env w w'" for w w' :: "('a, 'd, 'b, 'c) oz_proc"
    using oz_step_good[OF that] by (simp add: good_step_def)
  show "issued (mSubUid (tport w)) (snd k)" if "proc_ok L w" "sub_map L w k = Some a" for w :: "('a, 'd, 'b, 'c) oz_proc" and k a
    using sub_mapD[of L w "fst k" "snd k" a] that by (auto simp: proc_ok_def)
  show "reg_step snd (mSubUid (tport w), sub_map L w) (mSubUid (tport w'), sub_map L w')"
    if "proc_ok L w" "oz_step L env w w'" for w w' :: "('a, 'd, 'b, 'c) oz_proc"
    using oz_step_good[OF that] by (simp add: good_step_def)
qed

interpretation wc: serial_registry "proc_ok L" "wc_find L" "\<lambda>w. mWcsUid (tport w)" id "oz_step L env" for L env
proof
  show "proc_ok L w'" if "proc_ok L w" "oz_step L env w w'" for w w' :: "('a, 'd, 'b, 'c) oz_proc"
    using oz_step_good[OF that] by (simp add: good_step_def)
  show "issued (mWcsUid (tport w)) (id k)" if "proc_ok L w" "wc_find L w k = Some a" for w :: "('a, 'd, 'b, 'c) oz_proc" and k a
    using wc_find_issued[OF that] by simp
  show "reg_step id (mWcsUid (tport w), wc_find L w) (mWcsUid (tport w'), wc_find L w')"
    if "proc_ok L w" "oz_step L env w w'" for w w' :: "('a, 'd, 'b, 'c) oz_proc"
    using oz_step_good[OF that] by (simp add: good_step_def)
qed

end
