(* ===== verification/Bridge_Demo.thy ===== *)
theory Bridge_Demo
  imports Bridge_Steps
begin

text \<open>
  A concrete instance of the libraries and a process as \<open>zmqBridgeMamaTransport_create\<close> leaves
  it, on which the properties are evaluated: association lists for the tables, a list for the
  wombat list, regular expressions that match everything.
\<close>

definition demo_lib :: "((cstring \<times> nat) list, ((cstring \<times> cstring) \<times> nat) list, nat list) mama_lib" where
  "demo_lib = \<lparr>
     wtable_lookup = map_of,
     wtable_insert = (\<lambda>t k v. (1, (k, v) # t)),
     wtable_remove = (\<lambda>t k. (map_of t k, filter (\<lambda>(k', _). k' \<noteq> k) t)),
     endpointPool_registerWithIdentifier = (\<lambda>p s i v. (MAMA_STATUS_OK, ((s, i), v) # p)),
     endpointPool_unregister = (\<lambda>p s i. (MAMA_STATUS_OK, filter (\<lambda>(k, _). k \<noteq> (s, i)) p)),
     endpointPool_getRegistered = (\<lambda>p s. (MAMA_STATUS_OK,
       map (\<lambda>i. the (map_of p (s, i))) (remdups (map (snd \<circ> fst) (filter (\<lambda>(k, _). fst k = s) p))))),
     endpointPool_getEndpointByIdentifiers = (\<lambda>p s i. map_of p (s, i)),
     list_elements = (\<lambda>l. l),
     list_push_back = (\<lambda>l a. l @ [a]),
     list_remove_element = (\<lambda>l a. remove1 a l),
     mamaQueueImpl_getMsg = (\<lambda>q. Some 0),
     mamaMsgImpl_getBridgeMsg = (\<lambda>m. MAMA_STATUS_OK),
     mamaMsgImpl_setMsgBuffer = (\<lambda>m p b. MAMA_STATUS_OK),
     regexec = (\<lambda>r s. 0),
     wmStrSizeCpy = (\<lambda>n s. (min (n - 1) (length s), take (n - 1) s)),
     calloc_ok = (\<lambda>q. True)\<rparr>"

lemma map_of_remove: "map_of (filter (\<lambda>(k', _). k' \<noteq> k) t) = (map_of t)(k := None)"
  by (induction t) (auto simp: fun_eq_iff)

lemma demo_pool_ids:
  "set (remdups (map (snd \<circ> fst) (filter (\<lambda>(k, _). fst k = s) p))) = {i. map_of p (s, i) \<noteq> None}"
  by (force simp: map_of_eq_None_iff)

lemma demo_lib_ok: "lib_ok demo_lib"
proof -
  have "wtable_ok demo_lib" by (simp add: wtable_ok_def demo_lib_def map_of_remove fun_eq_iff)
  moreover have "pool_ok demo_lib"
    unfolding pool_ok_def
  proof (intro conjI allI impI)
    fix p :: "((cstring \<times> cstring) \<times> nat) list" and s :: cstring
    let ?ids = "remdups (map (snd \<circ> fst) (filter (\<lambda>(k, _). fst k = s) p))"
    have "distinct ?ids \<and> set ?ids = {i. pool_map demo_lib p (s, i) \<noteq> None}"
      using demo_pool_ids[of s p] by (simp add: demo_lib_def)
    then show "\<exists>ids. distinct ids \<and> set ids = {i. pool_map demo_lib p (s, i) \<noteq> None} \<and>
        (if ids = [] then fst (endpointPool_getRegistered demo_lib p s) \<noteq> MAMA_STATUS_OK \<or>
            snd (endpointPool_getRegistered demo_lib p s) = []
         else endpointPool_getRegistered demo_lib p s = (MAMA_STATUS_OK, map (\<lambda>i. the (pool_map demo_lib p (s, i))) ids))"
      by (intro exI[of _ ?ids]) (simp add: demo_lib_def)
  qed (auto simp: demo_lib_def map_of_remove fun_eq_iff)
  moreover have "wlist_ok demo_lib" by (simp add: wlist_ok_def demo_lib_def)
  moreover have "wmStrSizeCpy_ok (wmStrSizeCpy demo_lib)" by (simp add: wmStrSizeCpy_ok_def demo_lib_def)
  ultimately show ?thesis by (simp add: lib_ok_def)
qed

text \<open>A ZeroMQ for which every call succeeds.\<close>

definition demo_env :: zenv where
  "demo_env w c = (case c of Zmq_send _ b \<Rightarrow> int (length b) | Zmq_msg_send _ b \<Rightarrow> int (length b) | _ \<Rightarrow> 0)"

definition demo_queue :: zqueue where
  "demo_queue = the (snd (the (zmqBridgeMamaQueue_create True True True 0 10 0 2 True (Some 1))))"

lemma demo_queue_created:
  "zmqBridgeMamaQueue_create True True True 0 10 0 2 True (Some 1) = Some (MAMA_STATUS_OK, Some demo_queue)"
proof -
  have "map_option fst (zmqBridgeMamaQueue_create True True True 0 10 0 2 True (Some 1) ::
      (_ \<times> zqueue option) option) = Some MAMA_STATUS_OK"
    by code_simp
  moreover have "map_option (map_option q_mParent \<circ> snd) (zmqBridgeMamaQueue_create True True True 0 10 0 2 True (Some 1) ::
      (_ \<times> zqueue option) option) = Some (Some (Some 1))"
    by code_simp
  ultimately show ?thesis unfolding demo_queue_def by (auto split: option.splits)
qed

definition demo_socket :: "nat \<Rightarrow> zmqSocket" where
  "demo_socket n = \<lparr>mSocket = n, mLock = n, mMonitor = 0\<rparr>"

definition demo_uuid :: cstring where
  "demo_uuid = ''3669840e-d043-11ea-adc2-fcaa146e6b01''"

definition demo_tport ::
  "((cstring \<times> nat) list, (cstring \<times> bytes) list, ((cstring \<times> cstring) \<times> nat) list, nat list) zmqTransportBridge" where
  "demo_tport = \<lparr>t_mName = ''oz'', mIsReady = 1, mNamingConnected = 0, t_mIsValid = 1, t_mTransport = Some 0, mIsNaming = 1,
     mPublishAddress = ''lo'', mUuid = demo_uuid, mHeartbeatInterval = 10000, mReconnectInterval = 10, mDisableRefresh = 1,
     mReconnectOptions = 3, mZmqControlSub = demo_socket 1, mZmqControlPub = demo_socket 2, mZmqNamingPub = demo_socket 3,
     mZmqNamingSub = demo_socket 4, mPubEndpoint = ''tcp://127.0.0.1:5000'', mNamingAddress = replicate 8 None, mNamingWaitForConnect = 0,
     mNamingConnectRetries = 100, mNamingConnectInterval = 100000, mBeaconInterval = 0, mZmqDataPub = demo_socket 5,
     mZmqDataSub = demo_socket 6, mIncomingAddress = replicate 512 None, mOutgoingAddress = replicate 512 None, t_mIsDispatching = 1,
     mOmzmqDispatchStatus = MAMA_STATUS_OK, mZmqMonitorPub = demo_socket 7, mZmqMonitorSub = demo_socket 8, mIsMonitoring = 0,
     mSocketMonitor = 0, mPeers = [], mSubEndpoints = [], mSubsLock = 9, mSubUid = 0, mWcEndpoints = [], mWcsLock = 10, mWcsUid = 0,
     mInboxSubject = ''_INBOX.'' @ demo_uuid, mInboxes = [], mInboxesLock = 11, mInboxUid = 0, mNormalMessages = 0,
     mNamingMessages = 0, mControlMessages = 0, mSubMessages = 0, mInboxMessages = 0, mPolls = 0\<rparr>"

definition demo_bridge_msg :: zmqBridgeMsgImpl where
  "demo_bridge_msg = \<lparr>msg_mParent = None, mMsgType = ZMQ_MSG_PUB_SUB, mReplyHandle = '''', mSendSubject = ''''\<rparr>"

definition demo_proc ::
  "((cstring \<times> nat) list, (cstring \<times> bytes) list, ((cstring \<times> cstring) \<times> nat) list, nat list) oz_proc" where
  "demo_proc = \<lparr>tport = demo_tport, inbox_store = (\<lambda>a. None), sub_store = (\<lambda>a. None), queue_store = [0 \<mapsto> demo_queue],
     bridge_msgs = [0 \<mapsto> demo_bridge_msg], msg_buffers = (\<lambda>m. None), zcalls = [], app_events = []\<rparr>"

definition demo_stack :: stack_mem where
  "demo_stack = \<lparr>key_junk = replicate 257 (CHR ''?''), key_mem = True, cmd_junk = replicate 257 (CHR ''?'')\<rparr>"

text \<open>A process in which nothing is registered and nothing is queued.\<close>

definition fresh_proc :: "('t, 'p, 'l) mama_lib \<Rightarrow> ('t, 'u, 'p, 'l) oz_proc \<Rightarrow> bool" where
  "fresh_proc L w \<longleftrightarrow> lib_ok L \<and> length (mInboxSubject (tport w)) = ZMQ_INBOX_SUBJECT_SIZE \<and>
     (\<forall>k. inbox_map L w k = None) \<and> (\<forall>k. sub_map L w k = None) \<and> wc_elems L w = [] \<and>
     (\<forall>a q. queue_store w a = Some q \<longrightarrow> mq_ok 0 q \<and> mq_elems q = [])"

lemma fresh_proc_ok: "fresh_proc L w \<Longrightarrow> proc_ok L w"
  by (auto simp: fresh_proc_def proc_ok_def queues_ok_def inboxes_ok_def subs_ok_def wcs_ok_def)

lemma demo_fresh: "fresh_proc demo_lib demo_proc"
  using create_active(1,2)[OF demo_queue_created] demo_lib_ok
  by (auto simp: fresh_proc_def demo_proc_def demo_tport_def demo_lib_def demo_uuid_def mq_inv_def oz_sizes split: if_splits)

end
