(* ===== verification/Naming_Correct.thy ===== *)
theory Naming_Correct
  imports Naming Bridge_Demo
begin

text \<open>
  The naming messages that transports send can be read back, and what the handler does with
  them: connect to a new peer, answer with an announcement, remember the peer.
\<close>

subsection \<open>Wire format\<close>

lemma memcpy_field:
  assumes "length pre = p" "length s \<le> n"
  shows "memcpy_at (pre @ replicate n NUL @ post) p s = Some (pre @ char_array n s @ post)"
proof -
  have "replicate n NUL = replicate (length s) NUL @ replicate (n - length s) NUL"
    using assms(2) by (simp flip: replicate_add)
  with assms show ?thesis by (simp add: char_array_def memcpy_at_def)
qed

lemma char_array_snoc: "length s < n \<Longrightarrow> char_array n (s @ [NUL]) = char_array n s"
proof -
  assume "length s < n"
  then have "n - length s = Suc (n - length (s @ [NUL]))" by simp
  then show ?thesis by (simp add: char_array_def)
qed

lemma strcpy_field:
  assumes "length pre = p" "length s < n"
  shows "strcpy_at (pre @ replicate n NUL @ post) p n s = Some (pre @ char_array n s @ post)"
  using memcpy_field[OF assms(1), of "s @ [NUL]" n post] assms(2) by (simp add: strcpy_at_def char_array_snoc)

lemma length_char_array [simp]: "length s \<le> n \<Longrightarrow> length (char_array n s) = n"
  by (simp add: char_array_def)

lemma length_long_bytes [simp]: "length (long_bytes n) = 8"
  by (simp add: long_bytes_def)

lemma cstr_char_array: "is_cstring s \<Longrightarrow> length s < n \<Longrightarrow> cstr_at (char_array n s @ post) = Some s"
proof -
  assume s: "is_cstring s" and "length s < n"
  then obtain k where "n - length s = Suc k" by (metis Suc_diff_Suc)
  with s show ?thesis by (simp add: char_array_def)
qed

text \<open>The announcement of a transport.\<close>

definition own_msg :: "host_env \<Rightarrow> byte \<Rightarrow> cstring \<Rightarrow> cstring \<Rightarrow> zmqNamingMsg" where
  "own_msg h command uuid endpoint = \<lparr>nm_mTopic = ZMQ_NAMING_PREFIX, nm_mType = command, nm_mProgName = take 256 (he_prog h),
     nm_mHost = he_host h, nm_mPid = he_pid h, nm_mUuid = uuid, nm_mEndPointAddr = endpoint\<rparr>"

definition host_ok :: "host_env \<Rightarrow> bool" where
  "host_ok h \<longleftrightarrow> length (he_host h) \<le> MAXHOSTNAMELEN + 1"

definition id_ok :: "cstring \<Rightarrow> cstring \<Rightarrow> bool" where
  "id_ok uuid endpoint \<longleftrightarrow> is_cstring uuid \<and> length uuid \<le> UUID_STRING_SIZE \<and>
     is_cstring endpoint \<and> length endpoint \<le> ZMQ_MAX_ENDPOINT_LENGTH"

lemma endpoints_msg_eq:
  assumes "wmStrSizeCpy_ok wm" "host_ok h" "id_ok uuid endpoint"
  shows "endpoints_msg wm h c uuid endpoint = Some (naming_bytes (own_msg h c uuid endpoint))"
proof -
  let ?Z = "\<lambda>n. replicate n NUL"
  let ?prog = "take 256 (he_prog h)"
  have z: "?Z sizeof_zmqNamingMsg = [] @ ?Z 257 @ (?Z 1 @ ?Z 257 @ ?Z 65 @ ?Z 8 @ ?Z 37 @ ?Z 257)"
    unfolding append_Nil by (simp only: naming_layout flip: replicate_add) simp
  have prog: "snd (wm (256 + 1) (he_prog h)) = ?prog"
    using assms(1)[unfolded wmStrSizeCpy_ok_def, rule_format, of 256 "he_prog h"] by simp
  have topic: "length ZMQ_NAMING_PREFIX = 7" by (simp add: ZMQ_NAMING_PREFIX_def)
  have lens: "length (he_host h) \<le> 65" "length uuid < 37" "length endpoint < 257" "length ?prog < 257"
    using assms(2,3) by (simp_all add: host_ok_def id_ok_def naming_layout)
  let ?a1 = "char_array 257 ZMQ_NAMING_PREFIX"
  let ?a3 = "char_array 257 ?prog" and ?a4 = "char_array 65 (he_host h)" and ?a5 = "long_bytes (he_pid h)"
  let ?a6 = "char_array 37 uuid" and ?a7 = "char_array 257 endpoint"
  have s1: "strcpy_at (?Z sizeof_zmqNamingMsg) 0 257 ZMQ_NAMING_PREFIX =
      Some (?a1 @ ?Z 1 @ ?Z 257 @ ?Z 65 @ ?Z 8 @ ?Z 37 @ ?Z 257)"
    unfolding z by (subst strcpy_field) (simp_all add: topic)
  have s2: "memcpy_at (?a1 @ ?Z 1 @ ?Z 257 @ ?Z 65 @ ?Z 8 @ ?Z 37 @ ?Z 257) 257 [c] =
      Some ((?a1 @ [c]) @ ?Z 257 @ ?Z 65 @ ?Z 8 @ ?Z 37 @ ?Z 257)"
    by (subst memcpy_field) (simp_all add: topic char_array_def)
  have s3: "memcpy_at ((?a1 @ [c]) @ ?Z 257 @ ?Z 65 @ ?Z 8 @ ?Z 37 @ ?Z 257) 258 (?prog @ [NUL]) =
      Some ((?a1 @ [c] @ ?a3) @ ?Z 65 @ ?Z 8 @ ?Z 37 @ ?Z 257)"
    using lens(4) by (subst memcpy_field) (simp_all add: topic char_array_snoc)
  have s4: "memcpy_at ((?a1 @ [c] @ ?a3) @ ?Z 65 @ ?Z 8 @ ?Z 37 @ ?Z 257) 515 (he_host h) =
      Some ((?a1 @ [c] @ ?a3 @ ?a4) @ ?Z 8 @ ?Z 37 @ ?Z 257)"
    using lens(1,4) by (subst memcpy_field) (simp_all add: topic)
  have s5: "memcpy_at ((?a1 @ [c] @ ?a3 @ ?a4) @ ?Z 8 @ ?Z 37 @ ?Z 257) 580 ?a5 =
      Some ((?a1 @ [c] @ ?a3 @ ?a4 @ ?a5) @ ?Z 37 @ ?Z 257)"
    using lens(1,4) by (subst memcpy_field) (simp_all add: topic char_array_def)
  have s6: "strcpy_at ((?a1 @ [c] @ ?a3 @ ?a4 @ ?a5) @ ?Z 37 @ ?Z 257) 588 37 uuid =
      Some ((?a1 @ [c] @ ?a3 @ ?a4 @ ?a5 @ ?a6) @ ?Z 257 @ [])"
    using lens(1,2,4) by (subst strcpy_field) (simp_all add: topic)
  have s7: "strcpy_at ((?a1 @ [c] @ ?a3 @ ?a4 @ ?a5 @ ?a6) @ ?Z 257 @ []) 625 257 endpoint =
      Some ((?a1 @ [c] @ ?a3 @ ?a4 @ ?a5 @ ?a6) @ ?a7 @ [])"
    using lens by (subst strcpy_field) (simp_all add: topic)
  show ?thesis
    using s1 s2 s3 s4 s5 s6 s7 prog
    by (simp add: endpoints_msg_def naming_bytes_def own_msg_def naming_layout del: replicate.simps append_assoc)
qed

text \<open>Reading the members of a message back.\<close>

definition naming_msg_ok :: "zmqNamingMsg \<Rightarrow> bool" where
  "naming_msg_ok m \<longleftrightarrow> length (nm_mTopic m) \<le> MAX_SUBJECT_LENGTH \<and> length (nm_mProgName m) \<le> 256 \<and>
     length (nm_mHost m) \<le> MAXHOSTNAMELEN + 1 \<and> id_ok (nm_mUuid m) (nm_mEndPointAddr m)"

lemma own_msg_ok: "host_ok h \<Longrightarrow> id_ok uuid endpoint \<Longrightarrow> naming_msg_ok (own_msg h c uuid endpoint)"
  by (simp add: naming_msg_ok_def own_msg_def host_ok_def ZMQ_NAMING_PREFIX_def naming_layout)

lemma drop_prefix: "length a = n \<Longrightarrow> drop (n + k) (a @ b) = drop k b"
  by simp

lemma naming_read:
  assumes "naming_msg_ok m"
  shows "length (naming_bytes m) = sizeof_zmqNamingMsg" "naming_type (naming_bytes m) = Some (nm_mType m)"
    "naming_uuid (naming_bytes m) = Some (nm_mUuid m)" "naming_addr (naming_bytes m) = Some (nm_mEndPointAddr m)"
proof -
  let ?a1 = "char_array 257 (nm_mTopic m)" and ?a3 = "char_array 257 (nm_mProgName m)" and ?a4 = "char_array 65 (nm_mHost m)"
  let ?a5 = "long_bytes (nm_mPid m)" and ?a6 = "char_array 37 (nm_mUuid m)" and ?a7 = "char_array 257 (nm_mEndPointAddr m)"
  have eq: "naming_bytes m = ?a1 @ [nm_mType m] @ ?a3 @ ?a4 @ ?a5 @ ?a6 @ ?a7"
    by (simp add: naming_bytes_def naming_layout)
  have lens: "length ?a1 = 257" "length ?a3 = 257" "length ?a4 = 65" "length ?a6 = 37" "length ?a7 = 257"
    using assms by (simp_all add: naming_msg_ok_def id_ok_def naming_layout)
  have l5: "length (?a1 @ [nm_mType m] @ ?a3 @ ?a4 @ ?a5) = 588" "length (?a1 @ [nm_mType m] @ ?a3 @ ?a4 @ ?a5 @ ?a6) = 625"
    using lens by simp_all
  have d5: "drop 588 (naming_bytes m) = ?a6 @ ?a7" "drop 625 (naming_bytes m) = ?a7 @ []"
    using drop_prefix[OF l5(1), of 0 "?a6 @ ?a7"] drop_prefix[OF l5(2), of 0 "?a7 @ []"] by (simp_all add: eq)
  show "length (naming_bytes m) = sizeof_zmqNamingMsg" using lens by (simp add: eq naming_layout)
  show "naming_type (naming_bytes m) = Some (nm_mType m)"
    using byte_at_next[of ?a1 "nm_mType m"] lens(1) by (simp add: naming_type_def eq naming_layout)
  have "is_cstring (nm_mUuid m)" "length (nm_mUuid m) < 37" "is_cstring (nm_mEndPointAddr m)" "length (nm_mEndPointAddr m) < 257"
    using assms by (simp_all add: naming_msg_ok_def id_ok_def naming_layout)
  with d5 show "naming_uuid (naming_bytes m) = Some (nm_mUuid m)" "naming_addr (naming_bytes m) = Some (nm_mEndPointAddr m)"
    using cstr_char_array by (simp_all add: naming_uuid_def naming_addr_def naming_layout del: append_Nil2)
qed

lemma take_naming_bytes: "naming_msg_ok m \<Longrightarrow> take sizeof_zmqNamingMsg (naming_bytes m) = naming_bytes m"
  using naming_read(1)[of m] by simp

subsection \<open>Calls that succeed\<close>

text \<open>A ZeroMQ in which options, connections and sends succeed.\<close>

definition zmq_good :: "zenv \<Rightarrow> bool" where
  "zmq_good env \<longleftrightarrow> (\<forall>z s o1. env z (Zmq_setsockopt s o1) = 0) \<and> (\<forall>z s u. env z (Zmq_connect s u) = 0) \<and>
     (\<forall>z s b. env z (Zmq_send s b) = int (length b))"

definition connect_calls :: "zmqSocket \<Rightarrow> cstring \<Rightarrow> int \<Rightarrow> int \<Rightarrow> zworld" where
  "connect_calls sk uri r hb = [Wlock_lock (mLock sk), Zmq_setsockopt (mSocket sk) (ZMQ_HEARTBEAT_IVL hb),
     Zmq_setsockopt (mSocket sk) (ZMQ_RECONNECT_IVL r), Zmq_connect (mSocket sk) uri, Wlock_unlock (mLock sk)]"

definition send_calls :: "zmqSocket \<Rightarrow> bytes \<Rightarrow> zworld" where
  "send_calls sk b = [Wlock_lock (mLock sk), Zmq_send (mSocket sk) b, Wlock_unlock (mLock sk)]"

lemma held_calls [simp]: "held l (connect_calls sk uri r hb) = 0" "held l (send_calls sk b) = 0"
  by (simp_all add: connect_calls_def send_calls_def)

lemma connect_good:
  "zmq_good env \<Longrightarrow> run_state (zmqBridgeMamaTransportImpl_connectSocket env sk uri r hb) z =
     (MAMA_STATUS_OK, z @ connect_calls sk uri r hb)"
  by (simp add: zmqBridgeMamaTransportImpl_connectSocket_def zmq_good_def connect_calls_def)

abbreviation announcement :: "host_env \<Rightarrow> byte \<Rightarrow> ('t, 'u, 'p, 'l) oz_proc \<Rightarrow> bytes" where
  "announcement h c w \<equiv> naming_bytes (own_msg h c (mUuid (tport w)) (mPubEndpoint (tport w)))"

definition naming_ok :: "('t, 'p, 'l) mama_lib \<Rightarrow> host_env \<Rightarrow> ('t, 'u, 'p, 'l) oz_proc \<Rightarrow> bool" where
  "naming_ok L h w \<longleftrightarrow> wmStrSizeCpy_ok (wmStrSizeCpy L) \<and> host_ok h \<and> id_ok (mUuid (tport w)) (mPubEndpoint (tport w))"

lemma sendEndpoints_eq:
  assumes "naming_ok L h w"
  shows "zmqBridgeMamaTransportImpl_sendEndpointsMsg L h env c w =
     Some (if env (zcalls w @ [Wlock_lock (mLock (mZmqNamingPub (tport w)))])
              (Zmq_send (mSocket (mZmqNamingPub (tport w))) (announcement h c w)) = int sizeof_zmqNamingMsg
           then MAMA_STATUS_OK else MAMA_STATUS_PLATFORM,
       w\<lparr>zcalls := zcalls w @ send_calls (mZmqNamingPub (tport w)) (announcement h c w)\<rparr>)"
  using assms by (simp add: zmqBridgeMamaTransportImpl_sendEndpointsMsg_def naming_ok_def endpoints_msg_eq zrun_def send_calls_def)

lemma sendEndpoints_good:
  assumes "naming_ok L h w" "zmq_good env"
  shows "zmqBridgeMamaTransportImpl_sendEndpointsMsg L h env c w =
     Some (MAMA_STATUS_OK, w\<lparr>zcalls := zcalls w @ send_calls (mZmqNamingPub (tport w)) (announcement h c w)\<rparr>)"
proof -
  have "length (announcement h c w) = sizeof_zmqNamingMsg"
    using assms(1) by (intro naming_read own_msg_ok) (simp_all add: naming_ok_def)
  with assms show ?thesis by (simp add: sendEndpoints_eq zmq_good_def)
qed

subsection \<open>The handler\<close>

lemma connect_cases:
  "\<exists>st z'. run_state (zmqBridgeMamaTransportImpl_connectSocket env sk uri r hb) z = (st, z') \<and>
     (st = MAMA_STATUS_OK \<longrightarrow> z' = z @ connect_calls sk uri r hb) \<and> (st = MAMA_STATUS_OK \<or> st = MAMA_STATUS_PLATFORM) \<and>
     (\<forall>l. held l z' = held l z)"
  by (simp add: zmqBridgeMamaTransportImpl_connectSocket_def connect_calls_def)

text \<open>The state after a message that changes nothing but the counter and the flag, and after one from a new peer.\<close>

definition saw_peer :: "zmqNamingMsg \<Rightarrow> ('t, 'u, 'p, 'l) zmqTransportBridge \<Rightarrow> ('t, 'u, 'p, 'l) zmqTransportBridge" where
  "saw_peer m t = t\<lparr>mNamingMessages := mNamingMessages t + 1,
     mNamingConnected := if nm_mUuid m = mUuid t then 1 else mNamingConnected t\<rparr>"

definition met_peer ::
  "'u peer_lib \<Rightarrow> host_env \<Rightarrow> zmqNamingMsg \<Rightarrow> ('t, 'u, 'p, 'l) oz_proc \<Rightarrow> ('t, 'u, 'p, 'l) oz_proc" where
  "met_peer P h m w = w\<lparr>tport := (saw_peer m (tport w))\<lparr>mPeers := peers_insert P (mPeers (tport w)) (nm_mUuid m) (naming_bytes m)\<rparr>,
     zcalls := zcalls w @ connect_calls (mZmqDataSub (tport w)) (nm_mEndPointAddr m) (mReconnectInterval (tport w)) (mHeartbeatInterval (tport w)) @
       send_calls (mZmqNamingPub (tport w)) (announcement h (CHR ''C'') w)\<rparr>"

lemma dispatch_known_peer:
  assumes "naming_msg_ok m" "nm_mType m = CHR ''C'' \<or> nm_mType m = CHR ''c''"
    and "peers_lookup P (mPeers (tport w)) (nm_mUuid m) \<noteq> None"
  shows "zmqBridgeMamaTransportImpl_dispatchNamingMsg L P h env mem (naming_bytes m) w =
     Some (MAMA_STATUS_OK, upd_tport (saw_peer m) w)"
  using assms by (auto simp: zmqBridgeMamaTransportImpl_dispatchNamingMsg_def naming_read[OF assms(1)] Let_def saw_peer_def)

lemma sendEndpoints_cases:
  assumes "naming_ok L h w"
  shows "\<exists>st. zmqBridgeMamaTransportImpl_sendEndpointsMsg L h env c w =
     Some (st, w\<lparr>zcalls := zcalls w @ send_calls (mZmqNamingPub (tport w)) (announcement h c w)\<rparr>) \<and>
     (st = MAMA_STATUS_OK \<or> st = MAMA_STATUS_PLATFORM)"
  using sendEndpoints_eq[OF assms, of env c] by (cases "env (zcalls w @ [Wlock_lock (mLock (mZmqNamingPub (tport w)))])
              (Zmq_send (mSocket (mZmqNamingPub (tport w))) (announcement h c w)) = int sizeof_zmqNamingMsg") auto

lemma dispatch_new_peer:
  assumes n: "naming_ok L h w" and m: "naming_msg_ok m" and t: "nm_mType m = CHR ''C'' \<or> nm_mType m = CHR ''c''"
    and new: "peers_lookup P (mPeers (tport w)) (nm_mUuid m) = None"
  shows "\<exists>st w'. zmqBridgeMamaTransportImpl_dispatchNamingMsg L P h env mem (naming_bytes m) w = Some (st, w') \<and>
     (if st = MAMA_STATUS_OK then w' = met_peer P h m w
      else st \<in> {MAMA_STATUS_PLATFORM, MAMA_STATUS_NOMEM} \<and>
        w' = w\<lparr>tport := (tport w)\<lparr>mNamingMessages := mNamingMessages (tport w) + 1\<rparr>, zcalls := zcalls w'\<rparr>) \<and>
     (\<forall>l. held l (zcalls w') = held l (zcalls w))"
proof -
  let ?w = "upd_tport (\<lambda>t. t\<lparr>mNamingMessages := mNamingMessages t + 1\<rparr>) w"
  let ?ds = "mZmqDataSub (tport w)" and ?r = "mReconnectInterval (tport w)" and ?hb = "mHeartbeatInterval (tport w)"
  from connect_cases[of env ?ds "nm_mEndPointAddr m" ?r ?hb "zcalls w"] obtain st1 z1 where
    c: "run_state (zmqBridgeMamaTransportImpl_connectSocket env ?ds (nm_mEndPointAddr m) ?r ?hb) (zcalls w) = (st1, z1)"
      "st1 = MAMA_STATUS_OK \<longrightarrow> z1 = zcalls w @ connect_calls ?ds (nm_mEndPointAddr m) ?r ?hb"
      "st1 = MAMA_STATUS_OK \<or> st1 = MAMA_STATUS_PLATFORM" "\<forall>l. held l z1 = held l (zcalls w)" by blast
  have n1: "naming_ok L h (?w\<lparr>zcalls := z1\<rparr>)" using n by (simp add: naming_ok_def)
  from sendEndpoints_cases[OF n1, of env "CHR ''C''"] obtain st2 where
    s: "zmqBridgeMamaTransportImpl_sendEndpointsMsg L h env (CHR ''C'') (?w\<lparr>zcalls := z1\<rparr>) =
       Some (st2, ?w\<lparr>zcalls := z1 @ send_calls (mZmqNamingPub (tport w)) (announcement h (CHR ''C'') w)\<rparr>)"
      "st2 = MAMA_STATUS_OK \<or> st2 = MAMA_STATUS_PLATFORM" by auto
  have hs: "held l (send_calls (mZmqNamingPub (tport w)) (announcement h (CHR ''C'') w)) = 0" for l by (simp add: send_calls_def)
  note rd = naming_read[OF m] take_naming_bytes[OF m]
  let ?w1 = "?w\<lparr>zcalls := z1\<rparr>"
  let ?w2 = "?w\<lparr>zcalls := z1 @ send_calls (mZmqNamingPub (tport w)) (announcement h (CHR ''C'') w)\<rparr>"
  have eq: "zmqBridgeMamaTransportImpl_dispatchNamingMsg L P h env mem (naming_bytes m) w =
      Some (if st1 \<noteq> MAMA_STATUS_OK then (st1, ?w1) else if st2 \<noteq> MAMA_STATUS_OK then (st2, ?w2)
            else if \<not> mem then (MAMA_STATUS_NOMEM, ?w2) else (MAMA_STATUS_OK, met_peer P h m w))"
    using t c(2) c(1) s(1) new
    by (auto simp: zmqBridgeMamaTransportImpl_dispatchNamingMsg_def naming_new_peer_def rd zrun_def Let_def met_peer_def saw_peer_def)
  have met: "held l (zcalls (met_peer P h m w)) = held l (zcalls w)" for l
    by (simp add: met_peer_def connect_calls_def send_calls_def)
  show ?thesis unfolding eq using c(3,4) s(2) by (simp add: hs met) blast
qed

lemma dispatch_new_peer_good:
  assumes "naming_ok L h w" "naming_msg_ok m" "nm_mType m = CHR ''C'' \<or> nm_mType m = CHR ''c''"
    and "peers_lookup P (mPeers (tport w)) (nm_mUuid m) = None" "zmq_good env"
  shows "zmqBridgeMamaTransportImpl_dispatchNamingMsg L P h env True (naming_bytes m) w = Some (MAMA_STATUS_OK, met_peer P h m w)"
proof -
  let ?w = "upd_tport (\<lambda>t. t\<lparr>mNamingMessages := mNamingMessages t + 1\<rparr>) w"
  have n1: "naming_ok L h (?w\<lparr>zcalls := z\<rparr>)" for z using assms(1) by (simp add: naming_ok_def)
  show ?thesis
    using assms(3,4) sendEndpoints_good[OF n1 assms(5), of "CHR ''C''"] connect_good[OF assms(5)]
    by (auto simp: zmqBridgeMamaTransportImpl_dispatchNamingMsg_def naming_new_peer_def naming_read[OF assms(2)]
      take_naming_bytes[OF assms(2)] zrun_def Let_def met_peer_def saw_peer_def)
qed

lemma dispatch_disconnect:
  assumes "naming_msg_ok m" "nm_mType m = CHR ''D''"
  shows "zmqBridgeMamaTransportImpl_dispatchNamingMsg L P h env mem (naming_bytes m) w =
     Some (MAMA_STATUS_OK, w\<lparr>tport := (tport w)\<lparr>mNamingMessages := mNamingMessages (tport w) + 1,
       mPeers := snd (peers_remove P (mPeers (tport w)) (nm_mUuid m))\<rparr>, zcalls := zcalls w @
         [Wlock_lock (mLock (mZmqDataSub (tport w))), Zmq_disconnect (mSocket (mZmqDataSub (tport w))) (nm_mEndPointAddr m),
          Wlock_unlock (mLock (mZmqDataSub (tport w))), Wlock_lock (mLock (mZmqDataPub (tport w))),
          Zmq_get_events (mSocket (mZmqDataPub (tport w))), Wlock_unlock (mLock (mZmqDataPub (tport w)))]\<rparr>)"
  using assms
  by (simp add: zmqBridgeMamaTransportImpl_dispatchNamingMsg_def naming_read[OF assms(1)] zrun_def Let_def
    zmqBridgeMamaTransportImpl_disconnectSocket_def wlock_lock_def wlock_unlock_def)

lemma dispatch_welcome:
  assumes "naming_msg_ok m" "nm_mType m = CHR ''W''"
  shows "\<exists>st w'. zmqBridgeMamaTransportImpl_dispatchNamingMsg L P h env mem (naming_bytes m) w = Some (st, w') \<and>
     w' = w\<lparr>tport := (tport w)\<lparr>mNamingMessages := mNamingMessages (tport w) + 1\<rparr>, zcalls := zcalls w'\<rparr> \<and>
     (st = MAMA_STATUS_OK \<longrightarrow> zcalls w' = zcalls w @ connect_calls (mZmqNamingPub (tport w)) (nm_mEndPointAddr m)
        (mReconnectInterval (tport w)) (mHeartbeatInterval (tport w)) @ [Wthread_create PublishThread]) \<and>
     (\<forall>l. held l (zcalls w') = held l (zcalls w))"
proof -
  let ?np = "mZmqNamingPub (tport w)"
  from connect_cases[of env ?np "nm_mEndPointAddr m" "mReconnectInterval (tport w)" "mHeartbeatInterval (tport w)" "zcalls w"]
  obtain st z where c: "run_state (zmqBridgeMamaTransportImpl_connectSocket env ?np (nm_mEndPointAddr m) (mReconnectInterval (tport w))
       (mHeartbeatInterval (tport w))) (zcalls w) = (st, z)" "\<forall>l. held l z = held l (zcalls w)"
    "st = MAMA_STATUS_OK \<longrightarrow> z = zcalls w @ connect_calls ?np (nm_mEndPointAddr m) (mReconnectInterval (tport w)) (mHeartbeatInterval (tport w))"
    by blast
  then show ?thesis using assms
    by (simp add: zmqBridgeMamaTransportImpl_dispatchNamingMsg_def naming_read[OF assms(1)] zrun_def Let_def)
qed

subsection \<open>The publish thread\<close>

definition announces :: "zmqSocket \<Rightarrow> bytes \<Rightarrow> zworld \<Rightarrow> nat" where
  "announces sk b z = length (filter (\<lambda>c. c = Zmq_send (mSocket sk) b) z)"

lemma announces_simps [simp]:
  "announces sk b [] = 0" "announces sk b (z @ z') = announces sk b z + announces sk b z'"
  "announces sk b (send_calls sk b) = 1" "announces sk b [Usleep n] = 0"
  by (simp_all add: announces_def send_calls_def)

text \<open>
  What the loop relies on while other threads run: they do not change the identity of the
  transport. The history records the calls of the publish thread only.
\<close>

definition same_identity :: "('t, 'u, 'p, 'l) oz_proc \<Rightarrow> ('t, 'u, 'p, 'l) oz_proc \<Rightarrow> bool" where
  "same_identity w w' \<longleftrightarrow> mUuid (tport w') = mUuid (tport w) \<and> mPubEndpoint (tport w') = mPubEndpoint (tport w) \<and>
     mZmqNamingPub (tport w') = mZmqNamingPub (tport w) \<and> zcalls w' = zcalls w"

lemma publish_loop_ok:
  assumes "naming_ok L h w" "\<And>n w. same_identity w (echo n w)" "\<And>n w. same_identity w (idle n w)"
  shows "\<exists>w'. publish_loop L h env echo idle retries w = Some w' \<and>
     (\<exists>k \<le> nat (retries - 1).
        announces (mZmqNamingPub (tport w)) (announcement h (CHR ''C'') w) (zcalls w') =
          announces (mZmqNamingPub (tport w)) (announcement h (CHR ''C'') w) (zcalls w) + k \<and>
        (k = nat (retries - 1) \<or> mNamingConnected (tport w') = 1 \<or> t_mIsDispatching (tport w') \<noteq> 1))"
  using assms(1)
proof (induction "nat retries" arbitrary: retries w rule: less_induct)
  case less
  show ?case
  proof (cases "0 < retries - 1 \<and> t_mIsDispatching (tport w) = 1")
    case False
    then have "publish_loop L h env echo idle retries w = Some w" by (subst publish_loop.simps) auto
    with False show ?thesis by (intro exI[of _ w] conjI exI[of _ 0]) auto
  next
    case True
    let ?pub = "mZmqNamingPub (tport w)" and ?msg = "announcement h (CHR ''C'') w"
    let ?w1 = "echo (retries - 1) (w\<lparr>zcalls := zcalls w @ send_calls ?pub ?msg\<rparr>)"
    let ?w2 = "snd (zrun (zdo env (Usleep (mNamingConnectInterval (tport ?w1)))) ?w1)"
    let ?w3 = "idle (retries - 1) ?w2"
    from sendEndpoints_cases[OF less.prems, of env "CHR ''C''"] obtain st where
      s: "zmqBridgeMamaTransportImpl_sendEndpointsMsg L h env (CHR ''C'') w = Some (st, w\<lparr>zcalls := zcalls w @ send_calls ?pub ?msg\<rparr>)"
      by blast
    have i1: "mUuid (tport ?w1) = mUuid (tport w)" "mPubEndpoint (tport ?w1) = mPubEndpoint (tport w)"
        "mZmqNamingPub (tport ?w1) = ?pub" "zcalls ?w1 = zcalls w @ send_calls ?pub ?msg"
      using assms(2)[of "w\<lparr>zcalls := zcalls w @ send_calls ?pub ?msg\<rparr>" "retries - 1"] by (simp_all add: same_identity_def)
    have i3: "mUuid (tport ?w3) = mUuid (tport w)" "mPubEndpoint (tport ?w3) = mPubEndpoint (tport w)"
        "mZmqNamingPub (tport ?w3) = ?pub"
        "zcalls ?w3 = zcalls w @ send_calls ?pub ?msg @ [Usleep (mNamingConnectInterval (tport ?w1))]"
      using assms(3)[of ?w2 "retries - 1"] i1 by (simp_all add: same_identity_def)
    have loop: "publish_loop L h env echo idle retries w =
        (if mNamingConnected (tport ?w1) = 1 then Some ?w1 else publish_loop L h env echo idle (retries - 1) ?w3)"
      using True s by (subst publish_loop.simps) (simp add: Let_def case_prod_unfold)
    show ?thesis
    proof (cases "mNamingConnected (tport ?w1) = 1")
      case c: True
      with loop True i1 show ?thesis by (intro exI[of _ ?w1] conjI exI[of _ 1]) auto
    next
      case False
      have n3: "naming_ok L h ?w3" using less.prems i3 by (simp add: naming_ok_def)
      from less.hyps[OF _ n3, of "retries - 1"] True obtain w' k where
        r: "publish_loop L h env echo idle (retries - 1) ?w3 = Some w'" "k \<le> nat (retries - 2)"
          "announces ?pub ?msg (zcalls w') = announces ?pub ?msg (zcalls w) + 1 + k"
          "k = nat (retries - 2) \<or> mNamingConnected (tport w') = 1 \<or> t_mIsDispatching (tport w') \<noteq> 1"
        by (auto simp: i3)
      from True r(2) have "Suc k \<le> nat (retries - 1)" by linarith
      moreover from True r(4) have "Suc k = nat (retries - 1) \<or> mNamingConnected (tport w') = 1 \<or> t_mIsDispatching (tport w') \<noteq> 1"
        by linarith
      ultimately show ?thesis using loop False r(1,3) by (intro exI[of _ w'] conjI exI[of _ "Suc k"]) auto
    qed
  qed
qed

subsection \<open>Properties\<close>

text \<open>Concrete peers and hosts for the witnesses.\<close>

definition demo_peers :: "(cstring \<times> bytes) list peer_lib" where
  "demo_peers = \<lparr>peers_lookup = map_of, peers_insert = (\<lambda>t k m. (k, m) # t),
     peers_remove = (\<lambda>t k. (map_of t k, filter (\<lambda>(k', _). k' \<noteq> k) t))\<rparr>"

definition demo_host :: host_env where
  "demo_host = \<lparr>he_prog = ''pub'', he_host = ''box'' @ [NUL], he_pid = 4242\<rparr>"

definition demo_peer_uuid :: cstring where
  "demo_peer_uuid = ''3669840e-d043-11ea-adc2-fcaa146e6b02''"

definition demo_peer :: zmqNamingMsg where
  "demo_peer = own_msg demo_host (CHR ''C'') demo_peer_uuid ''tcp://127.0.0.1:5001''"

lemma demo_peers_ok: "peers_ok demo_peers"
  by (simp add: peers_ok_def demo_peers_def map_of_remove)

lemma demo_naming_ok: "naming_ok demo_lib demo_host demo_proc" "naming_msg_ok demo_peer"
  using demo_lib_ok
  by (simp_all add: naming_ok_def lib_ok_def host_ok_def id_ok_def demo_peer_def naming_msg_ok_def own_msg_def demo_host_def
    demo_proc_def demo_tport_def demo_uuid_def demo_peer_uuid_def ZMQ_NAMING_PREFIX_def naming_layout)

text \<open>
  C26. The announcement of a transport can be read by its peers: for every well-formed identity it
  is 882 bytes long and starts with the topic that the naming sockets subscribe to, and the type,
  the identifier and the endpoint that the handler reads from it are those of the sender.
\<close>

theorem naming_roundtrip:
  assumes "naming_ok L h w"
  shows "\<exists>st msg. zmqBridgeMamaTransportImpl_sendEndpointsMsg L h env c w =
       Some (st, w\<lparr>zcalls := zcalls w @ send_calls (mZmqNamingPub (tport w)) msg\<rparr>) \<and>
     length msg = 882 \<and> take 8 msg = ZMQ_NAMING_PREFIX @ [NUL] \<and>
     naming_type msg = Some c \<and> naming_uuid msg = Some (mUuid (tport w)) \<and> naming_addr msg = Some (mPubEndpoint (tport w))"
proof -
  have ok: "naming_msg_ok (own_msg h c (mUuid (tport w)) (mPubEndpoint (tport w)))"
    using assms by (intro own_msg_ok) (simp_all add: naming_ok_def)
  have "take 8 (announcement h c w) = ZMQ_NAMING_PREFIX @ [NUL]"
    by (simp add: naming_bytes_def own_msg_def ZMQ_NAMING_PREFIX_def char_array_def naming_layout)
  with naming_read[OF ok] sendEndpoints_eq[OF assms, of env c] show ?thesis
    by (auto simp: own_msg_def naming_layout)
qed

theorem naming_roundtrip_witness:
  "\<exists>st msg. zmqBridgeMamaTransportImpl_sendEndpointsMsg demo_lib demo_host demo_env (CHR ''C'') demo_proc =
       Some (st, demo_proc\<lparr>zcalls := send_calls (demo_socket 3) msg\<rparr>) \<and>
     naming_type msg = Some (CHR ''C'') \<and> naming_uuid msg = Some demo_uuid"
  using naming_roundtrip[OF demo_naming_ok(1), of demo_env "CHR ''C''"]
  by (fastforce simp: demo_proc_def demo_tport_def)

text \<open>
  C17. What a transport does with a naming message. A connect or beacon message from a known peer
  changes no connection and is not answered. One from a new peer is answered, after a
  connection to its endpoint, with the own announcement, and the peer is then remembered; if
  ZeroMQ or the allocation fails it is not remembered, so the next beacon tries again. A
  disconnect message removes the peer and disconnects from its endpoint. The own message sets the
  connected flag. Locks are released on every path.
\<close>

theorem naming_handler:
  assumes "naming_ok L h w" "naming_msg_ok m" "peers_ok P" "nm_mType m \<in> {CHR ''C'', CHR ''c'', CHR ''D''}"
  shows "\<exists>st w'. zmqBridgeMamaTransportImpl_dispatchNamingMsg L P h env mem (naming_bytes m) w = Some (st, w') \<and>
     (let peers = peers_lookup P (mPeers (tport w)); peers' = peers_lookup P (mPeers (tport w')); u = nm_mUuid m; a = nm_mEndPointAddr m;
          ds = mZmqDataSub (tport w); dp = mZmqDataPub (tport w)
      in (if nm_mType m = CHR ''D''
          then st = MAMA_STATUS_OK \<and> peers' = peers(u := None) \<and> mNamingConnected (tport w') = mNamingConnected (tport w) \<and>
            zcalls w' = zcalls w @ [Wlock_lock (mLock ds), Zmq_disconnect (mSocket ds) a, Wlock_unlock (mLock ds),
              Wlock_lock (mLock dp), Zmq_get_events (mSocket dp), Wlock_unlock (mLock dp)]
          else if u \<in> dom peers
          then st = MAMA_STATUS_OK \<and> peers' = peers \<and> zcalls w' = zcalls w \<and>
            mNamingConnected (tport w') = (if u = mUuid (tport w) then 1 else mNamingConnected (tport w))
          else if st = MAMA_STATUS_OK
          then peers' = peers(u \<mapsto> naming_bytes m) \<and>
            mNamingConnected (tport w') = (if u = mUuid (tport w) then 1 else mNamingConnected (tport w)) \<and>
            zcalls w' = zcalls w @ connect_calls ds a (mReconnectInterval (tport w)) (mHeartbeatInterval (tport w)) @
              send_calls (mZmqNamingPub (tport w)) (announcement h (CHR ''C'') w)
          else peers' = peers \<and> mNamingConnected (tport w') = mNamingConnected (tport w)) \<and>
        (zmq_good env \<and> mem \<longrightarrow> st = MAMA_STATUS_OK) \<and> (\<forall>l. held l (zcalls w') = held l (zcalls w)))"
proof (cases "nm_mType m = CHR ''D''")
  case True
  have "peers_lookup P (snd (peers_remove P (mPeers (tport w)) (nm_mUuid m))) = (peers_lookup P (mPeers (tport w)))(nm_mUuid m := None)"
    using assms(3) by (simp add: peers_ok_def)
  with True dispatch_disconnect[OF assms(2) True, of L P h env mem w] show ?thesis by simp
next
  case False
  with assms(4) have t: "nm_mType m = CHR ''C'' \<or> nm_mType m = CHR ''c''" by simp
  show ?thesis
  proof (cases "peers_lookup P (mPeers (tport w)) (nm_mUuid m)")
    case None
    have ins: "peers_lookup P (peers_insert P (mPeers (tport w)) (nm_mUuid m) (naming_bytes m)) =
        (peers_lookup P (mPeers (tport w)))(nm_mUuid m \<mapsto> naming_bytes m)"
      using assms(3) None by (simp add: peers_ok_def)
    from dispatch_new_peer[OF assms(1,2) t None, of env mem] obtain st w' where
      d: "zmqBridgeMamaTransportImpl_dispatchNamingMsg L P h env mem (naming_bytes m) w = Some (st, w')"
        "if st = MAMA_STATUS_OK then w' = met_peer P h m w
         else st \<in> {MAMA_STATUS_PLATFORM, MAMA_STATUS_NOMEM} \<and>
           w' = w\<lparr>tport := (tport w)\<lparr>mNamingMessages := mNamingMessages (tport w) + 1\<rparr>, zcalls := zcalls w'\<rparr>"
        "\<forall>l. held l (zcalls w') = held l (zcalls w)" by blast
    have g: "zmq_good env \<and> mem \<longrightarrow> st = MAMA_STATUS_OK"
      using dispatch_new_peer_good[OF assms(1,2) t None, of env] d(1) by auto
    have f: "st \<noteq> MAMA_STATUS_OK \<Longrightarrow> mPeers (tport w') = mPeers (tport w) \<and> mNamingConnected (tport w') = mNamingConnected (tport w)"
    proof -
      assume "st \<noteq> MAMA_STATUS_OK"
      with d(2) have "tport w' = (tport w)\<lparr>mNamingMessages := mNamingMessages (tport w) + 1\<rparr>"
        by (metis oz_proc.select_convs(1) oz_proc.surjective oz_proc.update_convs(1,7))
      then show ?thesis by simp
    qed
    show ?thesis
      using False None d g f ins by (cases "st = MAMA_STATUS_OK") (simp_all add: domIff Let_def met_peer_def saw_peer_def)
  next
    case (Some b)
    with dispatch_known_peer[OF assms(2) t, of P w L h env mem] False show ?thesis by (simp add: domI saw_peer_def)
  qed
qed

lemma demo_env_good: "zmq_good demo_env"
  by (simp add: zmq_good_def demo_env_def)

theorem naming_handler_witness:
  "\<exists>w'. zmqBridgeMamaTransportImpl_dispatchNamingMsg demo_lib demo_peers demo_host demo_env True (naming_bytes demo_peer) demo_proc =
     Some (MAMA_STATUS_OK, w') \<and> map_of (mPeers (tport w')) demo_peer_uuid = Some (naming_bytes demo_peer)"
  using naming_handler[OF demo_naming_ok demo_peers_ok, of demo_env True] demo_env_good
  by (fastforce simp: demo_peer_def own_msg_def demo_peers_def demo_proc_def demo_tport_def Let_def)

text \<open>
  C27. The publish thread always ends. It sends at most \<open>mNamingConnectRetries - 1\<close> announcements,
  one less than the number of attempts that the parameter names, and it sends fewer only when
  its own message has come back or the transport is shutting down.
\<close>

theorem publish_thread_bounded:
  assumes "naming_ok L h w" "\<forall>n w. same_identity w (echo n w)" "\<forall>n w. same_identity w (idle n w)" "zcalls w = []"
  shows "\<exists>w'. zmqBridgeMamaTransportImpl_publishEndpoints L h env echo idle w = Some w' \<and>
     (let sent = announces (mZmqNamingPub (tport w)) (announcement h (CHR ''C'') w) (zcalls w');
          most = nat (mNamingConnectRetries (tport w) - 1)
      in sent \<le> most \<and> (sent = most \<or> mNamingConnected (tport w') = 1 \<or> t_mIsDispatching (tport w') \<noteq> 1))"
proof -
  let ?w = "upd_tport (\<lambda>t. t\<lparr>mNamingConnected := 0\<rparr>) w"
  have "naming_ok L h ?w" using assms(1) by (simp add: naming_ok_def)
  from publish_loop_ok[OF this, of echo idle env "mNamingConnectRetries (tport w)"] assms(2-4) show ?thesis
    by (auto simp: zmqBridgeMamaTransportImpl_publishEndpoints_def Let_def)
qed

theorem publish_thread_bounded_witness:
  "\<exists>w'. zmqBridgeMamaTransportImpl_publishEndpoints demo_lib demo_host demo_env
       (\<lambda>n w. if n = 97 then upd_tport (\<lambda>t. t\<lparr>mNamingConnected := 1\<rparr>) w else w) (\<lambda>n w. w) demo_proc = Some w' \<and>
     announces (demo_socket 3) (announcement demo_host (CHR ''C'') demo_proc) (zcalls w') \<le> 99"
proof -
  have "\<forall>n w. same_identity w ((\<lambda>n w. if n = (97 :: int) then upd_tport (\<lambda>t. t\<lparr>mNamingConnected := 1\<rparr>) w else w) n w)"
    "\<forall>n w. same_identity w ((\<lambda>(n :: int) w. w) n w)"
    by (simp_all add: same_identity_def)
  from publish_thread_bounded[OF demo_naming_ok(1) this, of demo_env] show ?thesis
    by (auto simp: demo_proc_def demo_tport_def Let_def)
qed

end
