(* ===== verification/Discovery.thy ===== *)
theory Discovery
  imports Naming_Correct
begin

text \<open>
  Transports that discover each other. Every transport publishes its naming messages through the
  naming service, which hands each of them to every transport, the sender included. This theory has
  the network, the contract of a handler under which discovery works, and the handler of the bridge
  as an instance of the contract.
\<close>

subsection \<open>Networks\<close>

text \<open>
  A node is a state and the queue of messages that it has not handled yet; a step handles the
  first message of some node and hands what the node publishes to all nodes.
\<close>

type_synonym ('s, 'm) net = "('s \<times> 'm list) list"

definition broadcast :: "'m list \<Rightarrow> ('s, 'm) net \<Rightarrow> ('s, 'm) net" where
  "broadcast out net = map (\<lambda>(s, q). (s, q @ out)) net"

inductive net_step :: "('m \<Rightarrow> 's \<Rightarrow> ('s \<times> 'm list) option) \<Rightarrow> ('s, 'm) net \<Rightarrow> ('s, 'm) net \<Rightarrow> bool" for handle where
  deliver: "i < length net \<Longrightarrow> net ! i = (s, m # q) \<Longrightarrow> handle m s = Some (s', out) \<Longrightarrow>
     net_step handle net (broadcast out (net[i := (s', q)]))"

inductive_cases net_stepE: "net_step handle net net'"

lemma length_broadcast [simp]: "length (broadcast out net) = length net"
  by (simp add: broadcast_def)

lemma broadcast_nth [simp]: "i < length net \<Longrightarrow> broadcast out net ! i = (fst (net ! i), snd (net ! i) @ out)"
  by (simp add: broadcast_def case_prod_unfold)

subsection \<open>The contract of a handler\<close>

text \<open>
  A message names its sender. From a sender that is known already nothing follows; a new one
  becomes known, and the node publishes one message of its own.
\<close>

locale discovery =
  fixes handle :: "'m \<Rightarrow> 's \<Rightarrow> ('s \<times> 'm list) option"
    and known :: "'s \<Rightarrow> 'id set" and own :: "'s \<Rightarrow> 'id" and sender :: "'m \<Rightarrow> 'id"
    and good :: "'s \<Rightarrow> bool" and msg_good :: "'m \<Rightarrow> bool"
  assumes handle_known: "good s \<Longrightarrow> msg_good m \<Longrightarrow> sender m \<in> known s \<Longrightarrow>
      \<exists>s'. handle m s = Some (s', []) \<and> known s' = known s \<and> own s' = own s \<and> good s'"
    and handle_new: "good s \<Longrightarrow> msg_good m \<Longrightarrow> sender m \<notin> known s \<Longrightarrow>
      \<exists>s' b. handle m s = Some (s', [b]) \<and> known s' = insert (sender m) (known s) \<and> own s' = own s \<and> good s' \<and>
        sender b = own s \<and> msg_good b"
begin

text \<open>All identifiers of a network, and a network in order.\<close>

definition ids :: "('s, 'm) net \<Rightarrow> 'id set" where
  "ids net = own ` fst ` set net"

definition net_ok :: "('s, 'm) net \<Rightarrow> bool" where
  "net_ok net \<longleftrightarrow> (\<forall>i < length net. good (fst (net ! i)) \<and> known (fst (net ! i)) \<subseteq> ids net \<and>
     (\<forall>m \<in> set (snd (net ! i)). msg_good m \<and> sender m \<in> ids net))"

text \<open>What is left to do: unknown pairs, each of which costs one message per node, and queued messages.\<close>

definition todo :: "('s, 'm) net \<Rightarrow> nat" where
  "todo net = length net * (\<Sum>i<length net. card (ids net - known (fst (net ! i)))) + (\<Sum>i<length net. length (snd (net ! i)))"

text \<open>Everyone knows \<open>k\<close> or is about to.\<close>

definition heard :: "'id \<Rightarrow> ('s, 'm) net \<Rightarrow> bool" where
  "heard k net \<longleftrightarrow> (\<forall>i < length net. k \<in> known (fst (net ! i)) \<or> k \<in> sender ` set (snd (net ! i)))"

text \<open>Whoever has met \<open>k\<close> has announced itself since.\<close>

definition answered :: "'id \<Rightarrow> ('s, 'm) net \<Rightarrow> bool" where
  "answered k net \<longleftrightarrow> (\<forall>i < length net. k \<in> known (fst (net ! i)) \<longrightarrow> heard (own (fst (net ! i))) net)"

text \<open>The two ways in which a step changes the network.\<close>

lemma step_cases:
  assumes ok: "net_ok net" and st: "net_step handle net net'"
  obtains (old) i s m q s' where "i < length net" "net ! i = (s, m # q)" "net' = net[i := (s', q)]"
      "sender m \<in> known s" "known s' = known s" "own s' = own s" "good s'"
  | (new) i s m q s' b where "i < length net" "net ! i = (s, m # q)" "net' = broadcast [b] (net[i := (s', q)])"
      "sender m \<notin> known s" "known s' = insert (sender m) (known s)" "own s' = own s" "good s'" "sender b = own s" "msg_good b"
      "sender m \<in> ids net"
  using st
proof (cases rule: net_step.cases)
  case (deliver i s m q s' out)
  from ok deliver(2,3) have g: "good s" "msg_good m" "sender m \<in> ids net"
    unfolding net_ok_def by (metis fst_conv list.set_intros(1) snd_conv)+
  show ?thesis
  proof (cases "sender m \<in> known s")
    case True
    from handle_known[OF g(1,2) True] deliver(4) have "out = []" "known s' = known s" "own s' = own s" "good s'" by auto
    with True deliver show ?thesis by (intro old[where i = i and s = s and m = m and q = q and s' = s']) (simp_all add: broadcast_def)
  next
    case False
    from handle_new[OF g(1,2) False] deliver(4) obtain b where "out = [b]" "known s' = insert (sender m) (known s)"
      "own s' = own s" "good s'" "sender b = own s" "msg_good b" by auto
    with False deliver g(3) show ?thesis
      by (intro new[where i = i and s = s and m = m and q = q and s' = s' and b = b]) simp_all
  qed
qed

lemma ids_update: "i < length net \<Longrightarrow> own s' = own (fst (net ! i)) \<Longrightarrow> ids (net[i := (s', q)]) = ids net"
proof -
  assume i: "i < length net" and o': "own s' = own (fst (net ! i))"
  then have "map (own \<circ> fst) (net[i := (s', q)]) = map (own \<circ> fst) net"
    by (intro nth_equalityI) (auto simp: nth_list_update)
  then have "set (map (own \<circ> fst) (net[i := (s', q)])) = set (map (own \<circ> fst) net)" by (simp only:)
  then show ?thesis by (simp only: ids_def set_map image_comp)
qed

lemma ids_broadcast [simp]: "ids (broadcast out net) = ids net"
  by (force simp: ids_def broadcast_def image_iff)

lemma own_in_ids: "i < length net \<Longrightarrow> own (fst (net ! i)) \<in> ids net"
  by (simp add: ids_def)

lemma finite_ids [simp]: "finite (ids net)"
  by (simp add: ids_def)

lemma sum_update:
  fixes f :: "'s \<times> 'm list \<Rightarrow> nat"
  assumes "i < length net"
  shows "(\<Sum>j<length net. f (net[i := x] ! j)) + f (net ! i) = (\<Sum>j<length net. f (net ! j)) + f x"
proof -
  have "(\<Sum>j<length net. f (net[i := x] ! j)) = f x + (\<Sum>j\<in>{..<length net} - {i}. f (net ! j))"
    using assms by (subst sum.remove[of _ i]) (auto intro!: sum.cong simp: nth_list_update)
  moreover have "(\<Sum>j<length net. f (net ! j)) = f (net ! i) + (\<Sum>j\<in>{..<length net} - {i}. f (net ! j))"
    using assms by (subst sum.remove[of _ i]) auto
  ultimately show ?thesis by simp
qed

lemma net_okD:
  "net_ok net \<Longrightarrow> j < length net \<Longrightarrow>
   good (fst (net ! j)) \<and> known (fst (net ! j)) \<subseteq> ids net \<and> (\<forall>m \<in> set (snd (net ! j)). msg_good m \<and> sender m \<in> ids net)"
  by (simp add: net_ok_def)

lemma net_ok_step:
  assumes ok: "net_ok net" and st: "net_step handle net net'"
  shows "net_ok net' \<and> length net' = length net \<and> ids net' = ids net"
  using ok st
proof (cases rule: step_cases)
  case (old i s m q s')
  have ids: "ids net' = ids net" using old ids_update[of i net s' q] by simp
  have "good (fst (net' ! j)) \<and> known (fst (net' ! j)) \<subseteq> ids net' \<and> (\<forall>m \<in> set (snd (net' ! j)). msg_good m \<and> sender m \<in> ids net')"
    if "j < length net" for j using net_okD[OF ok that] that old ids by (cases "j = i") auto
  then show ?thesis using old ids by (simp add: net_ok_def)
next
  case (new i s m q s' b)
  have "ids (net[i := (s', q)]) = ids net" using new ids_update[of i net s' q] by simp
  then have ids: "ids net' = ids net" using new(3) by simp
  have own: "own s \<in> ids net" using own_in_ids[OF new(1)] new(2) by simp
  have "good (fst (net' ! j)) \<and> known (fst (net' ! j)) \<subseteq> ids net' \<and> (\<forall>m \<in> set (snd (net' ! j)). msg_good m \<and> sender m \<in> ids net')"
    if "j < length net" for j using net_okD[OF ok that] that new ids own by (cases "j = i") auto
  then show ?thesis using new ids by (simp add: net_ok_def)
qed

lemma todo_step:
  assumes ok: "net_ok net" and st: "net_step handle net net'"
  shows "todo net = Suc (todo net')"
  using ok st
proof (cases rule: step_cases)
  case (old i s m q s')
  then show ?thesis using sum_update[OF old(1), of "\<lambda>x. card (ids net - known (fst x))" "(s', q)"]
      sum_update[OF old(1), of "\<lambda>x. length (snd x)" "(s', q)"] net_ok_step[OF ok st] by (simp add: todo_def)
next
  case (new i s m q s' b)
  have card: "card (ids net - known s) = Suc (card (ids net - known s'))"
  proof -
    have "ids net - known s = insert (sender m) (ids net - known s')" using new(4,5,10) by auto
    moreover have "sender m \<notin> ids net - known s'" using new(5) by simp
    ultimately show ?thesis by (metis card_insert_disjoint finite_Diff finite_ids)
  qed
  have k: "(\<Sum>j<length net. card (ids net - known (fst (net' ! j)))) + 1 = (\<Sum>j<length net. card (ids net - known (fst (net ! j))))"
    using sum_update[OF new(1), of "\<lambda>x. card (ids net - known (fst x))" "(s', q)"] new(2,3) card by simp
  have l: "(\<Sum>j<length net. length (snd (net' ! j))) + 1 = (\<Sum>j<length net. length (snd (net ! j))) + length net"
    using sum_update[OF new(1), of "\<lambda>x. length (snd x)" "(s', q)"] new(2,3) by (simp add: sum_Suc)
  show ?thesis using k l net_ok_step[OF ok st] unfolding todo_def by (simp flip: k add: algebra_simps)
qed

lemma step_ok:
  assumes "net_ok net" "net_step handle net net'"
  shows "net_ok net' \<and> length net' = length net \<and> ids net' = ids net \<and> todo net = Suc (todo net')"
  using net_ok_step[OF assms] todo_step[OF assms] by simp

lemma heard_step:
  assumes ok: "net_ok net" and st: "net_step handle net net'" and k: "heard k net"
  shows "heard k net'"
  using ok st
proof (cases rule: step_cases)
  case (old i s m q s')
  have "k \<in> known (fst (net' ! j)) \<or> k \<in> sender ` set (snd (net' ! j))" if "j < length net" for j
    using k[unfolded heard_def, rule_format, OF that] that old by (cases "j = i") auto
  then show ?thesis using old by (simp add: heard_def)
next
  case (new i s m q s' b)
  have "k \<in> known (fst (net' ! j)) \<or> k \<in> sender ` set (snd (net' ! j))" if "j < length net" for j
    using k[unfolded heard_def, rule_format, OF that] that new by (cases "j = i") auto
  then show ?thesis using new by (simp add: heard_def)
qed

lemma answered_step:
  assumes ok: "net_ok net" and st: "net_step handle net net'" and a: "answered k net"
  shows "answered k net'"
  using ok st
proof (cases rule: step_cases)
  case (old i s m q s')
  have "heard (own (fst (net' ! j))) net'" if j: "j < length net" "k \<in> known (fst (net' ! j))" for j
  proof -
    have "k \<in> known (fst (net ! j))" "own (fst (net' ! j)) = own (fst (net ! j))" using j old by (cases "j = i"; auto)+
    with a j(1) heard_step[OF ok st] show ?thesis by (auto simp: answered_def)
  qed
  then show ?thesis using old by (simp add: answered_def)
next
  case (new i s m q s' b)
  have "heard (own (fst (net' ! j))) net'" if j: "j < length net" "k \<in> known (fst (net' ! j))" for j
  proof (cases "j = i")
    case True
    with new have "own (fst (net' ! j)) = sender b" by simp
    moreover have "heard (sender b) net'" using new by (simp add: heard_def)
    ultimately show ?thesis by simp
  next
    case False
    with j new have "k \<in> known (fst (net ! j))" "own (fst (net' ! j)) = own (fst (net ! j))" by auto
    with a j(1) heard_step[OF ok st] show ?thesis by (auto simp: answered_def)
  qed
  then show ?thesis using new by (simp add: answered_def)
qed

lemma progress:
  assumes "net_ok net" "\<not> (\<exists>net'. net_step handle net net')"
  shows "\<forall>i < length net. snd (net ! i) = []"
proof (intro allI impI)
  fix i assume i: "i < length net"
  obtain s q where n: "net ! i = (s, q)" by (rule prod.exhaust)
  show "snd (net ! i) = []"
  proof (cases q)
    case (Cons m q')
    from assms(1) i n Cons have g: "good s" "msg_good m" by (auto simp: net_ok_def)
    then have "\<exists>s' out. handle m s = Some (s', out)" using handle_known handle_new by (cases "sender m \<in> known s") blast+
    with deliver[OF i n[unfolded Cons]] assms(2) show ?thesis by blast
  qed (simp add: n)
qed

lemma steps_ok:
  assumes "(net_step handle ^^ n) net net'" "net_ok net"
  shows "net_ok net' \<and> length net' = length net \<and> ids net' = ids net \<and> todo net = n + todo net' \<and>
     (\<forall>k. heard k net \<longrightarrow> heard k net') \<and> (\<forall>k. answered k net \<longrightarrow> answered k net')"
  using assms(1)
proof (induction n arbitrary: net')
  case (Suc n)
  then obtain net1 where 1: "(net_step handle ^^ n) net net1" "net_step handle net1 net'" by auto
  from Suc.IH[OF 1(1)] step_ok[of net1 net'] heard_step[of net1 net'] answered_step[of net1 net'] 1(2) show ?case by auto
qed (use assms(2) in auto)

lemma terminates: "net_ok net \<Longrightarrow> (net_step handle ^^ n) net net' \<Longrightarrow> n \<le> todo net"
  using steps_ok[of n net net'] by simp

text \<open>When nothing is left to deliver and someone has been heard by all, everybody knows everybody.\<close>

lemma converges:
  assumes ok: "net_ok net" and a: "answered k net" and k: "heard k net" and fin: "\<not> (\<exists>net'. net_step handle net net')"
    and i: "i < length net"
  shows "known (fst (net ! i)) = ids net"
proof -
  note q = progress[OF ok fin]
  have "k \<in> known (fst (net ! j))" if "j < length net" for j using k q that by (fastforce simp: heard_def)
  with a have "heard (own (fst (net ! j))) net" if "j < length net" for j using that by (simp add: answered_def)
  with q i have "own (fst (net ! j)) \<in> known (fst (net ! i))" if "j < length net" for j using that by (fastforce simp: heard_def)
  then have "ids net \<subseteq> known (fst (net ! i))"
    unfolding ids_def by (auto simp: in_set_conv_nth) (metis fst_conv)
  with ok i show ?thesis by (auto simp: net_ok_def)
qed

end

subsection \<open>The handler of the bridge\<close>

text \<open>What a history has sent on a socket.\<close>

fun sent_on :: "nat \<Rightarrow> zworld \<Rightarrow> bytes list" where
  "sent_on s [] = []"
| "sent_on s (Zmq_send s' b # z) = (if s' = s then b # sent_on s z else sent_on s z)"
| "sent_on s (_ # z) = sent_on s z"

text \<open>
  A node is a process with the host it runs on; it handles a message with
  \<open>zmqBridgeMamaTransportImpl_dispatchNamingMsg\<close> and publishes what that sends on the naming
  socket.
\<close>

type_synonym ('t, 'u, 'p, 'l) oz_node = "host_env \<times> ('t, 'u, 'p, 'l) oz_proc"

definition naming_handle ::
  "('t, 'p, 'l) mama_lib \<Rightarrow> 'u peer_lib \<Rightarrow> zenv \<Rightarrow> bytes \<Rightarrow> ('t, 'u, 'p, 'l) oz_node \<Rightarrow> (('t, 'u, 'p, 'l) oz_node \<times> bytes list) option" where
  "naming_handle L P env m = (\<lambda>(h, w). do {
     (_, w') \<leftarrow> zmqBridgeMamaTransportImpl_dispatchNamingMsg L P h env True m w;
     Some ((h, w'), sent_on (mSocket (mZmqNamingPub (tport w))) (drop (length (zcalls w)) (zcalls w')))
   })"

definition node_uuid :: "('t, 'u, 'p, 'l) oz_node \<Rightarrow> cstring" where
  "node_uuid = (\<lambda>(h, w). mUuid (tport w))"

definition node_peers :: "'u peer_lib \<Rightarrow> ('t, 'u, 'p, 'l) oz_node \<Rightarrow> cstring set" where
  "node_peers P = (\<lambda>(h, w). dom (peers_lookup P (mPeers (tport w))))"

definition msg_uuid :: "bytes \<Rightarrow> cstring" where
  "msg_uuid m = the (naming_uuid m)"

text \<open>
  \<open>ep\<close> assigns to each identifier the endpoint of that transport. A node is in order when its data
  socket has been connected to the endpoint of every peer in its table.
\<close>

definition node_ok ::
  "('t, 'p, 'l) mama_lib \<Rightarrow> 'u peer_lib \<Rightarrow> zenv \<Rightarrow> (cstring \<Rightarrow> cstring) \<Rightarrow> ('t, 'u, 'p, 'l) oz_node \<Rightarrow> bool" where
  "node_ok L P env ep = (\<lambda>(h, w). naming_ok L h w \<and> peers_ok P \<and> zmq_good env \<and> mPubEndpoint (tport w) = ep (mUuid (tport w)) \<and>
     (\<forall>u \<in> node_peers P (h, w). Zmq_connect (mSocket (mZmqDataSub (tport w))) (ep u) \<in> set (zcalls w)))"

definition connect_msg :: "(cstring \<Rightarrow> cstring) \<Rightarrow> bytes \<Rightarrow> bool" where
  "connect_msg ep m \<longleftrightarrow> (\<exists>nm. naming_msg_ok nm \<and> (nm_mType nm = CHR ''C'' \<or> nm_mType nm = CHR ''c'') \<and>
     nm_mEndPointAddr nm = ep (nm_mUuid nm) \<and> m = naming_bytes nm)"

interpretation nd: discovery "naming_handle L P env" "node_peers P" node_uuid msg_uuid "node_ok L P env ep" "connect_msg ep"
  for L :: "('t, 'p, 'l) mama_lib" and P :: "'u peer_lib" and env ep
proof unfold_locales
  fix s :: "('t, 'u, 'p, 'l) oz_node" and m
  assume g: "node_ok L P env ep s" and cm: "connect_msg ep m"
  obtain h w where s: "s = (h, w)" by (rule prod.exhaust)
  from cm obtain nm where nm: "naming_msg_ok nm" "nm_mType nm = CHR ''C'' \<or> nm_mType nm = CHR ''c''"
    "nm_mEndPointAddr nm = ep (nm_mUuid nm)" "m = naming_bytes nm" by (auto simp: connect_msg_def)
  have u: "msg_uuid m = nm_mUuid nm" using naming_read(3)[OF nm(1)] nm(4) by (simp add: msg_uuid_def)
  {
    assume "msg_uuid m \<in> node_peers P s"
    then have k: "peers_lookup P (mPeers (tport w)) (nm_mUuid nm) \<noteq> None" by (simp add: u s node_peers_def domIff)
    have "node_ok L P env ep (h, upd_tport (saw_peer nm) w)"
      using g by (auto simp: s node_ok_def saw_peer_def naming_ok_def node_peers_def)
    then show "\<exists>s'. naming_handle L P env m s = Some (s', []) \<and> node_peers P s' = node_peers P s \<and>
        node_uuid s' = node_uuid s \<and> node_ok L P env ep s'"
      using dispatch_known_peer[OF nm(1,2) k, of L h env True]
      by (intro exI[of _ "(h, upd_tport (saw_peer nm) w)"])
        (simp add: s nm(4) naming_handle_def node_peers_def node_uuid_def saw_peer_def)
  }
  {
    assume "msg_uuid m \<notin> node_peers P s"
    then have k: "peers_lookup P (mPeers (tport w)) (nm_mUuid nm) = None" by (auto simp: u s node_peers_def domIff)
    have o: "naming_ok L h w" "zmq_good env" "peers_ok P" "mPubEndpoint (tport w) = ep (mUuid (tport w))" using g by (auto simp: s node_ok_def)
    let ?b = "announcement h (CHR ''C'') w"
    have peers: "node_peers P (h, met_peer P h nm w) = insert (nm_mUuid nm) (node_peers P s)"
      using o(3) k by (simp add: node_peers_def s met_peer_def saw_peer_def peers_ok_def)
    have "naming_msg_ok (own_msg h (CHR ''C'') (mUuid (tport w)) (mPubEndpoint (tport w)))"
      using o(1) by (intro own_msg_ok) (auto simp: naming_ok_def)
    then have b: "msg_uuid ?b = node_uuid s" "connect_msg ep ?b"
      using naming_read(3) o(4) by (auto simp: msg_uuid_def node_uuid_def s connect_msg_def own_msg_def intro!: exI)
    have "node_ok L P env ep (h, met_peer P h nm w)"
      using g nm(3) peers by (auto simp: s node_ok_def met_peer_def saw_peer_def naming_ok_def connect_calls_def)
    moreover have "naming_handle L P env m s = Some ((h, met_peer P h nm w), [?b])" "node_uuid (h, met_peer P h nm w) = node_uuid s"
      using dispatch_new_peer_good[OF o(1) nm(1,2) k o(2)]
      by (simp_all add: s nm(4) naming_handle_def met_peer_def saw_peer_def connect_calls_def send_calls_def node_uuid_def)
    ultimately show "\<exists>s' b. naming_handle L P env m s = Some (s', [b]) \<and>
        node_peers P s' = insert (msg_uuid m) (node_peers P s) \<and> node_uuid s' = node_uuid s \<and> node_ok L P env ep s' \<and>
        msg_uuid b = node_uuid s \<and> connect_msg ep b"
      using peers b u by metis
  }
qed

subsection \<open>Properties\<close>

text \<open>
  A network of transports in order: the nodes are, the naming messages on their way are
  announcements of the nodes, and nobody knows anyone from outside.
\<close>

definition network_ok ::
  "('t, 'p, 'l) mama_lib \<Rightarrow> 'u peer_lib \<Rightarrow> zenv \<Rightarrow> (cstring \<Rightarrow> cstring) \<Rightarrow> (('t, 'u, 'p, 'l) oz_node, bytes) net \<Rightarrow> bool" where
  "network_ok L P env ep net \<longleftrightarrow> (\<forall>(s, q) \<in> set net. node_ok L P env ep s \<and> node_peers P s \<subseteq> node_uuid ` fst ` set net \<and>
     (\<forall>m \<in> set q. connect_msg ep m \<and> msg_uuid m \<in> node_uuid ` fst ` set net))"

lemma network_ok_eq: "network_ok L P env ep net \<longleftrightarrow> nd.net_ok P L env ep net"
  unfolding network_ok_def nd.net_ok_def nd.ids_def by (simp only: all_set_conv_all_nth[of net] case_prod_unfold)

lemma todo_bound: "nd.todo P net \<le> length net * length net * length net + sum_list (map (length \<circ> snd) net)"
proof -
  have "card (nd.ids net - node_peers P (fst (net ! i))) \<le> length net" if "i < length net" for i
  proof -
    have "card (nd.ids net) \<le> length net"
      unfolding nd.ids_def by (rule order_trans[OF card_image_le order_trans[OF card_image_le card_length]]) simp_all
    then show ?thesis using card_mono[OF nd.finite_ids Diff_subset, of net "node_peers P (fst (net ! i))"] by simp
  qed
  then have "(\<Sum>i<length net. card (nd.ids net - node_peers P (fst (net ! i)))) \<le> (\<Sum>i<length net. length net)"
    by (intro sum_mono) simp
  moreover have "(\<Sum>i<length net. length (snd (net ! i))) = sum_list (map (length \<circ> snd) net)"
    by (simp add: sum_list_sum_nth atLeast0LessThan)
  ultimately show ?thesis unfolding nd.todo_def by (simp add: mult.assoc)
qed

text \<open>
  C15. Discovery terminates. Every announcement of a new transport is answered by an announcement
  of its own by everyone who sees it, but the exchange always dies out: from any state of a network of \<open>n\<close> transports
  at most \<open>n\<^sup>3\<close> messages are handled, besides those that are on their way already.
\<close>

theorem discovery_terminates:
  assumes "network_ok L P env ep net" "(net_step (naming_handle L P env) ^^ n) net net'"
  shows "n \<le> length net * length net * length net + sum_list (map (length \<circ> snd) net)"
  using nd.terminates[OF assms(1)[unfolded network_ok_eq] assms(2)] todo_bound[of P net] by simp

text \<open>
  C5. Discovery is complete. Let one transport that nobody knows yet announce itself to all,
  whatever the others already know of each other. Then the network comes to rest, and whenever it has come
  to rest every transport has every transport in its table and its data socket has been connected to the
  endpoint of every transport.
\<close>

theorem discovery_complete:
  assumes ok: "network_ok L P env ep net" and u: "\<forall>(s, q) \<in> set net. u \<notin> node_peers P s \<and> u \<in> msg_uuid ` set q"
  shows "(\<exists>net'. rtranclp (net_step (naming_handle L P env)) net net' \<and> (\<nexists>net''. net_step (naming_handle L P env) net' net'')) \<and>
     (\<forall>net'. rtranclp (net_step (naming_handle L P env)) net net' \<longrightarrow> (\<nexists>net''. net_step (naming_handle L P env) net' net'') \<longrightarrow>
        (\<forall>((h, w), q) \<in> set net'. q = [] \<and> node_peers P (h, w) = node_uuid ` fst ` set net \<and>
           (\<forall>v \<in> node_uuid ` fst ` set net. Zmq_connect (mSocket (mZmqDataSub (tport w))) (ep v) \<in> set (zcalls w))))"
proof (intro conjI allI impI)
  let ?step = "net_step (naming_handle L P env)"
  have ok': "nd.net_ok P L env ep net" using ok by (simp add: network_ok_eq)
  have start: "nd.heard P u net" "nd.answered P u net"
    using u unfolding nd.heard_def nd.answered_def all_set_conv_all_nth[of net] case_prod_unfold by simp_all
  show "\<exists>net'. rtranclp ?step net net' \<and> (\<nexists>net''. ?step net' net'')"
  proof (rule ccontr)
    assume c: "\<not> ?thesis"
    have "\<exists>net'. (?step ^^ n) net net'" for n
    proof (induction n)
      case (Suc n)
      then obtain net1 where n1: "(?step ^^ n) net net1" by blast
      with c obtain net2 where "?step net1 net2" by (meson relpowp_imp_rtranclp)
      with n1 show ?case by auto
    qed simp
    then obtain net' where "(?step ^^ Suc (nd.todo P net)) net net'" by blast
    with nd.terminates[OF ok'] show False by fastforce
  qed
  fix net' assume r: "rtranclp ?step net net'" and fin: "\<nexists>net''. ?step net' net''"
  from r obtain n where "(?step ^^ n) net net'" by (meson rtranclp_imp_relpowp)
  from nd.steps_ok[OF this ok'] start have s: "nd.net_ok P L env ep net'" "nd.ids net' = nd.ids net" "nd.heard P u net'" "nd.answered P u net'"
    by auto
  note fin' = nd.converges[OF s(1,4,3) fin] nd.progress[OF s(1) fin]
  have f: "q = [] \<and> node_peers P s = nd.ids net \<and> node_ok L P env ep s" if "(s, q) \<in> set net'" for s q
    using that fin' s(1,2) by (fastforce simp: in_set_conv_nth nd.net_ok_def)
  show "\<forall>((h, w), q) \<in> set net'. q = [] \<and> node_peers P (h, w) = node_uuid ` fst ` set net \<and>
      (\<forall>v \<in> node_uuid ` fst ` set net. Zmq_connect (mSocket (mZmqDataSub (tport w))) (ep v) \<in> set (zcalls w))"
    (is "Ball _ ?P")
  proof
    fix x assume "x \<in> set net'"
    moreover obtain h w q where x: "x = ((h, w), q)" by (metis prod.exhaust)
    ultimately have "q = []" "node_peers P (h, w) = node_uuid ` fst ` set net" "node_ok L P env ep (h, w)"
      using f[of "(h, w)" q] unfolding nd.ids_def by auto
    then show "?P x" unfolding x by (simp add: node_ok_def)
  qed
qed

text \<open>Two transports, the second of which announces itself.\<close>

definition demo_proc2 ::
  "((cstring \<times> nat) list, (cstring \<times> bytes) list, ((cstring \<times> cstring) \<times> nat) list, nat list) oz_proc" where
  "demo_proc2 = demo_proc\<lparr>tport := demo_tport\<lparr>mUuid := demo_peer_uuid, mPubEndpoint := ''tcp://127.0.0.1:5001''\<rparr>\<rparr>"

definition demo_ep :: "cstring \<Rightarrow> cstring" where
  "demo_ep u = (if u = demo_uuid then ''tcp://127.0.0.1:5000'' else ''tcp://127.0.0.1:5001'')"

definition demo_net ::
  "(((cstring \<times> nat) list, (cstring \<times> bytes) list, ((cstring \<times> cstring) \<times> nat) list, nat list) oz_node, bytes) net" where
  "demo_net = [((demo_host, demo_proc), [naming_bytes demo_peer]), ((demo_host, demo_proc2), [naming_bytes demo_peer])]"

lemma demo_net_ok:
  "network_ok demo_lib demo_peers demo_env demo_ep demo_net"
  "\<forall>(s, q) \<in> set demo_net. demo_peer_uuid \<notin> node_peers demo_peers s \<and> demo_peer_uuid \<in> msg_uuid ` set q"
proof -
  have u: "demo_uuid \<noteq> demo_peer_uuid" by (simp add: demo_uuid_def demo_peer_uuid_def)
  have t: "tport demo_proc = demo_tport" "mUuid demo_tport = demo_uuid" "mPubEndpoint demo_tport = ''tcp://127.0.0.1:5000''"
    "mPeers demo_tport = []" by (simp_all add: demo_proc_def demo_tport_def)
  have m: "msg_uuid (naming_bytes demo_peer) = demo_peer_uuid" "connect_msg demo_ep (naming_bytes demo_peer)"
    using demo_naming_ok(2) naming_read(3)[OF demo_naming_ok(2)] u
    by (auto simp: msg_uuid_def connect_msg_def demo_ep_def demo_peer_def own_msg_def intro!: exI[of _ demo_peer])
  have p: "node_peers demo_peers (demo_host, demo_proc) = {}" "node_peers demo_peers (demo_host, demo_proc2) = {}"
    by (simp_all add: node_peers_def demo_peers_def t demo_proc2_def)
  have "naming_ok demo_lib demo_host demo_proc2"
    using demo_naming_ok demo_lib_ok by (simp add: naming_ok_def naming_msg_ok_def demo_peer_def own_msg_def demo_proc2_def)
  then have "node_ok demo_lib demo_peers demo_env demo_ep (demo_host, demo_proc)"
    "node_ok demo_lib demo_peers demo_env demo_ep (demo_host, demo_proc2)"
    using demo_naming_ok(1) demo_peers_ok demo_env_good p u by (simp_all add: node_ok_def t demo_ep_def demo_proc2_def)
  then show "network_ok demo_lib demo_peers demo_env demo_ep demo_net"
    using p m by (simp add: network_ok_def demo_net_def node_uuid_def demo_proc2_def)
  show "\<forall>(s, q) \<in> set demo_net. demo_peer_uuid \<notin> node_peers demo_peers s \<and> demo_peer_uuid \<in> msg_uuid ` set q"
    using p m(1) by (simp add: demo_net_def)
qed

theorem discovery_terminates_witness:
  "\<not> (\<exists>net'. (net_step (naming_handle demo_lib demo_peers demo_env) ^^ 11) demo_net net')"
  using discovery_terminates[OF demo_net_ok(1), of 11] by (auto simp: demo_net_def)

theorem discovery_complete_witness:
  "\<exists>net'. rtranclp (net_step (naming_handle demo_lib demo_peers demo_env)) demo_net net' \<and>
     (\<nexists>net''. net_step (naming_handle demo_lib demo_peers demo_env) net' net'') \<and>
     list_all (\<lambda>((h, w), q). node_peers demo_peers (h, w) = {demo_uuid, demo_peer_uuid}) net'"
proof -
  have u: "node_uuid ` fst ` set demo_net = {demo_uuid, demo_peer_uuid}"
    by (simp add: demo_net_def node_uuid_def demo_proc2_def demo_proc_def demo_tport_def)
  note c = discovery_complete[OF demo_net_ok, unfolded u]
  from c obtain net' where n: "rtranclp (net_step (naming_handle demo_lib demo_peers demo_env)) demo_net net'"
    "\<nexists>net''. net_step (naming_handle demo_lib demo_peers demo_env) net' net''" by blast
  have "list_all (\<lambda>((h, w), q). node_peers demo_peers (h, w) = {demo_uuid, demo_peer_uuid}) net'"
    using c[THEN conjunct2, rule_format, OF n(1)] n(2) unfolding list_all_iff case_prod_unfold by blast
  with n show ?thesis by blast
qed

end
