(* ===== verification/Publisher.thy ===== *)
theory Publisher
  imports Inbox
begin

text \<open>
  Publishers, \<open>src/src/publisher.c\<close>: the subject a publisher sends to, plain messages, requests
  from an inbox and replies to one.
\<close>

text \<open>\<open>pb_mCallbacks\<close> is the \<open>onDestroy\<close> member, the only callback the bridge calls.\<close>

record zmqPublisherBridge =
  pb_mTransport :: tport_ptr
  pb_mTopic :: "cstring option"
  pb_mSource :: "cstring option"
  pb_mRoot :: "cstring option"
  pb_mSubject :: "cstring option"
  pb_mParent :: voidp
  pb_mCallbacks :: "nat option"
  pb_mCallbackClosure :: voidp

text \<open>
  The library functions that sending calls: \<open>zmq_msg_init_size\<close> is given by its return code and
  the memory it allocates.
\<close>

record send_lib =
  mamaMsg_getByteBuffer :: "nat \<Rightarrow> mama_status \<times> bytes"
  mamaMsg_updateString :: "voidp \<Rightarrow> cstring \<Rightarrow> mama_status"
  mamaInboxImpl_getInboxBridge :: "nat \<Rightarrow> nat option"
  msg_init_size_rc :: int
  msg_init_size_data :: "nat \<Rightarrow> bytes"

text \<open>
  \<open>zmqBridgeMamaPublisher_createByIndex\<close>: \<open>tb\<close> is the transport bridge of the MAMA transport,
  \<open>mem\<close> the outcome of \<open>calloc\<close>, \<open>junk\<close> and \<open>kmem\<close> the stack and the allocation of the subject.
\<close>

definition zmqBridgeMamaPublisher_createByIndex ::
  "bool \<Rightarrow> bytes \<Rightarrow> bool \<Rightarrow> tport_ptr \<Rightarrow> bool \<Rightarrow> voidp \<Rightarrow> cstring option \<Rightarrow> cstring option \<Rightarrow> cstring option \<Rightarrow> voidp
     \<Rightarrow> (mama_status \<times> zmqPublisherBridge option) option" where
  "zmqBridgeMamaPublisher_createByIndex mem junk kmem tb result transport topic source root parent =
     (if \<not> result \<or> transport = None \<or> parent = None then Some (MAMA_STATUS_NULL_ARG, None)
      else if tb = None then Some (MAMA_STATUS_NULL_ARG, None)
      else if \<not> mem then Some (MAMA_STATUS_NOMEM, None)
      else do {
        let impl = \<lparr>pb_mTransport = tb, pb_mTopic = topic, pb_mSource = source, pb_mRoot = root, pb_mSubject = None,
          pb_mParent = parent, pb_mCallbacks = None, pb_mCallbackClosure = None\<rparr>;
        (status, key) \<leftarrow> zmqBridgeMamaPublisherImpl_buildSendSubject junk kmem (pb_mRoot impl) (pb_mSource impl) (pb_mTopic impl);
        Some (status, Some (impl\<lparr>pb_mSubject := key\<rparr>))
      })"

definition zmqBridgeMamaPublisher_destroy ::
  "zmqPublisherBridge option \<Rightarrow> ('t, 'u, 'p, 'l) oz_proc \<Rightarrow> mama_status \<times> ('t, 'u, 'p, 'l) oz_proc" where
  "zmqBridgeMamaPublisher_destroy publisher w =
     (case publisher of
        None \<Rightarrow> (MAMA_STATUS_NULL_ARG, w)
      | Some impl \<Rightarrow>
          (MAMA_STATUS_OK,
           case pb_mCallbacks impl of
             None \<Rightarrow> w | Some cb \<Rightarrow> emit (PublisherDestroyed cb (pb_mParent impl) (pb_mCallbackClosure impl)) w))"

definition zmqBridgeMamaPublisher_setUserCallbacks ::
  "zmqPublisherBridge option \<Rightarrow> nat option option \<Rightarrow> voidp \<Rightarrow> mama_status \<times> zmqPublisherBridge option" where
  "zmqBridgeMamaPublisher_setUserCallbacks publisher cb closure =
     (case (publisher, cb) of
        (Some impl, Some onDestroy) \<Rightarrow> (MAMA_STATUS_OK, Some (impl\<lparr>pb_mCallbacks := onDestroy, pb_mCallbackClosure := closure\<rparr>))
      | _ \<Rightarrow> (MAMA_STATUS_NULL_ARG, publisher))"

text \<open>
  \<open>zmqBridgeMamaPublisherImpl_sendSubject\<close>. The status of \<open>zmqBridgeMamaMsg_setSendSubject\<close> is
  ignored; \<open>stack\<close> is the uninitialised bridge message on the stack.
\<close>

definition zmqBridgeMamaPublisherImpl_sendSubject ::
  "('t, 'p, 'l) mama_lib \<Rightarrow> send_lib \<Rightarrow> zenv \<Rightarrow> zmqBridgeMsgImpl \<Rightarrow> zmqPublisherBridge option \<Rightarrow> nat option
     \<Rightarrow> zmqBridgeMsgImpl option \<Rightarrow> cstring option \<Rightarrow> ('t, 'u, 'p, 'l) oz_proc
     \<Rightarrow> (mama_status \<times> ('t, 'u, 'p, 'l) oz_proc) option" where
  "zmqBridgeMamaPublisherImpl_sendSubject L S env stack publisher mamaMsg bridgeMsg subject w =
     (case (publisher, mamaMsg) of
        (Some impl, Some m) \<Rightarrow> do {
          let bridgeMsg = (case bridgeMsg of None \<Rightarrow> snd (zmqBridgeMamaMsgImpl_init stack) | Some b \<Rightarrow> b);
          let bridgeMsg =
            (case subject of
               Some s \<Rightarrow> snd (zmqBridgeMamaMsg_setSendSubject (wmStrSizeCpy L) (mamaMsg_updateString S) (Some bridgeMsg) (Some s) None)
             | None \<Rightarrow> snd (zmqBridgeMamaMsg_setSendSubject (wmStrSizeCpy L) (mamaMsg_updateString S) (Some bridgeMsg)
                         (pb_mSubject impl) (pb_mSource impl)));
          (s, frame) \<leftarrow> zmqBridgeMamaMsgImpl_serialize (mamaMsg_getByteBuffer S m) (msg_init_size_rc S) (msg_init_size_data S) bridgeMsg;
          if s \<noteq> MAMA_STATUS_OK then Some (s, w)
          else do {
            frame \<leftarrow> frame;
            _ \<leftarrow> pb_mTransport impl;
            let sock = mZmqDataPub (tport w);
            let (i, w) = zrun (do {
              zdo env (Wlock_lock (mLock sock));
              i \<leftarrow> zdo env (Zmq_msg_send (mSocket sock) frame);
              zdo env (Wlock_unlock (mLock sock));
              State_Monad.return i
            }) w;
            Some (if i < 0 then MAMA_STATUS_PLATFORM else MAMA_STATUS_OK, w)
          }
        }
      | _ \<Rightarrow> Some (MAMA_STATUS_NULL_ARG, w))"

definition zmqBridgeMamaPublisher_send ::
  "('t, 'p, 'l) mama_lib \<Rightarrow> send_lib \<Rightarrow> zenv \<Rightarrow> zmqBridgeMsgImpl \<Rightarrow> zmqPublisherBridge option \<Rightarrow> nat option
     \<Rightarrow> ('t, 'u, 'p, 'l) oz_proc \<Rightarrow> (mama_status \<times> ('t, 'u, 'p, 'l) oz_proc) option" where
  "zmqBridgeMamaPublisher_send L S env stack publisher msg w =
     zmqBridgeMamaPublisherImpl_sendSubject L S env stack publisher msg None None w"

definition zmqBridgeMamaPublisher_sendSubject ::
  "('t, 'p, 'l) mama_lib \<Rightarrow> send_lib \<Rightarrow> zenv \<Rightarrow> zmqBridgeMsgImpl \<Rightarrow> zmqPublisherBridge option \<Rightarrow> nat option
     \<Rightarrow> cstring option \<Rightarrow> ('t, 'u, 'p, 'l) oz_proc \<Rightarrow> (mama_status \<times> ('t, 'u, 'p, 'l) oz_proc) option" where
  "zmqBridgeMamaPublisher_sendSubject L S env stack publisher msg subject w =
     zmqBridgeMamaPublisherImpl_sendSubject L S env stack publisher msg None subject w"

text \<open>A reply: its subject is the reply handle of the request.\<close>

definition zmqBridgeMamaPublisher_sendReplyToInboxHandle ::
  "('t, 'p, 'l) mama_lib \<Rightarrow> send_lib \<Rightarrow> zenv \<Rightarrow> zmqBridgeMsgImpl \<Rightarrow> zmqPublisherBridge option \<Rightarrow> cstring option
     \<Rightarrow> nat option \<Rightarrow> ('t, 'u, 'p, 'l) oz_proc \<Rightarrow> (mama_status \<times> ('t, 'u, 'p, 'l) oz_proc) option" where
  "zmqBridgeMamaPublisher_sendReplyToInboxHandle L S env stack publisher replyHandle reply w =
     (if publisher = None \<or> replyHandle = None \<or> reply = None then Some (MAMA_STATUS_NULL_ARG, w)
      else do {
        let bridgeMsg = Some (snd (zmqBridgeMamaMsgImpl_init stack));
        let bridgeMsg = snd (zmqBridgeMamaMsgImpl_setMsgType bridgeMsg ZMQ_MSG_INBOX_RESPONSE);
        (s, bridgeMsg) \<leftarrow> zmqBridgeMamaMsgImpl_setReplyHandle bridgeMsg replyHandle;
        if s \<noteq> MAMA_STATUS_OK then Some (s, w)
        else zmqBridgeMamaPublisherImpl_sendSubject L S env stack publisher reply bridgeMsg replyHandle w
      })"

definition zmqBridgeMamaPublisher_sendReplyToInbox ::
  "('t, 'p, 'l) mama_lib \<Rightarrow> send_lib \<Rightarrow> zenv \<Rightarrow> zmqBridgeMsgImpl \<Rightarrow> zmqPublisherBridge option \<Rightarrow> nat option
     \<Rightarrow> nat option \<Rightarrow> ('t, 'u, 'p, 'l) oz_proc \<Rightarrow> (mama_status \<times> ('t, 'u, 'p, 'l) oz_proc) option" where
  "zmqBridgeMamaPublisher_sendReplyToInbox L S env stack publisher request reply w =
     (if publisher = None \<or> request = None \<or> reply = None then Some (MAMA_STATUS_NULL_ARG, w)
      else (case zmqBridgeMamaMsgImpl_getBridgeMsg (\<lambda>m. (mamaMsgImpl_getBridgeMsg L m, bridge_msgs w m)) request of
          None \<Rightarrow> Some (MAMA_STATUS_NULL_ARG, w)
        | Some None \<Rightarrow> Some (MAMA_STATUS_NULL_ARG, w)
        | Some (Some bridgeMsg) \<Rightarrow>
            (case zmqBridgeMamaMsg_getReplyHandle (Some bridgeMsg) of
               None \<Rightarrow> Some (MAMA_STATUS_NULL_ARG, w)
             | Some replyHandle \<Rightarrow>
                 zmqBridgeMamaPublisher_sendReplyToInboxHandle L S env stack publisher (Some replyHandle) reply w)))"

text \<open>A request: it carries the reply handle of the inbox.\<close>

definition zmqBridgeMamaPublisher_sendFromInboxByIndex ::
  "('t, 'p, 'l) mama_lib \<Rightarrow> send_lib \<Rightarrow> zenv \<Rightarrow> zmqBridgeMsgImpl \<Rightarrow> zmqPublisherBridge option \<Rightarrow> nat option
     \<Rightarrow> nat option \<Rightarrow> ('t, 'u, 'p, 'l) oz_proc \<Rightarrow> (mama_status \<times> ('t, 'u, 'p, 'l) oz_proc) option" where
  "zmqBridgeMamaPublisher_sendFromInboxByIndex L S env stack publisher inbox msg w =
     (case (publisher, inbox, msg) of
        (Some _, Some ib, Some _) \<Rightarrow> do {
          let bridgeMsg = Some (snd (zmqBridgeMamaMsgImpl_init stack));
          let bridgeMsg = snd (zmqBridgeMamaMsgImpl_setMsgType bridgeMsg ZMQ_MSG_INBOX_REQUEST);
          (case mamaInboxImpl_getInboxBridge S ib of
             None \<Rightarrow> Some (MAMA_STATUS_NULL_ARG, w)
           | Some a \<Rightarrow> do {
               replyHandle \<leftarrow> zmqBridgeMamaInboxImpl_getReplyHandle (Some a) w;
               (case replyHandle of
                  None \<Rightarrow> Some (MAMA_STATUS_NULL_ARG, w)
                | Some h \<Rightarrow> do {
                    (s, bridgeMsg) \<leftarrow> zmqBridgeMamaMsgImpl_setReplyHandle bridgeMsg (Some h);
                    if s \<noteq> MAMA_STATUS_OK then Some (s, w)
                    else zmqBridgeMamaPublisherImpl_sendSubject L S env stack publisher msg bridgeMsg None w
                  })
             })
        }
      | _ \<Rightarrow> Some (MAMA_STATUS_NULL_ARG, w))"

definition zmqBridgeMamaPublisher_sendFromInbox ::
  "('t, 'p, 'l) mama_lib \<Rightarrow> send_lib \<Rightarrow> zenv \<Rightarrow> zmqBridgeMsgImpl \<Rightarrow> zmqPublisherBridge option \<Rightarrow> nat option
     \<Rightarrow> nat option \<Rightarrow> ('t, 'u, 'p, 'l) oz_proc \<Rightarrow> (mama_status \<times> ('t, 'u, 'p, 'l) oz_proc) option" where
  "zmqBridgeMamaPublisher_sendFromInbox L S env stack publisher inbox msg w =
     zmqBridgeMamaPublisher_sendFromInboxByIndex L S env stack publisher inbox msg w"

end
