(* ===== verification/Bridge_Safety.thy ===== *)
theory Bridge_Safety
  imports Bridge_Demo
begin

text \<open>
  The properties of the data path: it stays inside its objects whatever the order of the
  operations, an identifier never leads to the wrong receiver, and a message is enqueued
  exactly for its receivers.
\<close>

subsection \<open>Receivers\<close>

text \<open>An enqueue that a message calls for.\<close>

definition is_receiver :: "('t, 'p, 'l) mama_lib \<Rightarrow> bytes \<Rightarrow> ('t, 'u, 'p, 'l) oz_proc \<Rightarrow> enq \<Rightarrow> bool" where
  "is_receiver L zmsg w e \<longleftrightarrow>
     (if is_inbox_msg zmsg
      then \<exists>a ib. inbox_map L w (inbox_of zmsg) = Some a \<and> inbox_store w a = Some ib \<and>
             e = (ib_mZmqQueue ib, zmqBridgeMamaTransportImpl_inboxCallback, tmsg_for (inbox_of zmsg) zmsg)
      else (\<exists>a sb. a \<in> set (wc_elems L w) \<and> sub_store w a = Some sb \<and> wc_match L (subject_of zmsg) zmsg sb \<and>
              e = sub_enq zmqBridgeMamaTransportImpl_wcCallback zmsg sb) \<or>
           (\<exists>i a sb. sub_map L w (subject_of zmsg, i) = Some a \<and> sub_store w a = Some sb \<and> mIsNotMuted sb = 1 \<and>
              e = (sb_mZmqQueue sb, zmqBridgeMamaTransportImpl_subCallback, tmsg_for i zmsg)))"

lemma wc_route_receivers:
  assumes "wcs_ok L w"
  shows "e \<in> set (wc_route L s zmsg (sub_store w) (wc_elems L w)) \<longleftrightarrow>
     (\<exists>a sb. a \<in> set (wc_elems L w) \<and> sub_store w a = Some sb \<and> wc_match L s zmsg sb \<and>
        e = sub_enq zmqBridgeMamaTransportImpl_wcCallback zmsg sb)"
proof
  assume "e \<in> set (wc_route L s zmsg (sub_store w) (wc_elems L w))"
  then obtain a where a: "a \<in> set (wc_elems L w)" "wc_match L s zmsg (the (sub_store w a))"
    "e = sub_enq zmqBridgeMamaTransportImpl_wcCallback zmsg (the (sub_store w a))"
    by (auto simp: wc_route_def)
  from wc_elemD[OF assms a(1)] obtain sb where sb: "sub_store w a = Some sb" by blast
  from a sb show "\<exists>a sb. a \<in> set (wc_elems L w) \<and> sub_store w a = Some sb \<and> wc_match L s zmsg sb \<and>
      e = sub_enq zmqBridgeMamaTransportImpl_wcCallback zmsg sb"
    by (intro exI[of _ a] exI[of _ sb]) simp
qed (auto simp: wc_route_def image_iff)

lemma sub_route_receivers:
  assumes "subs_ok L w" "lib_ok L"
  shows "e \<in> set (sub_route zmsg (sub_store w) (registered L s w)) \<longleftrightarrow>
     (\<exists>i a sb. sub_map L w (s, i) = Some a \<and> sub_store w a = Some sb \<and> mIsNotMuted sb = 1 \<and>
        e = (sb_mZmqQueue sb, zmqBridgeMamaTransportImpl_subCallback, tmsg_for i zmsg))"
    (is "_ \<longleftrightarrow> ?R")
proof -
  from registered_ids[OF assms(2), of w s] obtain ids where
    ids: "set ids = {i. sub_map L w (s, i) \<noteq> None}" "registered L s w = map (\<lambda>i. the (sub_map L w (s, i))) ids" by blast
  have entry: "\<exists>sb. sub_store w a = Some sb \<and> sb_mEndpointIdentifier sb = Some i" if "sub_map L w (s, i) = Some a" for i a
    using sub_mapD[OF assms(1) that] by (auto simp: sub_entry_ok_def)
  show ?thesis
  proof
    assume "e \<in> set (sub_route zmsg (sub_store w) (registered L s w))"
    then obtain i where i: "i \<in> set ids" "mIsNotMuted (the (sub_store w (the (sub_map L w (s, i))))) = 1"
      "e = sub_enq zmqBridgeMamaTransportImpl_subCallback zmsg (the (sub_store w (the (sub_map L w (s, i)))))"
      by (auto simp: sub_route_def ids(2))
    from i(1) ids(1) obtain a where a: "sub_map L w (s, i) = Some a" by auto
    from entry[OF a] obtain sb where "sub_store w a = Some sb" "sb_mEndpointIdentifier sb = Some i" by blast
    with i a show ?R by (intro exI[of _ i] exI[of _ a] exI[of _ sb]) (simp add: sub_enq_def)
  next
    assume ?R
    then obtain i a sb where r: "sub_map L w (s, i) = Some a" "sub_store w a = Some sb" "mIsNotMuted sb = 1"
      "e = (sb_mZmqQueue sb, zmqBridgeMamaTransportImpl_subCallback, tmsg_for i zmsg)" by blast
    then have "a \<in> set (registered L s w)" unfolding ids(2) using ids(1) by (force simp: image_iff)
    with r entry[OF r(1)] show "e \<in> set (sub_route zmsg (sub_store w) (registered L s w))"
      by (auto simp: sub_route_def sub_enq_def image_iff intro!: bexI[of _ a])
  qed
qed

lemma route_receivers:
  assumes "proc_ok L w"
  shows "e \<in> set (route L zmsg w) \<longleftrightarrow> is_receiver L zmsg w e"
proof (cases "is_inbox_msg zmsg")
  case True
  show ?thesis
  proof (cases "inbox_map L w (inbox_of zmsg)")
    case (Some a)
    with inbox_mapD[of L w] assms obtain ib where "inbox_store w a = Some ib" by (fastforce simp: proc_ok_def)
    with True Some show ?thesis by (auto simp: route_def is_receiver_def inbox_route_def)
  qed (use True in \<open>simp add: route_def is_receiver_def inbox_route_def\<close>)
next
  case False
  have ok: "wcs_ok L w" "subs_ok L w" "lib_ok L" using assms by (auto simp: proc_ok_def)
  show ?thesis
    unfolding route_def is_receiver_def using False wc_route_receivers[OF ok(1)] sub_route_receivers[OF ok(2,3)]
    by (simp del: split_paired_Ex)
qed

text \<open>No receiver is listed twice.\<close>

lemma wc_route_distinct:
  assumes "wcs_ok L w"
  shows "distinct (wc_route L s zmsg (sub_store w) (wc_elems L w))"
proof -
  have "inj_on (\<lambda>a. sub_enq zmqBridgeMamaTransportImpl_wcCallback zmsg (the (sub_store w a))) (set (wc_elems L w))"
  proof (rule inj_onI)
    fix a b assume ab: "a \<in> set (wc_elems L w)" "b \<in> set (wc_elems L w)"
      "sub_enq zmqBridgeMamaTransportImpl_wcCallback zmsg (the (sub_store w a)) =
       sub_enq zmqBridgeMamaTransportImpl_wcCallback zmsg (the (sub_store w b))"
    with wc_elemD[OF assms ab(1)] wc_elemD[OF assms ab(2)] have "sub_ident w a = sub_ident w b"
      by (auto simp: sub_enq_def tmsg_for_def sub_ident_def wc_entry_ok_def)
    with assms ab show "a = b" by (auto simp: wcs_ok_def dest: inj_onD)
  qed
  with assms show ?thesis by (auto simp: wc_route_def distinct_map wcs_ok_def elim: inj_on_subset)
qed

lemma sub_route_distinct:
  assumes "subs_ok L w" "lib_ok L"
  shows "distinct (sub_route zmsg (sub_store w) (registered L s w))"
proof -
  from registered_ids[OF assms(2), of w s] obtain ids where
    ids: "distinct ids" "set ids = {i. sub_map L w (s, i) \<noteq> None}" "registered L s w = map (\<lambda>i. the (sub_map L w (s, i))) ids" by blast
  let ?id = "\<lambda>a. the (sb_mEndpointIdentifier (the (sub_store w a)))"
  have "map ?id (registered L s w) = ids"
    unfolding ids(3) map_map
  proof (rule map_idI)
    fix i assume "i \<in> set ids"
    then obtain a where a: "sub_map L w (s, i) = Some a" using ids(2) by auto
    from sub_mapD[OF assms(1) a] a show "(?id \<circ> (\<lambda>i. the (sub_map L w (s, i)))) i = i" by (auto simp: sub_entry_ok_def)
  qed
  then have d: "distinct (registered L s w)" "inj_on ?id (set (registered L s w))"
    using ids(1) by (metis distinct_map)+
  have "inj_on (\<lambda>a. sub_enq zmqBridgeMamaTransportImpl_subCallback zmsg (the (sub_store w a))) (set (registered L s w))"
    using d(2) by (auto simp: inj_on_def sub_enq_def tmsg_for_def)
  with d(1) show ?thesis by (auto simp: sub_route_def distinct_map elim: inj_on_subset)
qed

lemma route_distinct:
  assumes "proc_ok L w"
  shows "distinct (route L zmsg w)"
proof -
  have ok: "wcs_ok L w" "subs_ok L w" "lib_ok L" using assms by (auto simp: proc_ok_def)
  have "set (wc_route L s zmsg f as) \<inter> set (sub_route zmsg g bs) = {}" for s f g as bs
    by (auto simp: wc_route_def sub_route_def sub_enq_def)
  with wc_route_distinct[OF ok(1)] sub_route_distinct[OF ok(2,3)] show ?thesis
    by (auto simp: route_def inbox_route_def split: option.splits)
qed

subsection \<open>Properties\<close>


lemma demo_key: "key_made demo_stack (Some ''OZ'') (Some ''A'') ''OZ.A''"
  using generateSubjectKey_result[of "replicate 257 (CHR ''?'')" None "Some ''OZ''" "Some ''A''" True]
  by (simp add: key_made_def demo_stack_def key_parts_def option_list_def subject_key_def key_join_def is_cstring_def oz_sizes)

lemma fmt_1: "fmt_016llx 1 = ''0000000000000001''"
  by code_simp

text \<open>The demo process after a subscription to \<open>OZ.A\<close>.\<close>

lemma demo_subscribed:
  "\<exists>sb w. oz_step demo_lib demo_env demo_proc w \<and> proc_ok demo_lib w \<and>
     sub_map demo_lib w = [(''OZ.A'', ''0000000000000001'') \<mapsto> 7] \<and> sub_store w 7 = Some sb \<and> mIsNotMuted sb = 1 \<and>
     sb_mZmqQueue sb = Some 0 \<and> wc_elems demo_lib w = [] \<and> queue_store w = [0 \<mapsto> demo_queue] \<and> sub_valid sb"
proof -
  have ok: "proc_ok demo_lib demo_proc" by (rule fresh_proc_ok[OF demo_fresh])
  have "mSubUid (tport demo_proc) + 1 \<noteq> 0" by (simp add: demo_proc_def demo_tport_def)
  moreover have "queue_ptr_ok demo_proc (Some 0)" by (simp add: queue_ptr_ok_def demo_proc_def)
  moreover have "sub_store demo_proc 7 = None" by (simp add: demo_proc_def)
  ultimately obtain st sb w where
    c: "zmqBridgeMamaSubscription_create demo_lib demo_env demo_stack True 7 (Some ()) (Some 0) True (Some ''OZ'') (Some ''A'')
          (Some 0) None None (Some 3) None demo_proc = Some (st, if st = MAMA_STATUS_OK then Some 7 else None, w)"
      "good_step demo_lib demo_proc w"
      "sub_map demo_lib w = (sub_map demo_lib demo_proc)((''OZ.A'', fmt_016llx (mSubUid (tport demo_proc) + 1)) \<mapsto> 7)"
      "sub_store w = (sub_store demo_proc)(7 \<mapsto> sb)" "mIsNotMuted sb = 1" "sb_mZmqQueue sb = Some 0"
      "queue_store w = queue_store demo_proc" "mWcEndpoints (tport w) = mWcEndpoints (tport demo_proc)"
    using sub_create_ok[OF ok, of 7 "Some 0" "Some 0" "Some 3" demo_stack "Some ''OZ''" "Some ''A''" "''OZ.A''" demo_env None None None]
      demo_key by blast
  have ok': "proc_ok demo_lib w" using c(2) by (simp add: good_step_def)
  have m: "sub_map demo_lib w = [(''OZ.A'', ''0000000000000001'') \<mapsto> 7]"
    using c(3) by (simp add: demo_proc_def demo_tport_def demo_lib_def fmt_1 fun_eq_iff)
  have "oz_pre demo_lib demo_proc (CreateSubscription 7 0 demo_stack (Some ''OZ'') (Some ''A'') None None 3 None)"
    using demo_key by (simp add: demo_proc_def demo_tport_def key_made_def key_of_def)
  then have "oz_step demo_lib demo_env demo_proc w"
    by (rule oz_step.step) (simp add: c(1))
  moreover have "sub_valid sb" using sub_mapD[of demo_lib w "''OZ.A''" "''0000000000000001''" 7] ok' m c(4)
    by (auto simp: proc_ok_def sub_entry_ok_def sub_valid_def)
  moreover have "wc_elems demo_lib w = []" using c(8) by (simp add: demo_proc_def demo_tport_def demo_lib_def)
  moreover have "queue_store w = [0 \<mapsto> demo_queue]" using c(7) by (simp add: demo_proc_def)
  moreover have "sub_store w 7 = Some sb" using c(4) by simp
  ultimately show ?thesis using c(5,6) ok' m by blast
qed

definition demo_frame :: bytes where
  "demo_frame = app_frame ''OZ.A'' ZMQ_MSG_PUB_SUB [] ''hello''"

lemma demo_frame_ok: "frame_ok demo_frame" "length demo_frame < 2 ^ 31" "\<not> is_inbox_msg demo_frame" "subject_of demo_frame = ''OZ.A''"
proof -
  show "frame_ok demo_frame" unfolding frame_ok_def demo_frame_def app_frame_def
    by (intro exI[of _ "''OZ.A''"] exI[of _ ZMQ_MSG_PUB_SUB] exI[of _ "NUL # ''hello''"]) (simp add: msg_types)
  show "length demo_frame < 2 ^ 31" by (simp add: demo_frame_def app_frame_def)
  show "\<not> is_inbox_msg demo_frame" by (simp add: is_inbox_msg_def demo_frame_def app_frame_def ZMQ_REPLYHANDLE_PREFIX_def)
  have "cstr_at (''OZ.A'' @ NUL # ZMQ_MSG_PUB_SUB # NUL # ''hello'') = Some ''OZ.A''" by (rule cstr_at_append) simp
  then show "subject_of demo_frame = ''OZ.A''" by (simp add: subject_of_def demo_frame_def app_frame_def)
qed


text \<open>
  C7. A queued message never reaches the wrong receiver. An identifier that names an inbox, a
  subscription (with its topic) or a wildcard subscription at one time names the same object or
  none at any later time; and once it has named none, it never names one again. So a callback that
  runs after its receiver was destroyed finds nothing, even if a new receiver was created in the
  meantime, at the same address and on the same topic.
\<close>

theorem receivers_never_confused:
  assumes "fresh_proc L w0" "rtranclp (oz_step L env) w0 w1" "rtranclp (oz_step L env) w1 w2" "rtranclp (oz_step L env) w2 w3"
  shows "(inbox_map L w1 k = Some a \<and> inbox_map L w3 k = Some b \<longrightarrow> b = a \<and> inbox_map L w2 k = Some a) \<and>
     (sub_map L w1 (s, i) = Some a \<and> sub_map L w3 (s, i) = Some b \<longrightarrow> b = a \<and> sub_map L w2 (s, i) = Some a) \<and>
     (wc_find L w1 i = Some a \<and> wc_find L w3 i = Some b \<longrightarrow> b = a \<and> wc_find L w2 i = Some a)"
proof -
  have ok: "proc_ok L w1" by (rule ib.steps_inv[OF assms(2) fresh_proc_ok[OF assms(1)]])
  have r: "rtranclp (oz_step L env) w1 w3" using assms(3,4) by (rule rtranclp_trans)
  show ?thesis
    using ib.same_object[OF r ok] ib.found_between[OF assms(3,4) ok] sb.same_object[OF r ok, of "(s, i)"]
      sb.found_between[OF assms(3,4) ok, of "(s, i)"] wc.same_object[OF r ok] wc.found_between[OF assms(3,4) ok]
    by blast
qed

theorem receivers_never_confused_witness:
  "\<exists>w1 w3. oz_step demo_lib demo_env demo_proc w1 \<and> sub_map demo_lib w1 (''OZ.A'', ''0000000000000001'') = Some 7 \<and>
     oz_exec demo_lib demo_env (DestroySubscription 7 (replicate 257 (CHR ''?''))) w1 = Some w3 \<and>
     sub_map demo_lib w3 (''OZ.A'', ''0000000000000001'') \<noteq> Some 8"
proof -
  from demo_subscribed obtain sb w where
    w: "oz_step demo_lib demo_env demo_proc w" "proc_ok demo_lib w" "sub_map demo_lib w = [(''OZ.A'', ''0000000000000001'') \<mapsto> 7]"
      "sub_store w 7 = Some sb" "sub_valid sb" by blast
  have pre: "oz_pre demo_lib w (DestroySubscription 7 (replicate 257 (CHR ''?'')))" using w(4,5) by (simp add: oz_sizes)
  from oz_exec_ok[OF w(2) pre] obtain w3 where
    e: "oz_exec demo_lib demo_env (DestroySubscription 7 (replicate 257 (CHR ''?''))) w = Some w3" by blast
  have s: "rtranclp (oz_step demo_lib demo_env) w w3" by (rule r_into_rtranclp) (rule oz_step.step[OF pre e])
  have m: "sub_map demo_lib w (''OZ.A'', ''0000000000000001'') = Some 7" unfolding w(3) by simp
  have "sub_map demo_lib w3 (''OZ.A'', ''0000000000000001'') \<noteq> Some 8"
    using receivers_never_confused[OF demo_fresh r_into_rtranclp[where r = "oz_step demo_lib demo_env", OF w(1)] rtranclp.rtrancl_refl s,
        of "[]" 7 8 "''OZ.A''" "''0000000000000001''"] m by auto
  with w(1) m e show ?thesis by blast
qed

text \<open>
  C4. The dispatch thread delivers to exactly the right receivers. For a message it can read, it
  enqueues one event per receiver and none else: the inbox that the subject names; or every
  wildcard subscription whose prefix and expression match and every subscription of exactly that
  subject that is not muted. Each event carries the receiver's identifier and the whole message.
  The registries are as before.
\<close>

theorem dispatch_delivers_to_receivers:
  assumes "proc_ok L w" "msg_readable L zmsg w" "frame_ok zmsg" "length zmsg < 2 ^ 31"
  shows "\<exists>es st w1 w'. distinct es \<and> (\<forall>e. e \<in> set es \<longleftrightarrow> is_receiver L zmsg w e) \<and> enq_all L es w = Some w1 \<and>
     zmqBridgeMamaTransportImpl_dispatchNormalMsg L zmsg w = Some (st, w') \<and>
     queue_store w' = queue_store w1 \<and> app_events w' = app_events w1 \<and> same_reg w w'"
proof -
  from dispatchNormal_ok[OF assms] obtain w1 w' where
    "enq_all L (route L zmsg w) w = Some w1"
    "zmqBridgeMamaTransportImpl_dispatchNormalMsg L zmsg w = Some (route_status L zmsg w, w')"
    "queue_store w' = queue_store w1" "app_events w' = app_events w1" "same_reg w w'" by blast
  with route_distinct[OF assms(1)] route_receivers[OF assms(1)] show ?thesis by blast
qed

theorem dispatch_delivers_to_receivers_witness:
  "\<exists>w es st w1 w'. oz_step demo_lib demo_env demo_proc w \<and>
     (Some 0, zmqBridgeMamaTransportImpl_subCallback, tmsg_for ''0000000000000001'' demo_frame) \<in> set es \<and>
     enq_all demo_lib es w = Some w1 \<and>
     zmqBridgeMamaTransportImpl_dispatchNormalMsg demo_lib demo_frame w = Some (st, w') \<and> queue_store w' = queue_store w1"
proof -
  from demo_subscribed obtain sb w where
    w: "oz_step demo_lib demo_env demo_proc w" "proc_ok demo_lib w" "sub_map demo_lib w = [(''OZ.A'', ''0000000000000001'') \<mapsto> 7]"
      "wc_elems demo_lib w = []" "sub_store w 7 = Some sb" "mIsNotMuted sb = 1" "sb_mZmqQueue sb = Some 0" by blast
  have rd: "msg_readable demo_lib demo_frame w"
    using w(4) demo_frame_ok(3) by (simp add: msg_readable_def demo_frame_def app_frame_def)
  have "is_receiver demo_lib demo_frame w (Some 0, zmqBridgeMamaTransportImpl_subCallback, tmsg_for ''0000000000000001'' demo_frame)"
    unfolding is_receiver_def w(3) demo_frame_ok(4) using demo_frame_ok(3) w(5-7) by force
  with dispatch_delivers_to_receivers[OF w(2) rd demo_frame_ok(1,2)] w(1) show ?thesis by blast
qed

text \<open>
  C25. A subscription whose creation failed is still registered. When the subscribe command cannot
  be sent, \<open>zmqBridgeMamaSubscription_create\<close> returns an error and no handle, but the
  subscription stays in the endpoint pool, not muted: messages for its topic are still enqueued for it,
  and nobody holds a handle to destroy it.
\<close>

theorem failed_subscription_stays_registered:
  assumes "proc_ok L w" "sub_store w a = None" "queue_ptr_ok w native" "mSubUid (tport w) + 1 \<noteq> 0"
    "key_made m source symbol key" "\<forall>h s b. env h (Zmq_send s b) \<le> 0"
  shows "\<exists>sb w'. zmqBridgeMamaSubscription_create L env m True a (Some ()) native True source symbol (Some t) queue callback
       (Some subscription) closure w = Some (MAMA_STATUS_PLATFORM, None, w') \<and>
     sub_map L w' (key, fmt_016llx (mSubUid (tport w) + 1)) = Some a \<and> sub_store w' a = Some sb \<and> mIsNotMuted sb = 1"
proof -
  from sub_create_ok[OF assms(1-4) _ _ assms(5), of "Some t" "Some subscription" env queue callback closure] obtain st sb w' where
    c: "zmqBridgeMamaSubscription_create L env m True a (Some ()) native True source symbol (Some t) queue callback
          (Some subscription) closure w = Some (st, if st = MAMA_STATUS_OK then Some a else None, w')"
      "sub_map L w' = (sub_map L w)((key, fmt_016llx (mSubUid (tport w) + 1)) \<mapsto> a)" "sub_store w' = (sub_store w)(a \<mapsto> sb)"
      "mIsNotMuted sb = 1" "st = (if env (zcalls w @ [Wlock_lock (mLock (mZmqControlPub (tport w)))])
              (Zmq_send (mSocket (mZmqControlPub (tport w))) (cmd_bytes (CHR ''S'') (cmd_junk m) key)) \<le> 0
           then MAMA_STATUS_PLATFORM else MAMA_STATUS_OK)" by blast
  have "sub_map L w' (key, fmt_016llx (mSubUid (tport w) + 1)) = Some a" unfolding c(2) by simp
  moreover have "st = MAMA_STATUS_PLATFORM" using c(5) assms(6) by simp
  ultimately show ?thesis using c(1,3,4) by auto
qed

theorem failed_subscription_stays_registered_witness:
  "\<exists>w'. zmqBridgeMamaSubscription_create demo_lib (\<lambda>h c. - 1) demo_stack True 7 (Some ()) (Some 0) True (Some ''OZ'') (Some ''A'')
       (Some 0) None None (Some 3) None demo_proc = Some (MAMA_STATUS_PLATFORM, None, w') \<and>
     sub_map demo_lib w' (''OZ.A'', fmt_016llx (mSubUid (tport demo_proc) + 1)) = Some 7"
proof -
  have "sub_store demo_proc 7 = None" "queue_ptr_ok demo_proc (Some 0)" "mSubUid (tport demo_proc) + 1 \<noteq> 0"
    by (simp_all add: demo_proc_def queue_ptr_ok_def demo_tport_def)
  moreover have "\<forall>h s b. (\<lambda>(h::zworld) (c::zcall). - 1 :: int) h (Zmq_send s b) \<le> 0" by simp
  ultimately show ?thesis
    using failed_subscription_stays_registered[OF fresh_proc_ok[OF demo_fresh] _ _ _ demo_key, of 7 "Some 0" "\<lambda>h c. - 1" 0 None None 3 None] by blast
qed

end
