(* ===== verification/Request_Reply.thy ===== *)
theory Request_Reply
  imports Publisher Bridge_Safety
begin

text \<open>
  A request and its reply, across two processes: the publisher of one sends a request from an inbox, the
  subscription callback of the other receives it and answers, and the callback of the inbox
  receives the answer. The lemmas here follow one frame through one step each.
\<close>

subsection \<open>Sending\<close>

text \<open>A message whose payload MAMA gives out, and a ZeroMQ message that can be allocated.\<close>

definition sends_ok :: "send_lib \<Rightarrow> nat \<Rightarrow> bytes \<Rightarrow> bool" where
  "sends_ok S m p \<longleftrightarrow> mamaMsg_getByteBuffer S m = (MAMA_STATUS_OK, p) \<and> p \<noteq> [] \<and> length p < 2 ^ 31 \<and> msg_init_size_rc S = 0 \<and>
     (\<forall>n. length (msg_init_size_data S n) = n)"

text \<open>What a process has sent: one frame on its data socket, under the lock of the socket.\<close>

definition sent :: "('t, 'u, 'p, 'l) oz_proc \<Rightarrow> ('t, 'u, 'p, 'l) oz_proc \<Rightarrow> bytes \<Rightarrow> bool" where
  "sent w w' frame \<longleftrightarrow> (let sk = mZmqDataPub (tport w) in
     w' = w\<lparr>zcalls := zcalls w @ [Wlock_lock (mLock sk), Zmq_msg_send (mSocket sk) frame, Wlock_unlock (mLock sk)]\<rparr>)"

lemma sendSubject_sent:
  assumes S: "sends_ok S m p" and L: "wmStrSizeCpy_ok (wmStrSizeCpy L)" and pub: "pb_mTransport pub = Some ()"
    and env: "\<forall>z c. 0 \<le> env z c" and b: "msg_mParent b = None"
    and subj: "(case subject of None \<Rightarrow> pb_mSubject pub | Some s \<Rightarrow> Some s) = Some subj" "length subj \<le> 256"
  shows "\<exists>w'. zmqBridgeMamaPublisherImpl_sendSubject L S env stack (Some pub) (Some m) (Some b) subject w = Some (MAMA_STATUS_OK, w') \<and>
     sent w w' (app_frame subj (mMsgType b) (wire_reply b) p)"
proof -
  let ?b = "b\<lparr>mSendSubject := subj\<rparr>"
  have wm: "wmStrSizeCpy L (MAX_SUBJECT_LENGTH + 1) subj = (length subj, subj)"
    using L[unfolded wmStrSizeCpy_ok_def, rule_format, of MAX_SUBJECT_LENGTH subj] subj(2) by (simp add: oz_sizes)
  have "snd (zmqBridgeMamaMsg_setSendSubject (wmStrSizeCpy L) (mamaMsg_updateString S) (Some b) (Some subj) src) = Some ?b" for src
    unfolding zmqBridgeMamaMsg_setSendSubject_def using wm b by simp
  moreover have "zmqBridgeMamaMsgImpl_serialize (mamaMsg_getByteBuffer S m) (msg_init_size_rc S) (msg_init_size_data S) (Some ?b) =
      Some (MAMA_STATUS_OK, Some (app_frame subj (mMsgType b) (wire_reply b) p))"
    using serialize_frame[of "msg_init_size_data S" p ?b] S by (simp add: sends_ok_def wire_reply_def)
  moreover have "\<not> env z c < 0" for z c using env by (simp add: not_less)
  ultimately show ?thesis using subj(1) pub
    by (cases subject) (simp_all add: zmqBridgeMamaPublisherImpl_sendSubject_def zrun_def sent_def Let_def)
qed

lemma setReplyHandle_eq:
  "length h \<le> ZMQ_REPLYHANDLE_SIZE \<Longrightarrow>
   zmqBridgeMamaMsgImpl_setReplyHandle (Some b) (Some h) = Some (MAMA_STATUS_OK, Some (b\<lparr>mReplyHandle := h\<rparr>))"
  by (simp add: zmqBridgeMamaMsgImpl_setReplyHandle_def strcpy_into_def)

lemma request_sent:
  assumes S: "sends_ok S m p" and L: "wmStrSizeCpy_ok (wmStrSizeCpy L)" and pub: "pb_mTransport pub = Some ()"
    and env: "\<forall>z c. 0 \<le> env z c" and subj: "pb_mSubject pub = Some subj" "length subj \<le> 256"
    and ib: "mamaInboxImpl_getInboxBridge S ibx = Some a" "inbox_store w a = Some ib" "ib_mReplyHandle ib = Some h"
      "length h \<le> ZMQ_REPLYHANDLE_SIZE"
  shows "\<exists>w'. zmqBridgeMamaPublisher_sendFromInbox L S env stack (Some pub) (Some ibx) (Some m) w = Some (MAMA_STATUS_OK, w') \<and>
     sent w w' (app_frame subj ZMQ_MSG_INBOX_REQUEST h p)"
proof -
  let ?b = "(snd (zmqBridgeMamaMsgImpl_init stack))\<lparr>mMsgType := ZMQ_MSG_INBOX_REQUEST, mReplyHandle := h\<rparr>"
  have "zmqBridgeMamaPublisher_sendFromInbox L S env stack (Some pub) (Some ibx) (Some m) w =
      zmqBridgeMamaPublisherImpl_sendSubject L S env stack (Some pub) (Some m) (Some ?b) None w"
    using ib setReplyHandle_eq[OF ib(4)]
    by (simp add: zmqBridgeMamaPublisher_sendFromInbox_def zmqBridgeMamaPublisher_sendFromInboxByIndex_def
        zmqBridgeMamaMsgImpl_setMsgType_def zmqBridgeMamaInboxImpl_getReplyHandle_def)
  moreover have "msg_mParent ?b = None" by (simp add: zmqBridgeMamaMsgImpl_init_def)
  from sendSubject_sent[OF S L pub env this, where subject = None and subj = subj and stack = stack and w = w] subj
  have "\<exists>w'. zmqBridgeMamaPublisherImpl_sendSubject L S env stack (Some pub) (Some m) (Some ?b) None w = Some (MAMA_STATUS_OK, w') \<and>
      sent w w' (app_frame subj ZMQ_MSG_INBOX_REQUEST h p)" by (simp add: wire_reply_def)
  ultimately show ?thesis by simp
qed

lemma reply_sent:
  assumes S: "sends_ok S m p" and L: "wmStrSizeCpy_ok (wmStrSizeCpy L)" and pub: "pb_mTransport pub = Some ()"
    and env: "\<forall>z c. 0 \<le> env z c" and q: "mamaMsgImpl_getBridgeMsg L q = MAMA_STATUS_OK" "bridge_msgs w q = Some b"
    and h: "mReplyHandle b = h" "length h \<le> ZMQ_REPLYHANDLE_SIZE"
  shows "\<exists>w'. zmqBridgeMamaPublisher_sendReplyToInbox L S env stack (Some pub) (Some q) (Some m) w = Some (MAMA_STATUS_OK, w') \<and>
     sent w w' (app_frame h ZMQ_MSG_INBOX_RESPONSE [] p)"
proof -
  let ?b = "(snd (zmqBridgeMamaMsgImpl_init stack))\<lparr>mMsgType := ZMQ_MSG_INBOX_RESPONSE, mReplyHandle := h\<rparr>"
  have "zmqBridgeMamaPublisher_sendReplyToInbox L S env stack (Some pub) (Some q) (Some m) w =
      zmqBridgeMamaPublisherImpl_sendSubject L S env stack (Some pub) (Some m) (Some ?b) (Some h) w"
    using q h(1) setReplyHandle_eq[OF h(2)]
    by (simp add: zmqBridgeMamaPublisher_sendReplyToInbox_def zmqBridgeMamaPublisher_sendReplyToInboxHandle_def
        zmqBridgeMamaMsgImpl_setMsgType_def zmqBridgeMamaMsgImpl_getBridgeMsg_def zmqBridgeMamaMsg_getReplyHandle_def)
  moreover have "msg_mParent ?b = None" by (simp add: zmqBridgeMamaMsgImpl_init_def)
  from sendSubject_sent[OF S L pub env this, where subject = "Some h" and subj = h and stack = stack and w = w] h(2)
  have "\<exists>w'. zmqBridgeMamaPublisherImpl_sendSubject L S env stack (Some pub) (Some m) (Some ?b) (Some h) w = Some (MAMA_STATUS_OK, w') \<and>
      sent w w' (app_frame h ZMQ_MSG_INBOX_RESPONSE [] p)" by (simp add: wire_reply_def msg_types oz_sizes)
  ultimately show ?thesis by simp
qed

subsection \<open>Receiving\<close>

text \<open>The message that a queue caches accepts the payload \<open>p\<close>.\<close>

definition unpacks_ok :: "('t, 'p, 'l) mama_lib \<Rightarrow> ('t, 'u, 'p, 'l) oz_proc \<Rightarrow> voidp \<Rightarrow> nat \<Rightarrow> bytes \<Rightarrow> bool" where
  "unpacks_ok L w queue m p \<longleftrightarrow> mamaQueueImpl_getMsg L queue = Some m \<and> mamaMsgImpl_getBridgeMsg L m = MAMA_STATUS_OK \<and>
     bridge_msgs w m \<noteq> None \<and> mamaMsgImpl_setMsgBuffer L m p (hd p) = MAMA_STATUS_OK"

lemma unpack_frame:
  assumes u: "unpacks_ok L w queue m p" and f: "is_cstring subject" "is_cstring reply" "p \<noteq> []" "length p < 2 ^ 31"
    and t: "type = ZMQ_MSG_INBOX_REQUEST \<and> length reply \<le> ZMQ_REPLYHANDLE_SIZE \<and> h = reply \<or>
      type = ZMQ_MSG_INBOX_RESPONSE \<and> reply = [] \<and> length subject \<le> ZMQ_REPLYHANDLE_SIZE \<and> h = subject"
  shows "\<exists>b. mReplyHandle b = h \<and> mMsgType b = type \<and> unpack_msg L queue (app_frame subject type reply p) w =
     Some (Some m, w\<lparr>bridge_msgs := (bridge_msgs w)(m \<mapsto> b), msg_buffers := (msg_buffers w)(m \<mapsto> p)\<rparr>)"
proof -
  from u obtain b where b: "bridge_msgs w m = Some b" by (auto simp: unpacks_ok_def)
  have "zmqBridgeMamaMsgImpl_deserialize (mamaMsgImpl_setMsgBuffer L m) (Some b) (app_frame subject type reply p) =
      Some (mamaMsgImpl_setMsgBuffer L m p (hd p), Some (b\<lparr>mMsgType := type, mReplyHandle := h\<rparr>), Some (p, hd p))"
    using t by (subst deserialize_frame[OF f]) (auto simp: msg_types)
  with u b show ?thesis
    by (intro exI[of _ "b\<lparr>mMsgType := type, mReplyHandle := h\<rparr>"]) (simp add: unpack_msg_def unpacks_ok_def)
qed

lemma request_received:
  assumes m: "sub_map L w (subj, k) = Some a" "sub_store w a = Some sb" "mIsNotMuted sb = 1"
    and u: "unpacks_ok L w (sb_mMamaQueue sb) q p" "is_cstring subj" "is_cstring h" "p \<noteq> []" "length p < 2 ^ 31" "length h \<le> ZMQ_REPLYHANDLE_SIZE"
  shows "\<exists>b w'. subCallback L (tmsg_for k (app_frame subj ZMQ_MSG_INBOX_REQUEST h p)) w = Some w' \<and>
     app_events w' = app_events w @ [SubscriptionMsg (sb_mMamaSubscription sb) q (Some b) (Some p)] \<and>
     bridge_msgs w' q = Some b \<and> mReplyHandle b = h \<and> zmqBridgeMamaMsg_isFromInbox (Some b)"
proof -
  from unpack_frame[OF u(1-5), of ZMQ_MSG_INBOX_REQUEST h] u(6) obtain b where
    "mReplyHandle b = h" "mMsgType b = ZMQ_MSG_INBOX_REQUEST" "unpack_msg L (sb_mMamaQueue sb) (app_frame subj ZMQ_MSG_INBOX_REQUEST h p) w =
       Some (Some q, w\<lparr>bridge_msgs := (bridge_msgs w)(q \<mapsto> b), msg_buffers := (msg_buffers w)(q \<mapsto> p)\<rparr>)" by auto
  moreover have "cstr_at (app_frame subj ZMQ_MSG_INBOX_REQUEST h p) = Some subj" using u(2) by (simp add: app_frame_def)
  ultimately show ?thesis using m
    by (intro exI[of _ b]) (simp add: subCallback_def tmsg_for_def emit_def zmqBridgeMamaMsg_isFromInbox_def)
qed

lemma reply_received:
  assumes m: "inbox_map L w i = Some a" "inbox_store w a = Some ib" "ib_mReplyHandle ib = Some h" "ib_mMsgCB ib = Some cb"
    and u: "unpacks_ok L w (ib_mMamaQueue ib) q p" "is_cstring h" "p \<noteq> []" "length p < 2 ^ 31" "length h \<le> ZMQ_REPLYHANDLE_SIZE" "h \<noteq> []"
  shows "\<exists>b w'. inboxCallback L (tmsg_for i (app_frame h ZMQ_MSG_INBOX_RESPONSE [] p)) w = Some w' \<and>
     app_events w' = app_events w @ [InboxMsg cb q (ib_mClosure ib) (Some b) (Some p)]"
proof -
  let ?l = "mInboxesLock (tport w)"
  let ?w = "wlock_unlock ?l (wlock_lock ?l w)"
  have w: "inbox_store ?w = inbox_store w" "app_events ?w = app_events w" "unpacks_ok L ?w (ib_mMamaQueue ib) q p"
    using u(1) by (simp_all add: wlock_lock_def wlock_unlock_def unpacks_ok_def)
  from unpack_frame[OF w(3) u(2) _ u(3,4), of "[]" ZMQ_MSG_INBOX_RESPONSE h] u(5) obtain b where
    "mReplyHandle b = h" "unpack_msg L (ib_mMamaQueue ib) (app_frame h ZMQ_MSG_INBOX_RESPONSE [] p) ?w =
       Some (Some q, ?w\<lparr>bridge_msgs := (bridge_msgs ?w)(q \<mapsto> b), msg_buffers := (msg_buffers ?w)(q \<mapsto> p)\<rparr>)" by auto
  with m w u(1,6) show ?thesis
    by (intro exI[of _ b])
      (simp add: inboxCallback_def tmsg_for_def Let_def emit_def zmqBridgeMamaInboxImpl_onMsg_def zmqBridgeMamaMsg_getReplyHandle_def unpacks_ok_def)
qed

subsection \<open>The route of a reply\<close>

lemma frame_inbox_of:
  assumes "length pre = 43" "is_cstring i"
  shows "inbox_of (app_frame (pre @ ''.'' @ i) type reply p) = i"
  using assms by (simp add: inbox_of_def app_frame_def oz_sizes)

lemma reply_route:
  assumes "mInboxSubject (tport w) = ''_INBOX.'' @ uuid" "length (mInboxSubject (tport w)) = 43" "is_cstring i"
    and "inbox_map L w i = Some a" "inbox_store w a = Some ib"
  shows "route L (app_frame (mInboxSubject (tport w) @ ''.'' @ i) type reply p) w =
     [(ib_mZmqQueue ib, zmqBridgeMamaTransportImpl_inboxCallback, tmsg_for i (app_frame (mInboxSubject (tport w) @ ''.'' @ i) type reply p))]"
proof -
  let ?f = "app_frame (mInboxSubject (tport w) @ ''.'' @ i) type reply p"
  have "is_inbox_msg ?f" using assms(1) by (simp add: is_inbox_msg_def app_frame_def ZMQ_REPLYHANDLE_PREFIX_def)
  moreover have "inbox_of ?f = i" by (rule frame_inbox_of[OF assms(2,3)])
  ultimately show ?thesis using assms(4,5) by (simp add: route_def inbox_route_def)
qed

lemma request_not_inbox:
  assumes "is_cstring subj" "take 6 subj \<noteq> ''_INBOX''"
  shows "\<not> is_inbox_msg (app_frame subj type reply p)"
proof -
  let ?f = "app_frame subj type reply p"
  have "take 6 ?f \<noteq> ''_INBOX''"
  proof (cases "6 \<le> length subj")
    case True
    then show ?thesis using assms(2) by (simp add: app_frame_def)
  next
    case False
    then have "NUL \<in> set (take 6 ?f)" by (cases "6 - length subj") (simp_all add: app_frame_def)
    then show ?thesis by auto
  qed
  then show ?thesis by (simp add: is_inbox_msg_def ZMQ_REPLYHANDLE_PREFIX_def numeral_eq_Suc)
qed

text \<open>A receiver that a process has registered.\<close>

definition inbox_at :: "('t, 'p, 'l) mama_lib \<Rightarrow> ('t, 'u, 'p, 'l) oz_proc \<Rightarrow> cstring \<Rightarrow> nat \<Rightarrow> zmqInboxImpl \<Rightarrow> bool" where
  "inbox_at L w i a ib \<longleftrightarrow> proc_ok L w \<and> inbox_map L w i = Some a \<and> inbox_store w a = Some ib \<and>
     take 7 (mInboxSubject (tport w)) = ''_INBOX.'' \<and> is_cstring (mInboxSubject (tport w))"

definition subscriber_at :: "('t, 'p, 'l) mama_lib \<Rightarrow> ('t, 'u, 'p, 'l) oz_proc \<Rightarrow> cstring \<Rightarrow> cstring \<Rightarrow> zmqSubscription \<Rightarrow> bool" where
  "subscriber_at L w subj k sb \<longleftrightarrow> proc_ok L w \<and> (\<exists>a. sub_map L w (subj, k) = Some a \<and> sub_store w a = Some sb) \<and> mIsNotMuted sb = 1"

lemma inbox_at_handle:
  assumes "inbox_at L w i a ib"
  shows "ib_mReplyHandle ib = Some (mInboxSubject (tport w) @ ''.'' @ i)" "length (mInboxSubject (tport w) @ ''.'' @ i) = 60"
    "is_cstring (mInboxSubject (tport w) @ ''.'' @ i)" "is_cstring i" "length (mInboxSubject (tport w)) = 43"
    "\<exists>uuid. mInboxSubject (tport w) = ''_INBOX.'' @ uuid"
proof -
  have b: "inboxes_ok L w" "inbox_map L w i = Some a" "inbox_store w a = Some ib" "take 7 (mInboxSubject (tport w)) = ''_INBOX.''"
    "is_cstring (mInboxSubject (tport w))"
    using assms by (simp_all add: inbox_at_def proc_ok_def)
  from inbox_mapD[OF b(1,2)] b(3) have e: "inbox_entry_ok w i ib" "issued (mInboxUid (tport w)) i" "length i = 16" by auto
  from e(1) show "ib_mReplyHandle ib = Some (mInboxSubject (tport w) @ ''.'' @ i)" by (simp add: inbox_entry_ok_def)
  from issued_length[OF e(2)] show i: "is_cstring i" by simp
  from b(1) show l: "length (mInboxSubject (tport w)) = 43" by (simp add: inboxes_ok_def oz_sizes)
  with e(3) show "length (mInboxSubject (tport w) @ ''.'' @ i) = 60" by simp
  from i b(5) show "is_cstring (mInboxSubject (tport w) @ ''.'' @ i)" by simp
  show "\<exists>uuid. mInboxSubject (tport w) = ''_INBOX.'' @ uuid" using b(4) append_take_drop_id[of 7 "mInboxSubject (tport w)"] by metis
qed

lemma request_routed:
  assumes "subscriber_at L w subj k sb" "is_cstring subj" "take 6 subj \<noteq> ''_INBOX''"
  shows "(sb_mZmqQueue sb, zmqBridgeMamaTransportImpl_subCallback, tmsg_for k (app_frame subj type reply p))
     \<in> set (route L (app_frame subj type reply p) w)"
proof -
  let ?f = "app_frame subj type reply p"
  have "subject_of ?f = subj" using assms(2) by (simp add: subject_of_def app_frame_def)
  moreover from assms(1) obtain a where "proc_ok L w" "sub_map L w (subj, k) = Some a" "sub_store w a = Some sb" "mIsNotMuted sb = 1"
    by (auto simp: subscriber_at_def)
  ultimately show ?thesis using request_not_inbox[OF assms(2,3), of type reply p]
    unfolding route_receivers[OF \<open>proc_ok L w\<close>] is_receiver_def by simp blast
qed

subsection \<open>Two processes\<close>

text \<open>One with an inbox, one with a subscription to \<open>OZ.A\<close>, and a publisher.\<close>

definition demo_inbox :: zmqInboxImpl where
  "demo_inbox = \<lparr>ib_mClosure = Some 8, ib_mMamaQueue = Some 0, ib_mZmqQueue = Some 0, ib_mTransport = Some (), ib_mMsgCB = Some 9,
     ib_mErrCB = None, ib_mOnInboxDestroyed = None, ib_mParent = None,
     ib_mReplyHandle = Some (mInboxSubject demo_tport @ ''.'' @ ''0000000000000001'')\<rparr>"

definition demo_requester ::
  "((cstring \<times> nat) list, (cstring \<times> bytes) list, ((cstring \<times> cstring) \<times> nat) list, nat list) oz_proc" where
  "demo_requester = demo_proc\<lparr>tport := demo_tport\<lparr>mInboxes := [(''0000000000000001'', 5)], mInboxUid := 1\<rparr>,
     inbox_store := [5 \<mapsto> demo_inbox]\<rparr>"

definition demo_sub :: zmqSubscription where
  "demo_sub = \<lparr>sb_mMamaCallback = None, sb_mMamaSubscription = Some 3, sb_mMamaQueue = Some 0, sb_mZmqQueue = Some 0, sb_mClosure = None,
     mIsNotMuted = 1, sb_mIsValid = 1, mIsTportDisconnected = 0, sb_mTransport = Some (), sb_mSubjectKey = Some ''OZ.A'',
     sb_mEndpointIdentifier = Some ''0000000000000001'', mIsWildcard = 0, mOrigRegex = None, mCompRegex = None\<rparr>"

definition demo_replier ::
  "((cstring \<times> nat) list, (cstring \<times> bytes) list, ((cstring \<times> cstring) \<times> nat) list, nat list) oz_proc" where
  "demo_replier = demo_proc\<lparr>tport := demo_tport\<lparr>mSubEndpoints := [((''OZ.A'', ''0000000000000001''), 7)], mSubUid := 1\<rparr>,
     sub_store := [7 \<mapsto> demo_sub]\<rparr>"

definition demo_publisher :: "cstring \<Rightarrow> zmqPublisherBridge" where
  "demo_publisher subject = \<lparr>pb_mTransport = Some (), pb_mTopic = None, pb_mSource = None, pb_mRoot = None, pb_mSubject = Some subject,
     pb_mParent = None, pb_mCallbacks = None, pb_mCallbackClosure = None\<rparr>"

definition demo_send_lib :: "bytes \<Rightarrow> send_lib" where
  "demo_send_lib p = \<lparr>mamaMsg_getByteBuffer = (\<lambda>m. (MAMA_STATUS_OK, p)), mamaMsg_updateString = (\<lambda>m s. MAMA_STATUS_OK),
     mamaInboxImpl_getInboxBridge = (\<lambda>i. Some 5), msg_init_size_rc = 0, msg_init_size_data = (\<lambda>n. replicate n (CHR ''?''))\<rparr>"

lemma issued_1: "issued 1 ''0000000000000001''"
  unfolding issued_def using fmt_1 by (intro exI[of _ 1]) simp

lemma demo_inbox_at: "inbox_at demo_lib demo_requester ''0000000000000001'' 5 demo_inbox"
proof -
  have p: "proc_ok demo_lib demo_proc" by (rule fresh_proc_ok[OF demo_fresh])
  then have "queues_ok demo_requester" by (simp add: proc_ok_def queues_ok_def demo_requester_def)
  moreover have "inboxes_ok demo_lib demo_requester"
    using issued_1 by (auto simp: inboxes_ok_def demo_requester_def demo_lib_def demo_tport_def demo_uuid_def oz_sizes inbox_entry_ok_def
        demo_inbox_def queue_ptr_ok_def demo_proc_def split: if_splits)
  moreover have "subs_ok demo_lib demo_requester" "wcs_ok demo_lib demo_requester"
    by (simp_all add: subs_ok_def wcs_ok_def demo_requester_def demo_lib_def demo_tport_def)
  ultimately have "proc_ok demo_lib demo_requester" using demo_lib_ok by (simp add: proc_ok_def)
  then show ?thesis by (simp add: inbox_at_def demo_requester_def demo_lib_def demo_tport_def demo_uuid_def is_cstring_def)
qed

lemma demo_subscriber_at: "subscriber_at demo_lib demo_replier ''OZ.A'' ''0000000000000001'' demo_sub"
proof -
  have p: "proc_ok demo_lib demo_proc" by (rule fresh_proc_ok[OF demo_fresh])
  then have "queues_ok demo_replier" by (simp add: proc_ok_def queues_ok_def demo_replier_def)
  moreover have "subs_ok demo_lib demo_replier"
    using issued_1 by (auto simp: subs_ok_def demo_replier_def demo_lib_def demo_tport_def sub_entry_ok_def demo_sub_def queue_ptr_ok_def
        demo_proc_def split: if_splits)
  moreover have "inboxes_ok demo_lib demo_replier" "wcs_ok demo_lib demo_replier"
    by (simp_all add: inboxes_ok_def wcs_ok_def demo_replier_def demo_lib_def demo_tport_def demo_uuid_def oz_sizes)
  ultimately have "proc_ok demo_lib demo_replier" using demo_lib_ok by (simp add: proc_ok_def)
  then show ?thesis by (simp add: subscriber_at_def demo_replier_def demo_lib_def demo_tport_def demo_sub_def)
qed

lemma demo_ok:
  "sends_ok (demo_send_lib ''ping'') 1 ''ping''" "sends_ok (demo_send_lib ''pong'') 2 ''pong''"
  "unpacks_ok demo_lib demo_replier (sb_mMamaQueue demo_sub) 0 ''ping''" "unpacks_ok demo_lib demo_requester (ib_mMamaQueue demo_inbox) 0 ''pong''"
  "\<forall>z c. 0 \<le> demo_env z c"
  by (simp_all add: sends_ok_def demo_send_lib_def unpacks_ok_def demo_lib_def demo_replier_def demo_requester_def demo_proc_def
      demo_env_def split: zcall.splits)

end
