(* ===== verification/Params.thy ===== *)
theory Params
  imports Complex_Main Bridge_State
begin

text \<open>
  The configuration of a transport, \<open>src/src/params.c\<close>: parameters are read from the MAMA
  properties by name, converted, and bounded from below.

  The properties are an argument, a function from names to values. A \<open>double\<close> is modelled by the
  rational number it denotes, without rounding; \<open>atof\<close> is an argument.
\<close>

subsection \<open>Conversions of the C library\<close>

definition digit_char :: "nat \<Rightarrow> char" where
  "digit_char n = char_of (48 + n)"

fun dec_of :: "nat \<Rightarrow> cstring" where
  "dec_of n = (if n < 10 then [digit_char n] else dec_of (n div 10) @ [digit_char (n mod 10)])"

declare dec_of.simps [simp del]

text \<open>\<open>%d\<close> and \<open>%lld\<close>; \<open>%f\<close>, with six decimals.\<close>

definition fmt_d :: "int \<Rightarrow> cstring" where
  "fmt_d n = (if n < 0 then CHR ''-'' # dec_of (nat (- n)) else dec_of (nat n))"

definition fmt_f :: "rat \<Rightarrow> cstring" where
  "fmt_f r = (let n = nat (round (\<bar>r\<bar> * 1000000)); f = dec_of (n mod 1000000)
     in (if r < 0 then ''-'' else '''') @ dec_of (n div 1000000) @ ''.'' @ replicate (6 - length f) (CHR ''0'') @ f)"

text \<open>
  \<open>atoi\<close> and \<open>atoll\<close>: leading white space, an optional sign, decimal digits; anything else ends
  the number, and no digits give zero. A value that the type cannot hold is undefined.
\<close>

definition is_space :: "char \<Rightarrow> bool" where
  "is_space c \<longleftrightarrow> c = CHR '' '' \<or> (9 \<le> (of_char c :: nat) \<and> (of_char c :: nat) \<le> 13)"

definition is_digit :: "char \<Rightarrow> bool" where
  "is_digit c \<longleftrightarrow> 48 \<le> (of_char c :: nat) \<and> (of_char c :: nat) \<le> 57"

definition digits_val :: "cstring \<Rightarrow> nat" where
  "digits_val s = foldl (\<lambda>n c. 10 * n + (of_char c - 48)) 0 (takeWhile is_digit s)"

definition str_to_int :: "cstring \<Rightarrow> int" where
  "str_to_int s =
     (case dropWhile is_space s of
        [] \<Rightarrow> 0
      | c # t \<Rightarrow> if c = CHR ''-'' then - int (digits_val t)
                else if c = CHR ''+'' then int (digits_val t)
                else int (digits_val (c # t)))"

definition atoi :: "cstring \<Rightarrow> int option" where
  "atoi s = (let n = str_to_int s in if - (2 ^ 31) \<le> n \<and> n < 2 ^ 31 then Some n else None)"

definition atoll :: "cstring \<Rightarrow> int option" where
  "atoll s = (let n = str_to_int s in if - (2 ^ 63) \<le> n \<and> n < 2 ^ 63 then Some n else None)"

text \<open>The conversions of a \<open>double\<close> to \<open>int\<close> and to \<open>uint32_t\<close> cut the fraction off.\<close>

definition rat_trunc :: "rat \<Rightarrow> int" where
  "rat_trunc r = (if r < 0 then - \<lfloor>- r\<rfloor> else \<lfloor>r\<rfloor>)"

definition to_int :: "rat \<Rightarrow> int option" where
  "to_int r = (let n = rat_trunc r in if - (2 ^ 31) \<le> n \<and> n < 2 ^ 31 then Some n else None)"

definition to_uint32 :: "rat \<Rightarrow> 32 word option" where
  "to_uint32 r = (let n = rat_trunc r in if 0 \<le> n \<and> n < 2 ^ 32 then Some (word_of_int n) else None)"

text \<open>\<open>tolower\<close> in the C locale, by which names of options are compared.\<close>

definition to_lower :: "char \<Rightarrow> char" where
  "to_lower c = (if 65 \<le> (of_char c :: nat) \<and> (of_char c :: nat) \<le> 90 then char_of (of_char c + 32 :: nat) else c)"

subsection \<open>Reading one parameter\<close>

type_synonym properties = "cstring \<Rightarrow> cstring option"

definition PARAM_NAME_MAX_LENGTH :: nat where "PARAM_NAME_MAX_LENGTH = 1024"
definition TPORT_PARAM_PREFIX :: cstring where "TPORT_PARAM_PREFIX = ''mama.zmq.transport''"

text \<open>\<open>fmt\<close> is the expansion of the format with its arguments.\<close>

definition zmqBridgeMamaTransportImpl_getParameterWithVaList ::
  "properties \<Rightarrow> cstring option \<Rightarrow> cstring \<Rightarrow> cstring option" where
  "zmqBridgeMamaTransportImpl_getParameterWithVaList props defaultVal fmt =
     (let paramName = take (PARAM_NAME_MAX_LENGTH - 1) fmt
      in case props paramName of None \<Rightarrow> defaultVal | Some property \<Rightarrow> Some property)"

definition zmqBridgeMamaTransportImpl_getParameter :: "properties \<Rightarrow> cstring option \<Rightarrow> cstring \<Rightarrow> cstring option" where
  "zmqBridgeMamaTransportImpl_getParameter props defaultVal fmt =
     zmqBridgeMamaTransportImpl_getParameterWithVaList props defaultVal fmt"

definition param_name :: "cstring \<Rightarrow> cstring \<Rightarrow> cstring" where
  "param_name name property = TPORT_PARAM_PREFIX @ ''.'' @ name @ ''.'' @ property"

definition getInt :: "properties \<Rightarrow> cstring \<Rightarrow> cstring \<Rightarrow> int \<Rightarrow> int \<Rightarrow> int option" where
  "getInt props name property defaultValue minValue = do {
     result \<leftarrow> zmqBridgeMamaTransportImpl_getParameter props (Some (fmt_d defaultValue)) (param_name name property);
     temp \<leftarrow> atoi result;
     let temp = (if 0 \<le> minValue \<and> temp < 0 then 0 else temp);
     Some (if 0 < temp \<and> temp < minValue then minValue else temp)
   }"

definition getLong :: "properties \<Rightarrow> cstring \<Rightarrow> cstring \<Rightarrow> int \<Rightarrow> int \<Rightarrow> int option" where
  "getLong props name property defaultValue minValue = do {
     result \<leftarrow> zmqBridgeMamaTransportImpl_getParameter props (Some (fmt_d defaultValue)) (param_name name property);
     temp \<leftarrow> atoll result;
     let temp = (if 0 \<le> minValue \<and> temp < 0 then 0 else temp);
     Some (if temp < minValue then minValue else temp)
   }"

definition getFloat :: "(cstring \<Rightarrow> rat) \<Rightarrow> properties \<Rightarrow> cstring \<Rightarrow> cstring \<Rightarrow> rat \<Rightarrow> rat \<Rightarrow> rat option" where
  "getFloat atof props name property defaultValue minValue = do {
     result \<leftarrow> zmqBridgeMamaTransportImpl_getParameter props (Some (fmt_f defaultValue)) (param_name name property);
     let temp = atof result;
     let temp = (if 0 \<le> minValue \<and> temp < 0 then 0 else temp);
     Some (if temp < minValue then minValue else temp)
   }"

definition getStr :: "properties \<Rightarrow> cstring \<Rightarrow> cstring \<Rightarrow> cstring option \<Rightarrow> cstring option" where
  "getStr props name property defaultValue =
     zmqBridgeMamaTransportImpl_getParameter props defaultValue (param_name name property)"

subsection \<open>The parameters of a transport\<close>

text \<open>
  Constants of MAMA and ZeroMQ that serve as default values: \<open>ZMQ_RECONNECT_STOP_CONN_REFUSED\<close> and the
  log levels \<open>OFF\<close>, \<open>NORMAL\<close> and \<open>FINER\<close>.
\<close>

record param_consts =
  pc_conn_refused :: int
  pc_level_off :: int
  pc_level_normal :: int
  pc_level_finer :: int

text \<open>The global variables \<open>log_level_beacon\<close>, \<open>log_level_naming\<close> and \<open>log_level_inbox\<close>.\<close>

record log_levels =
  log_level_beacon :: int
  log_level_naming :: int
  log_level_inbox :: int

definition zmqBridgeMamaTransportImpl_parseCommonParams ::
  "(cstring \<Rightarrow> rat) \<Rightarrow> param_consts \<Rightarrow> properties \<Rightarrow> ('t, 'u, 'p, 'l) zmqTransportBridge
     \<Rightarrow> (('t, 'u, 'p, 'l) zmqTransportBridge \<times> log_levels) option" where
  "zmqBridgeMamaTransportImpl_parseCommonParams atof k props impl = do {
     let name = t_mName impl;
     reconnect \<leftarrow> getFloat atof props name ''reconnect_interval'' 10 0;
     reconnect \<leftarrow> to_int (reconnect * 1000);
     heartbeat \<leftarrow> getFloat atof props name ''heartbeat_interval'' 10 0;
     heartbeat \<leftarrow> to_int (heartbeat * 1000);
     monitor \<leftarrow> getInt props name ''socket_monitor'' 1 0;
     naming \<leftarrow> getInt props name ''is_naming'' 1 0;
     address \<leftarrow> getStr props name ''publish_address'' (Some ''127.0.0.1'');
     refresh \<leftarrow> getInt props name ''disable_refresh'' 1 0;
     stop \<leftarrow> getInt props name ''reconnect_stop'' (pc_conn_refused k) 0;
     beacon \<leftarrow> getInt props name ''log_level_beacon'' (pc_level_finer k) (pc_level_off k);
     lnaming \<leftarrow> getInt props name ''log_level_naming'' (pc_level_normal k) (pc_level_off k);
     linbox \<leftarrow> getInt props name ''log_level_inbox'' (pc_level_finer k) (pc_level_off k);
     Some (impl\<lparr>mReconnectInterval := reconnect, mHeartbeatInterval := heartbeat, mSocketMonitor := monitor, mIsNaming := naming,
         mPublishAddress := address, mDisableRefresh := refresh, mReconnectOptions := stop\<rparr>,
       \<lparr>log_level_beacon = beacon, log_level_naming = lnaming, log_level_inbox = linbox\<rparr>)
   }"

text \<open>\<open>sprintf\<close> of an endpoint into an array of \<open>ZMQ_MAX_ENDPOINT_LENGTH + 1 = 257\<close> bytes.\<close>

definition tcp_endpoint :: "cstring \<Rightarrow> cstring \<Rightarrow> cstring option" where
  "tcp_endpoint address port = (let e = ''tcp://'' @ address @ '':'' @ port in if length e < 257 then Some e else None)"

text \<open>The second and third naming server; \<open>i\<close> is the index, \<open>sfx\<close> the suffix of the properties.\<close>

definition extra_naming_address ::
  "properties \<Rightarrow> nat \<Rightarrow> cstring \<Rightarrow> ('t, 'u, 'p, 'l) zmqTransportBridge \<Rightarrow> ('t, 'u, 'p, 'l) zmqTransportBridge option" where
  "extra_naming_address props i sfx impl =
     (case getStr props (t_mName impl) (''naming.subscribe_address'' @ sfx) None of
        None \<Rightarrow> Some impl
      | Some address \<Rightarrow> do {
          port \<leftarrow> getInt props (t_mName impl) (''naming.subscribe_port'' @ sfx) 0 0;
          if 0 < port then do {
            endpoint \<leftarrow> tcp_endpoint address (fmt_d port);
            Some (impl\<lparr>mNamingAddress := (mNamingAddress impl)[i := Some endpoint]\<rparr>)
          }
          else Some impl
        })"

definition zmqBridgeMamaTransportImpl_parseNamingParams ::
  "(cstring \<Rightarrow> rat) \<Rightarrow> properties \<Rightarrow> ('t, 'u, 'p, 'l) zmqTransportBridge \<Rightarrow> ('t, 'u, 'p, 'l) zmqTransportBridge option" where
  "zmqBridgeMamaTransportImpl_parseNamingParams atof props impl = do {
     let name = t_mName impl;
     wait \<leftarrow> getInt props name ''naming.wait_for_connect'' 1 0;
     interval \<leftarrow> getFloat atof props name ''naming.connect_interval'' (1 / 10) (1 / 10);
     interval \<leftarrow> to_int (interval * 1000000);
     retries \<leftarrow> getInt props name ''naming.connect_retries'' 100 10;
     beacon \<leftarrow> getFloat atof props name ''naming.beacon_interval'' 1 0;
     beacon \<leftarrow> to_uint32 (beacon * 1000);
     let impl = impl\<lparr>mNamingWaitForConnect := wait, mNamingConnectInterval := interval, mNamingConnectRetries := retries,
       mBeaconInterval := beacon\<rparr>;
     address \<leftarrow> (case getStr props name ''naming.subscribe_address'' None of
                  None \<Rightarrow> getStr props name ''naming.subscribe_address_0'' (Some ''127.0.0.1'')
                | Some a \<Rightarrow> Some a);
     port \<leftarrow> getInt props name ''naming.subscribe_port'' 0 0;
     port \<leftarrow> (if port = 0 then getInt props name ''naming.subscribe_port_0'' 5756 0 else Some port);
     endpoint \<leftarrow> tcp_endpoint address (fmt_d port);
     let impl = impl\<lparr>mNamingAddress := (mNamingAddress impl)[0 := Some endpoint]\<rparr>;
     impl \<leftarrow> extra_naming_address props 1 ''_1'' impl;
     extra_naming_address props 2 ''_2'' impl
   }"

definition ZMQ_MAX_NAMING_URIS :: nat where "ZMQ_MAX_NAMING_URIS = 8"
definition ZMQ_MAX_INCOMING_URIS :: nat where "ZMQ_MAX_INCOMING_URIS = 512"
definition ZMQ_MAX_OUTGOING_URIS :: nat where "ZMQ_MAX_OUTGOING_URIS = 512"

text \<open>
  The loop over \<open>url_0\<close>, \<open>url_1\<close> and so on ends at the first index without a property. A store past
  the end of the array is undefined, so the loop ends in any case.
\<close>

function parse_uris :: "properties \<Rightarrow> cstring \<Rightarrow> nat \<Rightarrow> cstring option list \<Rightarrow> cstring option list option" where
  "parse_uris props url uri_index arr =
     (case zmqBridgeMamaTransportImpl_getParameter props None (url @ ''_'' @ fmt_d (int uri_index)) of
        None \<Rightarrow> Some arr
      | Some uri \<Rightarrow>
          if uri_index < length arr then parse_uris props url (uri_index + 1) (arr[uri_index := Some uri]) else None)"
  by pat_completeness auto
termination
  by (relation "measure (\<lambda>(props, url, i, arr). length arr - i)") auto

declare parse_uris.simps [simp del]

definition DEFAULT_SUB_OUTGOING_URL :: cstring where "DEFAULT_SUB_OUTGOING_URL = ''tcp://*:5557''"
definition DEFAULT_SUB_INCOMING_URL :: cstring where "DEFAULT_SUB_INCOMING_URL = ''tcp://127.0.0.1:5556''"
definition DEFAULT_PUB_OUTGOING_URL :: cstring where "DEFAULT_PUB_OUTGOING_URL = ''tcp://*:5556''"
definition DEFAULT_PUB_INCOMING_URL :: cstring where "DEFAULT_PUB_INCOMING_URL = ''tcp://127.0.0.1:5557''"

definition zmqBridgeMamaTransportImpl_parseNonNamingParams ::
  "properties \<Rightarrow> ('t, 'u, 'p, 'l) zmqTransportBridge \<Rightarrow> ('t, 'u, 'p, 'l) zmqTransportBridge option" where
  "zmqBridgeMamaTransportImpl_parseNonNamingParams props impl = do {
     let (mDefIncoming, mDefOutgoing) =
       (if t_mName impl = ''pub'' then (DEFAULT_PUB_INCOMING_URL, DEFAULT_PUB_OUTGOING_URL)
        else (DEFAULT_SUB_INCOMING_URL, DEFAULT_SUB_OUTGOING_URL));
     let in_url = param_name (t_mName impl) ''incoming_url'';
     let out_url = param_name (t_mName impl) ''outgoing_url'';
     let incoming = (mIncomingAddress impl)[0 := zmqBridgeMamaTransportImpl_getParameter props (Some mDefIncoming) in_url];
     incoming \<leftarrow> parse_uris props in_url 0 incoming;
     let outgoing = (mOutgoingAddress impl)[0 := zmqBridgeMamaTransportImpl_getParameter props (Some mDefOutgoing) out_url];
     outgoing \<leftarrow> parse_uris props out_url 0 outgoing;
     Some (impl\<lparr>mIncomingAddress := incoming, mOutgoingAddress := outgoing\<rparr>)
   }"

end
