(* ===== verification/Params_Correct.thy ===== *)
theory Params_Correct
  imports Params
begin

text \<open>
  Printing and reading of numbers are inverse to each other, so an unset parameter has exactly
  its default; which values the bounds admit; and which addresses a transport without naming
  uses.
\<close>

subsection \<open>Numbers\<close>

lemma digit_char_digit: "n < 10 \<Longrightarrow> is_digit (digit_char n) \<and> of_char (digit_char n) = 48 + n"
  by (simp add: is_digit_def digit_char_def)

lemma dec_of_digits: "list_all is_digit (dec_of n)"
proof (induction n rule: dec_of.induct)
  case (1 n)
  then show ?case by (subst dec_of.simps) (auto simp: digit_char_digit)
qed

lemma dec_of_nonempty: "dec_of n \<noteq> []"
  by (subst dec_of.simps) simp

abbreviation dec_step :: "nat \<Rightarrow> char \<Rightarrow> nat" where
  "dec_step \<equiv> (\<lambda>n c. 10 * n + (of_char c - 48))"

lemma dec_of_val: "foldl dec_step 0 (dec_of n) = n"
proof (induction n rule: dec_of.induct)
  case (1 n)
  show ?case
  proof (cases "n < 10")
    case True
    then show ?thesis by (subst dec_of.simps) (simp add: digit_char_digit)
  next
    case False
    with 1 show ?thesis by (subst dec_of.simps) (simp add: digit_char_digit)
  qed
qed

lemma digits_val_dec: "digits_val (dec_of n) = n"
proof -
  have "takeWhile is_digit (dec_of n) = dec_of n" using dec_of_digits[of n] by (simp add: takeWhile_eq_all_conv list_all_iff)
  then show ?thesis by (simp only: digits_val_def dec_of_val)
qed

lemma not_space_digit: "is_digit c \<Longrightarrow> \<not> is_space c \<and> c \<noteq> CHR ''-'' \<and> c \<noteq> CHR ''+''"
  by (auto simp: is_digit_def is_space_def)

lemma str_to_int_fmt: "str_to_int (fmt_d n) = n"
proof (cases "n < 0")
  case True
  then show ?thesis by (simp add: fmt_d_def str_to_int_def is_space_def digits_val_dec)
next
  case False
  obtain c t where d: "dec_of (nat n) = c # t" using dec_of_nonempty by (cases "dec_of (nat n)") auto
  then have "is_digit c" using dec_of_digits[of "nat n"] by simp
  with not_space_digit[of c] False d digits_val_dec[of "nat n"] show ?thesis by (simp add: fmt_d_def str_to_int_def)
qed

lemma atoi_fmt: "- (2 ^ 31) \<le> n \<Longrightarrow> n < 2 ^ 31 \<Longrightarrow> atoi (fmt_d n) = Some n"
  by (simp add: atoi_def str_to_int_fmt)

lemma atoll_fmt: "- (2 ^ 63) \<le> n \<Longrightarrow> n < 2 ^ 63 \<Longrightarrow> atoll (fmt_d n) = Some n"
  by (simp add: atoll_def str_to_int_fmt)

subsection \<open>Addresses\<close>

text \<open>The URIs that the properties give for consecutive indices.\<close>

definition uri_prop :: "properties \<Rightarrow> cstring \<Rightarrow> nat \<Rightarrow> cstring option" where
  "uri_prop props url i = props (take 1023 (url @ ''_'' @ fmt_d (int i)))"

lemma parse_uris_step:
  "parse_uris props url i arr =
     (case uri_prop props url i of None \<Rightarrow> Some arr
      | Some uri \<Rightarrow> if i < length arr then parse_uris props url (i + 1) (arr[i := Some uri]) else None)"
  by (subst parse_uris.simps)
    (simp add: uri_prop_def zmqBridgeMamaTransportImpl_getParameter_def zmqBridgeMamaTransportImpl_getParameterWithVaList_def
      PARAM_NAME_MAX_LENGTH_def Let_def split: option.split)

lemma parse_uris_exact:
  assumes "\<And>j. i \<le> j \<Longrightarrow> j < i + length uris \<Longrightarrow> uri_prop props url j = Some (uris ! (j - i))"
    and "uri_prop props url (i + length uris) = None" "i \<le> length arr"
  shows "parse_uris props url i arr =
     (if i + length uris \<le> length arr then Some (take i arr @ map Some uris @ drop (i + length uris) arr) else None)"
  using assms
proof (induction uris arbitrary: i arr)
  case Nil
  then show ?case by (subst parse_uris_step) simp
next
  case (Cons u uris)
  have u: "uri_prop props url i = Some u" using Cons.prems(1)[of i] by simp
  show ?case
  proof (cases "i < length arr")
    case False
    then show ?thesis by (subst parse_uris_step) (simp add: u)
  next
    case True
    have "uri_prop props url j = Some (uris ! (j - (i + 1)))" if "i + 1 \<le> j" "j < i + 1 + length uris" for j
    proof -
      from that have "j - i = Suc (j - (i + 1))" by simp
      with Cons.prems(1)[of j] that show ?thesis by simp
    qed
    from Cons.IH[of "i + 1" "arr[i := Some u]", OF this] Cons.prems(2) True
    have "parse_uris props url (i + 1) (arr[i := Some u]) =
        (if i + 1 + length uris \<le> length arr
         then Some (take (i + 1) (arr[i := Some u]) @ map Some uris @ drop (i + 1 + length uris) (arr[i := Some u])) else None)"
      by simp
    with True u show ?thesis by (subst parse_uris_step) (simp add: take_Suc_conv_app_nth)
  qed
qed

subsection \<open>Parameters that are not set\<close>

lemma getParameter_unset:
  "props (take 1023 (param_name name property)) = None \<Longrightarrow> zmqBridgeMamaTransportImpl_getParameter props v (param_name name property) = v"
  by (simp add: zmqBridgeMamaTransportImpl_getParameter_def zmqBridgeMamaTransportImpl_getParameterWithVaList_def PARAM_NAME_MAX_LENGTH_def)

lemma getInt_unset:
  "props (take 1023 (param_name name property)) = None \<Longrightarrow> 0 \<le> d \<Longrightarrow> d < 2 ^ 31 \<Longrightarrow> 0 \<le> m \<Longrightarrow>
   getInt props name property d m = Some (if 0 < d \<and> d < m then m else d)"
  by (simp add: getInt_def getParameter_unset atoi_fmt)

lemma getLong_unset:
  "props (take 1023 (param_name name property)) = None \<Longrightarrow> 0 \<le> d \<Longrightarrow> d < 2 ^ 63 \<Longrightarrow> 0 \<le> m \<Longrightarrow>
   getLong props name property d m = Some (if d < m then m else d)"
  by (simp add: getLong_def getParameter_unset atoll_fmt)

lemma getStr_unset: "props (take 1023 (param_name name property)) = None \<Longrightarrow> getStr props name property v = v"
  by (simp add: getStr_def getParameter_unset)

subsection \<open>Properties\<close>

text \<open>
  A parameter that is not set has its default. The default is printed to a string and read
  back like a configured value; for every default that the type can hold the result is that number, raised to the
  minimum where it is below it.
\<close>

theorem unset_parameter_has_default:
  assumes "props (take 1023 (param_name name property)) = None" "0 \<le> d" "0 \<le> m"
  shows "(d < 2 ^ 31 \<longrightarrow> getInt props name property d m = Some (if 0 < d \<and> d < m then m else d)) \<and>
     (d < 2 ^ 63 \<longrightarrow> getLong props name property d m = Some (if d < m then m else d)) \<and>
     getStr props name property dflt = dflt"
  using assms by (simp add: getInt_unset getLong_unset getStr_unset)

theorem unset_parameter_has_default_witness:
  "getInt (\<lambda>n. None) ''oz'' ''naming.connect_retries'' 100 10 = Some 100 \<and>
   getLong (\<lambda>n. None) ''oz'' ''x'' 5 10 = Some 10"
  using unset_parameter_has_default[of "\<lambda>n. None" "''oz''" "''naming.connect_retries''" 100 10 None]
    unset_parameter_has_default[of "\<lambda>n. None" "''oz''" "''x''" 5 10 None]
  by simp



text \<open>
  C29. The addresses of a transport without naming: the properties with the consecutive suffixes
  \<open>_0\<close> to \<open>_n-1\<close> fill the array from its start, whatever else is configured, and the rest of the
  array stays as it was; the loop ends at the first missing suffix. With more than 512 of them it writes past
  the end of the array.
\<close>

theorem configured_uris:
  assumes "length arr = 512" "\<forall>j < length uris. uri_prop props url j = Some (uris ! j)" "uri_prop props url (length uris) = None"
  shows "parse_uris props url 0 arr =
     (if length uris \<le> 512 then Some (map Some uris @ drop (length uris) arr) else None)"
  using parse_uris_exact[of 0 uris props url arr] assms by simp

theorem configured_uris_witness:
  "parse_uris [''u_0'' \<mapsto> ''tcp://a:1'', ''u_1'' \<mapsto> ''tcp://b:2''] ''u'' 0 (replicate 512 None) =
     Some (map Some [''tcp://a:1'', ''tcp://b:2''] @ replicate 510 None)"
proof -
  have f: "fmt_d 0 = ''0''" "fmt_d 1 = ''1''" "fmt_d 2 = ''2''" by code_simp+
  show ?thesis
    using configured_uris[of "replicate 512 None" "[''tcp://a:1'', ''tcp://b:2'']" "[''u_0'' \<mapsto> ''tcp://a:1'', ''u_1'' \<mapsto> ''tcp://b:2'']" "''u''"]
    by (simp add: uri_prop_def f less_Suc_eq)
qed

end
