(* ===== verification/Ws_Topic.thy ===== *)
theory Ws_Topic
  imports Params_Correct
begin

text \<open>
  Topics and command lines of the example library, \<open>src/examples/ozimpl.cpp\<close>: the conversion of a
  hierarchical topic to a regular expression, and the options of the example programs.

  A \<open>std::string\<close> is a list of characters; a member function that throws is undefined here.
\<close>

subsection \<open>Strings\<close>

text \<open>\<open>find("*", q)\<close>, \<open>rfind("/.")\<close> and the value of a position as a \<open>size_t\<close>, where none is \<open>npos\<close>.\<close>

definition find_star :: "cstring \<Rightarrow> nat \<Rightarrow> nat option" where
  "find_star s q = (let n = length (takeWhile (\<lambda>c. c \<noteq> CHR ''*'') (drop q s)) in if q + n < length s then Some (q + n) else None)"

fun rfind_slash_dot :: "cstring \<Rightarrow> nat option" where
  "rfind_slash_dot [] = None"
| "rfind_slash_dot (c # s) =
     (case rfind_slash_dot s of
        Some i \<Rightarrow> Some (Suc i)
      | None \<Rightarrow> if c = CHR ''/'' \<and> s \<noteq> [] \<and> hd s = CHR ''.'' then Some 0 else None)"

definition npos :: "64 word" where "npos = - 1"

definition size_of :: "nat option \<Rightarrow> 64 word" where
  "size_of p = (case p of None \<Rightarrow> npos | Some i \<Rightarrow> word_of_nat i)"

subsection \<open>Hierarchical topics\<close>

text \<open>The loop that replaces every star from a position on.\<close>

lemma find_star_Some:
  assumes "find_star s q = Some p"
  shows "q \<le> p" "p < length s" "s ! p = CHR ''*''" "CHR ''*'' \<notin> set (take (p - q) (drop q s))"
proof -
  let ?t = "takeWhile (\<lambda>c. c \<noteq> CHR ''*'') (drop q s)"
  from assms have p: "p = q + length ?t" "p < length s" by (auto simp: find_star_def Let_def split: if_splits)
  then have l: "length ?t < length (drop q s)" by simp
  from p show "q \<le> p" "p < length s" by simp_all
  from nth_length_takeWhile[OF l] p show "s ! p = CHR ''*''" by simp
  have "p - q = length ?t" using p(1) by simp
  then have "take (p - q) (drop q s) = ?t" by (simp only: takeWhile_eq_take[symmetric])
  then show "CHR ''*'' \<notin> set (take (p - q) (drop q s))" by (auto dest: set_takeWhileD)
qed

lemma find_star_None:
  assumes "find_star s q = None"
  shows "CHR ''*'' \<notin> set (drop q s)"
proof
  assume "CHR ''*'' \<in> set (drop q s)"
  from split_list_first[OF this] obtain a b where ab: "drop q s = a @ CHR ''*'' # b" "CHR ''*'' \<notin> set a" by blast
  then have "takeWhile (\<lambda>c. c \<noteq> CHR ''*'') (drop q s) = a" by (auto simp: takeWhile_append)
  moreover have "length (drop q s) = length a + 1 + length b" by (simp add: ab)
  then have "q + length a < length s" by simp
  ultimately show False using assms by (simp add: find_star_def Let_def)
qed

definition replace_star :: "nat \<Rightarrow> cstring \<Rightarrow> cstring" where
  "replace_star p s = take p s @ ''[^/]+'' @ drop (Suc p) s"

lemma count_replace_star:
  assumes "find_star s q = Some p"
  shows "count_list (replace_star p s) (CHR ''*'') < count_list s (CHR ''*'')"
proof -
  have "count_list s (CHR ''*'') = count_list (take p s @ s ! p # drop (Suc p) s) (CHR ''*'')"
    by (rule arg_cong[OF id_take_nth_drop[OF find_star_Some(2)[OF assms]]])
  then show ?thesis using find_star_Some(3)[OF assms] by (simp add: replace_star_def)
qed

function star_loop :: "nat \<Rightarrow> cstring \<Rightarrow> cstring" where
  "star_loop q regex = (case find_star regex q of None \<Rightarrow> regex | Some p \<Rightarrow> star_loop p (replace_star p regex))"
  by pat_completeness auto
termination
  by (relation "measure (\<lambda>(q, s). count_list s (CHR ''*''))") (auto simp: count_replace_star)

declare star_loop.simps [simp del]

text \<open>
  \<open>ws2posix\<close>; \<open>regex\<close> is what the string for the result holds before the call. The comparison of
  positions is one of \<open>size_t\<close> values.
\<close>

definition ws2posix :: "cstring \<Rightarrow> cstring \<Rightarrow> (mama_status \<times> cstring) option" where
  "ws2posix wsTopic regex = do {
     let (status, regex, q) =
       (case find_star wsTopic 0 of
          Some p \<Rightarrow> if p = 0 then (MAMA_STATUS_OK, ''^[^_][^/]*'' @ drop 1 wsTopic, length ''^[^_][^/]*'')
                    else (MAMA_STATUS_OK, ''^'' @ wsTopic, 0)
        | None \<Rightarrow> (MAMA_STATUS_INVALID_ARG, regex @ wsTopic, 0));
     let regex = star_loop q regex;
     let p = size_of (rfind_slash_dot regex);
     if p = word_of_nat (length regex) - 2 then
       if p = 0 then Some (MAMA_STATUS_OK, ''^[^_].*'')
       else if length regex < 2 then None
       else (let regex = take (length regex - 2) regex @ ''.*'' in
             Some (MAMA_STATUS_OK, if hd regex \<noteq> CHR ''^'' then ''^'' @ regex else regex))
     else Some (status, if status = MAMA_STATUS_OK then regex @ ''$'' else regex)
   }"

subsection \<open>What the conversion computes\<close>

text \<open>The reference: every star becomes a group for one level, all at once.\<close>

definition subst_stars :: "cstring \<Rightarrow> cstring" where
  "subst_stars s = concat (map (\<lambda>c. if c = CHR ''*'' then ''[^/]+'' else [c]) s)"

lemma subst_stars_append [simp]: "subst_stars (a @ b) = subst_stars a @ subst_stars b" "subst_stars [] = []"
  by (simp_all add: subst_stars_def)

lemma subst_stars_Cons: "subst_stars (c # s) = (if c = CHR ''*'' then ''[^/]+'' else [c]) @ subst_stars s"
  by (simp add: subst_stars_def)

lemma subst_stars_id: "CHR ''*'' \<notin> set s \<Longrightarrow> subst_stars s = s"
  by (induction s) (auto simp: subst_stars_Cons)

lemma length_subst_stars: "length (subst_stars s) \<le> 5 * length s"
  by (induction s) (auto simp: subst_stars_Cons)

lemma star_loop_eq: "q \<le> length s \<Longrightarrow> star_loop q s = take q s @ subst_stars (drop q s)"
proof (induction q s rule: star_loop.induct)
  case (1 q s)
  show ?case
  proof (cases "find_star s q")
    case None
    with find_star_None[OF None] show ?thesis by (subst star_loop.simps) (simp add: subst_stars_id)
  next
    case (Some p)
    note f = find_star_Some[OF Some]
    have r: "take p (replace_star p s) = take p s" "drop p (replace_star p s) = ''[^/]+'' @ drop (Suc p) s" "p \<le> length (replace_star p s)"
      using f(2) by (simp_all add: replace_star_def)
    have "drop q s = take (p - q) (drop q s) @ drop p s" using f(1) by (metis append_take_drop_id drop_drop le_add_diff_inverse2)
    also have "drop p s = CHR ''*'' # drop (Suc p) s" using f(2,3) by (metis Cons_nth_drop_Suc)
    finally have d: "drop q s = take (p - q) (drop q s) @ CHR ''*'' # drop (Suc p) s" .
    have "subst_stars (drop q s) = take (p - q) (drop q s) @ ''[^/]+'' @ subst_stars (drop (Suc p) s)"
      by (subst d) (simp add: subst_stars_id[OF f(4)] subst_stars_Cons)
    moreover have "take p s = take q s @ take (p - q) (drop q s)" using f(1) by (metis le_add_diff_inverse take_add)
    ultimately show ?thesis using 1(1)[OF Some r(3)] Some r(1,2)
      by (subst star_loop.simps) (simp add: subst_stars_id subst_stars_Cons)
  qed
qed

lemma rfind_bound: "rfind_slash_dot s = Some i \<Longrightarrow> i + 2 \<le> length s \<and> s = take i s @ ''/.'' @ drop (i + 2) s"
proof (induction s arbitrary: i)
  case (Cons c s)
  show ?case
  proof (cases "rfind_slash_dot s")
    case None
    with Cons.prems show ?thesis by (cases s) (auto split: if_splits)
  next
    case (Some k)
    with Cons.IH[OF Some] Cons.prems show ?thesis by auto
  qed
qed simp

lemma rfind_end: "rfind_slash_dot (t @ ''/.'') = Some (length t)"
  by (induction t) simp_all

lemma unat_nat: "n < 2 ^ 63 \<Longrightarrow> unat (word_of_nat n :: 64 word) = n"
  by (simp add: unat_of_nat)

text \<open>The test for a trailing \<open>/.\<close> also succeeds for every string of one character.\<close>

lemma trailing_test:
  assumes "length s < 2 ^ 63"
  shows "size_of (rfind_slash_dot s) = word_of_nat (length s) - 2 \<longleftrightarrow> length s = 1 \<or> (\<exists>t. s = t @ ''/.'')"
proof -
  consider "length s = 0" | "length s = 1" | "2 \<le> length s" by linarith
  then show ?thesis
  proof cases
    case 2
    then obtain c where "s = [c]" by (cases s) auto
    then show ?thesis by (simp add: size_of_def npos_def)
  next
    case 3
    have w: "word_of_nat (length s) - 2 = (word_of_nat (length s - 2) :: 64 word)" using 3 by (simp add: of_nat_diff)
    show ?thesis
    proof (cases "rfind_slash_dot s")
      case None
      have "(word_of_nat (length s - 2) :: 64 word) \<noteq> - 1"
      proof
        assume "(word_of_nat (length s - 2) :: 64 word) = - 1"
        then have "unat (word_of_nat (length s - 2) :: 64 word) = unat (- 1 :: 64 word)" by simp
        moreover have "unat (word_of_nat (length s - 2) :: 64 word) = length s - 2" using assms by (simp add: unat_of_nat)
        ultimately show False using assms by (simp add: unsigned_minus_1_eq_mask mask_eq_exp_minus_1)
      qed
      moreover have "\<nexists>t. s = t @ ''/.''" using None rfind_end by fastforce
      ultimately show ?thesis unfolding w None using 3 by (auto simp: size_of_def npos_def)
    next
      case (Some i)
      from rfind_bound[OF Some] have i: "i + 2 \<le> length s" "s = take i s @ ''/.'' @ drop (i + 2) s" by blast+
      have l: "i < 2 ^ 63" "length s - 2 < 2 ^ 63" using i(1) assms by simp_all
      have "size_of (Some i) = word_of_nat (length s - 2) \<longleftrightarrow> i = length s - 2"
      proof
        assume "size_of (Some i) = word_of_nat (length s - 2)"
        then have "unat (word_of_nat i :: 64 word) = unat (word_of_nat (length s - 2) :: 64 word)" by (simp add: size_of_def)
        then show "i = length s - 2" unfolding unat_nat[OF l(1)] unat_nat[OF l(2)] .
      qed (simp add: size_of_def)
      moreover have "i = length s - 2 \<longleftrightarrow> (\<exists>t. s = t @ ''/.'')"
      proof
        assume "i = length s - 2"
        with 3 have "drop (i + 2) s = []" by simp
        with i(2) show "\<exists>t. s = t @ ''/.''" by (metis append.right_neutral)
      next
        assume "\<exists>t. s = t @ ''/.''"
        then show "i = length s - 2" using Some rfind_end by fastforce
      qed
      ultimately show ?thesis unfolding w Some using 3 by auto
    qed
  qed (simp add: size_of_def npos_def)
qed

text \<open>The expression before the end of it is looked at.\<close>

definition ws_body :: "cstring \<Rightarrow> cstring \<Rightarrow> cstring" where
  "ws_body topic regex =
     (if CHR ''*'' \<notin> set topic then subst_stars (regex @ topic)
      else if hd topic = CHR ''*'' then ''^[^_][^/]*'' @ subst_stars (tl topic)
      else ''^'' @ subst_stars topic)"

lemma find_star_0: "find_star t 0 = (if CHR ''*'' \<in> set t then Some (length (takeWhile (\<lambda>c. c \<noteq> CHR ''*'') t)) else None)"
proof (cases "find_star t 0")
  case None
  with find_star_None[OF None] show ?thesis by simp
next
  case (Some p)
  with find_star_Some(2,3)[OF Some] have "CHR ''*'' \<in> set t" by (metis nth_mem)
  with Some show ?thesis by (auto simp: find_star_def Let_def split: if_splits)
qed

lemma star_part:
  assumes "CHR ''*'' \<in> set t"
  shows "length (takeWhile (\<lambda>c. c \<noteq> CHR ''*'') t) = 0 \<longleftrightarrow> hd t = CHR ''*''"
  using assms by (cases t) auto

lemma ws_parts:
  obtains r q where "(case find_star topic 0 of
       Some p \<Rightarrow> if p = 0 then (MAMA_STATUS_OK, ''^[^_][^/]*'' @ drop 1 topic, length ''^[^_][^/]*'') else (MAMA_STATUS_OK, ''^'' @ topic, 0)
     | None \<Rightarrow> (MAMA_STATUS_INVALID_ARG, regex @ topic, 0)) =
       (if CHR ''*'' \<in> set topic then MAMA_STATUS_OK else MAMA_STATUS_INVALID_ARG, r, q)" "star_loop q r = ws_body topic regex"
proof (cases "CHR ''*'' \<in> set topic")
  case False
  then show thesis by (intro that[of "regex @ topic" 0]) (simp_all add: find_star_0 star_loop_eq ws_body_def)
next
  case True
  show thesis
  proof (cases "hd topic = CHR ''*''")
    case h: True
    with True star_part[OF True] show thesis
      by (intro that[of "''^[^_][^/]*'' @ drop 1 topic" "length ''^[^_][^/]*''"]) (simp_all add: find_star_0 star_loop_eq ws_body_def drop_Suc)
  next
    case h: False
    with True star_part[OF True] show thesis
      by (intro that[of "''^'' @ topic" 0]) (simp_all add: find_star_0 star_loop_eq ws_body_def subst_stars_Cons)
  qed
qed

text \<open>
  A hierarchical topic as a regular expression. Replacing the stars one after another gives the same as replacing all of
  them at once. A topic with a star at its start does not match topics with an underscore there, a trailing \<open>/.\<close> stands for the
  whole subtree, and otherwise a topic with a star is anchored at both ends. For a topic without a star the
  result is appended to what the string held before, and an expression of one character throws an exception.
\<close>

theorem ws2posix_eq:
  assumes "5 * (length topic + length regex) + 11 < 2 ^ 63"
  shows "ws2posix topic regex =
    (let body = ws_body topic regex in
     if length body = 1 then None
     else if body = ''/.'' then Some (MAMA_STATUS_OK, ''^[^_].*'')
     else if \<exists>t. body = t @ ''/.'' then
       let r = take (length body - 2) body @ ''.*'' in Some (MAMA_STATUS_OK, if hd r = CHR ''^'' then r else ''^'' @ r)
     else if CHR ''*'' \<in> set topic then Some (MAMA_STATUS_OK, body @ ''$'')
     else Some (MAMA_STATUS_INVALID_ARG, body))"
proof -
  let ?b = "ws_body topic regex"
  have "length (subst_stars (regex @ topic)) \<le> 5 * (length topic + length regex)" "length (subst_stars (tl topic)) \<le> 5 * length topic"
    using length_subst_stars[of "regex @ topic"] length_subst_stars[of "tl topic"] by simp_all
  then have "length ?b < 2 ^ 63" using assms length_subst_stars[of topic] by (auto simp: ws_body_def)
  note test = trailing_test[OF this]
  have zero: "size_of (rfind_slash_dot ?b) = 0 \<longleftrightarrow> ?b = ''/.''" if "\<exists>t. ?b = t @ ''/.''"
  proof -
    from that obtain t where t: "?b = t @ ''/.''" by blast
    have "length t < 2 ^ 63" using \<open>length ?b < 2 ^ 63\<close> t by simp
    then have "(word_of_nat (length t) :: 64 word) = 0 \<longleftrightarrow> t = []"
      by (auto simp: word_of_nat_eq_0_iff dest: dvd_imp_le)
    with t show ?thesis by (simp add: rfind_end size_of_def)
  qed
  let ?s = "if CHR ''*'' \<in> set topic then MAMA_STATUS_OK else MAMA_STATUS_INVALID_ARG"
  obtain r q where rq: "(case find_star topic 0 of
       Some p \<Rightarrow> if p = 0 then (MAMA_STATUS_OK, ''^[^_][^/]*'' @ drop 1 topic, length ''^[^_][^/]*'') else (MAMA_STATUS_OK, ''^'' @ topic, 0)
     | None \<Rightarrow> (MAMA_STATUS_INVALID_ARG, regex @ topic, 0)) = (?s, r, q)" "star_loop q r = ?b"
    by (rule ws_parts)
  let ?p = "size_of (rfind_slash_dot ?b)"
  have eq: "ws2posix topic regex =
     (if ?p = word_of_nat (length ?b) - 2 then
        if ?p = 0 then Some (MAMA_STATUS_OK, ''^[^_].*'') else if length ?b < 2 then None
        else (let r = take (length ?b - 2) ?b @ ''.*'' in Some (MAMA_STATUS_OK, if hd r \<noteq> CHR ''^'' then ''^'' @ r else r))
      else Some (?s, if ?s = MAMA_STATUS_OK then ?b @ ''$'' else ?b))"
    unfolding ws2posix_def rq(1) by (simp only: Let_def prod.case rq(2))
  show ?thesis
  proof (cases "length ?b = 1")
    case True
    then obtain c where "?b = [c]" by (cases ?b) auto
    then show ?thesis unfolding eq by (simp add: size_of_def npos_def)
  next
    case False
    show ?thesis
    proof (cases "\<exists>t. ?b = t @ ''/.''")
      case t: True
      then have "\<not> length ?b < 2" by auto
      with t False test zero[OF t] show ?thesis unfolding eq by (simp add: Let_def)
    next
      case t: False
      then have "?b \<noteq> ''/.''" by auto
      with t False test show ?thesis unfolding eq by simp
    qed
  qed
qed

lemma trailing_iff: "(\<exists>t. s = t @ ''/.'') \<longleftrightarrow> 2 \<le> length s \<and> drop (length s - 2) s = ''/.''"
proof
  assume "2 \<le> length s \<and> drop (length s - 2) s = ''/.''"
  then show "\<exists>t. s = t @ ''/.''" by (metis append_take_drop_id)
qed auto

lemma ws2posix_examples:
  "ws2posix ''a/*/b'' '''' = Some (MAMA_STATUS_OK, ''^a/[^/]+/b$'') \<and> ws2posix ''a/.'' '''' = Some (MAMA_STATUS_OK, ''^a.*'') \<and>
   ws2posix ''a/.'' ''a/.'' = Some (MAMA_STATUS_OK, ''^a/.a.*'') \<and> ws2posix ''a'' '''' = None"
  using ws2posix_eq[of "''a/*/b''" "''''"] ws2posix_eq[of "''a/.''" "''''"] ws2posix_eq[of "''a/.''" "''a/.''"] ws2posix_eq[of "''a''" "''''"]
  by (simp add: ws_body_def subst_stars_def trailing_iff Let_def)

subsection \<open>Command lines\<close>

text \<open>
  \<open>strncasecmp\<close> looks at the first \<open>n\<close> characters, up to the end of a string. The options are compared with the length of
  the argument, so that an argument matches every option that it is a prefix of.
\<close>

definition strncasecmp_eq :: "cstring \<Rightarrow> cstring \<Rightarrow> nat \<Rightarrow> bool" where
  "strncasecmp_eq s t n \<longleftrightarrow> map to_lower (take n (s @ [NUL])) = map to_lower (take n (t @ [NUL]))"

text \<open>
  The loop of the three functions: the argument after the first one that matches. \<open>Some None\<close> is no match; behind
  the last argument is a null pointer, of which no string can be made.
\<close>

fun find_option :: "cstring \<Rightarrow> cstring list \<Rightarrow> cstring option option" where
  "find_option opt [] = Some None"
| "find_option opt (arg # args) =
     (if strncasecmp_eq opt arg (length arg) then (case args of [] \<Rightarrow> None | v # _ \<Rightarrow> Some (Some v))
      else find_option opt args)"

definition cmdLine_getMw :: "cstring list \<Rightarrow> cstring option \<Rightarrow> cstring option" where
  "cmdLine_getMw args env = do {
     r \<leftarrow> find_option ''-m'' args;
     Some (case r of Some v \<Rightarrow> v | None \<Rightarrow> (case env of Some temp \<Rightarrow> temp | None \<Rightarrow> ''zmq''))
   }"

definition cmdLine_getPayload :: "cstring list \<Rightarrow> cstring option \<Rightarrow> cstring option" where
  "cmdLine_getPayload args env = do {
     r \<leftarrow> find_option ''-p'' args;
     Some (case r of Some v \<Rightarrow> v | None \<Rightarrow> (case env of Some temp \<Rightarrow> temp | None \<Rightarrow> ''omnmmsg''))
   }"

definition cmdLine_getTport :: "cstring list \<Rightarrow> cstring option" where
  "cmdLine_getTport args = do { r \<leftarrow> find_option ''-tport'' args; Some (case r of Some v \<Rightarrow> v | None \<Rightarrow> '''') }"

definition cmdLine_getTportSub :: "cstring list \<Rightarrow> cstring option \<Rightarrow> cstring option" where
  "cmdLine_getTportSub args env = do {
     tport \<leftarrow> cmdLine_getTport args;
     Some (if tport = [] then (case env of Some temp \<Rightarrow> temp | None \<Rightarrow> ''oz'') else tport)
   }"

definition cmdLine_getTportPub :: "cstring list \<Rightarrow> cstring option \<Rightarrow> cstring option" where
  "cmdLine_getTportPub args env = do {
     tport \<leftarrow> cmdLine_getTport args;
     Some (if tport = [] then (case env of Some temp \<Rightarrow> temp | None \<Rightarrow> ''oz'') else tport)
   }"

text \<open>\<open>args\<close> are the arguments after the name of the program.\<close>

definition cmdLine_getTopic :: "cstring list \<Rightarrow> cstring \<Rightarrow> cstring" where
  "cmdLine_getTopic args defaultValue =
     (if args = [] then defaultValue
      else if length args = 1 then hd args
      else if take 1 (args ! (length args - 2)) \<noteq> ''-'' then last args else defaultValue)"

lemma to_lower_NUL: "to_lower c = NUL \<longleftrightarrow> c = NUL"
proof (cases "65 \<le> (of_char c :: nat) \<and> (of_char c :: nat) \<le> 90")
  case True
  then have "of_char (to_lower c) \<noteq> (0 :: nat)" "of_char c \<noteq> (0 :: nat)" by (simp_all add: to_lower_def)
  then show ?thesis by auto
qed (auto simp: to_lower_def)

lemma find_option_prefix:
  assumes "is_cstring arg" "is_cstring opt"
  shows "strncasecmp_eq opt arg (length arg) \<longleftrightarrow> length arg \<le> length opt \<and> map to_lower (take (length arg) opt) = map to_lower arg"
proof (cases "length arg \<le> length opt")
  case True
  then show ?thesis by (simp add: strncasecmp_eq_def)
next
  case False
  have "map to_lower (opt @ [NUL]) \<noteq> map to_lower arg"
  proof
    assume eq: "map to_lower (opt @ [NUL]) = map to_lower arg"
    from arg_cong[OF this, of "\<lambda>xs. xs ! length opt"] False have "to_lower NUL = to_lower (arg ! length opt)" by (simp add: nth_append)
    then have "arg ! length opt = NUL" using to_lower_NUL by metis
    with False assms(1) show False by (metis is_cstring_def linorder_not_le nth_mem)
  qed
  with False show ?thesis by (simp add: strncasecmp_eq_def)
qed

text \<open>A single dash is taken for every option.\<close>

lemma dash_is_every_option: "find_option ''-m'' (''-'' # v # args) = Some (Some v)" "find_option ''-tport'' (''-'' # v # args) = Some (Some v)"
  by (simp_all add: strncasecmp_eq_def)

end
