(* ===== verification/Oz_Api.thy ===== *)
theory Oz_Api
  imports Ws_Topic
begin

text \<open>
  The example library, \<open>src/examples/ozimpl.h\<close> and \<open>src/examples/ozimpl.cpp\<close>: a small object-oriented layer over the MAMA
  interface, with connections, sessions, subscribers, publishers, requests, replies and timers.

  Each class is a record, and a pointer to an object is an address in the store of its class. Memory for an object is always
  there, at the address given to its constructor. The functions of MAMA are not part of the program: their status and the
  pointer that they store are given by the environment, and the calls are recorded. A callback of the application's event
  sinks is recorded, too.
\<close>

subsection \<open>Objects\<close>

datatype mama_call =
    Mama_loadBridge cstring
  | Mama_loadPayloadBridge cstring
  | Mama_open
  | Mama_getDefaultEventQueue voidp
  | Mama_startBackgroundEx voidp nat
  | Mama_stop voidp
  | Mama_close
  | MamaTransport_allocate
  | MamaTransport_create voidp cstring voidp
  | MamaTransport_destroy voidp
  | MamaQueue_create voidp
  | MamaQueue_destroyTimedWait voidp int
  | MamaDispatcher_create voidp
  | MamaDispatcher_destroy voidp
  | MamaSubscription_allocate
  | MamaSubscription_createBasic voidp voidp voidp cstring nat
  | MamaSubscription_createBasicWildCard voidp voidp voidp cstring nat
  | MamaSubscription_destroyEx voidp
  | MamaSubscription_deallocate voidp
  | MamaPublisher_create voidp cstring
  | MamaPublisher_send voidp voidp
  | MamaPublisher_sendFromInbox voidp voidp voidp
  | MamaPublisher_sendReplyToInbox voidp voidp voidp
  | MamaInbox_create2 voidp voidp nat
  | MamaInbox_destroy voidp
  | MamaTimer_create2 voidp rat nat
  | MamaTimer_destroy voidp
  | MamaMsg_create
  | MamaMsg_updateString voidp cstring cstring
  | MamaMsg_updateU32 voidp cstring int
  | MamaMsg_getTempCopy voidp
  | MamaMsg_getU32 voidp cstring
  | MamaMsg_copy voidp
  | MamaMsg_destroy voidp

type_synonym menv = "mama_call list \<Rightarrow> mama_call \<Rightarrow> mama_status \<times> nat option"

datatype sink_call =
    OnCreate nat
  | OnSubError nat mama_status
  | OnMsg nat cstring voidp
  | OnReqError nat mama_status
  | OnReply nat voidp
  | OnTimer nat

datatype wcType = WC_unspecified | WC_none | WC_POSIX | WC_WS

record connection =
  co_status :: mama_status
  co_mw :: cstring
  co_payload :: cstring
  co_name :: cstring
  co_bridge :: voidp
  co_queue :: voidp
  co_transport :: voidp
  co_payloadBridge :: voidp
  co_pubs :: "cstring \<Rightarrow> nat option"

record session =
  se_status :: mama_status
  se_pConn :: nat
  se_queue :: voidp
  se_dispatcher :: voidp

record subscriber =
  su_status :: mama_status
  su_pSession :: nat
  su_sub :: voidp
  su_pSink :: bool
  su_topic :: cstring
  su_origTopic :: cstring
  su_wcType :: wcType

record publisher =
  pu_pConn :: nat
  pu_pub :: voidp
  pu_topic :: cstring

text \<open>A semaphore is its count; it has none before it is initialised.\<close>

record request =
  rq_pSession :: nat
  rq_topic :: cstring
  rq_pSink :: bool
  rq_pub :: "nat option"
  rq_inbox :: voidp
  rq_replied :: "nat option"

record timer =
  ti_status :: mama_status
  ti_pSession :: nat
  ti_interval :: rat
  ti_timer :: voidp
  ti_pSink :: bool

text \<open>
  The program: its objects, how many shared pointers each publisher has, the calls of MAMA and of the sinks. A reply
  object only holds its connection.
\<close>

record oz_app =
  conn_heap :: "nat \<Rightarrow> connection option"
  sess_heap :: "nat \<Rightarrow> session option"
  sub_heap :: "nat \<Rightarrow> subscriber option"
  pub_heap :: "nat \<Rightarrow> publisher option"
  req_heap :: "nat \<Rightarrow> request option"
  rep_heap :: "nat \<Rightarrow> nat option"
  tim_heap :: "nat \<Rightarrow> timer option"
  use_count :: "nat \<Rightarrow> nat"
  mama_calls :: "mama_call list"
  sink_calls :: "sink_call list"

definition mama :: "menv \<Rightarrow> mama_call \<Rightarrow> oz_app \<Rightarrow> mama_status \<times> nat option \<times> oz_app" where
  "mama env c w = (let (s, p) = env (mama_calls w) c in (s, p, w\<lparr>mama_calls := mama_calls w @ [c]\<rparr>))"

definition sink :: "sink_call \<Rightarrow> oz_app \<Rightarrow> oz_app" where
  "sink c w = w\<lparr>sink_calls := sink_calls w @ [c]\<rparr>"

text \<open>A pointer argument that the function may store a new value to.\<close>

definition stored :: "nat option \<Rightarrow> voidp \<Rightarrow> voidp" where
  "stored p old = (case p of None \<Rightarrow> old | Some x \<Rightarrow> Some x)"

subsection \<open>Connections\<close>

definition new_connection :: "cstring \<Rightarrow> cstring \<Rightarrow> cstring \<Rightarrow> connection" where
  "new_connection mw payload name =
     \<lparr>co_status = MAMA_STATUS_INVALID_ARG, co_mw = mw, co_payload = payload, co_name = name, co_bridge = None, co_queue = None,
      co_transport = None, co_payloadBridge = None, co_pubs = (\<lambda>t. None)\<rparr>"

text \<open>\<open>status_ = f(...)\<close>, where the arguments are taken from the object and a result is stored in it.\<close>

definition conn_call ::
  "menv \<Rightarrow> nat \<Rightarrow> (connection \<Rightarrow> mama_call) \<Rightarrow> (nat option \<Rightarrow> connection \<Rightarrow> connection) \<Rightarrow> oz_app \<Rightarrow> (mama_status \<times> oz_app) option" where
  "conn_call env this call upd w = do {
     c \<leftarrow> conn_heap w this;
     let (s, p, w) = mama env (call c) w;
     Some (s, w\<lparr>conn_heap := (conn_heap w)(this \<mapsto> upd p (c\<lparr>co_status := s\<rparr>))\<rparr>)
   }"

definition connection_start :: "menv \<Rightarrow> nat \<Rightarrow> oz_app \<Rightarrow> (mama_status \<times> oz_app) option" where
  "connection_start env this w =
     CALL_MAMA_FUNC (conn_call env this (\<lambda>c. Mama_loadBridge (co_mw c)) (\<lambda>p. co_bridge_update (stored p)) w) (\<lambda>w.
     CALL_MAMA_FUNC (conn_call env this (\<lambda>c. Mama_loadPayloadBridge (co_payload c)) (\<lambda>p. co_payloadBridge_update (stored p)) w) (\<lambda>w.
     CALL_MAMA_FUNC (conn_call env this (\<lambda>c. Mama_open) (\<lambda>p c. c) w) (\<lambda>w.
     CALL_MAMA_FUNC (conn_call env this (\<lambda>c. Mama_getDefaultEventQueue (co_bridge c)) (\<lambda>p. co_queue_update (stored p)) w) (\<lambda>w.
     CALL_MAMA_FUNC (conn_call env this (\<lambda>c. MamaTransport_allocate) (\<lambda>p. co_transport_update (stored p)) w) (\<lambda>w.
     CALL_MAMA_FUNC (conn_call env this (\<lambda>c. MamaTransport_create (co_transport c) (co_name c) (co_bridge c)) (\<lambda>p c. c) w) (\<lambda>w.
     CALL_MAMA_FUNC (conn_call env this (\<lambda>c. Mama_startBackgroundEx (co_bridge c) this) (\<lambda>p c. c) w) (\<lambda>w.
     Some (MAMA_STATUS_OK, w))))))))"

definition connection_destroy :: "menv \<Rightarrow> nat \<Rightarrow> oz_app \<Rightarrow> (mama_status \<times> oz_app) option" where
  "connection_destroy env this w =
     CALL_MAMA_FUNC (conn_call env this (\<lambda>c. Mama_stop (co_bridge c)) (\<lambda>p c. c) w) (\<lambda>w.
     CALL_MAMA_FUNC (conn_call env this (\<lambda>c. MamaTransport_destroy (co_transport c)) (\<lambda>p c. c) w) (\<lambda>w.
     CALL_MAMA_FUNC (conn_call env this (\<lambda>c. Mama_close) (\<lambda>p c. c) w) (\<lambda>w.
     Some (MAMA_STATUS_OK, w\<lparr>conn_heap := (conn_heap w)(this := None)\<rparr>))))"

definition connection_removePublisher :: "nat \<Rightarrow> cstring \<Rightarrow> oz_app \<Rightarrow> oz_app option" where
  "connection_removePublisher this topic w = do {
     c \<leftarrow> conn_heap w this;
     Some (w\<lparr>conn_heap := (conn_heap w)(this \<mapsto> c\<lparr>co_pubs := (co_pubs c)(topic := None)\<rparr>)\<rparr>)
   }"

text \<open>
  The map of a connection holds weak pointers: locking one gives a further shared pointer if there still is one, and
  none otherwise. A new publisher is at \<open>a\<close>.
\<close>

definition weak_lock :: "nat \<Rightarrow> oz_app \<Rightarrow> nat option \<times> oz_app" where
  "weak_lock a w = (if use_count w a = 0 then (None, w) else (Some a, w\<lparr>use_count := (use_count w)(a := use_count w a + 1)\<rparr>))"

definition connection_getPublisher :: "nat \<Rightarrow> nat \<Rightarrow> cstring \<Rightarrow> oz_app \<Rightarrow> (nat option \<times> oz_app) option" where
  "connection_getPublisher a this topic w = do {
     c \<leftarrow> conn_heap w this;
     (case co_pubs c topic of
        Some temp \<Rightarrow> Some (weak_lock temp w)
      | None \<Rightarrow> Some (Some a, w\<lparr>pub_heap := (pub_heap w)(a \<mapsto> \<lparr>pu_pConn = this, pu_pub = None, pu_topic = topic\<rparr>),
          use_count := (use_count w)(a := 1),
          conn_heap := (conn_heap w)(this \<mapsto> c\<lparr>co_pubs := (co_pubs c)(topic \<mapsto> a)\<rparr>)\<rparr>))
   }"

subsection \<open>Publishers\<close>

definition publisher_destroy :: "nat \<Rightarrow> oz_app \<Rightarrow> (mama_status \<times> oz_app) option" where
  "publisher_destroy this w = do {
     p \<leftarrow> pub_heap w this;
     w \<leftarrow> connection_removePublisher (pu_pConn p) (pu_topic p) w;
     Some (MAMA_STATUS_OK, w\<lparr>pub_heap := (pub_heap w)(this := None)\<rparr>)
   }"

text \<open>A shared pointer goes away; the last one calls \<open>publisherDeleter\<close>.\<close>

definition shared_release :: "nat option \<Rightarrow> oz_app \<Rightarrow> oz_app option" where
  "shared_release p w =
     (case p of
        None \<Rightarrow> Some w
      | Some a \<Rightarrow>
          let w = w\<lparr>use_count := (use_count w)(a := use_count w a - 1)\<rparr> in
          if use_count w a = 0 then map_option snd (publisher_destroy a w) else Some w)"

text \<open>The first use of a publisher creates the one of MAMA.\<close>

definition publisher_create :: "menv \<Rightarrow> nat \<Rightarrow> oz_app \<Rightarrow> (mama_status \<times> oz_app) option" where
  "publisher_create env this w = do {
     p \<leftarrow> pub_heap w this;
     if pu_pub p = None then do {
       c \<leftarrow> conn_heap w (pu_pConn p);
       let (s, x, w) = mama env (MamaPublisher_create (co_transport c) (pu_topic p)) w;
       Some (s, w\<lparr>pub_heap := (pub_heap w)(this \<mapsto> p\<lparr>pu_pub := stored x (pu_pub p)\<rparr>)\<rparr>)
     } else Some (MAMA_STATUS_OK, w)
   }"

definition publisher_publish :: "menv \<Rightarrow> nat \<Rightarrow> voidp \<Rightarrow> oz_app \<Rightarrow> (mama_status \<times> oz_app) option" where
  "publisher_publish env this msg w =
     CALL_MAMA_FUNC (publisher_create env this w) (\<lambda>w. do {
       p \<leftarrow> pub_heap w this;
       let (s, _, w) = mama env (MamaPublisher_send (pu_pub p) msg) w;
       Some (s, w)
     })"

definition publisher_sendRequest :: "menv \<Rightarrow> nat \<Rightarrow> voidp \<Rightarrow> voidp \<Rightarrow> oz_app \<Rightarrow> (mama_status \<times> oz_app) option" where
  "publisher_sendRequest env this msg inbox w =
     CALL_MAMA_FUNC (publisher_create env this w) (\<lambda>w. do {
       p \<leftarrow> pub_heap w this;
       let (s, _, w) = mama env (MamaPublisher_sendFromInbox (pu_pub p) inbox msg) w;
       Some (s, w)
     })"

definition publisher_sendReply :: "menv \<Rightarrow> nat \<Rightarrow> voidp \<Rightarrow> voidp \<Rightarrow> oz_app \<Rightarrow> (mama_status \<times> oz_app) option" where
  "publisher_sendReply env this request reply w =
     CALL_MAMA_FUNC (publisher_create env this w) (\<lambda>w. do {
       p \<leftarrow> pub_heap w this;
       let (s, _, w) = mama env (MamaPublisher_sendReplyToInbox (pu_pub p) request reply) w;
       Some (s, w)
     })"

subsection \<open>Sessions\<close>

definition new_session :: "nat \<Rightarrow> session" where
  "new_session pConn = \<lparr>se_status = MAMA_STATUS_INVALID_ARG, se_pConn = pConn, se_queue = None, se_dispatcher = None\<rparr>"

definition sess_call ::
  "menv \<Rightarrow> nat \<Rightarrow> (session \<Rightarrow> mama_call) \<Rightarrow> (nat option \<Rightarrow> session \<Rightarrow> session) \<Rightarrow> oz_app \<Rightarrow> (mama_status \<times> oz_app) option" where
  "sess_call env this call upd w = do {
     x \<leftarrow> sess_heap w this;
     let (s, p, w) = mama env (call x) w;
     Some (s, w\<lparr>sess_heap := (sess_heap w)(this \<mapsto> upd p (x\<lparr>se_status := s\<rparr>))\<rparr>)
   }"

definition session_start :: "menv \<Rightarrow> nat \<Rightarrow> oz_app \<Rightarrow> (mama_status \<times> oz_app) option" where
  "session_start env this w = do {
     x \<leftarrow> sess_heap w this;
     c \<leftarrow> conn_heap w (se_pConn x);
     CALL_MAMA_FUNC (sess_call env this (\<lambda>x. MamaQueue_create (co_bridge c)) (\<lambda>p. se_queue_update (stored p)) w) (\<lambda>w.
     CALL_MAMA_FUNC (sess_call env this (\<lambda>x. MamaDispatcher_create (se_queue x)) (\<lambda>p. se_dispatcher_update (stored p)) w) (\<lambda>w.
     Some (MAMA_STATUS_OK, w)))
   }"

definition session_destroy :: "menv \<Rightarrow> nat \<Rightarrow> oz_app \<Rightarrow> (mama_status \<times> oz_app) option" where
  "session_destroy env this w =
     CALL_MAMA_FUNC (sess_call env this (\<lambda>x. MamaDispatcher_destroy (se_dispatcher x)) (\<lambda>p x. x) w) (\<lambda>w.
     CALL_MAMA_FUNC (sess_call env this (\<lambda>x. MamaQueue_destroyTimedWait (se_queue x) 100) (\<lambda>p x. x) w) (\<lambda>w.
     Some (MAMA_STATUS_OK, w\<lparr>sess_heap := (sess_heap w)(this := None)\<rparr>)))"

text \<open>The transport and the queue that an object of a session uses.\<close>

definition session_ptrs :: "nat \<Rightarrow> oz_app \<Rightarrow> (voidp \<times> voidp) option" where
  "session_ptrs pSession w = do {
     x \<leftarrow> sess_heap w pSession;
     c \<leftarrow> conn_heap w (se_pConn x);
     Some (co_transport c, se_queue x)
   }"

subsection \<open>Subscribers\<close>

definition new_subscriber :: "nat \<Rightarrow> cstring \<Rightarrow> bool \<Rightarrow> wcType \<Rightarrow> subscriber" where
  "new_subscriber pSession topic pSink wc =
     \<lparr>su_status = MAMA_STATUS_INVALID_ARG, su_pSession = pSession, su_sub = None, su_pSink = pSink, su_topic = topic, su_origTopic = '''',
      su_wcType = wc\<rparr>"

definition sub_call ::
  "menv \<Rightarrow> nat \<Rightarrow> (subscriber \<Rightarrow> mama_call) \<Rightarrow> (nat option \<Rightarrow> subscriber \<Rightarrow> subscriber) \<Rightarrow> oz_app \<Rightarrow> (mama_status \<times> oz_app) option" where
  "sub_call env this call upd w = do {
     x \<leftarrow> sub_heap w this;
     let (s, p, w) = mama env (call x) w;
     Some (s, w\<lparr>sub_heap := (sub_heap w)(this \<mapsto> upd p (x\<lparr>su_status := s\<rparr>))\<rparr>)
   }"

text \<open>\<open>strpbrk\<close> with the characters of regular expressions.\<close>

definition has_regex_char :: "cstring \<Rightarrow> bool" where
  "has_regex_char topic \<longleftrightarrow> list_ex (\<lambda>c. c \<in> set ''.^$*+[]'') topic"

text \<open>The two ways to subscribe, with the object as closure.\<close>

definition subscriber_createWildCard :: "menv \<Rightarrow> nat \<Rightarrow> oz_app \<Rightarrow> (mama_status \<times> oz_app) option" where
  "subscriber_createWildCard env this w = do {
     x \<leftarrow> sub_heap w this;
     (transport, queue) \<leftarrow> session_ptrs (su_pSession x) w;
     CALL_MAMA_FUNC (sub_call env this (\<lambda>x. MamaSubscription_createBasicWildCard (su_sub x) transport queue (su_topic x) this) (\<lambda>p x. x) w)
       (\<lambda>w. Some (MAMA_STATUS_OK, w))
   }"

definition subscriber_createBasic :: "menv \<Rightarrow> nat \<Rightarrow> oz_app \<Rightarrow> (mama_status \<times> oz_app) option" where
  "subscriber_createBasic env this w = do {
     x \<leftarrow> sub_heap w this;
     (transport, queue) \<leftarrow> session_ptrs (su_pSession x) w;
     CALL_MAMA_FUNC (sub_call env this (\<lambda>x. MamaSubscription_createBasic (su_sub x) transport queue (su_topic x) this) (\<lambda>p x. x) w)
       (\<lambda>w. Some (MAMA_STATUS_OK, w))
   }"

text \<open>The conversion overwrites the topic, also when it fails.\<close>

definition subscriber_convert :: "nat \<Rightarrow> oz_app \<Rightarrow> (mama_status \<times> oz_app) option" where
  "subscriber_convert this w = do {
     x \<leftarrow> sub_heap w this;
     (s, regex) \<leftarrow> ws2posix (su_origTopic x) (su_topic x);
     Some (s, w\<lparr>sub_heap := (sub_heap w)(this \<mapsto> x\<lparr>su_topic := regex\<rparr>)\<rparr>)
   }"

definition subscriber_start :: "menv \<Rightarrow> nat \<Rightarrow> oz_app \<Rightarrow> (mama_status \<times> oz_app) option" where
  "subscriber_start env this w = do {
     x \<leftarrow> sub_heap w this;
     let x = (if su_wcType x = WC_unspecified \<and> has_regex_char (su_topic x) then x\<lparr>su_wcType := WC_POSIX\<rparr> else x);
     let w = w\<lparr>sub_heap := (sub_heap w)(this \<mapsto> x)\<rparr>;
     CALL_MAMA_FUNC (sub_call env this (\<lambda>x. MamaSubscription_allocate) (\<lambda>p. su_sub_update (stored p)) w) (\<lambda>w. do {
       x \<leftarrow> sub_heap w this;
       let w = w\<lparr>sub_heap := (sub_heap w)(this \<mapsto> x\<lparr>su_origTopic := su_topic x\<rparr>)\<rparr>;
       (case su_wcType x of
          WC_WS \<Rightarrow> CALL_MAMA_FUNC (subscriber_convert this w) (\<lambda>w. subscriber_createWildCard env this w)
        | WC_POSIX \<Rightarrow> subscriber_createWildCard env this w
        | WC_unspecified \<Rightarrow> subscriber_createBasic env this w
        | WC_none \<Rightarrow> subscriber_createBasic env this w)
     })
   }"

definition subscriber_destroy :: "menv \<Rightarrow> nat \<Rightarrow> oz_app \<Rightarrow> (mama_status \<times> oz_app) option" where
  "subscriber_destroy env this w =
     CALL_MAMA_FUNC (sub_call env this (\<lambda>x. MamaSubscription_destroyEx (su_sub x)) (\<lambda>p x. x) w) (\<lambda>w. Some (MAMA_STATUS_OK, w))"

definition subscriber_createCB :: "nat option \<Rightarrow> oz_app \<Rightarrow> oz_app option" where
  "subscriber_createCB closure w =
     (case closure of
        None \<Rightarrow> Some w
      | Some pThis \<Rightarrow> do { x \<leftarrow> sub_heap w pThis; Some (if su_pSink x then sink (OnCreate pThis) w else w) })"

definition subscriber_errorCB :: "mama_status \<Rightarrow> nat option \<Rightarrow> oz_app \<Rightarrow> oz_app option" where
  "subscriber_errorCB status closure w =
     (case closure of
        None \<Rightarrow> Some w
      | Some pThis \<Rightarrow> do { x \<leftarrow> sub_heap w pThis; Some (if su_pSink x then sink (OnSubError pThis status) w else w) })"

text \<open>A plain subscription reports its topic, a wildcard subscription the one of the message.\<close>

definition subscriber_msgCB :: "voidp \<Rightarrow> nat option \<Rightarrow> oz_app \<Rightarrow> oz_app option" where
  "subscriber_msgCB msg closure w =
     (case closure of
        None \<Rightarrow> Some w
      | Some pThis \<Rightarrow> do { x \<leftarrow> sub_heap w pThis; Some (if su_pSink x then sink (OnMsg pThis (su_topic x) msg) w else w) })"

definition subscriber_wcCB :: "voidp \<Rightarrow> cstring \<Rightarrow> nat option \<Rightarrow> oz_app \<Rightarrow> oz_app option" where
  "subscriber_wcCB msg topic closure w =
     (case closure of
        None \<Rightarrow> Some w
      | Some pThis \<Rightarrow> do { x \<leftarrow> sub_heap w pThis; Some (if su_pSink x then sink (OnMsg pThis topic msg) w else w) })"

definition subscriber_destroyCB :: "menv \<Rightarrow> nat option \<Rightarrow> oz_app \<Rightarrow> oz_app option" where
  "subscriber_destroyCB env closure w =
     (case closure of
        None \<Rightarrow> Some w
      | Some pThis \<Rightarrow> do {
          x \<leftarrow> sub_heap w pThis;
          let (_, _, w) = mama env (MamaSubscription_deallocate (su_sub x)) w;
          Some (w\<lparr>sub_heap := (sub_heap w)(pThis := None)\<rparr>)
        })"

subsection \<open>Requests\<close>

definition new_request :: "nat \<Rightarrow> cstring \<Rightarrow> bool \<Rightarrow> request" where
  "new_request pSession topic pSink =
     \<lparr>rq_pSession = pSession, rq_topic = topic, rq_pSink = pSink, rq_pub = None, rq_inbox = None, rq_replied = None\<rparr>"

definition request_destroy :: "menv \<Rightarrow> nat \<Rightarrow> oz_app \<Rightarrow> (mama_status \<times> oz_app) option" where
  "request_destroy env this w = do {
     x \<leftarrow> req_heap w this;
     if rq_inbox x \<noteq> None then
       CALL_MAMA_FUNC (let (s, _, w) = mama env (MamaInbox_destroy (rq_inbox x)) w in Some (s, w)) (\<lambda>w. Some (MAMA_STATUS_OK, w))
     else Some (MAMA_STATUS_OK, w)
   }"

text \<open>The inbox and the publisher, made at the first use. A new publisher is at \<open>a\<close>.\<close>

definition request_inbox :: "menv \<Rightarrow> nat \<Rightarrow> oz_app \<Rightarrow> (mama_status \<times> oz_app) option" where
  "request_inbox env this w = do {
     x \<leftarrow> req_heap w this;
     if rq_inbox x = None then do {
       (transport, queue) \<leftarrow> session_ptrs (rq_pSession x) w;
       let (s, p, w) = mama env (MamaInbox_create2 transport queue this) w;
       Some (s, w\<lparr>req_heap := (req_heap w)(this \<mapsto> x\<lparr>rq_inbox := stored p (rq_inbox x)\<rparr>)\<rparr>)
     } else Some (MAMA_STATUS_OK, w)
   }"

definition request_publisher :: "nat \<Rightarrow> nat \<Rightarrow> oz_app \<Rightarrow> oz_app option" where
  "request_publisher a this w = do {
     x \<leftarrow> req_heap w this;
     if rq_pub x = None then do {
       s \<leftarrow> sess_heap w (rq_pSession x);
       (p, w) \<leftarrow> connection_getPublisher a (se_pConn s) (rq_topic x) w;
       Some (w\<lparr>req_heap := (req_heap w)(this \<mapsto> x\<lparr>rq_pub := p\<rparr>)\<rparr>)
     } else Some w
   }"

definition request_send :: "menv \<Rightarrow> nat \<Rightarrow> nat \<Rightarrow> voidp \<Rightarrow> oz_app \<Rightarrow> (mama_status \<times> oz_app) option" where
  "request_send env a this msg w =
     CALL_MAMA_FUNC (request_inbox env this w) (\<lambda>w. do {
       w \<leftarrow> request_publisher a this w;
       x \<leftarrow> req_heap w this;
       let w = w\<lparr>req_heap := (req_heap w)(this \<mapsto> x\<lparr>rq_replied := Some 0\<rparr>)\<rparr>;
       p \<leftarrow> rq_pub x;
       publisher_sendRequest env p msg (rq_inbox x) w
     })"

text \<open>
  \<open>wsem_timedwait\<close> on an initialised semaphore, while \<open>others\<close> is what the other threads do until the time is over or the
  semaphore is posted; \<open>fails\<close> is an error other than the end of the time. The conversion to \<open>int\<close> drops the fraction, and
  the result must fit.
\<close>

datatype wait_error = Wait_EINVAL | Wait_other

definition request_waitReply ::
  "(oz_app \<Rightarrow> oz_app option) \<Rightarrow> wait_error option \<Rightarrow> nat \<Rightarrow> rat \<Rightarrow> oz_app \<Rightarrow> (mama_status \<times> oz_app) option" where
  "request_waitReply others fails this seconds w = do {
     x \<leftarrow> req_heap w this;
     _ \<leftarrow> rq_replied x;
     if \<not> (- (2 ^ 31) - 1 < seconds * 1000 \<and> seconds * 1000 < 2 ^ 31) then None
     else case fails of
       Some Wait_EINVAL \<Rightarrow> Some (MAMA_STATUS_INVALID_ARG, w)
     | Some Wait_other \<Rightarrow> Some (MAMA_STATUS_SYSTEM_ERROR, w)
     | None \<Rightarrow> do {
         w \<leftarrow> others w;
         x \<leftarrow> req_heap w this;
         n \<leftarrow> rq_replied x;
         if n = 0 then Some (MAMA_STATUS_TIMEOUT, w)
         else Some (MAMA_STATUS_OK, w\<lparr>req_heap := (req_heap w)(this \<mapsto> x\<lparr>rq_replied := Some (n - 1)\<rparr>)\<rparr>)
       }
   }"

definition request_errorCB :: "mama_status \<Rightarrow> nat option \<Rightarrow> oz_app \<Rightarrow> oz_app option" where
  "request_errorCB status closure w =
     (case closure of
        None \<Rightarrow> Some w
      | Some pThis \<Rightarrow> do { x \<leftarrow> req_heap w pThis; Some (if rq_pSink x then sink (OnReqError pThis status) w else w) })"

text \<open>The callback for a reply posts the semaphore, and then calls the sink.\<close>

definition request_post :: "nat \<Rightarrow> oz_app \<Rightarrow> oz_app option" where
  "request_post pThis w = do {
     x \<leftarrow> req_heap w pThis;
     n \<leftarrow> rq_replied x;
     Some (w\<lparr>req_heap := (req_heap w)(pThis \<mapsto> x\<lparr>rq_replied := Some (n + 1)\<rparr>)\<rparr>)
   }"

definition request_msgCB :: "voidp \<Rightarrow> nat option \<Rightarrow> oz_app \<Rightarrow> oz_app option" where
  "request_msgCB msg closure w =
     (case closure of
        None \<Rightarrow> Some w
      | Some pThis \<Rightarrow> do {
          x \<leftarrow> req_heap w pThis;
          if rq_pSink x then do { w \<leftarrow> request_post pThis w; Some (sink (OnReply pThis msg) w) } else Some w
        })"

text \<open>The destructor destroys the semaphore and lets go of the publisher.\<close>

definition request_destroyCB :: "nat option \<Rightarrow> oz_app \<Rightarrow> oz_app option" where
  "request_destroyCB closure w =
     (case closure of
        None \<Rightarrow> Some w
      | Some pThis \<Rightarrow> do {
          x \<leftarrow> req_heap w pThis;
          n \<leftarrow> rq_replied x;
          w \<leftarrow> shared_release (rq_pub x) w;
          Some (w\<lparr>req_heap := (req_heap w)(pThis := None)\<rparr>)
        })"

subsection \<open>Replies\<close>

text \<open>\<open>inbox\<close> is what \<open>mamaMsg_isFromInbox\<close> says of the message.\<close>

definition reply_getReplyTopic :: "bool \<Rightarrow> mama_status \<times> cstring" where
  "reply_getReplyTopic inbox = (if \<not> inbox then (MAMA_STATUS_INVALID_ARG, '''') else (MAMA_STATUS_OK, ''_INBOX''))"

definition reply_send2 :: "menv \<Rightarrow> nat \<Rightarrow> bool \<Rightarrow> nat \<Rightarrow> voidp \<Rightarrow> voidp \<Rightarrow> oz_app \<Rightarrow> (mama_status \<times> oz_app) option" where
  "reply_send2 env a inbox this request reply w = do {
     pConn \<leftarrow> rep_heap w this;
     let (s, replyTopic) = reply_getReplyTopic inbox;
     if s \<noteq> MAMA_STATUS_OK then Some (s, w)
     else do {
       (p, w) \<leftarrow> connection_getPublisher a pConn replyTopic w;
       (case p of
          None \<Rightarrow> Some (MAMA_STATUS_PLATFORM, w)
        | Some pub \<Rightarrow> do {
            (s, w) \<leftarrow> publisher_sendReply env pub request reply w;
            w \<leftarrow> shared_release p w;
            Some (s, w)
          })
     }
   }"

definition reply_send :: "menv \<Rightarrow> nat \<Rightarrow> bool \<Rightarrow> nat \<Rightarrow> voidp \<Rightarrow> oz_app \<Rightarrow> (mama_status \<times> oz_app) option" where
  "reply_send env a inbox this msg w = do {
     pConn \<leftarrow> rep_heap w this;
     let (s, replyTopic) = reply_getReplyTopic inbox;
     if s \<noteq> MAMA_STATUS_OK then Some (s, w)
     else do {
       (p, w) \<leftarrow> connection_getPublisher a pConn replyTopic w;
       (case p of
          None \<Rightarrow> Some (MAMA_STATUS_PLATFORM, w)
        | Some pub \<Rightarrow> do {
            (s, w) \<leftarrow> publisher_sendReply env pub msg msg w;
            w \<leftarrow> shared_release p w;
            Some (s, w)
          })
     }
   }"

definition reply_destroy :: "nat \<Rightarrow> oz_app \<Rightarrow> (mama_status \<times> oz_app) option" where
  "reply_destroy this w = do { pConn \<leftarrow> rep_heap w this; Some (MAMA_STATUS_OK, w\<lparr>rep_heap := (rep_heap w)(this := None)\<rparr>) }"

subsection \<open>Timers\<close>

definition new_timer :: "nat \<Rightarrow> rat \<Rightarrow> bool \<Rightarrow> timer" where
  "new_timer pSession interval pSink =
     \<lparr>ti_status = MAMA_STATUS_INVALID_ARG, ti_pSession = pSession, ti_interval = interval, ti_timer = None, ti_pSink = pSink\<rparr>"

definition tim_call ::
  "menv \<Rightarrow> nat \<Rightarrow> (timer \<Rightarrow> mama_call) \<Rightarrow> (nat option \<Rightarrow> timer \<Rightarrow> timer) \<Rightarrow> oz_app \<Rightarrow> (mama_status \<times> oz_app) option" where
  "tim_call env this call upd w = do {
     x \<leftarrow> tim_heap w this;
     let (s, p, w) = mama env (call x) w;
     Some (s, w\<lparr>tim_heap := (tim_heap w)(this \<mapsto> upd p (x\<lparr>ti_status := s\<rparr>))\<rparr>)
   }"

definition timer_start :: "menv \<Rightarrow> nat \<Rightarrow> oz_app \<Rightarrow> (mama_status \<times> oz_app) option" where
  "timer_start env this w = do {
     x \<leftarrow> tim_heap w this;
     s \<leftarrow> sess_heap w (ti_pSession x);
     CALL_MAMA_FUNC (tim_call env this (\<lambda>x. MamaTimer_create2 (se_queue s) (ti_interval x) this) (\<lambda>p. ti_timer_update (stored p)) w)
       (\<lambda>w. Some (MAMA_STATUS_OK, w))
   }"

definition oz_timer_destroy :: "menv \<Rightarrow> nat \<Rightarrow> oz_app \<Rightarrow> (mama_status \<times> oz_app) option" where
  "oz_timer_destroy env this w =
     CALL_MAMA_FUNC (tim_call env this (\<lambda>x. MamaTimer_destroy (ti_timer x)) (\<lambda>p x. x) w) (\<lambda>w. Some (MAMA_STATUS_OK, w))"

definition timer_timerCB :: "nat option \<Rightarrow> oz_app \<Rightarrow> oz_app option" where
  "timer_timerCB closure w =
     (case closure of
        None \<Rightarrow> Some w
      | Some pThis \<Rightarrow> do { x \<leftarrow> tim_heap w pThis; Some (if ti_pSink x then sink (OnTimer pThis) w else w) })"

definition timer_destroyCB :: "nat option \<Rightarrow> oz_app \<Rightarrow> oz_app option" where
  "timer_destroyCB closure w =
     (case closure of
        None \<Rightarrow> Some w
      | Some pThis \<Rightarrow> do { x \<leftarrow> tim_heap w pThis; Some (w\<lparr>tim_heap := (tim_heap w)(pThis := None)\<rparr>) })"

end
