(* ===== verification/Wildcard_Topics.thy ===== *)
theory Wildcard_Topics
  imports Ws_Topic Bridge_Safety
begin

text \<open>
  Hierarchical topics through the bridge: which messages a wildcard subscription of the example library
  (\<open>src/examples/ozimpl.cpp\<close>) receives, from the topic through the expression that \<open>ws2posix\<close> makes of it to the
  ZeroMQ prefix that the bridge takes from the expression.
\<close>

subsection \<open>Extended regular expressions\<close>

text \<open>
  The part of the expressions of POSIX that the conversion produces: characters that stand for themselves, \<open>.\<close>, and brackets
  with one excluded character, each possibly repeated; at the start an anchor, at the end perhaps one.
\<close>

datatype ere_atom = Lit char | AnyChar | NotIn char

datatype ere_item = One ere_atom | Rep ere_atom | Rep1 ere_atom

definition plain :: "char \<Rightarrow> bool" where
  "plain c \<longleftrightarrow> c \<notin> set (NUL # CHR 0x5C # ''^$.[]|()*+?{}'')"

fun parse_atom :: "cstring \<Rightarrow> (ere_atom \<times> cstring) option" where
  "parse_atom [] = None"
| "parse_atom (c # s) =
     (if c = CHR ''['' then
        (case s of
           x # n # y # r \<Rightarrow> if x = CHR ''^'' \<and> y = CHR '']'' \<and> n \<notin> set ''[]'' then Some (NotIn n, r) else None
         | _ \<Rightarrow> None)
      else if c = CHR ''.'' then Some (AnyChar, s)
      else if plain c then Some (Lit c, s)
      else None)"

lemma parse_atom_shorter: "parse_atom s = Some (a, r) \<Longrightarrow> length r < length s"
  by (cases s rule: parse_atom.cases) (auto split: if_splits list.splits)

function parse_ere :: "cstring \<Rightarrow> ere_item list option" where
  "parse_ere s =
     (if s = [] then Some []
      else case parse_atom s of
        None \<Rightarrow> None
      | Some (a, r) \<Rightarrow>
          if take 1 r = ''*'' then map_option ((#) (Rep a)) (parse_ere (drop 1 r))
          else if take 1 r = ''+'' then map_option ((#) (Rep1 a)) (parse_ere (drop 1 r))
          else map_option ((#) (One a)) (parse_ere r))"
  by pat_completeness auto
termination
  by (relation "measure length") (auto dest: parse_atom_shorter)

declare parse_ere.simps [simp del]

fun amatch :: "ere_atom \<Rightarrow> char \<Rightarrow> bool" where
  "amatch (Lit d) c \<longleftrightarrow> c = d"
| "amatch AnyChar c \<longleftrightarrow> True"
| "amatch (NotIn d) c \<longleftrightarrow> c \<noteq> d"

text \<open>Matching from the start of a subject, up to its end if \<open>e\<close>.\<close>

fun imatch :: "bool \<Rightarrow> ere_item list \<Rightarrow> cstring \<Rightarrow> bool" where
  "imatch e [] s \<longleftrightarrow> (e \<longrightarrow> s = [])"
| "imatch e (One a # is) [] \<longleftrightarrow> False"
| "imatch e (One a # is) (c # s) \<longleftrightarrow> amatch a c \<and> imatch e is s"
| "imatch e (Rep a # is) [] \<longleftrightarrow> imatch e is []"
| "imatch e (Rep a # is) (c # s) \<longleftrightarrow> imatch e is (c # s) \<or> amatch a c \<and> imatch e (Rep a # is) s"
| "imatch e (Rep1 a # is) [] \<longleftrightarrow> False"
| "imatch e (Rep1 a # is) (c # s) \<longleftrightarrow> amatch a c \<and> imatch e (Rep a # is) s"

definition ere_match :: "cstring \<Rightarrow> cstring \<Rightarrow> bool option" where
  "ere_match r s =
     (if take 1 r \<noteq> ''^'' then None
      else let b = drop 1 r in
        if b \<noteq> [] \<and> last b = CHR ''$'' then map_option (\<lambda>is. imatch True is s) (parse_ere (butlast b))
        else map_option (\<lambda>is. imatch False is s) (parse_ere b))"

text \<open>What the bridge relies on of \<open>regexec\<close>, for these expressions.\<close>

definition regexec_ok :: "('t, 'p, 'l) mama_lib \<Rightarrow> bool" where
  "regexec_ok L \<longleftrightarrow> (\<forall>r s b. ere_match r s = Some b \<longrightarrow> (regexec L r s = 0 \<longleftrightarrow> b))"

lemma regexec_okD: "regexec_ok L \<Longrightarrow> ere_match r s = Some b \<Longrightarrow> regexec L r s = 0 \<longleftrightarrow> b"
  unfolding regexec_ok_def by blast

lemma splits_Cons: "(\<exists>x y. c # s = x @ y \<and> P x y) \<longleftrightarrow> P [] (c # s) \<or> (\<exists>x y. s = x @ y \<and> P (c # x) y)"
proof
  assume "\<exists>x y. c # s = x @ y \<and> P x y"
  then obtain x y where "c # s = x @ y" "P x y" by blast
  then show "P [] (c # s) \<or> (\<exists>x y. s = x @ y \<and> P (c # x) y)" by (cases x) auto
next
  assume "P [] (c # s) \<or> (\<exists>x y. s = x @ y \<and> P (c # x) y)"
  then show "\<exists>x y. c # s = x @ y \<and> P x y" by (metis append_Cons append_Nil)
qed

lemma imatch_Rep: "imatch e (Rep a # is) s \<longleftrightarrow> (\<exists>x y. s = x @ y \<and> list_all (amatch a) x \<and> imatch e is y)"
proof (induction s)
  case (Cons c s)
  have "(\<exists>x y. c # s = x @ y \<and> list_all (amatch a) x \<and> imatch e is y) \<longleftrightarrow>
     imatch e is (c # s) \<or> amatch a c \<and> (\<exists>x y. s = x @ y \<and> list_all (amatch a) x \<and> imatch e is y)"
    unfolding splits_Cons by auto
  with Cons.IH show ?case by simp
qed simp

lemma imatch_Rep1: "imatch e (Rep1 a # is) s \<longleftrightarrow> (\<exists>x y. s = x @ y \<and> x \<noteq> [] \<and> list_all (amatch a) x \<and> imatch e is y)"
proof (cases s)
  case (Cons c s')
  have "(\<exists>x y. c # s' = x @ y \<and> x \<noteq> [] \<and> list_all (amatch a) x \<and> imatch e is y) \<longleftrightarrow>
     amatch a c \<and> (\<exists>x y. s' = x @ y \<and> list_all (amatch a) x \<and> imatch e is y)"
    unfolding splits_Cons by auto
  then show ?thesis unfolding Cons by (simp only: imatch.simps imatch_Rep)
qed simp

subsection \<open>What a topic means\<close>

text \<open>
  A star stands for a non-empty part of one level; a topic that ends in \<open>/.\<close> is for everything that starts with what is
  before these two characters.
\<close>

fun ws_match :: "cstring \<Rightarrow> cstring \<Rightarrow> bool" where
  "ws_match [] s \<longleftrightarrow> s = []"
| "ws_match (c # t) s \<longleftrightarrow>
     (if c = CHR ''*'' then \<exists>n\<in>{1..length s}. CHR ''/'' \<notin> set (take n s) \<and> ws_match t (drop n s)
      else s \<noteq> [] \<and> hd s = c \<and> ws_match t (tl s))"

definition ws_receives :: "cstring \<Rightarrow> cstring \<Rightarrow> bool" where
  "ws_receives t s \<longleftrightarrow>
     (if 2 \<le> length t \<and> drop (length t - 2) t = ''/.'' then \<exists>n\<in>{0..length s}. ws_match (take (length t - 2) t) (take n s)
      else ws_match t s)"

definition plain_topic :: "cstring \<Rightarrow> bool" where
  "plain_topic u \<longleftrightarrow> list_all (\<lambda>c. c = CHR ''*'' \<or> plain c) u"

definition ws_items :: "cstring \<Rightarrow> ere_item list" where
  "ws_items u = map (\<lambda>c. if c = CHR ''*'' then Rep1 (NotIn (CHR ''/'')) else One (Lit c)) u"

lemma ws_match_star: "ws_match (CHR ''*'' # t) s \<longleftrightarrow> (\<exists>x y. s = x @ y \<and> x \<noteq> [] \<and> CHR ''/'' \<notin> set x \<and> ws_match t y)"
proof
  assume "ws_match (CHR ''*'' # t) s"
  then obtain n where "1 \<le> n" "n \<le> length s" "CHR ''/'' \<notin> set (take n s)" "ws_match t (drop n s)" by auto
  then show "\<exists>x y. s = x @ y \<and> x \<noteq> [] \<and> CHR ''/'' \<notin> set x \<and> ws_match t y"
    by (intro exI[of _ "take n s"] exI[of _ "drop n s"]) auto
next
  assume "\<exists>x y. s = x @ y \<and> x \<noteq> [] \<and> CHR ''/'' \<notin> set x \<and> ws_match t y"
  then obtain x y where "s = x @ y" "x \<noteq> []" "CHR ''/'' \<notin> set x" "ws_match t y" by blast
  then show "ws_match (CHR ''*'' # t) s" by (auto intro!: bexI[of _ "length x"] simp: Suc_le_eq)
qed

lemma imatch_ws: "imatch e (ws_items u @ is) s \<longleftrightarrow> (\<exists>x y. s = x @ y \<and> ws_match u x \<and> imatch e is y)"
proof (induction u arbitrary: s)
  case (Cons c u)
  show ?case
  proof (cases "c = CHR ''*''")
    case True
    have n: "list_all (amatch (NotIn (CHR ''/''))) x \<longleftrightarrow> CHR ''/'' \<notin> set x" for x by (induction x) auto
    have "imatch e (ws_items (c # u) @ is) s \<longleftrightarrow> imatch e (Rep1 (NotIn (CHR ''/'')) # ws_items u @ is) s"
      using True by (simp add: ws_items_def)
    also have "\<dots> \<longleftrightarrow>
       (\<exists>x y. s = x @ y \<and> x \<noteq> [] \<and> CHR ''/'' \<notin> set x \<and> (\<exists>a b. y = a @ b \<and> ws_match u a \<and> imatch e is b))"
      by (simp only: imatch_Rep1 n Cons.IH)
    also have "\<dots> \<longleftrightarrow> (\<exists>x y. s = x @ y \<and> ws_match (CHR ''*'' # u) x \<and> imatch e is y)"
      unfolding ws_match_star by (metis append.assoc)
    finally show ?thesis using True by simp
  next
    case False
    have "imatch e (ws_items (c # u) @ is) s \<longleftrightarrow> s \<noteq> [] \<and> hd s = c \<and> imatch e (ws_items u @ is) (tl s)"
      using False by (cases s) (auto simp: ws_items_def)
    also have "\<dots> \<longleftrightarrow> (\<exists>x y. s = x @ y \<and> ws_match (c # u) x \<and> imatch e is y)"
      unfolding Cons.IH using False by (cases s) (auto simp: splits_Cons)
    finally show ?thesis .
  qed
qed (auto simp: ws_items_def)

lemma ws_match_imatch: "ws_match u s \<longleftrightarrow> imatch True (ws_items u) s"
  using imatch_ws[of True u "[]" s] by simp

subsection \<open>The expression of a topic\<close>

definition no_rep :: "cstring \<Rightarrow> bool" where
  "no_rep r \<longleftrightarrow> take 1 r \<noteq> ''*'' \<and> take 1 r \<noteq> ''+''"

lemma parse_lit: "plain c \<Longrightarrow> no_rep r \<Longrightarrow> parse_ere (c # r) = map_option ((#) (One (Lit c))) (parse_ere r)"
  by (subst parse_ere.simps) (auto simp: plain_def no_rep_def)

lemma parse_star: "parse_ere (''[^/]+'' @ r) = map_option ((#) (Rep1 (NotIn (CHR ''/'')))) (parse_ere r)"
  by (subst parse_ere.simps) simp

lemma no_rep_topic: "plain_topic u \<Longrightarrow> no_rep r \<Longrightarrow> no_rep (subst_stars u @ r)"
  by (cases u) (auto simp: plain_topic_def no_rep_def subst_stars_Cons plain_def)

lemma parse_topic:
  assumes "plain_topic u" "no_rep r"
  shows "parse_ere (subst_stars u @ r) = map_option ((@) (ws_items u)) (parse_ere r)"
  using assms(1)
proof (induction u)
  case Nil
  show ?case by (cases "parse_ere r") (simp_all add: ws_items_def)
next
  case (Cons c u)
  then have u: "plain_topic u" and c: "c = CHR ''*'' \<or> plain c" by (simp_all add: plain_topic_def)
  note IH = Cons.IH[OF u]
  show ?case
  proof (cases "c = CHR ''*''")
    case True
    have "parse_ere (subst_stars (c # u) @ r) = map_option ((#) (Rep1 (NotIn (CHR ''/'')))) (parse_ere (subst_stars u @ r))"
      using parse_star[of "subst_stars u @ r"] True by (simp add: subst_stars_Cons)
    with True show ?thesis unfolding IH by (simp add: ws_items_def option.map_comp comp_def)
  next
    case False
    have "parse_ere (subst_stars (c # u) @ r) = map_option ((#) (One (Lit c))) (parse_ere (subst_stars u @ r))"
      using parse_lit[OF _ no_rep_topic[OF u assms(2)], of c] False c by (simp add: subst_stars_Cons)
    with False show ?thesis unfolding IH by (simp add: ws_items_def option.map_comp comp_def)
  qed
qed

text \<open>A topic whose first star is not at its start, with or without its subtree.\<close>

definition inner_star :: "cstring \<Rightarrow> bool" where
  "inner_star u \<longleftrightarrow> plain_topic u \<and> CHR ''*'' \<in> set u \<and> hd u \<noteq> CHR ''*'' \<and> 5 * length u + 21 < 2 ^ 62"

lemma plain_topic_end: "plain_topic u \<Longrightarrow> u \<noteq> t @ ''/.''"
  by (auto simp: plain_topic_def plain_def)

lemma subst_end: "plain_topic u \<Longrightarrow> ''^'' @ subst_stars u \<noteq> t @ ''/.''"
proof
  assume u: "plain_topic u" and e: "''^'' @ subst_stars u = t @ ''/.''"
  then have "CHR ''.'' \<in> set (''^'' @ subst_stars u)" by simp
  moreover have "CHR ''.'' \<notin> set (subst_stars u)" using u by (induction u) (auto simp: plain_topic_def plain_def subst_stars_Cons)
  ultimately show False by simp
qed

lemma ws2posix_topic:
  assumes "inner_star u"
  shows "ws2posix u u = Some (MAMA_STATUS_OK, ''^'' @ subst_stars u @ ''$'')"
    "ws2posix (u @ ''/.'') (u @ ''/.'') = Some (MAMA_STATUS_OK, ''^'' @ subst_stars u @ ''.*'')"
proof -
  from assms have u: "plain_topic u" "CHR ''*'' \<in> set u" "hd u \<noteq> CHR ''*''" "u \<noteq> []" by (auto simp: inner_star_def)
  have b: "ws_body u u = ''^'' @ subst_stars u" "ws_body (u @ ''/.'') (u @ ''/.'') = (''^'' @ subst_stars u) @ ''/.''"
    using u by (simp_all add: ws_body_def subst_stars_Cons)
  have l: "subst_stars u \<noteq> []" using u(4) by (cases u) (simp_all add: subst_stars_Cons)
  have s: "5 * (length u + length u) + 11 < (2::nat) ^ 63" "5 * (length (u @ ''/.'') + length (u @ ''/.'')) + 11 < (2::nat) ^ 63"
    using assms by (simp_all add: inner_star_def)
  have "\<nexists>t. ws_body u u = t @ ''/.''" "length (ws_body u u) \<noteq> 1" "ws_body u u \<noteq> ''/.''"
    using subst_end[OF u(1)] l unfolding b by simp_all
  with ws2posix_eq[OF s(1)] b(1) u(2) show "ws2posix u u = Some (MAMA_STATUS_OK, ''^'' @ subst_stars u @ ''$'')" by (simp add: Let_def)
  have "\<exists>t. ws_body (u @ ''/.'') (u @ ''/.'') = t @ ''/.''" "length (ws_body (u @ ''/.'') (u @ ''/.'')) \<noteq> 1"
      "ws_body (u @ ''/.'') (u @ ''/.'') \<noteq> ''/.''"
    unfolding b by (blast, simp_all)
  with ws2posix_eq[OF s(2)] b(2) u(2) show "ws2posix (u @ ''/.'') (u @ ''/.'') = Some (MAMA_STATUS_OK, ''^'' @ subst_stars u @ ''.*'')"
    by (simp add: Let_def)
qed

lemma ere_match_topic:
  assumes "inner_star u"
  shows "ere_match (''^'' @ subst_stars u @ ''$'') s = Some (ws_match u s)"
    "ere_match (''^'' @ subst_stars u @ ''.*'') s = Some (\<exists>n\<in>{0..length s}. ws_match u (take n s))"
proof -
  from assms have u: "plain_topic u" by (simp add: inner_star_def)
  have n: "no_rep []" "no_rep ''.*''" by (simp_all add: no_rep_def)
  have "parse_ere [] = Some []" "parse_ere ''.*'' = Some [Rep AnyChar]" by code_simp+
  then have p: "parse_ere (subst_stars u) = Some (ws_items u)" "parse_ere (subst_stars u @ ''.*'') = Some (ws_items u @ [Rep AnyChar])"
    using parse_topic[OF u n(1)] parse_topic[OF u n(2)] by simp_all
  show "ere_match (''^'' @ subst_stars u @ ''$'') s = Some (ws_match u s)"
    using p(1) imatch_ws[of True u "[]" s] by (simp add: ere_match_def butlast_append)
  have "(\<exists>x y. s = x @ y \<and> ws_match u x) \<longleftrightarrow> (\<exists>n\<in>{0..length s}. ws_match u (take n s))"
  proof
    assume "\<exists>x y. s = x @ y \<and> ws_match u x"
    then obtain x y where "s = x @ y" "ws_match u x" by blast
    then show "\<exists>n\<in>{0..length s}. ws_match u (take n s)" by (intro bexI[of _ "length x"]) auto
  next
    assume "\<exists>n\<in>{0..length s}. ws_match u (take n s)"
    then show "\<exists>x y. s = x @ y \<and> ws_match u x" by (metis append_take_drop_id)
  qed
  moreover have "imatch False [Rep AnyChar] y" for y by (induction y) simp_all
  ultimately show "ere_match (''^'' @ subst_stars u @ ''.*'') s = Some (\<exists>n\<in>{0..length s}. ws_match u (take n s))"
    using p(2) imatch_ws[of False u "[Rep AnyChar]" s] by (simp add: ere_match_def)
qed

text \<open>The prefix that the bridge registers is what the topic has before its first star.\<close>

definition ws_prefix :: "cstring \<Rightarrow> cstring" where
  "ws_prefix u = takeWhile (\<lambda>c. c \<noteq> CHR ''*'') u"

lemma ws_match_prefix: "ws_match u s \<Longrightarrow> take (length (ws_prefix u)) s = ws_prefix u"
proof (induction u arbitrary: s)
  case (Cons c u)
  then show ?case by (cases s) (auto simp: ws_prefix_def split: if_splits)
qed (simp add: ws_prefix_def)

lemma ws_prefix_split:
  assumes "CHR ''*'' \<in> set u"
  obtains v where "u = ws_prefix u @ CHR ''*'' # v"
proof -
  from split_list_first[OF assms] obtain a b where "u = a @ CHR ''*'' # b" "CHR ''*'' \<notin> set a" by blast
  moreover from this have "ws_prefix u = a" by (auto simp: ws_prefix_def takeWhile_append)
  ultimately have "u = ws_prefix u @ CHR ''*'' # b" by simp
  then show thesis by (rule that)
qed

lemma wildcard_prefix_topic:
  assumes "inner_star u"
  shows "wildcard_prefix (''^'' @ subst_stars u @ tail) = Some (ws_prefix u)"
proof -
  from assms obtain v where v: "u = ws_prefix u @ CHR ''*'' # v" using ws_prefix_split unfolding inner_star_def by blast
  have c: "CHR ''*'' \<notin> set (ws_prefix u)" by (auto simp: ws_prefix_def dest: set_takeWhileD)
  have "plain_topic (ws_prefix u)" using assms v unfolding inner_star_def plain_topic_def by (metis list_all_append)
  with c have b: "CHR ''['' \<notin> set (ws_prefix u)" by (auto simp: plain_topic_def plain_def list_all_iff)
  have "subst_stars u @ tail = ws_prefix u @ ''[^/]+'' @ subst_stars v @ tail"
    by (subst v) (simp add: subst_stars_id[OF c] subst_stars_Cons)
  then show ?thesis using strstr_first[of "''[^/]+''" "ws_prefix u" "subst_stars v @ tail"] b by (simp add: wildcard_prefix_def)
qed

subsection \<open>What a subscription receives\<close>

text \<open>The key is the prefix, cut to the size of the buffer; a cut prefix still is a prefix.\<close>

definition stack_ok :: "stack_mem \<Rightarrow> bool" where
  "stack_ok m \<longleftrightarrow> length (cmd_junk m) = MAX_SUBJECT_LENGTH + 1 \<and> length (key_junk m) = 257 \<and> key_mem m"

lemma prefix_key: "stack_ok m \<Longrightarrow> is_cstring p \<Longrightarrow> length p < 2 ^ 61 \<Longrightarrow> key_made m None (Some p) (take 255 p)"
  using generateSubjectKey_result[of "key_junk m" None None "Some p" "key_mem m"]
  by (simp add: key_made_def stack_ok_def key_parts_def option_list_def subject_key_def key_join_def)

lemma plain_topic_NUL: "plain_topic u \<Longrightarrow> NUL \<notin> set u"
proof
  assume "plain_topic u" "NUL \<in> set u"
  then have "NUL = CHR ''*'' \<or> plain NUL" unfolding plain_topic_def list_all_iff by (rule bspec)
  then show False by (simp add: plain_def)
qed

lemma inner_star_prefix: "inner_star u \<Longrightarrow> is_cstring (ws_prefix u) \<and> length (ws_prefix u) < 2 ^ 61"
proof -
  assume u: "inner_star u"
  have "length (ws_prefix u) \<le> length u" by (simp add: ws_prefix_def length_takeWhile_le)
  moreover have "NUL \<notin> set u" using u plain_topic_NUL unfolding inner_star_def by blast
  then have "NUL \<notin> set (ws_prefix u)" by (auto simp: ws_prefix_def dest: set_takeWhileD)
  ultimately show ?thesis using u by (simp add: inner_star_def is_cstring_def)
qed

lemma take_take_prefix: "take (length p) s = p \<Longrightarrow> take (length (take n p)) (s @ r) = take n p"
  by (metis append_eq_conv_conj append_take_drop_id append_assoc)

lemma receives_topic:
  assumes "inner_star u" "regexec_ok L" "sb_mSubjectKey sb = Some (take 255 (ws_prefix u))"
  shows "mCompRegex sb = Some (''^'' @ subst_stars u @ ''$'') \<Longrightarrow> wc_match L s (s @ z) sb \<longleftrightarrow> ws_receives u s"
    "mCompRegex sb = Some (''^'' @ subst_stars u @ ''.*'') \<Longrightarrow> wc_match L s (s @ z) sb \<longleftrightarrow> ws_receives (u @ ''/.'') s"
proof -
  have pre: "ws_match u x \<Longrightarrow> take (length (take 255 (ws_prefix u))) (x @ y) = take 255 (ws_prefix u)" for x y
    by (rule take_take_prefix[OF ws_match_prefix])
  from plain_topic_end[of u "take (length u - 2) u"] assms(1) have n: "\<not> (2 \<le> length u \<and> drop (length u - 2) u = ''/.'')"
    by (metis append_take_drop_id inner_star_def)
  assume r: "mCompRegex sb = Some (''^'' @ subst_stars u @ ''$'')"
  then have "regexec L (the (mCompRegex sb)) s = 0 \<longleftrightarrow> ws_match u s"
    using regexec_okD[OF assms(2) ere_match_topic(1)[OF assms(1)], of s] by (simp only: option.sel)
  then show "wc_match L s (s @ z) sb \<longleftrightarrow> ws_receives u s"
    using n pre[of s z] assms(3) by (auto simp: wc_match_def ws_receives_def)
next
  assume r: "mCompRegex sb = Some (''^'' @ subst_stars u @ ''.*'')"
  then have x: "regexec L (the (mCompRegex sb)) s = 0 \<longleftrightarrow> (\<exists>n\<in>{0..length s}. ws_match u (take n s))"
    using regexec_okD[OF assms(2) ere_match_topic(2)[OF assms(1)], of s] by (simp only: option.sel)
  have "take (length (take 255 (ws_prefix u))) (s @ z) = take 255 (ws_prefix u)" if "ws_match u (take n s)" for n
  proof -
    have "s @ z = take n s @ (drop n s @ z)" by (subst append_assoc[symmetric]) (simp only: append_take_drop_id)
    then show ?thesis using take_take_prefix[OF ws_match_prefix[OF that], of 255 "drop n s @ z"] by (simp only:)
  qed
  with x show "wc_match L s (s @ z) sb \<longleftrightarrow> ws_receives (u @ ''/.'') s"
    using assms(3) by (auto simp: wc_match_def ws_receives_def)
qed

text \<open>
  C12. Hierarchical topics through the bridge. For a topic of ordinary characters whose first star is not at its start, possibly
  with a trailing \<open>/.\<close>, the expression made of it can be subscribed to. The subscription
  matches exactly the messages whose subject the topic means: each star is some of the characters of one level, and
  the prefix that the bridge filters by is one that all of these subjects have, also where it was cut.
\<close>

theorem ws_topic_received:
  assumes "inner_star u" "t = u \<or> t = u @ ''/.''" "regexec_ok L" "stack_ok m"
    and "proc_ok L w" "sub_store w a = None" "queue_ptr_ok w native" "mWcsUid (tport w) + 1 \<noteq> 0"
    and "transport \<noteq> None" "subscription \<noteq> None"
  shows "\<exists>r st sb w'. ws2posix t t = Some (MAMA_STATUS_OK, r) \<and>
     zmqBridgeMamaSubscription_createWildCard L env m True True True 0 True a (Some ()) native True (Some r)
       transport queue callback subscription closure w = Some (st, if st = MAMA_STATUS_OK then Some a else None, w') \<and>
     wc_elems L w' = wc_elems L w @ [a] \<and> sub_store w' a = Some sb \<and>
     (\<forall>s z. wc_match L s (s @ z) sb \<longleftrightarrow> ws_receives t s)"
proof -
  define tail where "tail = (if t = u then ''$'' else ''.*'')"
  let ?r = "''^'' @ subst_stars u @ tail"
  have c: "ws2posix t t = Some (MAMA_STATUS_OK, ?r)" using ws2posix_topic[OF assms(1)] assms(2) by (auto simp: tail_def)
  note key = prefix_key[OF assms(4) conjunct1[OF inner_star_prefix[OF assms(1)]] conjunct2[OF inner_star_prefix[OF assms(1)]]]
  obtain st sb w' where o: "zmqBridgeMamaSubscription_createWildCard L env m True True True 0 True a (Some ()) native True (Some ?r)
       transport queue callback subscription closure w = Some (st, if st = MAMA_STATUS_OK then Some a else None, w')"
     "wc_elems L w' = wc_elems L w @ [a]" "sub_store w' = (sub_store w)(a \<mapsto> sb)"
     "sb_mSubjectKey sb = Some (take 255 (ws_prefix u))" "mCompRegex sb = Some ?r"
    using wc_create_ok[OF assms(5-10) wildcard_prefix_topic[OF assms(1), of tail] key, of env queue callback closure] by blast
  have "\<forall>s z. wc_match L s (s @ z) sb \<longleftrightarrow> ws_receives t s"
    using receives_topic[OF assms(1,3) o(4)] o(5) assms(2) by (auto simp: tail_def)
  with c o(1-3) show ?thesis by (intro exI[of _ ?r] exI[of _ st] exI[of _ sb] exI[of _ w']) simp
qed

text \<open>A library whose \<open>regexec\<close> is the one of the model.\<close>

definition ere_lib where
  "ere_lib = demo_lib\<lparr>regexec := \<lambda>r s. if ere_match r s = Some True then 0 else 1\<rparr>"

lemma lib_ok_regexec: "lib_ok (L\<lparr>regexec := f\<rparr>) \<longleftrightarrow> lib_ok L"
  unfolding lib_ok_def wtable_ok_def pool_ok_def wlist_ok_def by simp

lemma ere_lib_ok: "regexec_ok ere_lib" "proc_ok ere_lib demo_proc" "stack_ok demo_stack"
proof -
  show "regexec_ok ere_lib" by (simp add: regexec_ok_def ere_lib_def)
  have "lib_ok ere_lib" using demo_lib_ok by (simp add: ere_lib_def lib_ok_regexec)
  then have "fresh_proc ere_lib demo_proc" using demo_fresh by (simp add: fresh_proc_def ere_lib_def)
  then show "proc_ok ere_lib demo_proc" by (rule fresh_proc_ok)
  show "stack_ok demo_stack" by (simp add: stack_ok_def demo_stack_def oz_sizes)
qed

lemma demo_creates: "sub_store demo_proc 7 = None" "queue_ptr_ok demo_proc (Some 0)" "mWcsUid (tport demo_proc) + 1 \<noteq> 0"
  by (simp_all add: demo_proc_def demo_tport_def queue_ptr_ok_def)

theorem ws_topic_received_witness:
  "\<exists>r st sb w'. ws2posix ''a/*/b'' ''a/*/b'' = Some (MAMA_STATUS_OK, r) \<and>
     zmqBridgeMamaSubscription_createWildCard ere_lib demo_env demo_stack True True True 0 True 7 (Some ()) (Some 0) True (Some r)
       (Some 1) (Some 0) None (Some 3) None demo_proc = Some (st, if st = MAMA_STATUS_OK then Some 7 else None, w') \<and>
     sub_store w' 7 = Some sb \<and> wc_match ere_lib ''a/xy/b'' (''a/xy/b'' @ [NUL]) sb \<and> \<not> wc_match ere_lib ''a/x/y/b'' (''a/x/y/b'' @ [NUL]) sb"
proof -
  have s: "inner_star ''a/*/b''" by (simp add: inner_star_def plain_topic_def plain_def)
  have "ws_receives ''a/*/b'' ''a/xy/b''" "\<not> ws_receives ''a/*/b'' ''a/x/y/b''"
    by (simp_all add: ws_receives_def ws_match_imatch ws_items_def del: ws_match.simps)
  then have *: "(\<forall>s z. wc_match ere_lib s (s @ z) sb \<longleftrightarrow> ws_receives ''a/*/b'' s) \<Longrightarrow>
      wc_match ere_lib ''a/xy/b'' (''a/xy/b'' @ [NUL]) sb \<and> \<not> wc_match ere_lib ''a/x/y/b'' (''a/x/y/b'' @ [NUL]) sb" for sb
    by (simp only: simp_thms)
  show ?thesis
    using ws_topic_received[OF s disjI1[OF refl] ere_lib_ok(1,3,2) demo_creates, where transport = "Some 1" and subscription = "Some 3"
        and env = demo_env and queue = "Some 0" and callback = None and closure = None] * by blast
qed

subsection \<open>Topics whose messages are lost\<close>

lemma take_no_NUL:
  assumes "take (length p) (s @ NUL # z) = p" "NUL \<notin> set p"
  shows "set p \<subseteq> set s"
proof -
  have "length p \<le> length s"
  proof (rule ccontr)
    assume "\<not> length p \<le> length s"
    then have "NUL \<in> set (take (length p) (s @ NUL # z))" by (cases "length p - length s") (simp_all)
    with assms show False by simp
  qed
  then have "p = take (length p) s" using assms(1) by simp
  then show ?thesis by (metis set_take_subset)
qed

lemma ws_match_self: "plain_topic u \<Longrightarrow> ws_match u (map (\<lambda>c. if c = CHR ''*'' then CHR ''x'' else c) u)"
proof (induction u)
  case (Cons c u)
  show ?case
  proof (cases "c = CHR ''*''")
    case True
    with Cons show ?thesis by (auto simp: plain_topic_def intro!: bexI[of _ 1])
  next
    case False
    with Cons show ?thesis by (simp add: plain_topic_def)
  qed
qed simp

lemma subst_chars: "plain_topic u \<Longrightarrow> CHR ''.'' \<notin> set (subst_stars u) \<and> NUL \<notin> set (subst_stars u)"
  by (induction u) (auto simp: plain_topic_def plain_def subst_stars_Cons)

text \<open>A topic that starts with a star.\<close>

lemma leading_star:
  assumes "plain_topic v" "length v \<le> 253"
  obtains r p where "ws2posix (CHR ''*'' # v) (CHR ''*'' # v) = Some (MAMA_STATUS_OK, r)" "wildcard_prefix r = Some p"
    "is_cstring p" "length p < 2 ^ 61" "CHR ''['' \<in> set (take 255 p)"
proof -
  let ?t = "CHR ''*'' # v" and ?q = "''[^_][^/]*'' @ subst_stars v @ ''$''"
  have b: "ws_body ?t ?t = ''^[^_][^/]*'' @ subst_stars v" by (simp add: ws_body_def)
  have "CHR ''.'' \<notin> set (ws_body ?t ?t)" unfolding b using subst_chars[OF assms(1)] by simp
  then have "ws_body ?t ?t \<noteq> x @ ''/.''" for x by auto
  then have c: "ws2posix ?t ?t = Some (MAMA_STATUS_OK, ''^'' @ ?q)"
    using ws2posix_eq[of ?t ?t] assms(2) b by (auto simp: Let_def)
  have last: "last (drop (1 + length ?q - 3) (''^'' @ ?q)) = CHR ''$''" by (subst last_drop) simp_all
  have n: "drop (1 + length ?q - 3) (''^'' @ ?q) \<noteq> ''/.*''"
  proof
    assume eq: "drop (1 + length ?q - 3) (''^'' @ ?q) = ''/.*''"
    from last show False unfolding eq by simp
  qed
  have s: "strstr ?q ''[^/]+'' = map_option Suc (strstr (tl ?q) ''[^/]+'')" by simp
  have w: "wildcard_prefix (''^'' @ ?q) = (case strstr ?q ''[^/]+'' of Some i \<Rightarrow> Some (take i ?q) | None \<Rightarrow> Some ?q)"
    using n by (simp add: wildcard_prefix_def Let_def del: strstr.simps split: option.splits)
  obtain k where p: "wildcard_prefix (''^'' @ ?q) = Some (take (Suc k) ?q)"
  proof (cases "strstr (tl ?q) ''[^/]+''")
    case None
    have "take (Suc (length ?q)) ?q = ?q" by (rule take_all) simp
    then show thesis by (intro that[of "length ?q"]) (simp only: w s None option.map option.case)
  next
    case (Some i)
    show thesis by (rule that[of i]) (simp only: w s Some option.map option.case)
  qed
  have "NUL \<notin> set ?q" using subst_chars[OF assms(1)] by simp
  then have nul: "is_cstring (take (Suc k) ?q)" unfolding is_cstring_def by (blast dest: in_set_takeD)
  have "length (take (Suc k) ?q) \<le> length ?q" by (simp del: take_Suc_Cons append_Cons)
  also have "length ?q < 2 ^ 61" using length_subst_stars[of v] assms(2) by simp
  finally have l: "length (take (Suc k) ?q) < 2 ^ 61" .
  show thesis by (rule that[OF c p nul l]) (simp add: numeral_eq_Suc)
qed

text \<open>The subtree of a topic without a star.\<close>

lemma plain_subtree:
  assumes "list_all plain u" "u \<noteq> []" "length u \<le> 253"
  obtains r p where "ws2posix (u @ ''/.'') (u @ ''/.'') = Some (MAMA_STATUS_OK, r)" "wildcard_prefix r = Some p"
    "is_cstring p" "length p < 2 ^ 61" "CHR ''.'' \<in> set (take 255 p)"
proof -
  let ?t = "u @ ''/.''" and ?q = "u @ ''/.'' @ u @ ''.*''"
  have "CHR ''*'' \<notin> set u \<and> CHR ''['' \<notin> set u \<and> NUL \<notin> set u" using assms(1) by (induction u) (auto simp: plain_def)
  moreover have "hd u \<noteq> CHR ''^''" using assms(1,2) by (cases u) (auto simp: plain_def)
  ultimately have u: "CHR ''*'' \<notin> set u" "CHR ''['' \<notin> set u" "NUL \<notin> set u" "hd u \<noteq> CHR ''^''" by simp_all
  have b: "ws_body ?t ?t = (u @ ''/.'' @ u) @ ''/.''" using u(1) by (simp add: ws_body_def subst_stars_id subst_stars_Cons)
  have "\<exists>x. ws_body ?t ?t = x @ ''/.''" "ws_body ?t ?t \<noteq> ''/.''" "length (ws_body ?t ?t) \<noteq> 1" unfolding b using assms(2) by (blast, simp_all)
  then have c: "ws2posix ?t ?t = Some (MAMA_STATUS_OK, ''^'' @ ?q)"
    using ws2posix_eq[of ?t ?t] assms(2,3) b u(4) by (simp add: Let_def)
  have "strstr ?q ''[^/]+'' = None" by (rule strstr_absent) (use u(2) in simp_all)
  moreover define k where "k = (if drop (length ?q - 2) (''^'' @ ?q) = ''/.*'' then length ?q - 2 else length ?q)"
  ultimately have p: "wildcard_prefix (''^'' @ ?q) = Some (take k ?q)" "length u + 2 \<le> k"
    by (simp_all add: wildcard_prefix_def)
  have "NUL \<notin> set ?q" using u(3) by simp
  then have nul: "is_cstring (take k ?q)" unfolding is_cstring_def by (blast dest: in_set_takeD)
  have l: "length (take k ?q) < 2 ^ 61" using assms(3) by simp
  have "take (length u + 2) (take 255 (take k ?q)) = u @ ''/.''"
    using p(2) assms(3) by (simp add: min_def) linarith
  then have "CHR ''.'' \<in> set (take (length u + 2) (take 255 (take k ?q)))" by (simp only:) simp
  then have "CHR ''.'' \<in> set (take 255 (take k ?q))" by (rule in_set_takeD)
  then show thesis by (rule that[OF c p(1) nul l])
qed

definition lost_topic :: "cstring \<Rightarrow> bool" where
  "lost_topic t \<longleftrightarrow> length t \<le> 253 \<and>
     ((\<exists>v. t = CHR ''*'' # v \<and> plain_topic v) \<or> (\<exists>u. t = u @ ''/.'' \<and> u \<noteq> [] \<and> list_all plain u))"

definition odd_chars :: "cstring \<Rightarrow> bool" where
  "odd_chars s \<longleftrightarrow> CHR ''['' \<in> set s \<or> CHR ''.'' \<in> set s"

lemma lost_topic_prefix:
  assumes "lost_topic t"
  obtains r p where "ws2posix t t = Some (MAMA_STATUS_OK, r)" "wildcard_prefix r = Some p" "is_cstring p" "length p < 2 ^ 61"
    "odd_chars (take 255 p)"
proof -
  from assms consider v where "t = CHR ''*'' # v" "plain_topic v" "length v \<le> 253"
    | u where "t = u @ ''/.''" "u \<noteq> []" "list_all plain u" "length u \<le> 253" by (auto simp: lost_topic_def)
  then show thesis
  proof cases
    case 1
    obtain r p where "ws2posix t t = Some (MAMA_STATUS_OK, r)" "wildcard_prefix r = Some p" "is_cstring p" "length p < 2 ^ 61"
      "CHR ''['' \<in> set (take 255 p)" unfolding 1(1) by (rule leading_star[OF 1(2,3)])
    then show thesis by (intro that[of r p]) (simp_all only: odd_chars_def simp_thms)
  next
    case 2
    obtain r p where "ws2posix t t = Some (MAMA_STATUS_OK, r)" "wildcard_prefix r = Some p" "is_cstring p" "length p < 2 ^ 61"
      "CHR ''.'' \<in> set (take 255 p)" unfolding 2(1) by (rule plain_subtree[OF 2(3,2,4)])
    then show thesis by (intro that[of r p]) (simp_all only: odd_chars_def simp_thms)
  qed
qed

lemma plain_not_odd: "list_all (\<lambda>c. c = CHR ''x'' \<or> plain c) s \<Longrightarrow> \<not> odd_chars s"
  by (induction s) (auto simp: odd_chars_def plain_def)

lemma lost_topic_means:
  assumes "lost_topic t"
  shows "\<exists>s. \<not> odd_chars s \<and> ws_receives t s"
proof -
  from assms consider v where "t = CHR ''*'' # v" "plain_topic t"
    | u where "t = u @ ''/.''" "list_all plain u" by (auto simp: lost_topic_def plain_topic_def)
  then show ?thesis
  proof cases
    case 1
    let ?s = "map (\<lambda>c. if c = CHR ''*'' then CHR ''x'' else c) t"
    have "list_all (\<lambda>c. c = CHR ''x'' \<or> plain c) ?s" using 1(2) by (auto simp: plain_topic_def list_all_iff)
    moreover have "\<not> (2 \<le> length t \<and> drop (length t - 2) t = ''/.'')"
      using plain_topic_end[OF 1(2), of "take (length t - 2) t"] by (metis append_take_drop_id)
    then have "ws_receives t ?s" using ws_match_self[OF 1(2)] by (simp only: ws_receives_def if_False)
    ultimately show ?thesis using plain_not_odd by blast
  next
    case 2
    have p: "plain_topic u" using 2(2) by (simp add: plain_topic_def list_all_iff)
    have "CHR ''*'' \<notin> set u" using 2(2) by (induction u) (auto simp: plain_def)
    then have "map (\<lambda>c. if c = CHR ''*'' then CHR ''x'' else c) u = u" by (induction u) auto
    then have "ws_match u u" using ws_match_self[OF p] by simp
    then have "ws_receives t u" using 2(1) by (auto simp: ws_receives_def intro!: bexI[of _ "length u"])
    moreover have "\<not> odd_chars u" by (rule plain_not_odd) (use 2(2) in \<open>simp add: list_all_iff\<close>)
    ultimately show ?thesis by blast
  qed
qed

lemma odd_not_received:
  assumes "sb_mSubjectKey sb = Some k" "is_cstring k" "odd_chars k" "\<not> odd_chars s"
  shows "\<not> wc_match L s (s @ NUL # z) sb"
proof
  assume "wc_match L s (s @ NUL # z) sb"
  then have "take (length k) (s @ NUL # z) = k" using assms(1) by (simp add: wc_match_def)
  from take_no_NUL[OF this] assms(2-4) show False by (auto simp: is_cstring_def odd_chars_def)
qed

text \<open>
  C36. Topics whose messages are lost. A topic that starts with a star, or the subtree of a topic without a star, is
  converted and can be subscribed to, and there are messages that it is for. The prefix that the bridge takes from the expression,
  however, is text of the expression itself, with an opening bracket or a dot in it. The subscription receives no message
  whose subject has neither of them.
\<close>

theorem ws_topic_lost:
  assumes "lost_topic t" "stack_ok m"
    and "proc_ok L w" "sub_store w a = None" "queue_ptr_ok w native" "mWcsUid (tport w) + 1 \<noteq> 0"
    and "transport \<noteq> None" "subscription \<noteq> None"
  shows "\<exists>r st sb w'. ws2posix t t = Some (MAMA_STATUS_OK, r) \<and>
     zmqBridgeMamaSubscription_createWildCard L env m True True True 0 True a (Some ()) native True (Some r)
       transport queue callback subscription closure w = Some (st, if st = MAMA_STATUS_OK then Some a else None, w') \<and>
     sub_store w' a = Some sb \<and> (\<forall>s z. \<not> odd_chars s \<longrightarrow> \<not> wc_match L s (s @ NUL # z) sb) \<and> (\<exists>s. \<not> odd_chars s \<and> ws_receives t s)"
proof -
  obtain r p where r: "ws2posix t t = Some (MAMA_STATUS_OK, r)" "wildcard_prefix r = Some p" "is_cstring p" "length p < 2 ^ 61"
    "odd_chars (take 255 p)" by (rule lost_topic_prefix[OF assms(1)])
  obtain st sb w' where o: "zmqBridgeMamaSubscription_createWildCard L env m True True True 0 True a (Some ()) native True (Some r)
       transport queue callback subscription closure w = Some (st, if st = MAMA_STATUS_OK then Some a else None, w')"
     "sub_store w' = (sub_store w)(a \<mapsto> sb)" "sb_mSubjectKey sb = Some (take 255 p)"
    using wc_create_ok[OF assms(3-8) r(2) prefix_key[OF assms(2) r(3,4)], of env queue callback closure] by blast
  have "is_cstring (take 255 p)" using r(3) unfolding is_cstring_def by (blast dest: in_set_takeD)
  then have "\<forall>s z. \<not> odd_chars s \<longrightarrow> \<not> wc_match L s (s @ NUL # z) sb" using odd_not_received[OF o(3) _ r(5)] by blast
  with r(1) o(1,2) lost_topic_means[OF assms(1)] show ?thesis
    by (intro exI[of _ r] exI[of _ st] exI[of _ sb] exI[of _ w']) simp
qed

theorem ws_topic_lost_witness:
  "\<exists>r st sb w'. ws2posix ''a/b/.'' ''a/b/.'' = Some (MAMA_STATUS_OK, r) \<and>
     zmqBridgeMamaSubscription_createWildCard ere_lib demo_env demo_stack True True True 0 True 7 (Some ()) (Some 0) True (Some r)
       (Some 1) (Some 0) None (Some 3) None demo_proc = Some (st, if st = MAMA_STATUS_OK then Some 7 else None, w') \<and>
     sub_store w' 7 = Some sb \<and> \<not> wc_match ere_lib ''a/b/c'' (''a/b/c'' @ NUL # []) sb"
proof -
  have t: "lost_topic ''a/b/.''" unfolding lost_topic_def
    by (intro conjI disjI2 exI[of _ "''a/b''"]) (simp_all add: plain_def)
  have "\<not> odd_chars ''a/b/c''" by (simp add: odd_chars_def)
  then show ?thesis
    using ws_topic_lost[OF t ere_lib_ok(3,2) demo_creates, where transport = "Some 1" and subscription = "Some 3"
        and env = demo_env and queue = "Some 0" and callback = None and closure = None] by blast
qed

end
