(* ===== verification/Oz_Api_Correct.thy ===== *)
theory Oz_Api_Correct
  imports Oz_Api Wildcard_Topics
begin

text \<open>
  The example library is correct where it is: publishers are shared and released as the reference counts say, a request can be
  waited for, and a subscriber subscribes to what its topic means.
\<close>

subsection \<open>The publishers of a connection\<close>

text \<open>
  What the map of a connection has for a topic, whose publisher an object is, and how many requests hold it. The pointers
  that the application itself holds are counted by \<open>h\<close>.
\<close>

definition cached :: "oz_app \<Rightarrow> nat \<times> cstring \<Rightarrow> nat option" where
  "cached w k = Option.bind (conn_heap w (fst k)) (\<lambda>c. co_pubs c (snd k))"

definition pub_key :: "oz_app \<Rightarrow> nat \<Rightarrow> (nat \<times> cstring) option" where
  "pub_key w a = map_option (\<lambda>p. (pu_pConn p, pu_topic p)) (pub_heap w a)"

definition req_pub :: "oz_app \<Rightarrow> nat \<Rightarrow> nat option" where
  "req_pub w r = Option.bind (req_heap w r) rq_pub"

definition holders :: "oz_app \<Rightarrow> nat \<Rightarrow> nat" where
  "holders w a = card {r. req_pub w r = Some a}"

definition cache_ok :: "oz_app \<Rightarrow> (nat \<Rightarrow> nat) \<Rightarrow> bool" where
  "cache_ok w h \<longleftrightarrow> finite (dom (req_pub w)) \<and> (\<forall>a k. pub_key w a = Some k \<longleftrightarrow> cached w k = Some a) \<and>
     (\<forall>a. use_count w a = h a + holders w a) \<and> (\<forall>a. pub_key w a = None \<longleftrightarrow> use_count w a = 0)"

lemma pub_frames [simp]:
  "cached (w\<lparr>pub_heap := f\<rparr>) = cached w" "cached (w\<lparr>req_heap := g\<rparr>) = cached w" "cached (w\<lparr>use_count := n\<rparr>) = cached w"
  "cached (w\<lparr>mama_calls := m\<rparr>) = cached w" "cached (w\<lparr>sink_calls := k\<rparr>) = cached w"
  "pub_key (w\<lparr>conn_heap := c\<rparr>) = pub_key w" "pub_key (w\<lparr>req_heap := g\<rparr>) = pub_key w" "pub_key (w\<lparr>use_count := n\<rparr>) = pub_key w"
  "pub_key (w\<lparr>mama_calls := m\<rparr>) = pub_key w" "pub_key (w\<lparr>sink_calls := k\<rparr>) = pub_key w"
  "req_pub (w\<lparr>conn_heap := c\<rparr>) = req_pub w" "req_pub (w\<lparr>pub_heap := f\<rparr>) = req_pub w" "req_pub (w\<lparr>use_count := n\<rparr>) = req_pub w"
  "req_pub (w\<lparr>mama_calls := m\<rparr>) = req_pub w" "req_pub (w\<lparr>sink_calls := k\<rparr>) = req_pub w"
  by (simp_all add: cached_def pub_key_def req_pub_def fun_eq_iff)

text \<open>The parts of the program that the invariant is about.\<close>

definition same_pubs :: "oz_app \<Rightarrow> oz_app \<Rightarrow> bool" where
  "same_pubs w w' \<longleftrightarrow> cached w' = cached w \<and> pub_key w' = pub_key w \<and> req_pub w' = req_pub w \<and> use_count w' = use_count w"

lemma cache_ok_same: "same_pubs w w' \<Longrightarrow> cache_ok w h \<Longrightarrow> cache_ok w' h"
  by (simp add: same_pubs_def cache_ok_def holders_def)

lemma same_pubs_trans [trans]: "same_pubs w w' \<Longrightarrow> same_pubs w' w'' \<Longrightarrow> same_pubs w w''"
  by (simp add: same_pubs_def)

lemma same_pubs_refl [simp]: "same_pubs w w"
  by (simp add: same_pubs_def)

text \<open>What an operation leaves alone: which objects of the other classes there are.\<close>

definition same_owners :: "oz_app \<Rightarrow> oz_app \<Rightarrow> bool" where
  "same_owners w w' \<longleftrightarrow> dom (conn_heap w') = dom (conn_heap w) \<and> sess_heap w' = sess_heap w \<and> rep_heap w' = rep_heap w"

lemma pub_live: "cache_ok w h \<Longrightarrow> 0 < h a \<Longrightarrow> \<exists>p. pub_heap w a = Some p \<and> conn_heap w (pu_pConn p) \<noteq> None"
proof -
  assume ok: "cache_ok w h" and a: "0 < h a"
  then have "pub_key w a \<noteq> None" by (auto simp: cache_ok_def)
  then obtain p where p: "pub_heap w a = Some p" by (auto simp: pub_key_def)
  then have "pub_key w a = Some (pu_pConn p, pu_topic p)" by (simp add: pub_key_def)
  then have "cached w (pu_pConn p, pu_topic p) = Some a" using ok by (simp add: cache_ok_def)
  then have "conn_heap w (pu_pConn p) \<noteq> None" by (auto simp: cached_def bind_eq_Some_conv)
  with p show ?thesis by blast
qed

text \<open>Two maps that are inverse to each other stay so when a pair is added or removed.\<close>

definition inverse_maps :: "('a \<Rightarrow> 'b option) \<Rightarrow> ('b \<Rightarrow> 'a option) \<Rightarrow> bool" where
  "inverse_maps f g \<longleftrightarrow> (\<forall>a k. f a = Some k \<longleftrightarrow> g k = Some a)"

lemma inverse_mapsD: "inverse_maps f g \<Longrightarrow> f a = Some k \<longleftrightarrow> g k = Some a"
  by (simp add: inverse_maps_def)

lemma inverse_maps_add:
  assumes "inverse_maps f g" "f a = None" "g k = None"
  shows "inverse_maps (f(a \<mapsto> k)) (g(k \<mapsto> a))"
  unfolding inverse_maps_def
proof (intro allI)
  fix b l
  show "(f(a \<mapsto> k)) b = Some l \<longleftrightarrow> (g(k \<mapsto> a)) l = Some b"
    using inverse_mapsD[OF assms(1), of b l] inverse_mapsD[OF assms(1), of a l] inverse_mapsD[OF assms(1), of b k] assms(2,3)
    by (cases "b = a"; cases "l = k") auto
qed

lemma inverse_maps_remove:
  assumes "inverse_maps f g" "f a = Some k"
  shows "inverse_maps (f(a := None)) (g(k := None))"
  unfolding inverse_maps_def
proof (intro allI)
  fix b l
  show "(f(a := None)) b = Some l \<longleftrightarrow> (g(k := None)) l = Some b"
    using inverse_mapsD[OF assms(1), of b l] inverse_mapsD[OF assms(1), of a l] inverse_mapsD[OF assms(1), of b k]
      inverse_mapsD[OF assms(1), of a k] assms(2)
    by (cases "b = a"; cases "l = k") auto
qed

lemma cache_ok_maps: "cache_ok w h \<longleftrightarrow> finite (dom (req_pub w)) \<and> inverse_maps (pub_key w) (cached w) \<and>
     (\<forall>a. use_count w a = h a + holders w a) \<and> (\<forall>a. pub_key w a = None \<longleftrightarrow> use_count w a = 0)"
  by (simp add: cache_ok_def inverse_maps_def)

text \<open>Getting a pointer, letting one go.\<close>

lemma get_ok:
  assumes ok: "cache_ok w h" and c: "conn_heap w i = Some c" and a: "pub_heap w a = None"
  shows "\<exists>b w'. connection_getPublisher a i t w = Some (Some b, w') \<and> pub_key w' b = Some (i, t) \<and> cache_ok w' (h(b := h b + 1)) \<and>
     same_owners w w' \<and> req_heap w' = req_heap w \<and> mama_calls w' = mama_calls w"
proof (cases "co_pubs c t")
  case None
  let ?w = "w\<lparr>pub_heap := (pub_heap w)(a \<mapsto> \<lparr>pu_pConn = i, pu_pub = None, pu_topic = t\<rparr>), use_count := (use_count w)(a := 1),
      conn_heap := (conn_heap w)(i \<mapsto> c\<lparr>co_pubs := (co_pubs c)(t \<mapsto> a)\<rparr>)\<rparr>"
  have k: "pub_key w a = None" using a by (simp add: pub_key_def)
  then have u: "h a = 0" "holders w a = 0" using ok by (auto simp: cache_ok_def)
  have p: "pub_key ?w = (pub_key w)(a \<mapsto> (i, t))" by (auto simp: pub_key_def fun_eq_iff)
  have d: "cached ?w = (cached w)((i, t) \<mapsto> a)" using c by (auto simp: cached_def fun_eq_iff)
  have r: "req_pub ?w = req_pub w" "holders ?w = holders w" by (simp_all add: req_pub_def holders_def fun_eq_iff)
  have "inverse_maps (pub_key ?w) (cached ?w)" unfolding p d
    using ok k None c by (intro inverse_maps_add) (simp_all add: cache_ok_maps cached_def)
  moreover have "\<forall>b. use_count ?w b = (h(a := h a + 1)) b + holders ?w b" unfolding r using ok u by (simp add: cache_ok_def)
  moreover have "\<forall>b. pub_key ?w b = None \<longleftrightarrow> use_count ?w b = 0" unfolding p using ok by (simp add: cache_ok_def)
  moreover have "finite (dom (req_pub ?w))" unfolding r using ok by (simp add: cache_ok_def)
  ultimately have "cache_ok ?w (h(a := h a + 1))" unfolding cache_ok_maps by blast
  then show ?thesis using c None p by (auto simp: connection_getPublisher_def same_owners_def)
next
  case (Some b)
  have b: "pub_key w b = Some (i, t)" using ok c Some by (simp add: cache_ok_def cached_def)
  then have u: "use_count w b \<noteq> 0" using ok by (metis cache_ok_def option.distinct(1))
  let ?w = "w\<lparr>use_count := (use_count w)(b := use_count w b + 1)\<rparr>"
  have e: "pub_key ?w = pub_key w" "cached ?w = cached w" "req_pub ?w = req_pub w"
    by (simp_all add: pub_key_def cached_def req_pub_def fun_eq_iff)
  have "cache_ok ?w (h(b := h b + 1))" unfolding cache_ok_maps e holders_def using ok u b
    by (auto simp: cache_ok_maps holders_def)
  then show ?thesis using c Some u b e by (auto simp: connection_getPublisher_def weak_lock_def same_owners_def)
qed

lemma release_ok:
  assumes ok: "cache_ok w h" and a: "0 < h a"
  shows "\<exists>w'. shared_release (Some a) w = Some w' \<and> cache_ok w' (h(a := h a - 1)) \<and> same_owners w w' \<and> req_heap w' = req_heap w \<and>
     mama_calls w' = mama_calls w"
proof -
  from pub_live[OF ok a] obtain p c where p: "pub_heap w a = Some p" "conn_heap w (pu_pConn p) = Some c" by blast
  let ?i = "pu_pConn p" and ?t = "pu_topic p"
  have k: "pub_key w a = Some (?i, ?t)" using p by (simp add: pub_key_def)
  have u: "use_count w a = h a + holders w a" using ok by (simp add: cache_ok_def)
  show ?thesis
  proof (cases "use_count w a - 1 = 0")
    case False
    let ?w = "w\<lparr>use_count := (use_count w)(a := use_count w a - 1)\<rparr>"
    have e: "pub_key ?w = pub_key w" "cached ?w = cached w" "req_pub ?w = req_pub w"
      by (simp_all add: pub_key_def cached_def req_pub_def fun_eq_iff)
    have "cache_ok ?w (h(a := h a - 1))" unfolding cache_ok_maps e holders_def using ok u a False
      by (auto simp: cache_ok_maps holders_def)
    then show ?thesis using False by (auto simp: shared_release_def same_owners_def)
  next
    case True
    let ?w = "w\<lparr>use_count := (use_count w)(a := use_count w a - 1), conn_heap := (conn_heap w)(?i \<mapsto> c\<lparr>co_pubs := (co_pubs c)(?t := None)\<rparr>),
       pub_heap := (pub_heap w)(a := None)\<rparr>"
    have e: "shared_release (Some a) w = Some ?w"
      using True p by (simp add: shared_release_def publisher_destroy_def connection_removePublisher_def)
    have h: "h a = 1" "holders w a = 0" using True u a by simp_all
    have pk: "pub_key ?w = (pub_key w)(a := None)" by (auto simp: pub_key_def fun_eq_iff)
    have d: "cached ?w = (cached w)((?i, ?t) := None)" using p by (auto simp: cached_def fun_eq_iff)
    have r: "req_pub ?w = req_pub w" "holders ?w = holders w" by (simp_all add: req_pub_def holders_def fun_eq_iff)
    have "inverse_maps (pub_key ?w) (cached ?w)" unfolding pk d
      using ok k by (intro inverse_maps_remove) (simp_all add: cache_ok_maps)
    moreover have "\<forall>b. use_count ?w b = (h(a := h a - 1)) b + holders ?w b" unfolding r using ok h True by (simp add: cache_ok_def)
    moreover have "\<forall>b. pub_key ?w b = None \<longleftrightarrow> use_count ?w b = 0" unfolding pk using ok True by (simp add: cache_ok_def)
    moreover have "finite (dom (req_pub ?w))" unfolding r using ok by (simp add: cache_ok_def)
    ultimately have "cache_ok ?w (h(a := h a - 1))" unfolding cache_ok_maps by blast
    with e p show ?thesis by (auto simp: same_owners_def)
  qed
qed

text \<open>Using a publisher changes none of this.\<close>

lemma mama_same: "mama env c w = (s, p, w') \<Longrightarrow> same_pubs w w' \<and> same_owners w w' \<and> pub_heap w' = pub_heap w \<and> req_heap w' = req_heap w \<and>
     conn_heap w' = conn_heap w"
  by (auto simp: mama_def Let_def same_pubs_def same_owners_def split: prod.splits)

lemma pub_create_ok:
  assumes "pub_heap w a = Some p" "conn_heap w (pu_pConn p) \<noteq> None"
  shows "\<exists>s w' p'. publisher_create env a w = Some (s, w') \<and> same_pubs w w' \<and> same_owners w w' \<and> req_heap w' = req_heap w \<and>
     pub_heap w' a = Some p'"
proof (cases "pu_pub p")
  case None
  from assms(2) obtain c where c: "conn_heap w (pu_pConn p) = Some c" by blast
  obtain s x w1 where m: "mama env (MamaPublisher_create (co_transport c) (pu_topic p)) w = (s, x, w1)" by (metis prod_cases3)
  let ?p = "p\<lparr>pu_pub := stored x None\<rparr>"
  let ?w = "w1\<lparr>pub_heap := (pub_heap w1)(a \<mapsto> ?p)\<rparr>"
  have "pub_key ?w = pub_key w" using mama_same[OF m] assms(1) by (auto simp: pub_key_def fun_eq_iff)
  then have "same_pubs w ?w" using mama_same[OF m] by (simp add: same_pubs_def)
  moreover have "same_owners w ?w" "req_heap ?w = req_heap w" using mama_same[OF m] by (simp_all add: same_owners_def)
  ultimately show ?thesis using assms(1) c None m by (simp add: publisher_create_def)
qed (use assms in \<open>simp add: publisher_create_def same_owners_def\<close>)

lemma send_ok:
  assumes "cache_ok w h" "0 < h a \<or> 0 < holders w a"
  shows "\<exists>s w'. CALL_MAMA_FUNC (publisher_create env a w) (\<lambda>w. do {
         p \<leftarrow> pub_heap w a; let (s, _, w) = mama env (f p) w; Some (s, w) }) = Some (s, w') \<and>
       same_pubs w w' \<and> same_owners w w' \<and> req_heap w' = req_heap w"
proof -
  have "0 < use_count w a" using assms by (auto simp: cache_ok_def)
  then have "pub_key w a \<noteq> None" using assms(1) by (metis cache_ok_def less_numeral_extra(3))
  then obtain p where p: "pub_heap w a = Some p" by (auto simp: pub_key_def)
  then have "cached w (pu_pConn p, pu_topic p) = Some a" using assms(1) by (auto simp: cache_ok_def pub_key_def)
  then have c: "conn_heap w (pu_pConn p) \<noteq> None" by (auto simp: cached_def bind_eq_Some_conv)
  from pub_create_ok[OF p c] obtain s w1 p1 where w1: "publisher_create env a w = Some (s, w1)" "same_pubs w w1" "same_owners w w1"
    "req_heap w1 = req_heap w" "pub_heap w1 a = Some p1" by blast
  obtain s2 x w2 where m: "mama env (f p1) w1 = (s2, x, w2)" by (metis prod_cases3)
  show ?thesis
  proof (cases "s = MAMA_STATUS_OK")
    case True
    have "same_pubs w w2" "same_owners w w2" "req_heap w2 = req_heap w"
      using mama_same[OF m] w1 by (auto simp: same_owners_def intro: same_pubs_trans)
    then show ?thesis using True w1 m by (simp add: CALL_MAMA_FUNC_def)
  qed (use w1 in \<open>simp add: CALL_MAMA_FUNC_def\<close>)
qed

text \<open>A request takes over a pointer, and gives it back.\<close>

lemma request_takes:
  assumes ok: "cache_ok w (h(b := h b + 1))" and r: "req_heap w r = Some x" "rq_pub x = None"
  shows "cache_ok (w\<lparr>req_heap := (req_heap w)(r \<mapsto> x\<lparr>rq_pub := Some b\<rparr>)\<rparr>) h"
proof -
  let ?w = "w\<lparr>req_heap := (req_heap w)(r \<mapsto> x\<lparr>rq_pub := Some b\<rparr>)\<rparr>"
  have q: "req_pub ?w = (req_pub w)(r \<mapsto> b)" by (auto simp: req_pub_def fun_eq_iff)
  have n: "req_pub w r = None" using r by (simp add: req_pub_def)
  have f: "finite {r. req_pub w r = Some b}" using ok by (auto simp: cache_ok_def dom_def elim!: rev_finite_subset)
  have "{r'. ((req_pub w)(r \<mapsto> b)) r' = Some b} = insert r {r. req_pub w r = Some b}" by auto
  then have "holders ?w b = holders w b + 1" unfolding holders_def q using n f by simp
  moreover have "holders ?w c = holders w c" if "c \<noteq> b" for c
  proof -
    have "{r'. ((req_pub w)(r \<mapsto> b)) r' = Some c} = {r. req_pub w r = Some c}" using n that by auto
    then show ?thesis by (simp only: holders_def q)
  qed
  ultimately have "\<forall>a. use_count ?w a = h a + holders ?w a" using ok by (auto simp: cache_ok_def)
  moreover have "pub_key ?w = pub_key w" "cached ?w = cached w" by (simp_all add: pub_key_def cached_def fun_eq_iff)
  moreover have "finite (dom (req_pub ?w))" unfolding q using ok by (simp add: cache_ok_def)
  ultimately show ?thesis using ok by (simp only: cache_ok_def oz_app.simps simp_thms) simp
qed

lemma request_gives:
  assumes ok: "cache_ok w h" and r: "req_heap w r = Some x"
  shows "cache_ok (w\<lparr>req_heap := (req_heap w)(r := None)\<rparr>) (case rq_pub x of None \<Rightarrow> h | Some b \<Rightarrow> h(b := h b + 1))"
proof -
  let ?w = "w\<lparr>req_heap := (req_heap w)(r := None)\<rparr>"
  have q: "req_pub ?w = (req_pub w)(r := None)" by (auto simp: req_pub_def fun_eq_iff)
  have n: "req_pub w r = rq_pub x" using r by (simp add: req_pub_def)
  have f: "finite {r. req_pub w r = Some b}" for b using ok by (auto simp: cache_ok_def dom_def elim!: rev_finite_subset)
  have s: "{r'. ((req_pub w)(r := None)) r' = Some c} = {r. req_pub w r = Some c} - {r}" for c by auto
  have hc: "holders ?w c + (if rq_pub x = Some c then 1 else 0) = holders w c" for c
  proof (cases "rq_pub x = Some c")
    case True
    then have "r \<in> {r. req_pub w r = Some c}" using n by simp
    from card.remove[OF f this] show ?thesis using True unfolding holders_def q s by simp
  next
    case False
    then show ?thesis unfolding holders_def q s using n by simp
  qed
  have "use_count ?w a = (case rq_pub x of None \<Rightarrow> h | Some b \<Rightarrow> h(b := h b + 1)) a + holders ?w a" for a
  proof -
    have "use_count ?w a = h a + holders w a" using ok by (simp add: cache_ok_def)
    with hc[of a] show ?thesis by (cases "rq_pub x"; cases "rq_pub x = Some a") auto
  qed
  then have "\<forall>a. use_count ?w a = (case rq_pub x of None \<Rightarrow> h | Some b \<Rightarrow> h(b := h b + 1)) a + holders ?w a" ..
  moreover have "pub_key ?w = pub_key w" "cached ?w = cached w" by (simp_all add: pub_key_def cached_def fun_eq_iff)
  moreover have "finite (dom (req_pub ?w))" unfolding q using ok by (simp add: cache_ok_def)
  ultimately show ?thesis using ok by (simp only: cache_ok_def oz_app.simps simp_thms) simp
qed

subsection \<open>Programs\<close>

text \<open>
  What a program does with connections, publishers, requests and replies; the last argument of an operation that may
  make a publisher is the address of a new one. The program counts its own pointers.
\<close>

datatype api_op =
    GetPublisher nat cstring nat
  | ReleasePublisher nat
  | Publish nat voidp
  | CreateRequest nat nat cstring bool
  | SendRequest nat voidp nat
  | RequestReplied nat voidp
  | RequestDestroyed nat
  | SendReply nat bool voidp nat
  | DestroyConnection nat

fun api_exec :: "menv \<Rightarrow> api_op \<Rightarrow> oz_app \<times> (nat \<Rightarrow> nat) \<Rightarrow> (oz_app \<times> (nat \<Rightarrow> nat)) option" where
  "api_exec env (GetPublisher i t a) (w, h) = do {
     (p, w) \<leftarrow> connection_getPublisher a i t w;
     Some (w, case p of None \<Rightarrow> h | Some b \<Rightarrow> h(b := h b + 1))
   }"
| "api_exec env (ReleasePublisher b) (w, h) = do { w \<leftarrow> shared_release (Some b) w; Some (w, h(b := h b - 1)) }"
| "api_exec env (Publish b msg) (w, h) = do { (s, w) \<leftarrow> publisher_publish env b msg w; Some (w, h) }"
| "api_exec env (CreateRequest r i t k) (w, h) = Some (w\<lparr>req_heap := (req_heap w)(r \<mapsto> new_request i t k)\<rparr>, h)"
| "api_exec env (SendRequest r msg a) (w, h) = do { (s, w) \<leftarrow> request_send env a r msg w; Some (w, h) }"
| "api_exec env (RequestReplied r msg) (w, h) = do { w \<leftarrow> request_msgCB msg (Some r) w; Some (w, h) }"
| "api_exec env (RequestDestroyed r) (w, h) = do { w \<leftarrow> request_destroyCB (Some r) w; Some (w, h) }"
| "api_exec env (SendReply i inbox msg a) (w, h) = do { (s, w) \<leftarrow> reply_send env a inbox i msg w; Some (w, h) }"
| "api_exec env (DestroyConnection i) (w, h) = do { (s, w) \<leftarrow> connection_destroy env i w; Some (w, h) }"

text \<open>
  What the program must see to: it uses objects that there are, it releases pointers that it has, and it destroys a connection
  only when none of its publishers is left.
\<close>

fun api_pre :: "api_op \<Rightarrow> oz_app \<times> (nat \<Rightarrow> nat) \<Rightarrow> bool" where
  "api_pre (GetPublisher i t a) (w, h) \<longleftrightarrow> conn_heap w i \<noteq> None \<and> pub_heap w a = None"
| "api_pre (ReleasePublisher b) (w, h) \<longleftrightarrow> 0 < h b"
| "api_pre (Publish b msg) (w, h) \<longleftrightarrow> 0 < h b"
| "api_pre (CreateRequest r i t k) (w, h) \<longleftrightarrow> req_heap w r = None"
| "api_pre (SendRequest r msg a) (w, h) \<longleftrightarrow>
     pub_heap w a = None \<and> (case req_heap w r of None \<Rightarrow> False | Some x \<Rightarrow> session_ptrs (rq_pSession x) w \<noteq> None)"
| "api_pre (RequestReplied r msg) (w, h) \<longleftrightarrow> (case req_heap w r of None \<Rightarrow> False | Some x \<Rightarrow> rq_replied x \<noteq> None)"
| "api_pre (RequestDestroyed r) (w, h) \<longleftrightarrow> (case req_heap w r of None \<Rightarrow> False | Some x \<Rightarrow> rq_replied x \<noteq> None)"
| "api_pre (SendReply i inbox msg a) (w, h) \<longleftrightarrow>
     pub_heap w a = None \<and> (case rep_heap w i of None \<Rightarrow> False | Some c \<Rightarrow> conn_heap w c \<noteq> None)"
| "api_pre (DestroyConnection i) (w, h) \<longleftrightarrow> conn_heap w i \<noteq> None \<and> (\<forall>t. cached w (i, t) = None)"

inductive api_step :: "menv \<Rightarrow> oz_app \<times> (nat \<Rightarrow> nat) \<Rightarrow> oz_app \<times> (nat \<Rightarrow> nat) \<Rightarrow> bool" for env where
  step: "api_pre op s \<Longrightarrow> api_exec env op s = Some s' \<Longrightarrow> api_step env s s'"

text \<open>The invariant is kept by every operation.\<close>

lemma new_request_ok:
  assumes "cache_ok w h" "req_heap w r = None"
  shows "cache_ok (w\<lparr>req_heap := (req_heap w)(r \<mapsto> new_request i t k)\<rparr>) h"
proof -
  have "req_pub (w\<lparr>req_heap := (req_heap w)(r \<mapsto> new_request i t k)\<rparr>) = req_pub w"
    using assms(2) by (auto simp: req_pub_def new_request_def fun_eq_iff)
  then show ?thesis by (intro cache_ok_same[OF _ assms(1)]) (simp add: same_pubs_def)
qed

text \<open>An update of a request that keeps its publisher.\<close>

lemma request_update_same: "req_heap w r = Some x \<Longrightarrow> rq_pub y = rq_pub x \<Longrightarrow> same_pubs w (w\<lparr>req_heap := (req_heap w)(r \<mapsto> y)\<rparr>)"
  by (auto simp: same_pubs_def req_pub_def fun_eq_iff)

lemma same_owners_trans [trans]: "same_owners w w' \<Longrightarrow> same_owners w' w'' \<Longrightarrow> same_owners w w''"
  by (simp add: same_owners_def)

lemma request_inbox_ok:
  assumes "req_heap w r = Some x" "session_ptrs (rq_pSession x) w \<noteq> None"
  shows "\<exists>s w' y. request_inbox env r w = Some (s, w') \<and> same_pubs w w' \<and> same_owners w w' \<and> conn_heap w' = conn_heap w \<and>
     pub_heap w' = pub_heap w \<and> req_heap w' r = Some y \<and> rq_pub y = rq_pub x \<and> rq_pSession y = rq_pSession x \<and>
     rq_topic y = rq_topic x \<and> rq_pSink y = rq_pSink x"
proof (cases "rq_inbox x")
  case None
  from assms(2) obtain tp q where p: "session_ptrs (rq_pSession x) w = Some (tp, q)" by auto
  obtain s i w1 where m: "mama env (MamaInbox_create2 tp q r) w = (s, i, w1)" by (metis prod_cases3)
  note f = mama_same[OF m]
  let ?y = "x\<lparr>rq_inbox := stored i None\<rparr>"
  let ?w = "w1\<lparr>req_heap := (req_heap w1)(r \<mapsto> ?y)\<rparr>"
  have "same_pubs w1 ?w" using f assms(1) by (intro request_update_same[of _ _ x]) simp_all
  then have "same_pubs w ?w" using f same_pubs_trans by blast
  moreover have "same_owners w ?w" "conn_heap ?w = conn_heap w" "pub_heap ?w = pub_heap w" using f by (simp_all add: same_owners_def)
  moreover have "request_inbox env r w = Some (s, ?w)" using assms(1) None p m by (simp add: request_inbox_def)
  ultimately show ?thesis by (intro exI[of _ s] exI[of _ ?w] exI[of _ ?y]) simp
qed (use assms in \<open>simp add: request_inbox_def same_owners_def\<close>)

lemma request_publisher_ok:
  assumes "cache_ok w h" "req_heap w r = Some x" "sess_heap w (rq_pSession x) = Some s" "conn_heap w (se_pConn s) \<noteq> None" "pub_heap w a = None"
  shows "\<exists>w' b. request_publisher a r w = Some w' \<and> cache_ok w' h \<and> same_owners w w' \<and> req_heap w' r = Some (x\<lparr>rq_pub := Some b\<rparr>) \<and>
     mama_calls w' = mama_calls w"
proof (cases "rq_pub x")
  case None
  from assms(4) obtain c where c: "conn_heap w (se_pConn s) = Some c" by blast
  from get_ok[OF assms(1) c assms(5), of "rq_topic x"] obtain b w1 where g: "connection_getPublisher a (se_pConn s) (rq_topic x) w = Some (Some b, w1)"
    "cache_ok w1 (h(b := h b + 1))" "same_owners w w1" "req_heap w1 = req_heap w" "mama_calls w1 = mama_calls w" by blast
  let ?w = "w1\<lparr>req_heap := (req_heap w1)(r \<mapsto> x\<lparr>rq_pub := Some b\<rparr>)\<rparr>"
  have "cache_ok ?w h" by (rule request_takes[OF g(2)]) (use g(4) assms(2) None in simp_all)
  moreover have "same_owners w ?w" using g(3) by (simp add: same_owners_def)
  moreover have "request_publisher a r w = Some ?w" using assms(2,3) None g(1,4) by (simp add: request_publisher_def)
  ultimately show ?thesis using g(5) by (intro exI[of _ ?w] exI[of _ b]) simp
next
  case (Some b)
  then have "x\<lparr>rq_pub := Some b\<rparr> = x" by (cases x) simp
  with Some assms(1,2) show ?thesis by (intro exI[of _ w] exI[of _ b]) (simp add: request_publisher_def same_owners_def)
qed

lemma request_send_ok:
  assumes ok: "cache_ok w h" and x: "req_heap w r = Some x" "session_ptrs (rq_pSession x) w \<noteq> None" and a: "pub_heap w a = None"
  shows "\<exists>s w' y. request_send env a r msg w = Some (s, w') \<and> cache_ok w' h \<and> same_owners w w' \<and> req_heap w' r = Some y \<and>
     rq_pSink y = rq_pSink x \<and> (s = MAMA_STATUS_OK \<longrightarrow> rq_replied y = Some 0)"
proof -
  from request_inbox_ok[OF x, of env] obtain s1 w1 y where w1: "request_inbox env r w = Some (s1, w1)" "same_pubs w w1" "same_owners w w1"
    "conn_heap w1 = conn_heap w" "pub_heap w1 = pub_heap w" "req_heap w1 r = Some y" "rq_pSession y = rq_pSession x" "rq_pSink y = rq_pSink x" by blast
  have ok1: "cache_ok w1 h" by (rule cache_ok_same[OF w1(2) ok])
  show ?thesis
  proof (cases "s1 = MAMA_STATUS_OK")
    case True
    from x(2) obtain s where s: "sess_heap w (rq_pSession x) = Some s" "conn_heap w (se_pConn s) \<noteq> None"
      by (auto simp: session_ptrs_def bind_eq_Some_conv)
    have s': "sess_heap w1 (rq_pSession y) = Some s" "conn_heap w1 (se_pConn s) \<noteq> None" "pub_heap w1 a = None"
      using s w1 a by (simp_all add: same_owners_def)
    from request_publisher_ok[OF ok1 w1(6) s'] obtain w2 b where w2: "request_publisher a r w1 = Some w2" "cache_ok w2 h" "same_owners w1 w2"
      "req_heap w2 r = Some (y\<lparr>rq_pub := Some b\<rparr>)" by blast
    let ?w = "w2\<lparr>req_heap := (req_heap w2)(r \<mapsto> y\<lparr>rq_pub := Some b, rq_replied := Some 0\<rparr>)\<rparr>"
    have sp: "same_pubs w2 ?w" by (rule request_update_same[OF w2(4)]) simp
    have ok3: "cache_ok ?w h" by (rule cache_ok_same[OF sp w2(2)])
    have "r \<in> {r. req_pub w2 r = Some b}" using w2(4) by (simp add: req_pub_def)
    moreover have "finite {r. req_pub w2 r = Some b}" using w2(2) by (auto simp: cache_ok_def dom_def elim!: rev_finite_subset)
    ultimately have "0 < holders w2 b" unfolding holders_def by (auto simp: card_gt_0_iff)
    then have "0 < holders ?w b" using sp by (simp add: holders_def same_pubs_def)
    from send_ok[OF ok3 disjI2[OF this], of env "\<lambda>p. MamaPublisher_sendFromInbox (pu_pub p) (rq_inbox y) msg"] obtain s3 w3 where
      w3: "publisher_sendRequest env b msg (rq_inbox y) ?w = Some (s3, w3)" "same_pubs ?w w3" "same_owners ?w w3" "req_heap w3 = req_heap ?w"
      unfolding publisher_sendRequest_def by blast
    have "request_send env a r msg w = Some (s3, w3)" using w1(1) w2(1,4) True w3(1) by (simp add: request_send_def CALL_MAMA_FUNC_def)
    moreover have "same_owners w w3" using w1(3) w2(3) w3(3) by (simp add: same_owners_def)
    moreover have "req_heap w3 r = Some (y\<lparr>rq_pub := Some b, rq_replied := Some 0\<rparr>)" using w3(4) by simp
    ultimately show ?thesis using cache_ok_same[OF w3(2) ok3] w1(8) by fastforce
  qed (use w1 ok1 in \<open>simp add: request_send_def CALL_MAMA_FUNC_def\<close>)
qed

lemma release_frame: "shared_release p (w\<lparr>req_heap := f\<rparr>) = map_option (\<lambda>w. w\<lparr>req_heap := f\<rparr>) (shared_release p w)"
  by (cases p) (auto simp: shared_release_def publisher_destroy_def connection_removePublisher_def Let_def split: bind_splits)

lemma request_destroyed_ok:
  assumes "cache_ok w h" "req_heap w r = Some x" "rq_replied x \<noteq> None"
  shows "\<exists>w'. request_destroyCB (Some r) w = Some w' \<and> cache_ok w' h"
proof -
  let ?w = "w\<lparr>req_heap := (req_heap w)(r := None)\<rparr>"
  note g = request_gives[OF assms(1,2)]
  have "\<exists>w'. shared_release (rq_pub x) ?w = Some w' \<and> cache_ok w' h \<and> req_heap w' = (req_heap w)(r := None)"
  proof (cases "rq_pub x")
    case None
    then show ?thesis using g by (simp add: shared_release_def)
  next
    case (Some b)
    with g have "cache_ok ?w (h(b := h b + 1))" by simp
    from release_ok[OF this, of b] show ?thesis using Some by auto
  qed
  then obtain w1 w' where w1: "shared_release (rq_pub x) w = Some w1" "w' = w1\<lparr>req_heap := (req_heap w)(r := None)\<rparr>" "cache_ok w' h"
    unfolding release_frame by auto
  have "req_heap w1 = req_heap w"
    using w1(1) by (cases "rq_pub x") (auto simp: shared_release_def publisher_destroy_def connection_removePublisher_def Let_def bind_eq_Some_conv split: if_splits)
  then show ?thesis using assms(2,3) w1 by (auto simp: request_destroyCB_def)
qed

lemma reply_send_ok:
  assumes ok: "cache_ok w h" and i: "rep_heap w i = Some j" "conn_heap w j \<noteq> None" and a: "pub_heap w a = None"
  shows "\<exists>s w'. reply_send env a inbox i msg w = Some (s, w') \<and> cache_ok w' h"
proof (cases inbox)
  case True
  from i(2) obtain c where c: "conn_heap w j = Some c" by blast
  from get_ok[OF ok c a, of "''_INBOX''"] obtain b w1 where g: "connection_getPublisher a j ''_INBOX'' w = Some (Some b, w1)"
    "cache_ok w1 (h(b := h b + 1))" by blast
  have b: "0 < (h(b := h b + 1)) b" by simp
  from send_ok[OF g(2) disjI1[OF b], of env "\<lambda>p. MamaPublisher_sendReplyToInbox (pu_pub p) msg msg"] obtain s w2 where
    w2: "publisher_sendReply env b msg msg w1 = Some (s, w2)" "same_pubs w1 w2" unfolding publisher_sendReply_def by blast
  have "(h(b := h b + 1))(b := (h(b := h b + 1)) b - 1) = h" by (rule ext) simp
  with release_ok[OF cache_ok_same[OF w2(2) g(2)] b] obtain w3 where "shared_release (Some b) w2 = Some w3" "cache_ok w3 h" by metis
  with g(1) w2(1) i(1) True show ?thesis by (simp add: reply_send_def reply_getReplyTopic_def)
qed (use assms in \<open>simp add: reply_send_def reply_getReplyTopic_def\<close>)

lemma conn_call_ok:
  assumes "conn_heap w i = Some c"
  shows "\<exists>s w' c'. conn_call env i f (\<lambda>p c. c) w = Some (s, w') \<and> same_pubs w w' \<and> conn_heap w' i = Some c'"
proof -
  obtain s p w1 where m: "mama env (f c) w = (s, p, w1)" by (metis prod_cases3)
  let ?w = "w1\<lparr>conn_heap := (conn_heap w1)(i \<mapsto> c\<lparr>co_status := s\<rparr>)\<rparr>"
  have "cached ?w = cached w" using mama_same[OF m] assms by (auto simp: cached_def fun_eq_iff)
  then have "same_pubs w ?w" using mama_same[OF m] by (simp add: same_pubs_def)
  then show ?thesis using assms m by (simp add: conn_call_def)
qed

lemma connection_destroy_ok:
  assumes ok: "cache_ok w h" and i: "conn_heap w i \<noteq> None" "\<And>t. cached w (i, t) = None"
  shows "\<exists>s w'. connection_destroy env i w = Some (s, w') \<and> cache_ok w' h"
proof -
  let ?call = "\<lambda>f. conn_call env i f (\<lambda>p c. c)"
  from i(1) obtain c where c: "conn_heap w i = Some c" by blast
  from conn_call_ok[OF c, of env "\<lambda>c. Mama_stop (co_bridge c)"] obtain s1 w1 c1 where
    1: "?call (\<lambda>c. Mama_stop (co_bridge c)) w = Some (s1, w1)" "same_pubs w w1" "conn_heap w1 i = Some c1" by blast
  from conn_call_ok[OF 1(3), of env "\<lambda>c. MamaTransport_destroy (co_transport c)"] obtain s2 w2 c2 where
    2: "?call (\<lambda>c. MamaTransport_destroy (co_transport c)) w1 = Some (s2, w2)" "same_pubs w1 w2" "conn_heap w2 i = Some c2" by blast
  from conn_call_ok[OF 2(3), of env "\<lambda>c. Mama_close"] obtain s3 w3 c3 where
    3: "?call (\<lambda>c. Mama_close) w2 = Some (s3, w3)" "same_pubs w2 w3" "conn_heap w3 i = Some c3" by blast
  have s: "same_pubs w w1" "same_pubs w w2" "same_pubs w w3" using 1(2) 2(2) 3(2) same_pubs_trans by blast+
  let ?w = "w3\<lparr>conn_heap := (conn_heap w3)(i := None)\<rparr>"
  have n: "cached w3 (i, t) = None" for t using s(3) i(2) by (simp add: same_pubs_def)
  have "cached ?w k = cached w3 k" for k using n[of "snd k"] by (cases k) (auto simp: cached_def)
  then have "cached ?w = cached w3" by (rule ext)
  then have "same_pubs w ?w" using s(3) by (simp add: same_pubs_def)
  then have "cache_ok w1 h" "cache_ok w2 h" "cache_ok w3 h" "cache_ok ?w h" using s ok cache_ok_same by blast+
  then show ?thesis using 1(1) 2(1) 3(1) by (auto simp: connection_destroy_def CALL_MAMA_FUNC_def)
qed

lemma request_replied_ok:
  assumes ok: "cache_ok w h" and x: "req_heap w r = Some x" "rq_replied x \<noteq> None"
  shows "\<exists>w'. request_msgCB msg (Some r) w = Some w' \<and> cache_ok w' h"
proof (cases "rq_pSink x")
  case True
  from x(2) obtain n where n: "rq_replied x = Some n" by blast
  let ?w = "w\<lparr>req_heap := (req_heap w)(r \<mapsto> x\<lparr>rq_replied := Some (n + 1)\<rparr>)\<rparr>"
  have "same_pubs w ?w" by (rule request_update_same[OF x(1)]) simp
  then have "same_pubs w (sink (OnReply r msg) ?w)" by (simp add: sink_def same_pubs_def)
  from cache_ok_same[OF this ok] show ?thesis using True x(1) n by (simp add: request_msgCB_def request_post_def)
qed (use ok x in \<open>simp add: request_msgCB_def\<close>)

lemma api_exec_ok:
  assumes "api_pre op (w, h)" "cache_ok w h"
  shows "\<exists>w' h'. api_exec env op (w, h) = Some (w', h') \<and> cache_ok w' h'"
proof (cases op)
  case (GetPublisher i t a)
  with assms get_ok[OF assms(2), of i _ a t] show ?thesis by fastforce
next
  case (ReleasePublisher b)
  with assms release_ok[OF assms(2), of b] show ?thesis by fastforce
next
  case (Publish b msg)
  with assms have "0 < h b" by simp
  from send_ok[OF assms(2) disjI1[OF this], of env "\<lambda>p. MamaPublisher_send (pu_pub p) msg"] obtain s w' where
    "publisher_publish env b msg w = Some (s, w')" "same_pubs w w'" unfolding publisher_publish_def by blast
  with Publish cache_ok_same[OF _ assms(2)] show ?thesis by auto
next
  case (CreateRequest r i t k)
  with assms new_request_ok[OF assms(2)] show ?thesis by simp
next
  case (SendRequest r msg a)
  with assms(1) obtain x where "req_heap w r = Some x" "session_ptrs (rq_pSession x) w \<noteq> None" "pub_heap w a = None" by (auto split: option.splits)
  from request_send_ok[OF assms(2) this, of env msg] SendRequest show ?thesis by auto
next
  case (RequestReplied r msg)
  with assms(1) obtain x where "req_heap w r = Some x" "rq_replied x \<noteq> None" by (auto split: option.splits)
  from request_replied_ok[OF assms(2) this, of msg] RequestReplied show ?thesis by auto
next
  case (RequestDestroyed r)
  with assms(1) obtain x where "req_heap w r = Some x" "rq_replied x \<noteq> None" by (auto split: option.splits)
  from request_destroyed_ok[OF assms(2) this] RequestDestroyed show ?thesis by auto
next
  case (SendReply i inbox msg a)
  with assms(1) obtain j where "rep_heap w i = Some j" "conn_heap w j \<noteq> None" "pub_heap w a = None" by (auto split: option.splits)
  from reply_send_ok[OF assms(2) this, of env inbox msg] SendReply show ?thesis by auto
next
  case (DestroyConnection i)
  with assms(1) have "conn_heap w i \<noteq> None" "\<And>t. cached w (i, t) = None" by auto
  from connection_destroy_ok[OF assms(2) this, of env] DestroyConnection show ?thesis by auto
qed

text \<open>A program that has its connections, sessions and reply objects, and has used none of them.\<close>

definition fresh_app :: "oz_app \<Rightarrow> bool" where
  "fresh_app w \<longleftrightarrow> pub_heap w = Map.empty \<and> req_heap w = Map.empty \<and> use_count w = (\<lambda>a. 0) \<and>
     (\<forall>i c. conn_heap w i = Some c \<longrightarrow> co_pubs c = Map.empty)"

lemma fresh_app_ok: "fresh_app w \<Longrightarrow> cache_ok w (\<lambda>a. 0)"
proof -
  assume w: "fresh_app w"
  have "cached w k = None" for k using w by (cases "conn_heap w (fst k)") (auto simp: cached_def fresh_app_def)
  moreover have "req_pub w = Map.empty" "pub_key w = Map.empty" using w by (simp_all add: req_pub_def pub_key_def fresh_app_def fun_eq_iff)
  ultimately show ?thesis using w by (simp add: cache_ok_def fresh_app_def holders_def)
qed


text \<open>A program with one connection, one session and one reply object, and a MAMA that always answers with success.\<close>

definition demo_menv :: menv where
  "demo_menv h c = (MAMA_STATUS_OK, Some (length h + 1))"

definition demo_app :: oz_app where
  "demo_app = \<lparr>conn_heap = [0 \<mapsto> new_connection ''zmq'' ''omnmmsg'' ''oz''], sess_heap = [0 \<mapsto> new_session 0], sub_heap = Map.empty,
     pub_heap = Map.empty, req_heap = Map.empty, rep_heap = [0 \<mapsto> 0], tim_heap = Map.empty, use_count = (\<lambda>a. 0), mama_calls = [],
     sink_calls = []\<rparr>"

lemma demo_app_fresh: "fresh_app demo_app"
  by (simp add: fresh_app_def demo_app_def new_connection_def)


subsection \<open>Waiting for a reply\<close>

text \<open>Replies that arrive one after another.\<close>

fun deliver :: "nat \<Rightarrow> voidp list \<Rightarrow> oz_app \<Rightarrow> oz_app option" where
  "deliver r [] w = Some w"
| "deliver r (m # ms) w = do { w \<leftarrow> request_msgCB m (Some r) w; deliver r ms w }"

lemma deliver_sink:
  assumes "req_heap w r = Some x" "rq_replied x = Some n" "rq_pSink x"
  shows "deliver r ms w = Some (w\<lparr>req_heap := (req_heap w)(r \<mapsto> x\<lparr>rq_replied := Some (n + length ms)\<rparr>),
     sink_calls := sink_calls w @ map (OnReply r) ms\<rparr>)"
  using assms
proof (induction ms arbitrary: w x n)
  case Nil
  then have "x\<lparr>rq_replied := Some n\<rparr> = x" by (cases x) simp
  with Nil show ?case by (simp add: fun_upd_idem)
next
  case (Cons m ms)
  let ?x = "x\<lparr>rq_replied := Some (n + 1)\<rparr>"
  let ?w = "w\<lparr>req_heap := (req_heap w)(r \<mapsto> ?x), sink_calls := sink_calls w @ [OnReply r m]\<rparr>"
  have "request_msgCB m (Some r) w = Some ?w" using Cons.prems by (simp add: request_msgCB_def request_post_def sink_def)
  moreover have "(req_heap w)(r \<mapsto> ?x, r \<mapsto> y) = (req_heap w)(r \<mapsto> y)" for y by (rule fun_upd_upd)
  ultimately show ?case using Cons.IH[of ?w ?x "n + 1"] Cons.prems by (simp add: fun_upd_same del: fun_upd_apply)
qed

lemma deliver_no_sink: "req_heap w r = Some x \<Longrightarrow> \<not> rq_pSink x \<Longrightarrow> deliver r ms w = Some w"
  by (induction ms) (simp_all add: request_msgCB_def)

text \<open>
  C37. Waiting for a reply. After a request was sent, waiting for the reply ends with success when at least one reply arrives
  in time, and with a timeout when none does. Each reply is reported to the sink once, in order, and all but one of them
  stay counted. This is so for a request with a sink: for a request without one the replies are not noticed, and
  waiting ends with a timeout even when the reply is there.
\<close>

theorem request_waits:
  assumes "cache_ok w h" "req_heap w r = Some x" "session_ptrs (rq_pSession x) w \<noteq> None" "pub_heap w a = None"
    and "request_send env a r msg w = Some (MAMA_STATUS_OK, w1)" "0 \<le> seconds" "seconds * 1000 < 2 ^ 31"
  shows "\<exists>w2. request_waitReply (deliver r replies) None r seconds w1 =
       Some (if rq_pSink x \<and> replies \<noteq> [] then MAMA_STATUS_OK else MAMA_STATUS_TIMEOUT, w2) \<and>
     sink_calls w2 = sink_calls w1 @ (if rq_pSink x then map (OnReply r) replies else []) \<and>
     map_option rq_replied (req_heap w2 r) = Some (Some (if rq_pSink x then length replies - 1 else 0))"
proof -
  have "\<exists>y. req_heap w1 r = Some y \<and> rq_replied y = Some 0 \<and> rq_pSink y = rq_pSink x"
    using request_send_ok[OF assms(1-4), of env msg] assms(5) by auto
  then obtain y where y: "req_heap w1 r = Some y" "rq_replied y = Some 0" "rq_pSink y = rq_pSink x" by blast
  have s: "- (2 ^ 31) - 1 < seconds * 1000" using assms(6) by (simp add: order.strict_trans2)
  show ?thesis
  proof (cases "rq_pSink x")
    case True
    then show ?thesis using deliver_sink[OF y(1,2), of replies] y s assms(7) by (simp add: request_waitReply_def)
  next
    case False
    then show ?thesis using deliver_no_sink[OF y(1), of replies] y s assms(7) by (simp add: request_waitReply_def)
  qed
qed

text \<open>A request that the program has sent.\<close>

definition demo_request :: oz_app where
  "demo_request = demo_app\<lparr>req_heap := [4 \<mapsto> new_request 0 ''T'' True]\<rparr>"

lemma demo_request_ok:
  "cache_ok demo_request (\<lambda>a. 0)" "req_heap demo_request 4 = Some (new_request 0 ''T'' True)"
  "session_ptrs (rq_pSession (new_request 0 ''T'' True)) demo_request \<noteq> None" "pub_heap demo_request 5 = None"
proof -
  have w: "demo_request = demo_app\<lparr>req_heap := (req_heap demo_app)(4 \<mapsto> new_request 0 ''T'' True)\<rparr>" by (simp add: demo_request_def demo_app_def)
  show "cache_ok demo_request (\<lambda>a. 0)" unfolding w by (rule new_request_ok[OF fresh_app_ok[OF demo_app_fresh]]) (simp add: demo_app_def)
qed (simp_all add: demo_request_def demo_app_def session_ptrs_def new_request_def new_session_def)

lemma demo_request_sent: "\<exists>w1. request_send demo_menv 5 4 (Some 9) demo_request = Some (MAMA_STATUS_OK, w1)"
  by (simp add: demo_request_def request_send_def request_inbox_def request_publisher_def connection_getPublisher_def publisher_sendRequest_def
      publisher_create_def CALL_MAMA_FUNC_def mama_def demo_menv_def demo_app_def new_request_def session_ptrs_def new_session_def new_connection_def
      stored_def)

theorem request_waits_witness:
  "\<exists>w1 w2. request_send demo_menv 5 4 (Some 9) demo_request = Some (MAMA_STATUS_OK, w1) \<and>
     request_waitReply (deliver 4 [Some 8]) None 4 5 w1 = Some (MAMA_STATUS_OK, w2) \<and> sink_calls w2 = sink_calls w1 @ [OnReply 4 (Some 8)]"
proof -
  obtain w1 where s: "request_send demo_menv 5 4 (Some 9) demo_request = Some (MAMA_STATUS_OK, w1)" using demo_request_sent by blast
  show ?thesis using request_waits[OF demo_request_ok s, of 5 "[Some 8]"] s by (auto simp: new_request_def)
qed



subsection \<open>What a subscriber subscribes to\<close>

lemma subst_no_star_plain: "list_all plain t \<Longrightarrow> CHR ''*'' \<notin> set t \<and> CHR ''.'' \<notin> set t"
  by (induction t) (auto simp: plain_def)

lemma ws2posix_plain:
  assumes "list_all plain t" "t \<noteq> []" "length t \<le> 2 ^ 32"
  shows "ws2posix t t = Some (MAMA_STATUS_INVALID_ARG, t @ t)"
proof -
  note n = subst_no_star_plain[OF assms(1)]
  have b: "ws_body t t = t @ t" using n by (simp add: ws_body_def subst_stars_id)
  have "CHR ''.'' \<notin> set (ws_body t t)" unfolding b using n by simp
  then have "ws_body t t \<noteq> x @ ''/.''" for x by auto
  moreover from this[of "[]"] have "ws_body t t \<noteq> ''/.''" by simp
  moreover have "length (ws_body t t) \<noteq> 1" unfolding b using assms(2) by (cases t) auto
  ultimately show ?thesis using ws2posix_eq[of t t] assms(3) n b by (simp add: Let_def)
qed

text \<open>The kind of subscription, and the state of a subscriber once MAMA has allocated one.\<close>

definition sub_kind :: "subscriber \<Rightarrow> wcType" where
  "sub_kind x = (if su_wcType x = WC_unspecified \<and> has_regex_char (su_topic x) then WC_POSIX else su_wcType x)"

definition allocated :: "menv \<Rightarrow> nat \<Rightarrow> oz_app \<Rightarrow> subscriber \<Rightarrow> oz_app" where
  "allocated env a w x = w\<lparr>mama_calls := mama_calls w @ [MamaSubscription_allocate],
     sub_heap := (sub_heap w)(a \<mapsto> x\<lparr>su_status := MAMA_STATUS_OK, su_sub := stored (snd (env (mama_calls w) MamaSubscription_allocate)) (su_sub x),
       su_origTopic := su_topic x, su_wcType := sub_kind x\<rparr>)\<rparr>"

lemma sub_call_eq:
  assumes "sub_heap w a = Some x" "env (mama_calls w) (f x) = (s, p)"
  shows "sub_call env a f u w = Some (s, w\<lparr>mama_calls := mama_calls w @ [f x], sub_heap := (sub_heap w)(a \<mapsto> u p (x\<lparr>su_status := s\<rparr>))\<rparr>)"
  using assms by (simp add: sub_call_def mama_def)

lemma start_fails:
  assumes "sub_heap w a = Some x" "fst (env (mama_calls w) MamaSubscription_allocate) \<noteq> MAMA_STATUS_OK"
  shows "\<exists>w'. subscriber_start env a w = Some (fst (env (mama_calls w) MamaSubscription_allocate), w') \<and>
     mama_calls w' = mama_calls w @ [MamaSubscription_allocate]"
proof -
  obtain s p where p: "env (mama_calls w) MamaSubscription_allocate = (s, p)" by fastforce
  show ?thesis using assms p by (simp add: subscriber_start_def CALL_MAMA_FUNC_def sub_call_def mama_def Let_def)
qed

lemma start_eq:
  assumes "sub_heap w a = Some x" "fst (env (mama_calls w) MamaSubscription_allocate) = MAMA_STATUS_OK"
  shows "subscriber_start env a w =
     (case sub_kind x of
        WC_WS \<Rightarrow> CALL_MAMA_FUNC (subscriber_convert a (allocated env a w x)) (subscriber_createWildCard env a)
      | WC_POSIX \<Rightarrow> subscriber_createWildCard env a (allocated env a w x)
      | WC_unspecified \<Rightarrow> subscriber_createBasic env a (allocated env a w x)
      | WC_none \<Rightarrow> subscriber_createBasic env a (allocated env a w x))"
proof -
  obtain p where p: "env (mama_calls w) MamaSubscription_allocate = (MAMA_STATUS_OK, p)" using assms(2) by (metis prod.collapse)
  let ?x = "if su_wcType x = WC_unspecified \<and> has_regex_char (su_topic x) then x\<lparr>su_wcType := WC_POSIX\<rparr> else x"
  have x: "?x = x\<lparr>su_wcType := sub_kind x\<rparr>" by (cases x) (simp add: sub_kind_def)
  let ?w = "w\<lparr>sub_heap := (sub_heap w)(a \<mapsto> x\<lparr>su_wcType := sub_kind x\<rparr>)\<rparr>"
  let ?y = "x\<lparr>su_wcType := sub_kind x, su_status := MAMA_STATUS_OK, su_sub := stored p (su_sub x)\<rparr>"
  let ?w1 = "?w\<lparr>mama_calls := mama_calls w @ [MamaSubscription_allocate], sub_heap := (sub_heap w)(a \<mapsto> ?y)\<rparr>"
  have c: "sub_call env a (\<lambda>x. MamaSubscription_allocate) (\<lambda>p. su_sub_update (stored p)) ?w = Some (MAMA_STATUS_OK, ?w1)"
    using p by (simp add: sub_call_def mama_def Let_def) (cases x, simp)
  have e: "?w1\<lparr>sub_heap := (sub_heap ?w1)(a \<mapsto> ?y\<lparr>su_origTopic := su_topic ?y\<rparr>)\<rparr> = allocated env a w x"
    using p by (cases w, cases x) (simp add: allocated_def)
  obtain w1 y where w1: "sub_call env a (\<lambda>x. MamaSubscription_allocate) (\<lambda>p. su_sub_update (stored p)) ?w = Some (MAMA_STATUS_OK, w1)"
    "sub_heap w1 a = Some y" "su_wcType y = sub_kind x" "w1\<lparr>sub_heap := (sub_heap w1)(a \<mapsto> y\<lparr>su_origTopic := su_topic y\<rparr>)\<rparr> = allocated env a w x"
    by (rule that[OF c _ _ e]) simp_all
  show ?thesis unfolding subscriber_start_def assms(1) bind.simps Let_def x w1(1) CALL_MAMA_FUNC_def option.case prod.case w1(2,3,4) by simp
qed

text \<open>The call that a start ends with.\<close>

definition ends_with :: "menv \<Rightarrow> nat \<Rightarrow> mama_call list \<Rightarrow> mama_call \<Rightarrow> (mama_status \<times> oz_app) option \<Rightarrow> cstring \<Rightarrow> bool" where
  "ends_with env a h c r topic \<longleftrightarrow> (\<exists>w' y. r = Some (fst (env h c), w') \<and> mama_calls w' = h @ [c] \<and>
     sub_heap w' a = Some y \<and> su_topic y = topic)"

lemma create_ends:
  assumes "sub_heap w a = Some x" "session_ptrs (su_pSession x) w = Some (tp, q)"
  shows "ends_with env a (mama_calls w) (MamaSubscription_createBasic (su_sub x) tp q (su_topic x) a) (subscriber_createBasic env a w) (su_topic x)"
    "ends_with env a (mama_calls w) (MamaSubscription_createBasicWildCard (su_sub x) tp q (su_topic x) a) (subscriber_createWildCard env a w) (su_topic x)"
proof -
  obtain s p where "env (mama_calls w) (MamaSubscription_createBasic (su_sub x) tp q (su_topic x) a) = (s, p)" by fastforce
  then show "ends_with env a (mama_calls w) (MamaSubscription_createBasic (su_sub x) tp q (su_topic x) a) (subscriber_createBasic env a w) (su_topic x)"
    using assms sub_call_eq[OF assms(1), of env "\<lambda>x. MamaSubscription_createBasic (su_sub x) tp q (su_topic x) a" s p]
    by (simp add: subscriber_createBasic_def CALL_MAMA_FUNC_def ends_with_def)
  obtain s p where "env (mama_calls w) (MamaSubscription_createBasicWildCard (su_sub x) tp q (su_topic x) a) = (s, p)" by fastforce
  then show "ends_with env a (mama_calls w) (MamaSubscription_createBasicWildCard (su_sub x) tp q (su_topic x) a) (subscriber_createWildCard env a w) (su_topic x)"
    using assms sub_call_eq[OF assms(1), of env "\<lambda>x. MamaSubscription_createBasicWildCard (su_sub x) tp q (su_topic x) a" s p]
    by (simp add: subscriber_createWildCard_def CALL_MAMA_FUNC_def ends_with_def)
qed

lemma ws_expression:
  assumes "inner_star u" "t = u \<or> t = u @ ''/.''"
  obtains r where "ws2posix t t = Some (MAMA_STATUS_OK, r)" "\<And>s. ere_match r s = Some (ws_receives t s)"
proof (cases "t = u")
  case True
  have "\<not> (2 \<le> length u \<and> drop (length u - 2) u = ''/.'')"
    using plain_topic_end[of u "take (length u - 2) u"] assms(1) by (metis append_take_drop_id inner_star_def)
  then have "ws_receives u s \<longleftrightarrow> ws_match u s" for s by (simp only: ws_receives_def if_False)
  then show thesis using True ws2posix_topic(1)[OF assms(1)] ere_match_topic(1)[OF assms(1)] by (intro that) simp_all
next
  case False
  with assms(2) have t: "t = u @ ''/.''" by simp
  have "ws_receives t s \<longleftrightarrow> (\<exists>n\<in>{0..length s}. ws_match u (take n s))" for s by (simp add: t ws_receives_def)
  then show thesis using t ws2posix_topic(2)[OF assms(1)] ere_match_topic(2)[OF assms(1)] by (intro that) simp_all
qed

text \<open>
  What a subscriber subscribes to. A subscriber without wildcards, and one whose type was not given and whose topic has no
  character of regular expressions, subscribes to its topic. One of type \<open>POSIX\<close>, given or guessed, subscribes to its topic as an
  expression. One of type \<open>WS\<close> whose first star is not at the start subscribes to an expression that matches exactly
  what the topic means, and one whose topic has no wildcard at all makes no subscription: it returns an error,
  and its topic is doubled.
\<close>

theorem subscriber_subscribes:
  assumes "sub_heap w a = Some x" "session_ptrs (su_pSession x) w = Some (tp, q)"
    and "fst (env (mama_calls w) MamaSubscription_allocate) = MAMA_STATUS_OK"
    and "h = mama_calls w @ [MamaSubscription_allocate]" "sub = stored (snd (env (mama_calls w) MamaSubscription_allocate)) (su_sub x)" "t = su_topic x"
  shows "(sub_kind x = WC_none \<or> sub_kind x = WC_unspecified \<longrightarrow>
       ends_with env a h (MamaSubscription_createBasic sub tp q t a) (subscriber_start env a w) t) \<and>
     (sub_kind x = WC_POSIX \<longrightarrow> ends_with env a h (MamaSubscription_createBasicWildCard sub tp q t a) (subscriber_start env a w) t) \<and>
     (sub_kind x = WC_WS \<and> inner_star u \<and> (t = u \<or> t = u @ ''/.'') \<longrightarrow>
       (\<exists>r. (\<forall>s. ere_match r s = Some (ws_receives t s)) \<and>
         ends_with env a h (MamaSubscription_createBasicWildCard sub tp q r a) (subscriber_start env a w) r)) \<and>
     (sub_kind x = WC_WS \<and> list_all plain t \<and> t \<noteq> [] \<and> length t \<le> 2 ^ 32 \<longrightarrow>
       (\<exists>w' y. subscriber_start env a w = Some (MAMA_STATUS_INVALID_ARG, w') \<and> mama_calls w' = h \<and> sub_heap w' a = Some y \<and> su_topic y = t @ t))"
proof -
  let ?w = "allocated env a w x"
  obtain y where y: "sub_heap ?w a = Some y" "su_topic y = t" "su_origTopic y = t" "su_sub y = sub" "su_pSession y = su_pSession x"
    using assms(5,6) by (simp add: allocated_def)
  have h: "mama_calls ?w = h" using assms(4) by (simp add: allocated_def)
  have s: "session_ptrs (su_pSession y) ?w = Some (tp, q)" using assms(2) y(5) by (simp add: allocated_def session_ptrs_def)
  note st = start_eq[of w a x env, OF assms(1,3)] and e = create_ends[OF y(1) s, of env, unfolded h y(2,4)]
  let ?c = "\<lambda>r. ?w\<lparr>sub_heap := (sub_heap ?w)(a \<mapsto> y\<lparr>su_topic := r\<rparr>)\<rparr>"
  have conv: "ws2posix t t = Some (z, r) \<Longrightarrow> subscriber_convert a ?w = Some (z, ?c r)" for z r
    using y(1-3) by (simp add: subscriber_convert_def)
  have "\<exists>r. (\<forall>s. ere_match r s = Some (ws_receives t s)) \<and>
         ends_with env a h (MamaSubscription_createBasicWildCard sub tp q r a) (subscriber_start env a w) r"
    if k: "sub_kind x = WC_WS" and u: "inner_star u" "t = u \<or> t = u @ ''/.''"
  proof -
    obtain r where r: "ws2posix t t = Some (MAMA_STATUS_OK, r)" "\<And>s. ere_match r s = Some (ws_receives t s)"
      using ws_expression[OF u] by blast
    have "sub_heap (?c r) a = Some (y\<lparr>su_topic := r\<rparr>)" "session_ptrs (su_pSession (y\<lparr>su_topic := r\<rparr>)) (?c r) = Some (tp, q)"
      using s by (simp_all add: session_ptrs_def)
    from create_ends(2)[OF this, of env] y(4) h have
      "ends_with env a h (MamaSubscription_createBasicWildCard sub tp q r a) (subscriber_createWildCard env a (?c r)) r" by simp
    then show ?thesis using r k by (intro exI[of _ r]) (simp add: st CALL_MAMA_FUNC_def conv[OF r(1)])
  qed
  moreover have "\<exists>w' y. subscriber_start env a w = Some (MAMA_STATUS_INVALID_ARG, w') \<and> mama_calls w' = h \<and> sub_heap w' a = Some y \<and> su_topic y = t @ t"
    if "sub_kind x = WC_WS" "list_all plain t" "t \<noteq> []" "length t \<le> 2 ^ 32"
    using conv[OF ws2posix_plain[OF that(2-4)]] that(1) h by (simp add: st CALL_MAMA_FUNC_def)
  ultimately show ?thesis using e by (auto simp: st)
qed

theorem subscriber_subscribes_witness:
  "\<exists>r. (\<forall>s. ere_match r s = Some (ws_receives ''a/*/b'' s)) \<and>
     ends_with demo_menv 3 [MamaSubscription_allocate] (MamaSubscription_createBasicWildCard (Some 1) None None r 3)
       (subscriber_start demo_menv 3 (demo_app\<lparr>sub_heap := [3 \<mapsto> new_subscriber 0 ''a/*/b'' True WC_WS]\<rparr>)) r"
proof -
  let ?w = "demo_app\<lparr>sub_heap := [3 \<mapsto> new_subscriber 0 ''a/*/b'' True WC_WS]\<rparr>" and ?x = "new_subscriber 0 ''a/*/b'' True WC_WS"
  have u: "inner_star ''a/*/b''" by (simp add: inner_star_def plain_topic_def plain_def)
  have p: "sub_heap ?w 3 = Some ?x" "session_ptrs (su_pSession ?x) ?w = Some (None, None)"
      "fst (demo_menv (mama_calls ?w) MamaSubscription_allocate) = MAMA_STATUS_OK"
    by (simp_all add: demo_app_def session_ptrs_def new_subscriber_def new_session_def new_connection_def demo_menv_def)
  have "sub_kind ?x = WC_WS" "su_topic ?x = ''a/*/b''" by (simp_all add: sub_kind_def new_subscriber_def)
  moreover have "mama_calls ?w = []" "stored (snd (demo_menv [] MamaSubscription_allocate)) (su_sub ?x) = Some 1"
    by (simp_all add: demo_app_def demo_menv_def stored_def)
  ultimately show ?thesis using subscriber_subscribes[where env = demo_menv, OF p refl refl refl, of "''a/*/b''"] u by simp
qed

subsection \<open>Replies\<close>

text \<open>
  A reply object keeps no publisher: with no other pointer to one, every reply makes a publisher of MAMA, which nothing
  destroys, and the next reply finds the connection as this one did.
\<close>

lemma reply_makes_publisher:
  assumes "rep_heap w i = Some j" "conn_heap w j = Some c" "co_pubs c ''_INBOX'' = None"
    and "env (mama_calls w) (MamaPublisher_create (co_transport c) ''_INBOX'') = (MAMA_STATUS_OK, Some p)"
  shows "\<exists>s w'. reply_send env a True i msg w = Some (s, w') \<and> pub_heap w' a = None \<and> rep_heap w' = rep_heap w \<and> conn_heap w' j = Some c \<and>
     mama_calls w' = mama_calls w @ [MamaPublisher_create (co_transport c) ''_INBOX'', MamaPublisher_sendReplyToInbox (Some p) msg msg]"
proof -
  let ?send = "MamaPublisher_sendReplyToInbox (Some p) msg msg"
  obtain s q where e: "env (mama_calls w @ [MamaPublisher_create (co_transport c) ''_INBOX'']) ?send = (s, q)" by fastforce
  have "c\<lparr>co_pubs := (co_pubs c)(''_INBOX'' := None)\<rparr> = c" using assms(3) by (cases c) (simp add: fun_upd_idem)
  then show ?thesis using assms e
    by (simp add: reply_send_def reply_getReplyTopic_def connection_getPublisher_def publisher_sendReply_def publisher_create_def CALL_MAMA_FUNC_def
        mama_def stored_def shared_release_def publisher_destroy_def connection_removePublisher_def)
qed

subsection \<open>Starting a connection\<close>

text \<open>The start makes its seven calls in order and stops at the first that fails, whose status it returns and keeps.\<close>

lemma conn_call_status:
  assumes "conn_call env i f u w = Some (s, w')" "\<And>p c. co_status (u p c) = co_status c"
  shows "\<exists>c call. mama_calls w' = mama_calls w @ [call] \<and> conn_heap w' i = Some c \<and> co_status c = s \<and> s = fst (env (mama_calls w) call)"
  using assms by (auto simp: conn_call_def mama_def Let_def bind_eq_Some_conv split: prod.splits)

lemma conn_call_defined: "conn_heap w i \<noteq> None \<Longrightarrow> \<exists>s w'. conn_call env i f u w = Some (s, w')"
  by (auto simp: conn_call_def mama_def Let_def split: prod.splits)

definition stops_at :: "menv \<Rightarrow> nat \<Rightarrow> nat \<Rightarrow> oz_app \<Rightarrow> (mama_status \<times> oz_app) option \<Rightarrow> bool" where
  "stops_at env i n w r \<longleftrightarrow> (\<exists>s w' cs c. r = Some (s, w') \<and> mama_calls w' = mama_calls w @ cs \<and> conn_heap w' i = Some c \<and>
     (\<forall>k < length cs. fst (env (mama_calls w @ take k cs) (cs ! k)) = (if Suc k = length cs then s else MAMA_STATUS_OK)) \<and>
     (if s = MAMA_STATUS_OK then length cs = n else 0 < length cs \<and> length cs \<le> n \<and> co_status c = s))"

lemma stops_at_step:
  assumes "conn_heap w i \<noteq> None" "\<And>p c. co_status (u p c) = co_status c" "\<And>w'. conn_heap w' i \<noteq> None \<Longrightarrow> stops_at env i n w' (k w')"
  shows "stops_at env i (Suc n) w (CALL_MAMA_FUNC (conn_call env i f u w) k)"
proof -
  from conn_call_defined[OF assms(1)] obtain s w1 where w1: "conn_call env i f u w = Some (s, w1)" by blast
  from conn_call_status[OF w1 assms(2)] obtain c call where
    c: "mama_calls w1 = mama_calls w @ [call]" "conn_heap w1 i = Some c" "co_status c = s" "s = fst (env (mama_calls w) call)" by blast
  show ?thesis
  proof (cases "s = MAMA_STATUS_OK")
    case False
    then show ?thesis using w1 c unfolding stops_at_def CALL_MAMA_FUNC_def by (intro exI[of _ s] exI[of _ w1] exI[of _ "[call]"] exI[of _ c]) simp
  next
    case True
    have "stops_at env i n w1 (k w1)" by (rule assms(3)) (simp add: c)
    then obtain s' w' cs c' where r: "k w1 = Some (s', w')" "mama_calls w' = mama_calls w1 @ cs" "conn_heap w' i = Some c'"
      "\<forall>k < length cs. fst (env (mama_calls w1 @ take k cs) (cs ! k)) = (if Suc k = length cs then s' else MAMA_STATUS_OK)"
      "if s' = MAMA_STATUS_OK then length cs = n else 0 < length cs \<and> length cs \<le> n \<and> co_status c' = s'" unfolding stops_at_def by blast
    have "fst (env (mama_calls w @ take j (call # cs)) ((call # cs) ! j)) = (if Suc j = length (call # cs) then s' else MAMA_STATUS_OK)"
      if "j < length (call # cs)" for j
    proof (cases j)
      case 0
      then show ?thesis using c(4) True r(5) by (cases "s' = MAMA_STATUS_OK") auto
    next
      case (Suc m)
      then show ?thesis using r(4) c(1) that by simp
    qed
    then show ?thesis using w1 True c(1) r unfolding stops_at_def CALL_MAMA_FUNC_def
      by (intro exI[of _ s'] exI[of _ w'] exI[of _ "call # cs"] exI[of _ c']) (auto split: if_splits)
  qed
qed

lemma connection_start_stops: "conn_heap w i \<noteq> None \<Longrightarrow> stops_at env i 7 w (connection_start env i w)"
proof -
  have last: "conn_heap w' i \<noteq> None \<Longrightarrow> stops_at env i 0 w' (Some (MAMA_STATUS_OK, w'))" for w' by (auto simp: stops_at_def)
  assume "conn_heap w i \<noteq> None"
  moreover have "(7::nat) = Suc (Suc (Suc (Suc (Suc (Suc (Suc 0))))))" by simp
  ultimately show ?thesis unfolding connection_start_def
    by (simp only:) (intro stops_at_step last; simp)
qed

end
