(* ===== verification/Example_Programs.thy ===== *)
theory Example_Programs
  imports Oz_Api_Correct
begin

text \<open>
  The example programs, \<open>src/examples/*.cpp\<close>, over the example library: subscribers, a publisher, requesters, a replier and timers.

  A program gets its arguments, the environment variables \<open>MAMA_MW\<close>, \<open>MAMA_PAYLOAD\<close> and the one for its transport. What
  other threads do while it sleeps is an argument; what it prints is not modelled. Its local objects are destroyed in the reverse order of
  their creation when it returns. A failed call throws, which nothing catches: the program ends there.
\<close>

subsection \<open>Parts of the programs\<close>

datatype program_end = Returned | Thrown mama_status

definition TRY_MAMA_FUNC ::
  "(mama_status \<times> oz_app) option \<Rightarrow> (oz_app \<Rightarrow> (program_end \<times> oz_app) option) \<Rightarrow> (program_end \<times> oz_app) option" where
  "TRY_MAMA_FUNC x k =
     (case x of
        None \<Rightarrow> None
      | Some (s, w) \<Rightarrow> if s \<noteq> MAMA_STATUS_OK then Some (Thrown s, w) else k w)"

definition mama_func :: "menv \<Rightarrow> mama_call \<Rightarrow> oz_app \<Rightarrow> (mama_status \<times> oz_app) option" where
  "mama_func env c w = (let (s, _, w) = mama env c w in Some (s, w))"

record program_args =
  pa_args :: "cstring list"
  pa_mw :: "cstring option"
  pa_payload :: "cstring option"
  pa_tport :: "cstring option"

definition createConnection :: "(cstring list \<Rightarrow> cstring option \<Rightarrow> cstring option) \<Rightarrow> program_args \<Rightarrow> nat \<Rightarrow> oz_app \<Rightarrow> oz_app option" where
  "createConnection getTport A a w = do {
     mw \<leftarrow> cmdLine_getMw (pa_args A) (pa_mw A);
     payload \<leftarrow> cmdLine_getPayload (pa_args A) (pa_payload A);
     tport \<leftarrow> getTport (pa_args A) (pa_tport A);
     Some (w\<lparr>conn_heap := (conn_heap w)(a \<mapsto> new_connection mw payload tport)\<rparr>)
   }"

definition connection_createSession :: "nat \<Rightarrow> nat \<Rightarrow> oz_app \<Rightarrow> oz_app" where
  "connection_createSession this a w = w\<lparr>sess_heap := (sess_heap w)(a \<mapsto> new_session this)\<rparr>"

definition session_createSubscriber :: "nat \<Rightarrow> cstring \<Rightarrow> bool \<Rightarrow> wcType \<Rightarrow> nat \<Rightarrow> oz_app \<Rightarrow> oz_app" where
  "session_createSubscriber this topic pSink wc a w = w\<lparr>sub_heap := (sub_heap w)(a \<mapsto> new_subscriber this topic pSink wc)\<rparr>"

definition session_createTimer :: "nat \<Rightarrow> rat \<Rightarrow> bool \<Rightarrow> nat \<Rightarrow> oz_app \<Rightarrow> oz_app" where
  "session_createTimer this interval pSink a w = w\<lparr>tim_heap := (tim_heap w)(a \<mapsto> new_timer this interval pSink)\<rparr>"

definition session_createRequest :: "nat \<Rightarrow> cstring \<Rightarrow> bool \<Rightarrow> nat \<Rightarrow> oz_app \<Rightarrow> oz_app" where
  "session_createRequest this topic pSink a w = w\<lparr>req_heap := (req_heap w)(a \<mapsto> new_request this topic pSink)\<rparr>"

text \<open>The end of a program: the deleters of its connection and session, whose status nobody looks at.\<close>

definition end_connection :: "menv \<Rightarrow> nat \<Rightarrow> oz_app \<Rightarrow> (program_end \<times> oz_app) option" where
  "end_connection env c w = do { (s, w) \<leftarrow> connection_destroy env c w; Some (Returned, w) }"

definition end_session :: "menv \<Rightarrow> nat \<Rightarrow> nat \<Rightarrow> oz_app \<Rightarrow> (program_end \<times> oz_app) option" where
  "end_session env c s w = do { (st, w) \<leftarrow> session_destroy env s w; end_connection env c w }"

subsection \<open>Subscribers and timers\<close>

text \<open>\<open>sub.cpp\<close>, \<open>rep.cpp\<close>, \<open>wc.cpp\<close> and \<open>wc2.cpp\<close>, which differ in the default topic and in what their sinks do.\<close>

definition sub_program :: "cstring \<Rightarrow> menv \<Rightarrow> (oz_app \<Rightarrow> oz_app option) \<Rightarrow> program_args \<Rightarrow> oz_app \<Rightarrow> (program_end \<times> oz_app) option" where
  "sub_program defaultTopic env others A w = do {
     let topic = cmdLine_getTopic (pa_args A) defaultTopic;
     w \<leftarrow> createConnection cmdLine_getTportSub A 0 w;
     TRY_MAMA_FUNC (connection_start env 0 w) (\<lambda>w.
     TRY_MAMA_FUNC (session_start env 0 (connection_createSession 0 0 w)) (\<lambda>w.
     TRY_MAMA_FUNC (subscriber_start env 0 (session_createSubscriber 0 topic True WC_unspecified 0 w)) (\<lambda>w. do {
       w \<leftarrow> others w;
       (s, w) \<leftarrow> subscriber_destroy env 0 w;
       end_session env 0 0 w
     })))
   }"

definition sub_main :: "menv \<Rightarrow> (oz_app \<Rightarrow> oz_app option) \<Rightarrow> program_args \<Rightarrow> oz_app \<Rightarrow> (program_end \<times> oz_app) option" where
  "sub_main = sub_program ''prefix/suffix''"

definition rep_main :: "menv \<Rightarrow> (oz_app \<Rightarrow> oz_app option) \<Rightarrow> program_args \<Rightarrow> oz_app \<Rightarrow> (program_end \<times> oz_app) option" where
  "rep_main = sub_program ''prefix/suffix''"

definition wc_main :: "menv \<Rightarrow> (oz_app \<Rightarrow> oz_app option) \<Rightarrow> program_args \<Rightarrow> oz_app \<Rightarrow> (program_end \<times> oz_app) option" where
  "wc_main = sub_program ''^prefix/[^/]+$''"

definition wc2_main :: "menv \<Rightarrow> (oz_app \<Rightarrow> oz_app option) \<Rightarrow> program_args \<Rightarrow> oz_app \<Rightarrow> (program_end \<times> oz_app) option" where
  "wc2_main = sub_program ''prefix/*''"

text \<open>\<open>timer.cpp\<close>, which destroys its timer itself, and \<open>timer2.cpp\<close>, which leaves it to the end of the program: the calls are the same.\<close>

definition timer_main :: "menv \<Rightarrow> (oz_app \<Rightarrow> oz_app option) \<Rightarrow> program_args \<Rightarrow> oz_app \<Rightarrow> (program_end \<times> oz_app) option" where
  "timer_main env others A w = do {
     w \<leftarrow> createConnection cmdLine_getTportSub A 0 w;
     TRY_MAMA_FUNC (connection_start env 0 w) (\<lambda>w.
     TRY_MAMA_FUNC (session_start env 0 (connection_createSession 0 0 w)) (\<lambda>w.
     TRY_MAMA_FUNC (timer_start env 0 (session_createTimer 0 (1 / 2) True 0 w)) (\<lambda>w. do {
       w \<leftarrow> others w;
       (s, w) \<leftarrow> oz_timer_destroy env 0 w;
       end_session env 0 0 w
     })))
   }"

definition timer2_main :: "menv \<Rightarrow> (oz_app \<Rightarrow> oz_app option) \<Rightarrow> program_args \<Rightarrow> oz_app \<Rightarrow> (program_end \<times> oz_app) option" where
  "timer2_main = timer_main"

text \<open>
  \<open>leak.cpp\<close>, which tries a tool for leaks: the program of \<open>timer.cpp\<close> with a block of memory that nobody releases. Its size is the second result.
\<close>

definition leak_main :: "menv \<Rightarrow> (oz_app \<Rightarrow> oz_app option) \<Rightarrow> program_args \<Rightarrow> oz_app \<Rightarrow> (program_end \<times> nat \<times> oz_app) option" where
  "leak_main env others A w = do {
     w \<leftarrow> createConnection cmdLine_getTportSub A 0 w;
     (e, w) \<leftarrow> TRY_MAMA_FUNC (connection_start env 0 w) (\<lambda>w.
       TRY_MAMA_FUNC (session_start env 0 (connection_createSession 0 0 w)) (\<lambda>w.
       TRY_MAMA_FUNC (timer_start env 0 (session_createTimer 0 (1 / 2) True 0 w)) (\<lambda>w. Some (Returned, w))));
     (case e of
        Thrown s \<Rightarrow> Some (e, 0, w)
      | Returned \<Rightarrow> do {
          w \<leftarrow> others w;
          (s, w) \<leftarrow> oz_timer_destroy env 0 w;
          let leak = 512;
          (e, w) \<leftarrow> end_session env 0 0 w;
          Some (e, leak, w)
        })
   }"

subsection \<open>Publishers\<close>

text \<open>
  \<open>pub.cpp\<close>: \<open>n\<close> is the number of rounds until the signal arrives. The number of a round is an \<open>int\<close>.
\<close>

fun pub_loop :: "menv \<Rightarrow> nat \<Rightarrow> voidp \<Rightarrow> nat \<Rightarrow> nat \<Rightarrow> oz_app \<Rightarrow> (oz_app \<Rightarrow> (program_end \<times> oz_app) option) \<Rightarrow> (program_end \<times> oz_app) option" where
  "pub_loop env pub msg i 0 w k = k w"
| "pub_loop env pub msg i (Suc n) w k =
     (if \<not> Suc i < 2 ^ 31 then None
      else TRY_MAMA_FUNC (mama_func env (MamaMsg_updateU32 msg ''num'' (int (Suc i))) w) (\<lambda>w.
           TRY_MAMA_FUNC (publisher_publish env pub msg w) (\<lambda>w. pub_loop env pub msg (Suc i) n w k)))"

definition pub_main :: "menv \<Rightarrow> nat \<Rightarrow> program_args \<Rightarrow> oz_app \<Rightarrow> (program_end \<times> oz_app) option" where
  "pub_main env n A w = do {
     let topic = cmdLine_getTopic (pa_args A) ''prefix/suffix'';
     w \<leftarrow> createConnection cmdLine_getTportPub A 0 w;
     TRY_MAMA_FUNC (connection_start env 0 w) (\<lambda>w. do {
       (pub, w) \<leftarrow> connection_getPublisher 0 0 topic w;
       let msg = snd (env (mama_calls w) MamaMsg_create);
       TRY_MAMA_FUNC (mama_func env MamaMsg_create w) (\<lambda>w.
       TRY_MAMA_FUNC (mama_func env (MamaMsg_updateString msg ''name'' ''value'') w) (\<lambda>w. do {
         p \<leftarrow> pub;
         pub_loop env p msg 0 n w (\<lambda>w.
           TRY_MAMA_FUNC (mama_func env (MamaMsg_destroy msg) w) (\<lambda>w. do {
             w \<leftarrow> shared_release pub w;
             end_connection env 0 w
           }))
       }))
     })
   }"

subsection \<open>Requests and replies\<close>

text \<open>\<open>req.cpp\<close>: a new request in every round, at the address of its number; \<open>others\<close> is what happens before the round.\<close>

fun req_loop ::
  "menv \<Rightarrow> cstring \<Rightarrow> voidp \<Rightarrow> nat \<Rightarrow> (oz_app \<Rightarrow> oz_app option) list \<Rightarrow> oz_app \<Rightarrow> (oz_app \<Rightarrow> (program_end \<times> oz_app) option)
     \<Rightarrow> (program_end \<times> oz_app) option" where
  "req_loop env topic msg i [] w k = k w"
| "req_loop env topic msg i (others # os) w k = do {
     w \<leftarrow> others w;
     if \<not> Suc i < 2 ^ 31 then None
     else TRY_MAMA_FUNC (mama_func env (MamaMsg_updateU32 msg ''num'' (int (Suc i))) w) (\<lambda>w.
          TRY_MAMA_FUNC (request_send env (Suc i) (Suc i) msg (session_createRequest 0 topic True (Suc i) w)) (\<lambda>w.
          req_loop env topic msg (Suc i) os w k))
   }"

definition req_main :: "menv \<Rightarrow> (oz_app \<Rightarrow> oz_app option) list \<Rightarrow> program_args \<Rightarrow> oz_app \<Rightarrow> (program_end \<times> oz_app) option" where
  "req_main env os A w = do {
     let topic = cmdLine_getTopic (pa_args A) ''prefix/suffix'';
     w \<leftarrow> createConnection cmdLine_getTportPub A 0 w;
     TRY_MAMA_FUNC (connection_start env 0 w) (\<lambda>w.
     TRY_MAMA_FUNC (session_start env 0 (connection_createSession 0 0 w)) (\<lambda>w. do {
       let msg = snd (env (mama_calls w) MamaMsg_create);
       TRY_MAMA_FUNC (mama_func env MamaMsg_create w) (\<lambda>w.
       TRY_MAMA_FUNC (mama_func env (MamaMsg_updateString msg ''name'' ''value'') w) (\<lambda>w.
       req_loop env topic msg 0 os w (\<lambda>w.
         TRY_MAMA_FUNC (mama_func env (MamaMsg_destroy msg) w) (end_session env 0 0))))
     }))
   }"

text \<open>Its sink destroys the request.\<close>

definition req_onReply :: "menv \<Rightarrow> nat \<Rightarrow> oz_app \<Rightarrow> oz_app option" where
  "req_onReply env pRequest w = do { (s, w) \<leftarrow> request_destroy env pRequest w; Some w }"

text \<open>
  \<open>req2.cpp\<close>: one request, and the status of waiting for its reply for five seconds. The request and the message are
  not released.
\<close>

definition req2_main ::
  "menv \<Rightarrow> (oz_app \<Rightarrow> oz_app option) \<Rightarrow> wait_error option \<Rightarrow> program_args \<Rightarrow> oz_app \<Rightarrow> (mama_status option \<times> program_end \<times> oz_app) option" where
  "req2_main env others fails A w = do {
     let topic = cmdLine_getTopic (pa_args A) ''prefix/suffix'';
     w \<leftarrow> createConnection cmdLine_getTportPub A 0 w;
     (e, w) \<leftarrow> TRY_MAMA_FUNC (connection_start env 0 w) (\<lambda>w.
       TRY_MAMA_FUNC (session_start env 0 (connection_createSession 0 0 w)) (\<lambda>w. do {
         let msg = snd (env (mama_calls w) MamaMsg_create);
         TRY_MAMA_FUNC (mama_func env MamaMsg_create w) (\<lambda>w.
         TRY_MAMA_FUNC (mama_func env (MamaMsg_updateString msg ''name'' ''value'') w) (\<lambda>w.
         TRY_MAMA_FUNC (mama_func env (MamaMsg_updateU32 msg ''num'' 1) w) (\<lambda>w.
         TRY_MAMA_FUNC (request_send env 0 0 msg (session_createRequest 0 topic True 0 w)) (\<lambda>w. Some (Returned, w)))))
       }));
     (case e of
        Thrown s \<Rightarrow> Some (None, e, w)
      | Returned \<Rightarrow> do {
          (status, w) \<leftarrow> request_waitReply others fails 0 5 w;
          (e, w) \<leftarrow> end_session env 0 0 w;
          Some (Some status, e, w)
        })
   }"

text \<open>Its sink, which is the request itself, keeps a copy of the reply in \<open>reply_\<close>.\<close>

definition req2_onReply :: "menv \<Rightarrow> voidp \<Rightarrow> voidp \<Rightarrow> oz_app \<Rightarrow> program_end \<times> voidp \<times> oz_app" where
  "req2_onReply env msg reply w =
     (let (s, p, w) = mama env (MamaMsg_copy msg) w in
      if s \<noteq> MAMA_STATUS_OK then (Thrown s, stored p reply, w) else (Returned, stored p reply, w))"

text \<open>
  \<open>rep.cpp\<close>: the sink of the subscriber answers a request with a copy of it to which a field is added. The reply object is
  a static variable, made in the first call; \<open>inbox\<close> and \<open>inbox'\<close> say whether the message and its copy are from an inbox, and \<open>i\<close> is the
  number in the message.
\<close>

definition rep_onMsg :: "menv \<Rightarrow> bool \<Rightarrow> bool \<Rightarrow> int \<Rightarrow> nat \<Rightarrow> nat \<Rightarrow> voidp \<Rightarrow> oz_app \<Rightarrow> (program_end \<times> oz_app) option" where
  "rep_onMsg env inbox inbox' i a pSubscriber msg w = do {
     x \<leftarrow> sub_heap w pSubscriber;
     s \<leftarrow> sess_heap w (su_pSession x);
     let w = (if rep_heap w 0 = None then w\<lparr>rep_heap := (rep_heap w)(0 \<mapsto> se_pConn s)\<rparr> else w);
     if inbox then do {
       let temp = snd (env (mama_calls w) (MamaMsg_getTempCopy msg));
       TRY_MAMA_FUNC (mama_func env (MamaMsg_getTempCopy msg) w) (\<lambda>w.
       TRY_MAMA_FUNC (mama_func env (MamaMsg_getU32 temp ''num'') w) (\<lambda>w.
       TRY_MAMA_FUNC (mama_func env (MamaMsg_updateU32 temp ''reply'' i) w) (\<lambda>w.
       TRY_MAMA_FUNC (reply_send env a inbox' 0 temp w) (\<lambda>w. Some (Returned, w)))))
     } else Some (Returned, w)
   }"

subsection \<open>A publisher from start to end\<close>

text \<open>When MAMA succeeds, and every pointer that it stores depends on the call only.\<close>

definition mama_good :: "(mama_call \<Rightarrow> nat) \<Rightarrow> menv \<Rightarrow> bool" where
  "mama_good ptr env \<longleftrightarrow> (\<forall>h c. env h c = (MAMA_STATUS_OK, Some (ptr c)))"

lemma mama_goodD: "mama_good ptr env \<Longrightarrow> mama env c w = (MAMA_STATUS_OK, Some (ptr c), w\<lparr>mama_calls := mama_calls w @ [c]\<rparr>)"
  by (simp add: mama_good_def mama_def)

lemma mama_func_good: "mama_good ptr env \<Longrightarrow> mama_func env c w = Some (MAMA_STATUS_OK, w\<lparr>mama_calls := mama_calls w @ [c]\<rparr>)"
  by (simp add: mama_func_def mama_goodD)

lemma conn_call_good:
  "mama_good ptr env \<Longrightarrow> conn_heap w i = Some c \<Longrightarrow>
   conn_call env i f u w = Some (MAMA_STATUS_OK, w\<lparr>mama_calls := mama_calls w @ [f c],
     conn_heap := (conn_heap w)(i \<mapsto> u (Some (ptr (f c))) (c\<lparr>co_status := MAMA_STATUS_OK\<rparr>))\<rparr>)"
  by (simp add: conn_call_def mama_goodD)

text \<open>The calls of a connection that is started and destroyed.\<close>

definition start_calls :: "(mama_call \<Rightarrow> nat) \<Rightarrow> cstring \<Rightarrow> cstring \<Rightarrow> cstring \<Rightarrow> mama_call list" where
  "start_calls ptr mw payload name =
     (let bridge = Some (ptr (Mama_loadBridge mw)); transport = Some (ptr MamaTransport_allocate) in
      [Mama_loadBridge mw, Mama_loadPayloadBridge payload, Mama_open, Mama_getDefaultEventQueue bridge, MamaTransport_allocate,
       MamaTransport_create transport name bridge, Mama_startBackgroundEx bridge 0])"

definition end_calls :: "(mama_call \<Rightarrow> nat) \<Rightarrow> cstring \<Rightarrow> mama_call list" where
  "end_calls ptr mw = [Mama_stop (Some (ptr (Mama_loadBridge mw))), MamaTransport_destroy (Some (ptr MamaTransport_allocate)), Mama_close]"

definition started_conn :: "(mama_call \<Rightarrow> nat) \<Rightarrow> cstring \<Rightarrow> connection \<Rightarrow> bool" where
  "started_conn ptr mw c \<longleftrightarrow> co_bridge c = Some (ptr (Mama_loadBridge mw)) \<and> co_transport c = Some (ptr MamaTransport_allocate)"

lemma start_good:
  assumes "mama_good ptr env" "conn_heap w 0 = Some (new_connection mw payload name)"
  shows "\<exists>c. connection_start env 0 w = Some (MAMA_STATUS_OK, w\<lparr>mama_calls := mama_calls w @ start_calls ptr mw payload name,
     conn_heap := (conn_heap w)(0 \<mapsto> c)\<rparr>) \<and> started_conn ptr mw c \<and> co_pubs c = Map.empty"
  using assms by (simp add: connection_start_def conn_call_good CALL_MAMA_FUNC_def new_connection_def stored_def start_calls_def started_conn_def Let_def)
    (intro exI conjI, rule refl, simp_all)

lemma end_good:
  assumes "mama_good ptr env" "conn_heap w 0 = Some c" "started_conn ptr mw c"
  shows "end_connection env 0 w = Some (Returned, w\<lparr>mama_calls := mama_calls w @ end_calls ptr mw, conn_heap := (conn_heap w)(0 := None)\<rparr>)"
  using assms by (simp add: end_connection_def connection_destroy_def conn_call_good CALL_MAMA_FUNC_def end_calls_def started_conn_def)

text \<open>One round, and all of them.\<close>

definition round_calls :: "(mama_call \<Rightarrow> nat) \<Rightarrow> cstring \<Rightarrow> nat \<Rightarrow> mama_call list" where
  "round_calls ptr topic i =
     (let create = MamaPublisher_create (Some (ptr MamaTransport_allocate)) topic; msg = Some (ptr MamaMsg_create) in
      MamaMsg_updateU32 msg ''num'' (int i) # (if i = 1 then [create] else []) @ [MamaPublisher_send (Some (ptr create)) msg])"

text \<open>The publisher before round \<open>i + 1\<close>.\<close>

definition pub_after :: "(mama_call \<Rightarrow> nat) \<Rightarrow> cstring \<Rightarrow> nat \<Rightarrow> publisher" where
  "pub_after ptr topic i = \<lparr>pu_pConn = 0,
     pu_pub = (if i = 0 then None else Some (ptr (MamaPublisher_create (Some (ptr MamaTransport_allocate)) topic))), pu_topic = topic\<rparr>"

lemma round_good:
  assumes good: "mama_good ptr env" and c: "conn_heap w 0 = Some c" "started_conn ptr mw c"
    and p: "pub_heap w 0 = Some (pub_after ptr topic i)" and n: "Suc i < 2 ^ 31"
  shows "\<exists>w1. pub_loop env 0 (Some (ptr MamaMsg_create)) i (Suc n) w k = pub_loop env 0 (Some (ptr MamaMsg_create)) (Suc i) n w1 k \<and>
     mama_calls w1 = mama_calls w @ round_calls ptr topic (Suc i) \<and> pub_heap w1 0 = Some (pub_after ptr topic (Suc i)) \<and>
     conn_heap w1 = conn_heap w \<and> use_count w1 = use_count w"
  using assms by (cases "i = 0")
    (simp_all add: TRY_MAMA_FUNC_def mama_func_good publisher_publish_def publisher_create_def CALL_MAMA_FUNC_def mama_goodD stored_def
       round_calls_def started_conn_def Let_def pub_after_def, (intro exI conjI, rule refl, simp_all)+)

lemma pub_loop_good:
  assumes good: "mama_good ptr env" and c: "conn_heap w 0 = Some c" "started_conn ptr mw c"
    and p: "pub_heap w 0 = Some (pub_after ptr topic i)" and n: "i + n < 2 ^ 31"
  shows "\<exists>w1. pub_loop env 0 (Some (ptr MamaMsg_create)) i n w k = k w1 \<and>
     mama_calls w1 = mama_calls w @ concat (map (round_calls ptr topic) [Suc i ..< Suc (i + n)]) \<and>
     pub_heap w1 0 = Some (pub_after ptr topic (i + n)) \<and> conn_heap w1 = conn_heap w \<and> use_count w1 = use_count w"
  using c p n
proof (induction n arbitrary: i w)
  case 0
  then show ?case by (intro exI[of _ w]) simp
next
  case (Suc n)
  have "Suc i < 2 ^ 31" using Suc.prems by simp
  from round_good[OF good Suc.prems(1-3) this] obtain w1 where
    w1: "pub_loop env 0 (Some (ptr MamaMsg_create)) i (Suc n) w k = pub_loop env 0 (Some (ptr MamaMsg_create)) (Suc i) n w1 k"
      "mama_calls w1 = mama_calls w @ round_calls ptr topic (Suc i)" "pub_heap w1 0 = Some (pub_after ptr topic (Suc i))"
      "conn_heap w1 = conn_heap w" "use_count w1 = use_count w" by blast
  have "conn_heap w1 0 = Some c" "Suc i + n < 2 ^ 31" using w1(4) Suc.prems by simp_all
  from Suc.IH[OF this(1) Suc.prems(2) w1(3) this(2)] obtain w2 where
    "pub_loop env 0 (Some (ptr MamaMsg_create)) (Suc i) n w1 k = k w2"
    "mama_calls w2 = mama_calls w1 @ concat (map (round_calls ptr topic) [Suc (Suc i) ..< Suc (Suc i + n)])"
    "pub_heap w2 0 = Some (pub_after ptr topic (Suc i + n))" "conn_heap w2 = conn_heap w1" "use_count w2 = use_count w1" by blast
  moreover have "[Suc i ..< Suc (i + Suc n)] = Suc i # [Suc (Suc i) ..< Suc (Suc i + n)]" by (subst upt_rec) simp
  ultimately show ?case using w1 by (intro exI[of _ w2]) (simp del: upt_Suc)
qed

text \<open>
  The program \<open>pub.cpp\<close> when every call succeeds: whatever the number of rounds, it makes one publisher of MAMA, for the first message, and
  sends one message per round with the number of the round. At its end nothing of the library is left, but the publisher of
  MAMA is not destroyed.
\<close>

lemma pub_program:
  assumes "mama_good ptr env" "createConnection cmdLine_getTportPub A 0 w = Some w0" "conn_heap w0 0 = Some (new_connection mw payload name)"
    and "n < 2 ^ 31"
  shows "\<exists>w'. pub_main env n A w = Some (Returned, w') \<and> pub_heap w' 0 = None \<and> conn_heap w' 0 = None \<and>
     mama_calls w' = mama_calls w @ start_calls ptr mw payload name @
       [MamaMsg_create, MamaMsg_updateString (Some (ptr MamaMsg_create)) ''name'' ''value''] @
       concat (map (round_calls ptr (cmdLine_getTopic (pa_args A) ''prefix/suffix'')) [1 ..< Suc n]) @
       [MamaMsg_destroy (Some (ptr MamaMsg_create))] @ end_calls ptr mw"
proof -
  let ?t = "cmdLine_getTopic (pa_args A) ''prefix/suffix''" and ?m = "Some (ptr MamaMsg_create)"
  have w0: "mama_calls w0 = mama_calls w" using assms(2) by (auto simp: createConnection_def bind_eq_Some_conv)
  obtain c where c: "connection_start env 0 w0 = Some (MAMA_STATUS_OK, w0\<lparr>mama_calls := mama_calls w0 @ start_calls ptr mw payload name,
     conn_heap := (conn_heap w0)(0 \<mapsto> c)\<rparr>)" "started_conn ptr mw c" "co_pubs c = Map.empty"
    using start_good[OF assms(1,3)] by blast
  let ?c = "c\<lparr>co_pubs := (co_pubs c)(?t \<mapsto> 0)\<rparr>"
  let ?w1 = "w0\<lparr>mama_calls := mama_calls w0 @ start_calls ptr mw payload name, conn_heap := (conn_heap w0)(0 \<mapsto> c),
     pub_heap := (pub_heap w0)(0 \<mapsto> pub_after ptr ?t 0), use_count := (use_count w0)(0 := 1), conn_heap := (conn_heap w0)(0 \<mapsto> ?c)\<rparr>"
  let ?w2 = "?w1\<lparr>mama_calls := mama_calls ?w1 @ [MamaMsg_create, MamaMsg_updateString ?m ''name'' ''value'']\<rparr>"
  let ?k = "\<lambda>w. TRY_MAMA_FUNC (mama_func env (MamaMsg_destroy ?m) w) (\<lambda>w. do { w \<leftarrow> shared_release (Some 0) w; end_connection env 0 w })"
  have "snd (env h MamaMsg_create) = ?m" for h using assms(1) by (simp add: mama_good_def)
  then have eq: "pub_main env n A w = pub_loop env 0 ?m 0 n ?w2 ?k"
    using assms(1,2) c by (simp add: pub_main_def TRY_MAMA_FUNC_def connection_getPublisher_def mama_func_good pub_after_def Let_def)
  have s: "conn_heap ?w2 0 = Some ?c" "started_conn ptr mw ?c" "pub_heap ?w2 0 = Some (pub_after ptr ?t 0)" "0 + n < 2 ^ 31"
    using c(2) assms(4) by (simp_all add: started_conn_def)
  obtain w3 where w3: "pub_loop env 0 ?m 0 n ?w2 ?k = ?k w3"
      "mama_calls w3 = mama_calls ?w2 @ concat (map (round_calls ptr ?t) [Suc 0 ..< Suc (0 + n)])"
      "pub_heap w3 0 = Some (pub_after ptr ?t n)" "conn_heap w3 = conn_heap ?w2" "use_count w3 = use_count ?w2"
    using pub_loop_good[OF assms(1) s, of ?k] by (simp only: add_0) blast
  have "started_conn ptr mw (?c\<lparr>co_pubs := (co_pubs ?c)(?t := None)\<rparr>)" using s(2) by (simp add: started_conn_def)
  then have "\<exists>w'. ?k w3 = Some (Returned, w') \<and> pub_heap w' 0 = None \<and> conn_heap w' 0 = None \<and>
      mama_calls w' = mama_calls w3 @ MamaMsg_destroy ?m # end_calls ptr mw"
    using w3(3-5) assms(1) end_good[OF assms(1)]
    by (simp add: TRY_MAMA_FUNC_def mama_func_good shared_release_def publisher_destroy_def connection_removePublisher_def pub_after_def)
  then obtain w' where "?k w3 = Some (Returned, w')" "pub_heap w' 0 = None" "conn_heap w' 0 = None"
      "mama_calls w' = mama_calls w3 @ MamaMsg_destroy ?m # end_calls ptr mw" by blast
  then show ?thesis unfolding eq w3(1) using w3(2) w0 by (simp del: upt_Suc)
qed

subsection \<open>The leak\<close>

text \<open>The program that leaks does what \<open>timer.cpp\<close> does, and leaks unless it throws.\<close>

lemma end_session_returns: "end_session env c s w = Some (e, w') \<Longrightarrow> e = Returned"
  by (auto simp: end_session_def end_connection_def bind_eq_Some_conv)

lemma leak_main_timer:
  "map_option (\<lambda>(e, leak, w). (e, w)) (leak_main env others A w) = timer_main env others A w \<and>
   (\<forall>e leak w'. leak_main env others A w = Some (e, leak, w') \<longrightarrow> leak = (if e = Returned then 512 else 0))"
proof -
  have last: "map_option (\<lambda>(e, leak, w). (e, w)) (do { w \<leftarrow> others w; (s, w) \<leftarrow> oz_timer_destroy env 0 w; (e, w) \<leftarrow> end_session env 0 0 w; Some (e, n, w) }) =
      do { w \<leftarrow> others w; (s, w) \<leftarrow> oz_timer_destroy env 0 w; end_session env 0 0 w }" for n :: nat and w
    by (cases "others w") (auto split: bind_split)
  have leak: "do { w \<leftarrow> others w; (s, w) \<leftarrow> oz_timer_destroy env 0 w; (e, w) \<leftarrow> end_session env 0 0 w; Some (e, 512, w) } = Some (e, n, w') \<Longrightarrow>
      e = Returned \<and> n = (512 :: nat)" for w e n w'
    by (auto simp: bind_eq_Some_conv dest: end_session_returns)
  show ?thesis
  proof (cases "createConnection cmdLine_getTportSub A 0 w")
    case (Some w0)
    note c = Some
    show ?thesis
    proof (cases "connection_start env 0 w0")
      case (Some r1)
      note s1 = Some
      obtain st1 w1 where r1: "r1 = (st1, w1)" by (cases r1)
      let ?x2 = "session_start env 0 (connection_createSession 0 0 w1)"
      show ?thesis
      proof (cases "st1 = MAMA_STATUS_OK \<and> ?x2 \<noteq> None")
        case True
        then obtain st2 w2 where x2: "st1 = MAMA_STATUS_OK" "?x2 = Some (st2, w2)" by auto
        let ?x3 = "timer_start env 0 (session_createTimer 0 (1 / 2) True 0 w2)"
        show ?thesis using leak
          by (cases ?x3; cases "st2 = MAMA_STATUS_OK") (auto simp: leak_main_def timer_main_def TRY_MAMA_FUNC_def c s1 r1 x2 last split: if_splits)
      next
        case False
        then show ?thesis by (cases ?x2) (auto simp: leak_main_def timer_main_def TRY_MAMA_FUNC_def c s1 r1)
      qed
    qed (simp add: leak_main_def timer_main_def TRY_MAMA_FUNC_def c)
  qed (simp add: leak_main_def timer_main_def)
qed

end
