(* ===== verification/Monitor.thy ===== *)
theory Monitor
  imports Bridge_Process
begin

text \<open>
  The socket monitor of \<open>src/src/transport.c\<close>: a thread that reads the events which ZeroMQ reports
  for the data and naming sockets and logs them.
\<close>

subsection \<open>One event\<close>

text \<open>
  An event is a message of several frames. The frames that \<open>zmq_msg_recv\<close> returns are an argument, \<open>None\<close>
  for a failure; without further frames the call blocks.
\<close>

type_synonym frames = "bytes option list"

fun msg_recv :: "frames \<Rightarrow> (bytes option \<times> frames) option" where
  "msg_recv [] = None"
| "msg_recv (f # fs) = Some (f, fs)"

text \<open>\<open>memcpy\<close> into a \<open>uint64_t\<close>: a shorter frame is over-read.\<close>

definition load64 :: "bytes \<Rightarrow> 64 word option" where
  "load64 b = (if 8 \<le> length b then Some (word_of_nat (foldr (\<lambda>c n. of_char c + 256 * n) (take 8 b) 0)) else None)"

text \<open>An address: copied into a zeroed array of 257 bytes and printed from there.\<close>

definition load_address :: "bytes \<Rightarrow> cstring option" where
  "load_address b = (if length b \<le> 257 then cstr_at (b @ replicate (257 - length b) NUL) else None)"

record monitor_log =
  ml_socket :: cstring
  ml_event :: cstring
  ml_level :: MamaLogLevel
  ml_value :: "64 word"
  ml_local :: cstring
  ml_remote :: cstring

text \<open>The loop over the values; the result is \<open>None\<close> inside when a receive fails.\<close>

fun monitor_values :: "nat \<Rightarrow> 64 word \<Rightarrow> frames \<Rightarrow> (64 word option \<times> frames) option" where
  "monitor_values 0 val fs = Some (Some val, fs)"
| "monitor_values (Suc n) val fs = do {
     (f, fs) \<leftarrow> msg_recv fs;
     case f of
       None \<Rightarrow> Some (None, fs)
     | Some b \<Rightarrow> do { val \<leftarrow> load64 b; monitor_values n val fs }
   }"

text \<open>A receive that returns from the function when it fails.\<close>

definition recv_frame ::
  "frames \<Rightarrow> (bytes \<Rightarrow> frames \<Rightarrow> (64 word \<times> monitor_log list \<times> frames) option) \<Rightarrow> (64 word \<times> monitor_log list \<times> frames) option" where
  "recv_frame fs k = do {
     (f, fs) \<leftarrow> msg_recv fs;
     case f of None \<Rightarrow> Some (- 1, [], fs) | Some b \<Rightarrow> k b fs
   }"

definition zmqBridgeMamaTransportImpl_monitorEvent_v2 ::
  "(zmq_event \<Rightarrow> 64 word) \<Rightarrow> frames \<Rightarrow> cstring \<Rightarrow> (64 word \<times> monitor_log list \<times> frames) option" where
  "zmqBridgeMamaTransportImpl_monitorEvent_v2 codes fs socketName =
     recv_frame fs (\<lambda>b fs. do {
       event \<leftarrow> load64 b;
       recv_frame fs (\<lambda>b fs. do {
         value_count \<leftarrow> load64 b;
         (val, fs) \<leftarrow> monitor_values (unat value_count) 0 fs;
         case val of
           None \<Rightarrow> Some (- 1, [], fs)
         | Some val \<Rightarrow>
             recv_frame fs (\<lambda>b fs. do {
               local_address \<leftarrow> load_address b;
               recv_frame fs (\<lambda>b fs. do {
                 remote_address \<leftarrow> load_address b;
                 Some (0, [\<lparr>ml_socket = socketName, ml_event = get_zmqEventName codes event,
                   ml_level = get_zmqEventLogLevel codes event, ml_value = val, ml_local = local_address,
                   ml_remote = remote_address\<rparr>], fs)
               })
             })
       })
     })"

subsection \<open>The monitor thread\<close>

text \<open>
  One round of the loop: whether \<open>zmq_poll\<close> fails other than by an interrupt, for each of the
  four monitored sockets the frames that arrive if it is readable, and whether \<open>mIsMonitoring\<close> is
  cleared by another thread before the round ends.
\<close>

record mon_round =
  mr_failed :: bool
  mr_dataPub :: "frames option"
  mr_dataSub :: "frames option"
  mr_namingPub :: "frames option"
  mr_namingSub :: "frames option"
  mr_stop :: bool

definition monitor_socket :: "(zmq_event \<Rightarrow> 64 word) \<Rightarrow> frames option \<Rightarrow> cstring \<Rightarrow> monitor_log list option" where
  "monitor_socket codes fs name =
     (case fs of
        None \<Rightarrow> Some []
      | Some fs \<Rightarrow> do {
          (_, logs, _) \<leftarrow> zmqBridgeMamaTransportImpl_monitorEvent_v2 codes fs name;
          Some logs
        })"

text \<open>\<open>None\<close> while the loop is still running.\<close>

fun monitor_loop :: "(zmq_event \<Rightarrow> 64 word) \<Rightarrow> mon_round list \<Rightarrow> 32 word \<Rightarrow> monitor_log list option" where
  "monitor_loop codes [] isMonitoring = (if isMonitoring = 1 then None else Some [])"
| "monitor_loop codes (r # rs) isMonitoring =
     (if isMonitoring \<noteq> 1 then Some []
      else do {
        let isMonitoring = (if mr_stop r then 0 else isMonitoring);
        if mr_failed r then monitor_loop codes rs isMonitoring
        else do {
          l1 \<leftarrow> monitor_socket codes (mr_dataPub r) ''dataPub'';
          l2 \<leftarrow> monitor_socket codes (mr_dataSub r) ''dataSub'';
          l3 \<leftarrow> monitor_socket codes (mr_namingPub r) ''namingPub'';
          l4 \<leftarrow> monitor_socket codes (mr_namingSub r) ''namingSub'';
          ls \<leftarrow> monitor_loop codes rs isMonitoring;
          Some (l1 @ l2 @ l3 @ l4 @ ls)
        }
      })"

definition pair_socket :: "zenv \<Rightarrow> cstring \<Rightarrow> nat zop" where
  "pair_socket env uri = do {
     s \<leftarrow> zdo env (Zmq_socket ZMQ_PAIR);
     zdo env (Zmq_connect (nat s) uri);
     State_Monad.return (nat s)
   }"

definition zmqBridgeMamaTransportImpl_monitorThread ::
  "zenv \<Rightarrow> (zmq_event \<Rightarrow> 64 word) \<Rightarrow> mon_round list \<Rightarrow> ('t, 'u, 'p, 'l) oz_proc
     \<Rightarrow> (monitor_log list \<times> ('t, 'u, 'p, 'l) oz_proc) option" where
  "zmqBridgeMamaTransportImpl_monitorThread env codes rounds w = do {
     let (dataPubMonitor, w) = zrun (pair_socket env ''inproc://dataPub'') w;
     let (dataSubMonitor, w) = zrun (pair_socket env ''inproc://dataSub'') w;
     let (namingPubMonitor, w) = zrun (pair_socket env ''inproc://namingPub'') w;
     let (namingSubMonitor, w) = zrun (pair_socket env ''inproc://namingSub'') w;
     logs \<leftarrow> monitor_loop codes rounds (mIsMonitoring (tport w));
     let (_, w) = zrun (do {
       zdo env (Zmq_close dataPubMonitor);
       zdo env (Zmq_close dataSubMonitor);
       zdo env (Zmq_close namingPubMonitor);
       zdo env (Zmq_close namingSubMonitor)
     }) w;
     Some (logs, w)
   }"

subsection \<open>Starting and stopping\<close>

definition ZMQ_MONITOR_ENDPOINT :: cstring where "ZMQ_MONITOR_ENDPOINT = ''inproc://monitor''"

text \<open>
  \<open>zmqBridgeMamaTransportImpl_createSocket\<close> on a socket of the transport: \<open>sel\<close> and \<open>upd\<close> are
  the selector and the update of the member.
\<close>

definition create_socket ::
  "zenv \<Rightarrow> 64 word \<Rightarrow> (('t, 'u, 'p, 'l) zmqTransportBridge \<Rightarrow> zmqSocket)
     \<Rightarrow> (zmqSocket \<Rightarrow> ('t, 'u, 'p, 'l) zmqTransportBridge \<Rightarrow> ('t, 'u, 'p, 'l) zmqTransportBridge)
     \<Rightarrow> zmq_socktype \<Rightarrow> cstring \<Rightarrow> int \<Rightarrow> ('t, 'u, 'p, 'l) oz_proc \<Rightarrow> (mama_status \<times> ('t, 'u, 'p, 'l) oz_proc) option" where
  "create_socket env evmask sel upd type name monitor w =
     (let ((s, sk), w) = zrun (zmqBridgeMamaTransportImpl_createSocket env evmask (sel (tport w)) type (Some name) monitor) w
      in Some (s, upd_tport (upd sk) w))"

text \<open>A socket function as a statement on the process.\<close>

definition zstmt :: "(('t, 'u, 'p, 'l) zmqTransportBridge \<Rightarrow> mama_status zop) \<Rightarrow> ('t, 'u, 'p, 'l) oz_proc
     \<Rightarrow> (mama_status \<times> ('t, 'u, 'p, 'l) oz_proc) option" where
  "zstmt f w = Some (zrun (f (tport w)) w)"

definition bind_only :: "zenv \<Rightarrow> zmqSocket \<Rightarrow> cstring \<Rightarrow> mama_status zop" where
  "bind_only env sk uri = do {
     r \<leftarrow> zmqBridgeMamaTransportImpl_bindSocket env (\<lambda>z. []) sk uri False;
     State_Monad.return (fst r)
   }"

definition zmqBridgeMamaTransportImpl_startMonitor ::
  "zenv \<Rightarrow> 64 word \<Rightarrow> ('t, 'u, 'p, 'l) oz_proc \<Rightarrow> (mama_status \<times> ('t, 'u, 'p, 'l) oz_proc) option" where
  "zmqBridgeMamaTransportImpl_startMonitor env evmask w =
     CALL_MAMA_FUNC (call_seq
       [create_socket env evmask mZmqMonitorSub (\<lambda>s t. t\<lparr>mZmqMonitorSub := s\<rparr>) ZMQ_SERVER ''monitorSub'' 0,
        zstmt (\<lambda>t. bind_only env (mZmqMonitorSub t) ZMQ_MONITOR_ENDPOINT),
        create_socket env evmask mZmqMonitorPub (\<lambda>s t. t\<lparr>mZmqMonitorPub := s\<rparr>) ZMQ_CLIENT ''monitorPub'' 0,
        zstmt (\<lambda>t. zmqBridgeMamaTransportImpl_connectSocket env (mZmqMonitorPub t) ZMQ_MONITOR_ENDPOINT 0 0)] w)
       (\<lambda>w. let w = upd_tport (\<lambda>t. t\<lparr>mIsMonitoring := 1\<rparr>) w;
                (rc, w) = zrun (zdo env (Wthread_create MonitorThread)) w
            in Some (if rc \<noteq> 0 then MAMA_STATUS_PLATFORM else MAMA_STATUS_OK, w))"

definition zmqBridgeMamaTransportImpl_stopMonitor ::
  "zenv \<Rightarrow> 64 word \<Rightarrow> ('t, 'u, 'p, 'l) oz_proc \<Rightarrow> (mama_status \<times> ('t, 'u, 'p, 'l) oz_proc) option" where
  "zmqBridgeMamaTransportImpl_stopMonitor env allEvents w =
     (let w = upd_tport (\<lambda>t. t\<lparr>mIsMonitoring := 0\<rparr>) w;
          msg = control_msg (CHR ''X'') (replicate (MAX_SUBJECT_LENGTH + 1) NUL);
          (_, w) = zrun (zdo env (Zmq_send (mSocket (mZmqMonitorPub (tport w))) msg)) w;
          (_, w) = zrun (zdo env (Wthread_join MonitorThread)) w
      in call_seq
       [zstmt (\<lambda>t. zmqBridgeMamaTransportImpl_disconnectSocket env (mZmqMonitorPub t) ZMQ_MONITOR_ENDPOINT),
        zstmt (\<lambda>t. zmqBridgeMamaTransportImpl_destroySocket env allEvents (mZmqMonitorPub t)),
        zstmt (\<lambda>t. zmqBridgeMamaTransportImpl_unbindSocket env (mZmqMonitorSub t) ZMQ_MONITOR_ENDPOINT),
        zstmt (\<lambda>t. zmqBridgeMamaTransportImpl_destroySocket env allEvents (mZmqMonitorSub t))] w)"

end
