(* ===== verification/Monitor_Correct.thy ===== *)
theory Monitor_Correct
  imports Monitor Naming_Correct
begin

text \<open>
  What the socket monitor logs: an event that ZeroMQ reports is decoded exactly, unless an address is too
  long, and the thread logs every event of every round until it is stopped.
\<close>

subsection \<open>One event\<close>

text \<open>The frames of version 2 of an event: its number, the number of its values, the values, and the two addresses.\<close>

definition event_frames :: "64 word \<Rightarrow> 64 word list \<Rightarrow> cstring \<Rightarrow> cstring \<Rightarrow> frames" where
  "event_frames event vals local_address remote_address =
     map Some (long_bytes event # long_bytes (word_of_nat (length vals)) # map long_bytes vals @ [local_address, remote_address])"

lemma digits:
  "foldr (\<lambda>d n. d + 256 * n) (map (\<lambda>i. m div 256 ^ i mod 256) [j..<j + k]) 0 = m div 256 ^ j mod (256::nat) ^ k"
proof (induction k arbitrary: j)
  case (Suc k)
  have "[j..<j + Suc k] = j # [Suc j..<Suc j + k]" by (simp add: upt_conv_Cons)
  moreover have "m div 256 ^ Suc j = m div 256 ^ j div 256" by (simp only: power_Suc2 div_mult2_eq)
  ultimately show ?case using Suc[of "Suc j"] by (simp add: mod_mult2_eq)
qed simp

lemma load64_long_bytes [simp]: "load64 (long_bytes n) = Some n"
proof -
  have d: "unat (drop_bit (8 * i) n) = unat n div 256 ^ i" for i
    by (rule trans[OF unat_drop_bit_eq]) (simp add: drop_bit_eq_div power_mult)
  have "foldr (\<lambda>c n. of_char c + 256 * n) (long_bytes n) 0 = foldr (\<lambda>d n. d + 256 * n) (map (\<lambda>i. unat n div 256 ^ i mod 256) [0..<0 + 8]) 0"
    by (simp add: long_bytes_def foldr_map comp_def d)
  also have "\<dots> = unat n mod 256 ^ 8" by (simp only: digits) simp
  also have "\<dots> = unat n" using unsigned_less[of n, where 'a = nat] by simp
  finally show ?thesis by (simp add: load64_def)
qed

lemma monitor_values_all: "monitor_values (length vals) v (map (Some \<circ> long_bytes) vals @ fs) = Some (Some (last (v # vals)), fs)"
  by (induction vals arbitrary: v) auto

lemma load_address_eq: "is_cstring b \<Longrightarrow> load_address b = (if length b \<le> 256 then Some b else None)"
  by (cases "257 - length b") (auto simp: load_address_def cstr_at_none)

text \<open>
  C30. The monitor decodes what ZeroMQ reports. From the frames of an event the monitor logs its name, its level, its last
  value and both addresses, and consumes exactly these frames; an address of more than 256 bytes overruns its array.
\<close>

theorem monitor_event_roundtrip:
  assumes "length vals < 2 ^ 64" "is_cstring local" "is_cstring remote"
  shows "zmqBridgeMamaTransportImpl_monitorEvent_v2 codes (event_frames event vals local remote @ fs) name =
    (if length local \<le> 256 \<and> length remote \<le> 256
     then Some (0, [\<lparr>ml_socket = name, ml_event = get_zmqEventName codes event, ml_level = get_zmqEventLogLevel codes event,
                     ml_value = last (0 # vals), ml_local = local, ml_remote = remote\<rparr>], fs)
     else None)"
proof -
  have "unat (word_of_nat (length vals) :: 64 word) = length vals" using assms(1) by (simp add: unat_of_nat)
  moreover have "event_frames event vals local remote @ fs =
      Some (long_bytes event) # Some (long_bytes (word_of_nat (length vals))) # map (Some \<circ> long_bytes) vals @ Some local # Some remote # fs"
    by (simp add: event_frames_def)
  ultimately show ?thesis using load_address_eq[OF assms(2)] load_address_eq[OF assms(3)]
    by (simp add: zmqBridgeMamaTransportImpl_monitorEvent_v2_def recv_frame_def monitor_values_all del: last.simps)
qed

theorem monitor_event_roundtrip_witness:
  "zmqBridgeMamaTransportImpl_monitorEvent_v2 demo_codes (event_frames 1 [7, 9] ''tcp://a:1'' ''tcp://b:2'') ''dataPub'' =
     Some (0, [\<lparr>ml_socket = ''dataPub'', ml_event = get_zmqEventName demo_codes 1, ml_level = get_zmqEventLogLevel demo_codes 1,
       ml_value = 9, ml_local = ''tcp://a:1'', ml_remote = ''tcp://b:2''\<rparr>], []) \<and>
   zmqBridgeMamaTransportImpl_monitorEvent_v2 demo_codes (event_frames 1 [] (replicate 257 CHR ''a'') ''tcp://b:2'') ''dataPub'' = None"
  using monitor_event_roundtrip[of "[7, 9]" "''tcp://a:1''" "''tcp://b:2''" demo_codes 1 "[]" "''dataPub''"]
    monitor_event_roundtrip[of "[]" "replicate 257 CHR ''a''" "''tcp://b:2''" demo_codes 1 "[]" "''dataPub''"]
  by (simp add: is_cstring_def)

subsection \<open>The thread\<close>

text \<open>What one round logs.\<close>

definition round_logs :: "(zmq_event \<Rightarrow> 64 word) \<Rightarrow> mon_round \<Rightarrow> monitor_log list option" where
  "round_logs codes r =
     (if mr_failed r then Some []
      else map_option concat (those [monitor_socket codes (mr_dataPub r) ''dataPub'', monitor_socket codes (mr_dataSub r) ''dataSub'',
        monitor_socket codes (mr_namingPub r) ''namingPub'', monitor_socket codes (mr_namingSub r) ''namingSub'']))"

lemma monitor_loop_round:
  assumes "round_logs codes r = Some l"
  shows "monitor_loop codes (r # rs) 1 = map_option ((@) l) (if mr_stop r then Some [] else monitor_loop codes rs 1)"
proof -
  have "monitor_loop codes rs 0 = Some []" by (cases rs) simp_all
  then show ?thesis using assms
    by (cases "monitor_loop codes rs 1") (auto simp: round_logs_def split: option.splits if_splits)
qed

lemma monitor_loop_logs:
  assumes "those (map (round_logs codes) rs) = Some ls" "list_all (Not \<circ> mr_stop) rs" "round_logs codes r = Some l" "mr_stop r"
  shows "monitor_loop codes (rs @ r # later) 1 = Some (concat ls @ l)"
  using assms(1,2)
proof (induction rs arbitrary: ls)
  case Nil
  then show ?case using assms(4) by (simp add: monitor_loop_round[OF assms(3)] del: monitor_loop.simps)
next
  case (Cons x xs)
  then show ?case by (auto simp: monitor_loop_round simp del: monitor_loop.simps split: option.splits)
qed

text \<open>
  C31. The monitor thread ends. With monitoring switched on, the thread logs the events of every round in the order of the rounds
  and, in a round, of the sockets, also after a failed poll; it returns in the first round in which monitoring is
  switched off, whatever would come later, after it has closed the four sockets that it has opened.
\<close>

theorem monitor_thread_logs_and_ends:
  assumes "mIsMonitoring (tport w) = 1" "those (map (round_logs codes) rs) = Some ls" "list_all (Not \<circ> mr_stop) rs"
    "round_logs codes r = Some l" "mr_stop r"
  shows "\<exists>w' a b c d. zmqBridgeMamaTransportImpl_monitorThread env codes (rs @ r # later) w = Some (concat ls @ l, w') \<and>
    zcalls w' = zcalls w @ [Zmq_socket ZMQ_PAIR, Zmq_connect a ''inproc://dataPub'', Zmq_socket ZMQ_PAIR, Zmq_connect b ''inproc://dataSub'',
      Zmq_socket ZMQ_PAIR, Zmq_connect c ''inproc://namingPub'', Zmq_socket ZMQ_PAIR, Zmq_connect d ''inproc://namingSub'',
      Zmq_close a, Zmq_close b, Zmq_close c, Zmq_close d]"
proof -
  have "monitor_loop codes (rs @ r # later) 1 = Some (concat ls @ l)" by (rule monitor_loop_logs[OF assms(2-5)])
  with assms(1) show ?thesis
    by (auto simp: zmqBridgeMamaTransportImpl_monitorThread_def pair_socket_def zrun_def Let_def split: prod.splits)
qed

definition demo_mon_round :: "64 word list \<Rightarrow> bool \<Rightarrow> mon_round" where
  "demo_mon_round vals stop = \<lparr>mr_failed = False, mr_dataPub = Some (event_frames 1 vals ''tcp://a:1'' ''tcp://b:2''), mr_dataSub = None,
     mr_namingPub = None, mr_namingSub = None, mr_stop = stop\<rparr>"

theorem monitor_thread_logs_and_ends_witness:
  "\<exists>w' ls. zmqBridgeMamaTransportImpl_monitorThread demo_env demo_codes [demo_mon_round [3] False, demo_mon_round [4] True]
       (upd_tport (\<lambda>t. t\<lparr>mIsMonitoring := 1\<rparr>) demo_proc) = Some (ls, w') \<and> map ml_value ls = [3, 4]"
proof -
  let ?l = "\<lambda>v. [\<lparr>ml_socket = ''dataPub'', ml_event = get_zmqEventName demo_codes 1, ml_level = get_zmqEventLogLevel demo_codes 1,
       ml_value = v, ml_local = ''tcp://a:1'', ml_remote = ''tcp://b:2''\<rparr>]"
  let ?w = "upd_tport (\<lambda>t. t\<lparr>mIsMonitoring := 1\<rparr>) demo_proc"
  have l: "round_logs demo_codes (demo_mon_round [v] b) = Some (?l v)" for v b
    by (simp add: round_logs_def demo_mon_round_def monitor_socket_def event_frames_def zmqBridgeMamaTransportImpl_monitorEvent_v2_def
        recv_frame_def load_address_eq is_cstring_def)
  have "\<exists>w' a b c d. zmqBridgeMamaTransportImpl_monitorThread demo_env demo_codes ([demo_mon_round [3] False] @ demo_mon_round [4] True # []) ?w =
        Some (concat [?l 3] @ ?l 4, w') \<and> zcalls w' = zcalls ?w @ [Zmq_socket ZMQ_PAIR, Zmq_connect a ''inproc://dataPub'',
      Zmq_socket ZMQ_PAIR, Zmq_connect b ''inproc://dataSub'', Zmq_socket ZMQ_PAIR, Zmq_connect c ''inproc://namingPub'',
      Zmq_socket ZMQ_PAIR, Zmq_connect d ''inproc://namingSub'', Zmq_close a, Zmq_close b, Zmq_close c, Zmq_close d]"
    by (rule monitor_thread_logs_and_ends) (simp_all add: l, simp_all add: demo_mon_round_def)
  then show ?thesis by auto
qed

end
