(* ===== verification/Byte_Order.thy ===== *)
theory Byte_Order
  imports Monitor_Correct
begin

text \<open>
  Four-byte integers in buffers, least significant byte first, beside the eight-byte ones of \<open>Naming\<close> and \<open>Monitor\<close>; both are used by the programs
  that measure throughput, \<open>src/src/queuebench.c\<close>, \<open>src/src/hammer.c\<close> and \<open>src/src/nail.c\<close>.
\<close>

definition int_bytes :: "32 word \<Rightarrow> bytes" where
  "int_bytes n = map (\<lambda>i. char_of (unat (drop_bit (8 * i) n) mod 256)) [0..<4]"

text \<open>A read of four bytes; a shorter object is over-read.\<close>

definition load32 :: "bytes \<Rightarrow> 32 word option" where
  "load32 b = (if 4 \<le> length b then Some (word_of_nat (foldr (\<lambda>c n. of_char c + 256 * n) (take 4 b) 0)) else None)"

lemma length_int_bytes [simp]: "length (int_bytes n) = 4"
  by (simp add: int_bytes_def)

lemma load64_take: "load64 (take 8 b) = load64 b"
  by (simp add: load64_def)

lemma load32_int_bytes [simp]: "load32 (int_bytes n @ b) = Some n"
proof -
  have d: "unat (drop_bit (8 * i) n) = unat n div 256 ^ i" for i
    by (rule trans[OF unat_drop_bit_eq]) (simp add: drop_bit_eq_div power_mult)
  have "foldr (\<lambda>c n. of_char c + 256 * n) (int_bytes n) 0 = foldr (\<lambda>d n. d + 256 * n) (map (\<lambda>i. unat n div 256 ^ i mod 256) [0..<0 + 4]) 0"
    by (simp add: int_bytes_def foldr_map comp_def d)
  also have "\<dots> = unat n mod 256 ^ 4" by (simp only: digits) simp
  also have "\<dots> = unat n" using unsigned_less[of n, where 'a = nat] by simp
  finally show ?thesis by (simp add: load32_def)
qed

lemma load64_long_bytes_append [simp]: "load64 (long_bytes n @ b) = Some n"
  using load64_take[of "long_bytes n @ b"] by simp

end
