(* ===== verification/Queue_Bench.thy ===== *)
theory Queue_Bench
  imports Params Byte_Order
begin

text \<open>
  The benchmark of queues, \<open>src/src/queuebench.c\<close>: any number of producers and consumers, which share two counters, on one queue of the wombat
  library or on ZeroMQ sockets, one for all producers and one per consumer. The steps of the threads are their accesses to the counters and the queues, in any
  interleaving; \<open>main\<close> makes the threads and waits for them.

  The events of the wombat queue are all alike, so that it is the number of them; it may refuse an event, which the producer does not notice. A socket of a
  consumer has the frames that wait there; which consumers a frame reaches is up to ZeroMQ. Messages about the progress are left out.
\<close>

subsection \<open>State\<close>

definition QB_SIZE :: nat where "QB_SIZE = 10000000"

datatype queue_choice = QUEUE_WOMBAT | QUEUE_ZMQ

text \<open>Where a thread is in its loop; one that is not made yet is at \<open>D_new\<close> or \<open>W_new\<close>.\<close>

datatype dealer_pc = D_new | D_read | D_send | D_increment | D_done

datatype worker_pc = W_new | W_read | W_take | W_count | W_done

datatype main_pc = M_make_worker nat | M_make_dealer nat | M_join_worker nat | M_join_dealer nat | M_done

text \<open>The local variables of the threads.\<close>

record dealer =
  dl_pc :: dealer_pc
  dl_currentSize :: nat
  dl_local :: nat

record worker =
  wk_pc :: worker_pc
  wk_recvSeqNo :: "32 word"
  wk_lastSeqNo :: "32 word"
  wk_local :: nat

text \<open>\<open>qb_refused\<close> counts the events that the wombat queue refused, and \<open>qb_missed\<close> the frames that did not reach the socket of a consumer.\<close>

record bench =
  gQueueChoice :: queue_choice
  gSentEvents :: nat
  gReceivedEvents :: nat
  qb_queue :: nat
  qb_refused :: nat
  qb_waiting :: "nat \<Rightarrow> bytes list"
  qb_missed :: "nat \<Rightarrow> nat"
  qb_dealers :: "nat \<Rightarrow> dealer"
  qb_workers :: "nat \<Rightarrow> worker"
  qb_main :: main_pc

definition set_dealer :: "nat \<Rightarrow> dealer \<Rightarrow> bench \<Rightarrow> bench" where
  "set_dealer i d w = w\<lparr>qb_dealers := (qb_dealers w)(i := d)\<rparr>"

definition set_worker :: "nat \<Rightarrow> worker \<Rightarrow> bench \<Rightarrow> bench" where
  "set_worker j x w = w\<lparr>qb_workers := (qb_workers w)(j := x)\<rparr>"

subsection \<open>Threads\<close>

definition dealer_frame :: "nat \<Rightarrow> bytes" where
  "dealer_frame currentSize = [CHR ''A'', NUL] @ int_bytes (word_of_nat currentSize)"

text \<open>What a producer sends: \<open>ok\<close> says whether the wombat queue takes the event, and \<open>dest\<close> which consumers ZeroMQ gives the frame to.\<close>

definition dealer_send :: "bool \<Rightarrow> (nat \<Rightarrow> bool) \<Rightarrow> nat \<Rightarrow> bench \<Rightarrow> bench" where
  "dealer_send ok dest currentSize w =
     (case gQueueChoice w of
        QUEUE_ZMQ \<Rightarrow>
          w\<lparr>qb_waiting := (\<lambda>j. if dest j then qb_waiting w j @ [dealer_frame currentSize] else qb_waiting w j),
             qb_missed := (\<lambda>j. if dest j then qb_missed w j else qb_missed w j + 1)\<rparr>
      | QUEUE_WOMBAT \<Rightarrow> if ok then w\<lparr>qb_queue := qb_queue w + 1\<rparr> else w\<lparr>qb_refused := qb_refused w + 1\<rparr>)"

text \<open>One step of a producer.\<close>

definition dealer_step :: "bool \<Rightarrow> (nat \<Rightarrow> bool) \<Rightarrow> nat \<Rightarrow> bench \<Rightarrow> bench" where
  "dealer_step ok dest i w =
     (let d = qb_dealers w i in
      case dl_pc d of
        D_read \<Rightarrow>
          let currentSize = gSentEvents w in
          set_dealer i (d\<lparr>dl_currentSize := currentSize, dl_pc := if currentSize \<le> QB_SIZE then D_send else D_done\<rparr>) w
      | D_send \<Rightarrow> set_dealer i (d\<lparr>dl_pc := D_increment, dl_local := dl_local d + 1\<rparr>) (dealer_send ok dest (dl_currentSize d) w)
      | D_increment \<Rightarrow> set_dealer i (d\<lparr>dl_pc := D_read\<rparr>) (w\<lparr>gSentEvents := gSentEvents w + 1\<rparr>)
      | _ \<Rightarrow> w)"

text \<open>
  What a consumer takes: \<open>ok\<close> says whether an event or a frame comes in time. \<open>zmq_msg_recv\<close> gives the oldest frame, whose number is copied from behind
  its first two bytes; \<open>wombatQueue_timedDispatch\<close> takes the oldest event and calls \<open>wQueueCb\<close>.
\<close>

definition worker_take :: "bool \<Rightarrow> nat \<Rightarrow> bench \<Rightarrow> bench option" where
  "worker_take ok j w =
     (let x = qb_workers w j in
      case gQueueChoice w of
        QUEUE_ZMQ \<Rightarrow>
          (case (ok, qb_waiting w j) of
             (True, m # ms) \<Rightarrow> do {
               recvSeqNo \<leftarrow> load32 (drop 2 m);
               Some (set_worker j (x\<lparr>wk_pc := W_count, wk_recvSeqNo := recvSeqNo\<rparr>) (w\<lparr>qb_waiting := (qb_waiting w)(j := ms)\<rparr>))
             }
           | _ \<Rightarrow> Some (set_worker j (x\<lparr>wk_pc := W_read\<rparr>) w))
      | QUEUE_WOMBAT \<Rightarrow>
          Some (if ok \<and> qb_queue w \<noteq> 0 then set_worker j (x\<lparr>wk_pc := W_count\<rparr>) (w\<lparr>qb_queue := qb_queue w - 1\<rparr>)
                else set_worker j (x\<lparr>wk_pc := W_read\<rparr>) w))"

text \<open>The counter is increased by \<open>wQueueCb\<close>, or by the consumer itself, which then counts the frame as its own.\<close>

definition worker_step :: "bool \<Rightarrow> nat \<Rightarrow> bench \<Rightarrow> bench option" where
  "worker_step ok j w =
     (let x = qb_workers w j in
      case wk_pc x of
        W_read \<Rightarrow> Some (set_worker j (x\<lparr>wk_pc := if gReceivedEvents w < QB_SIZE then W_take else W_done\<rparr>) w)
      | W_take \<Rightarrow> worker_take ok j w
      | W_count \<Rightarrow>
          Some (set_worker j
            (case gQueueChoice w of
               QUEUE_ZMQ \<Rightarrow> x\<lparr>wk_pc := W_read, wk_lastSeqNo := wk_recvSeqNo x, wk_local := wk_local x + 1\<rparr>
             | QUEUE_WOMBAT \<Rightarrow> x\<lparr>wk_pc := W_read\<rparr>)
            (w\<lparr>gReceivedEvents := gReceivedEvents w + 1\<rparr>))
      | _ \<Rightarrow> Some w)"

text \<open>
  One step of \<open>main\<close> after its set-up; \<open>ok\<close> says whether \<open>wthread_create\<close> succeeds, which is not checked. It waits while the thread it
  joins runs; joining a thread that was not made is undefined.
\<close>

definition main_step :: "nat \<Rightarrow> nat \<Rightarrow> bool \<Rightarrow> bench \<Rightarrow> bench option" where
  "main_step pubs subs ok w =
     (case qb_main w of
        M_make_worker i \<Rightarrow>
          Some (if i < subs
                then (set_worker i ((qb_workers w i)\<lparr>wk_pc := if ok then W_read else W_new\<rparr>) w)\<lparr>qb_main := M_make_worker (i + 1)\<rparr>
                else w\<lparr>qb_main := M_make_dealer 0\<rparr>)
      | M_make_dealer i \<Rightarrow>
          Some (if i < pubs
                then (set_dealer i ((qb_dealers w i)\<lparr>dl_pc := if ok then D_read else D_new\<rparr>) w)\<lparr>qb_main := M_make_dealer (i + 1)\<rparr>
                else w\<lparr>qb_main := M_join_worker 0\<rparr>)
      | M_join_worker i \<Rightarrow>
          (if i < subs
           then if wk_pc (qb_workers w i) = W_new then None
                else if wk_pc (qb_workers w i) = W_done then Some (w\<lparr>qb_main := M_join_worker (i + 1)\<rparr>)
                else Some w
           else Some (w\<lparr>qb_main := M_join_dealer 0\<rparr>))
      | M_join_dealer i \<Rightarrow>
          (if i < pubs
           then if dl_pc (qb_dealers w i) = D_new then None
                else if dl_pc (qb_dealers w i) = D_done then Some (w\<lparr>qb_main := M_join_dealer (i + 1)\<rparr>)
                else Some w
           else Some (w\<lparr>qb_main := M_done\<rparr>))
      | M_done \<Rightarrow> Some w)"

inductive bench_step :: "nat \<Rightarrow> nat \<Rightarrow> bench \<Rightarrow> bench \<Rightarrow> bool" for pubs subs where
  dealer: "i < pubs \<Longrightarrow> bench_step pubs subs w (dealer_step ok dest i w)"
| worker: "j < subs \<Longrightarrow> worker_step ok j w = Some w' \<Longrightarrow> bench_step pubs subs w w'"
| main: "main_step pubs subs ok w = Some w' \<Longrightarrow> bench_step pubs subs w w'"

definition bench_start :: "queue_choice \<Rightarrow> bench" where
  "bench_start choice = \<lparr>gQueueChoice = choice, gSentEvents = 0, gReceivedEvents = 0, qb_queue = 0, qb_refused = 0, qb_waiting = (\<lambda>j. []),
     qb_missed = (\<lambda>j. 0), qb_dealers = (\<lambda>i. \<lparr>dl_pc = D_new, dl_currentSize = 0, dl_local = 0\<rparr>),
     qb_workers = (\<lambda>j. \<lparr>wk_pc = W_new, wk_recvSeqNo = 0, wk_lastSeqNo = 0, wk_local = 0\<rparr>), qb_main = M_make_worker 0\<rparr>"

subsection \<open>Set-up\<close>

text \<open>
  The arguments of \<open>main\<close>: the exit code, or the choice of the queue and the numbers of producers and consumers. Behind the
  last argument is a null pointer, which \<open>atoi\<close> must not get.
\<close>

definition qb_args :: "cstring list \<Rightarrow> (nat + queue_choice \<times> int \<times> int) option" where
  "qb_args args =
     (if args = [] \<or> length args > 3 then Some (Inl 1)
      else if hd args \<noteq> ''wombat'' \<and> hd args \<noteq> ''zmq'' then Some (Inl 2)
      else if length args < 3 then None
      else do {
        pubs \<leftarrow> atoi (args ! 1);
        subs \<leftarrow> atoi (args ! 2);
        Some (Inr (if hd args = ''wombat'' then QUEUE_WOMBAT else QUEUE_ZMQ, pubs, subs))
      })"

text \<open>The calls of the set-up. Their environment answers with pointers; the other results are not looked at.\<close>

datatype qb_option = QB_SNDHWM int | QB_RCVHWM int | QB_RCVTIMEO int | QB_SUBSCRIBE cstring

datatype qb_call =
    Qb_ctx_new
  | Qb_queue_allocate
  | Qb_queue_create voidp
  | Qb_socket voidp zmq_socktype
  | Qb_setsockopt voidp qb_option
  | Qb_bind voidp cstring
  | Qb_connect voidp cstring

type_synonym qb_env = "qb_call list \<Rightarrow> qb_call \<Rightarrow> voidp"

definition qb_do :: "qb_env \<Rightarrow> qb_call \<Rightarrow> (qb_call list, voidp) state" where
  "qb_do env c = State (\<lambda>h. (env h c, h @ [c]))"

lemma run_qb_do [simp]: "run_state (qb_do env c) h = (env h c, h @ [c])"
  by (simp add: qb_do_def)

record qbn =
  mUri :: cstring
  mWombatQueue :: voidp
  mNumSubs :: int
  mNumPubs :: int

record qbnEndpoint =
  ep_mSocket :: voidp
  ep_mIdx :: nat

text \<open>The loops over the producers, which share a socket, and over the consumers; \<open>i\<close> is the index and \<open>n\<close> the number of rounds left.\<close>

fun pub_endpoints :: "qb_env \<Rightarrow> voidp \<Rightarrow> cstring \<Rightarrow> voidp \<Rightarrow> nat \<Rightarrow> nat \<Rightarrow> (qb_call list, qbnEndpoint list) state" where
  "pub_endpoints env gCtx uri dealerSocket i 0 = State_Monad.return []"
| "pub_endpoints env gCtx uri dealerSocket i (Suc n) = do {
     dealerSocket \<leftarrow>
       (if i = 0 then do {
          dealerSocket \<leftarrow> qb_do env (Qb_socket gCtx ZMQ_PUB);
          qb_do env (Qb_setsockopt dealerSocket (QB_SNDHWM 0));
          qb_do env (Qb_bind dealerSocket uri);
          State_Monad.return dealerSocket
        } else State_Monad.return dealerSocket);
     eps \<leftarrow> pub_endpoints env gCtx uri dealerSocket (i + 1) n;
     State_Monad.return (\<lparr>ep_mSocket = dealerSocket, ep_mIdx = i\<rparr> # eps)
   }"

fun sub_endpoints :: "qb_env \<Rightarrow> voidp \<Rightarrow> cstring \<Rightarrow> nat \<Rightarrow> nat \<Rightarrow> (qb_call list, qbnEndpoint list) state" where
  "sub_endpoints env gCtx uri i 0 = State_Monad.return []"
| "sub_endpoints env gCtx uri i (Suc n) = do {
     workerSocket \<leftarrow> qb_do env (Qb_socket gCtx ZMQ_SUB);
     qb_do env (Qb_setsockopt workerSocket (QB_RCVHWM 0));
     qb_do env (Qb_setsockopt workerSocket (QB_RCVTIMEO 100));
     qb_do env (Qb_setsockopt workerSocket (QB_SUBSCRIBE ''A''));
     qb_do env (Qb_connect workerSocket uri);
     eps \<leftarrow> sub_endpoints env gCtx uri (i + 1) n;
     State_Monad.return (\<lparr>ep_mSocket = workerSocket, ep_mIdx = i\<rparr> # eps)
   }"

text \<open>The context, or the queue, and then the endpoints. Memory for the tables is assumed; \<open>calloc\<close> is not checked either.\<close>

definition qb_setup :: "qb_env \<Rightarrow> queue_choice \<Rightarrow> int \<Rightarrow> int \<Rightarrow> (qb_call list, qbn \<times> qbnEndpoint list \<times> qbnEndpoint list) state" where
  "qb_setup env choice pubs subs = do {
     let newQbn = \<lparr>mUri = [], mWombatQueue = None, mNumSubs = subs, mNumPubs = pubs\<rparr>;
     (gCtx, newQbn) \<leftarrow>
       (case choice of
          QUEUE_ZMQ \<Rightarrow> do {
            gCtx \<leftarrow> qb_do env Qb_ctx_new;
            State_Monad.return (gCtx, newQbn\<lparr>mUri := ''inproc://worker''\<rparr>)
          }
        | QUEUE_WOMBAT \<Rightarrow> do {
            q \<leftarrow> qb_do env Qb_queue_allocate;
            qb_do env (Qb_queue_create q);
            State_Monad.return (None, newQbn\<lparr>mWombatQueue := q\<rparr>)
          });
     pubEps \<leftarrow> pub_endpoints env gCtx (mUri newQbn) None 0 (nat pubs);
     subEps \<leftarrow> sub_endpoints env gCtx (mUri newQbn) 0 (nat subs);
     State_Monad.return (newQbn, pubEps, subEps)
   }"

subsection \<open>Invariants\<close>

text \<open>Threads that have passed the test of their loop, producers that have sent but not counted, and consumers that have taken but not counted.\<close>

definition passed :: "dealer \<Rightarrow> nat" where
  "passed d = (if dl_pc d = D_send \<or> dl_pc d = D_increment then 1 else 0)"

definition uncounted :: "dealer \<Rightarrow> nat" where
  "uncounted d = (if dl_pc d = D_increment then 1 else 0)"

definition taking :: "worker \<Rightarrow> nat" where
  "taking x = (if wk_pc x = W_take \<or> wk_pc x = W_count then 1 else 0)"

definition calling :: "worker \<Rightarrow> nat" where
  "calling x = (if wk_pc x = W_count then 1 else 0)"

definition sum_dealers :: "nat \<Rightarrow> (dealer \<Rightarrow> nat) \<Rightarrow> bench \<Rightarrow> nat" where
  "sum_dealers pubs f w = (\<Sum>k < pubs. f (qb_dealers w k))"

definition sum_workers :: "nat \<Rightarrow> (worker \<Rightarrow> nat) \<Rightarrow> bench \<Rightarrow> nat" where
  "sum_workers subs f w = (\<Sum>k < subs. f (qb_workers w k))"

named_theorems bench_counters
declare passed_def [bench_counters] uncounted_def [bench_counters] taking_def [bench_counters] calling_def [bench_counters]

lemma bench_fields [simp]:
  "gQueueChoice (set_dealer i d w) = gQueueChoice w" "gSentEvents (set_dealer i d w) = gSentEvents w"
  "gReceivedEvents (set_dealer i d w) = gReceivedEvents w" "qb_queue (set_dealer i d w) = qb_queue w"
  "qb_refused (set_dealer i d w) = qb_refused w" "qb_waiting (set_dealer i d w) = qb_waiting w" "qb_missed (set_dealer i d w) = qb_missed w"
  "qb_dealers (set_dealer i d w) = (qb_dealers w)(i := d)" "qb_workers (set_dealer i d w) = qb_workers w" "qb_main (set_dealer i d w) = qb_main w"
  "gQueueChoice (set_worker j x w) = gQueueChoice w" "gSentEvents (set_worker j x w) = gSentEvents w"
  "gReceivedEvents (set_worker j x w) = gReceivedEvents w" "qb_queue (set_worker j x w) = qb_queue w"
  "qb_refused (set_worker j x w) = qb_refused w" "qb_waiting (set_worker j x w) = qb_waiting w" "qb_missed (set_worker j x w) = qb_missed w"
  "qb_dealers (set_worker j x w) = qb_dealers w" "qb_workers (set_worker j x w) = (qb_workers w)(j := x)" "qb_main (set_worker j x w) = qb_main w"
  by (simp_all add: set_dealer_def set_worker_def)

lemma sum_fun_upd:
  fixes f :: "'a \<Rightarrow> nat" and i n :: nat
  assumes "i < n"
  shows "(\<Sum>k<n. f ((g(i := v)) k)) + f (g i) = (\<Sum>k<n. f (g k)) + f v"
proof -
  have "(\<Sum>k<n. f ((g(i := v)) k)) = f v + (\<Sum>k\<in>{..<n} - {i}. f ((g(i := v)) k))"
    using assms by (subst sum.remove[of _ i]) simp_all
  moreover have "(\<Sum>k\<in>{..<n} - {i}. f ((g(i := v)) k)) = (\<Sum>k\<in>{..<n} - {i}. f (g k))" by (intro sum.cong) simp_all
  moreover have "(\<Sum>k<n. f (g k)) = f (g i) + (\<Sum>k\<in>{..<n} - {i}. f (g k))" using assms by (subst sum.remove[of _ i]) simp_all
  ultimately show ?thesis by simp
qed

lemma sum_below:
  fixes f :: "nat \<Rightarrow> nat"
  assumes "i < n" "f i = 0" "\<And>k. f k \<le> 1"
  shows "(\<Sum>k<n. f k) < n"
proof -
  have "(\<Sum>k\<in>{..<n} - {i}. f k) \<le> (\<Sum>k\<in>{..<n} - {i}. 1)" using assms(3) by (intro sum_mono) simp
  moreover have "(\<Sum>k<n. f k) = f i + (\<Sum>k\<in>{..<n} - {i}. f k)" using assms(1) by (subst sum.remove[of _ i]) simp_all
  ultimately show ?thesis using assms by simp
qed

text \<open>One thread changes: the sums over all of them.\<close>

lemma sum_set_dealer:
  "i < n \<Longrightarrow> qb_dealers w' = (qb_dealers w)(i := d) \<Longrightarrow> sum_dealers n f w' + f (qb_dealers w i) = sum_dealers n f w + f d"
  by (simp only: sum_dealers_def sum_fun_upd)

lemma sum_set_worker:
  "i < n \<Longrightarrow> qb_workers w' = (qb_workers w)(i := x) \<Longrightarrow> sum_workers n f w' + f (qb_workers w i) = sum_workers n f w + f x"
  by (simp only: sum_workers_def sum_fun_upd)

lemma sum_same:
  "qb_dealers w' = qb_dealers w \<Longrightarrow> sum_dealers n f w' = sum_dealers n f w" "qb_workers w' = qb_workers w \<Longrightarrow> sum_workers m g w' = sum_workers m g w"
  by (simp_all add: sum_dealers_def sum_workers_def)

lemma sum_passed: "i < n \<Longrightarrow> passed (qb_dealers w i) = 0 \<Longrightarrow> sum_dealers n passed w < n"
  unfolding sum_dealers_def by (rule sum_below) (simp_all add: passed_def)

lemma sum_taking: "j < n \<Longrightarrow> taking (qb_workers w j) = 0 \<Longrightarrow> sum_workers n taking w < n"
  unfolding sum_workers_def by (rule sum_below) (simp_all add: taking_def)

text \<open>What the producers have sent and counted; what the consumers have counted; where the events are; the frames; and how far \<open>main\<close> is.\<close>

definition sent_inv :: "nat \<Rightarrow> bench \<Rightarrow> bool" where
  "sent_inv pubs w \<longleftrightarrow> gSentEvents w + sum_dealers pubs passed w \<le> QB_SIZE + pubs \<and>
     sum_dealers pubs dl_local w = gSentEvents w + sum_dealers pubs uncounted w \<and>
     (\<forall>k < pubs. dl_pc (qb_dealers w k) = D_done \<longrightarrow> QB_SIZE < gSentEvents w)"

definition received_inv :: "nat \<Rightarrow> bench \<Rightarrow> bool" where
  "received_inv subs w \<longleftrightarrow> gReceivedEvents w + sum_workers subs taking w < QB_SIZE + subs \<and>
     (\<forall>k < subs. wk_pc (qb_workers w k) = W_done \<longrightarrow> QB_SIZE \<le> gReceivedEvents w)"

definition events_inv :: "nat \<Rightarrow> nat \<Rightarrow> bench \<Rightarrow> bool" where
  "events_inv pubs subs w \<longleftrightarrow>
     (case gQueueChoice w of
        QUEUE_WOMBAT \<Rightarrow> gReceivedEvents w + sum_workers subs calling w + qb_queue w + qb_refused w = sum_dealers pubs dl_local w
      | QUEUE_ZMQ \<Rightarrow> gReceivedEvents w = sum_workers subs wk_local w \<and>
          (\<forall>j < subs. wk_local (qb_workers w j) + calling (qb_workers w j) + length (qb_waiting w j) + qb_missed w j = sum_dealers pubs dl_local w))"

definition frames_inv :: "nat \<Rightarrow> bench \<Rightarrow> bool" where
  "frames_inv pubs w \<longleftrightarrow> (\<forall>k < pubs. dl_pc (qb_dealers w k) = D_send \<longrightarrow> dl_currentSize (qb_dealers w k) \<le> QB_SIZE) \<and>
     (\<forall>j. \<forall>m \<in> set (qb_waiting w j). \<exists>n \<le> QB_SIZE. m = dealer_frame n)"

fun main_inv :: "nat \<Rightarrow> nat \<Rightarrow> (nat \<Rightarrow> dealer_pc) \<Rightarrow> (nat \<Rightarrow> worker_pc) \<Rightarrow> main_pc \<Rightarrow> bool" where
  "main_inv pubs subs d x (M_make_worker i) \<longleftrightarrow> (\<forall>k. d k = D_new) \<and> (\<forall>j \<ge> i. x j = W_new)"
| "main_inv pubs subs d x (M_make_dealer i) \<longleftrightarrow> (\<forall>k \<ge> i. d k = D_new)"
| "main_inv pubs subs d x (M_join_worker i) \<longleftrightarrow> (\<forall>j < i. j < subs \<longrightarrow> x j = W_done)"
| "main_inv pubs subs d x (M_join_dealer i) \<longleftrightarrow> (\<forall>j < subs. x j = W_done) \<and> (\<forall>k < i. k < pubs \<longrightarrow> d k = D_done)"
| "main_inv pubs subs d x M_done \<longleftrightarrow> (\<forall>j < subs. x j = W_done) \<and> (\<forall>k < pubs. d k = D_done)"

definition bench_inv :: "nat \<Rightarrow> nat \<Rightarrow> bench \<Rightarrow> bool" where
  "bench_inv pubs subs w \<longleftrightarrow> sent_inv pubs w \<and> received_inv subs w \<and> events_inv pubs subs w \<and> frames_inv pubs w \<and>
     main_inv pubs subs (\<lambda>k. dl_pc (qb_dealers w k)) (\<lambda>j. wk_pc (qb_workers w j)) (qb_main w)"

lemma dealer_frame_number [simp]: "load32 (drop 2 (dealer_frame n)) = Some (word_of_nat n)"
  using load32_int_bytes[of "word_of_nat n" "[]"] by (simp add: dealer_frame_def)

text \<open>Each part along a step of a producer.\<close>

lemma dealer_send_fields [simp]:
  "gQueueChoice (dealer_send ok dest n w) = gQueueChoice w" "gSentEvents (dealer_send ok dest n w) = gSentEvents w"
  "gReceivedEvents (dealer_send ok dest n w) = gReceivedEvents w" "qb_dealers (dealer_send ok dest n w) = qb_dealers w"
  "qb_workers (dealer_send ok dest n w) = qb_workers w" "qb_main (dealer_send ok dest n w) = qb_main w"
  by (simp_all add: dealer_send_def split: queue_choice.splits)

lemma dealer_step_sent:
  assumes inv: "sent_inv n w" and i: "i < n"
  shows "sent_inv n (dealer_step ok dest i w)"
proof -
  let ?d = "qb_dealers w i" and ?w = "dealer_step ok dest i w"
  have up: "qb_dealers ?w = (qb_dealers w)(i := qb_dealers ?w i)" by (simp add: dealer_step_def Let_def split: dealer_pc.splits)
  note sums = sum_set_dealer[OF i up, of passed] sum_set_dealer[OF i up, of uncounted] sum_set_dealer[OF i up, of dl_local]
  have "dl_pc ?d = D_read \<Longrightarrow> sum_dealers n passed w < n" using i by (intro sum_passed[of i]) (simp_all add: passed_def)
  then show ?thesis using inv sums
    by (cases "dl_pc ?d") (auto simp: sent_inv_def dealer_step_def Let_def bench_counters split: if_splits)
qed

lemma dealer_step_received:
  assumes "received_inv m w"
  shows "received_inv m (dealer_step ok dest i w)"
  using assms by (auto simp: received_inv_def dealer_step_def Let_def sum_workers_def split: dealer_pc.splits)

lemma dealer_step_events:
  assumes inv: "events_inv n m w" and i: "i < n"
  shows "events_inv n m (dealer_step ok dest i w)"
proof -
  let ?d = "qb_dealers w i" and ?w = "dealer_step ok dest i w"
  have up: "qb_dealers ?w = (qb_dealers w)(i := qb_dealers ?w i)" by (simp add: dealer_step_def Let_def split: dealer_pc.splits)
  have "qb_workers ?w = qb_workers w" by (simp add: dealer_step_def Let_def split: dealer_pc.splits)
  then show ?thesis using inv sum_set_dealer[OF i up, of dl_local] sum_same(2)[of ?w w]
    by (cases "dl_pc ?d"; cases "gQueueChoice w") (auto simp: events_inv_def dealer_step_def dealer_send_def Let_def)
qed

lemma dealer_step_frames:
  assumes "frames_inv n w" "i < n"
  shows "frames_inv n (dealer_step ok dest i w)"
  using assms by (cases "dl_pc (qb_dealers w i)"; cases "gQueueChoice w") (auto simp: frames_inv_def dealer_step_def dealer_send_def Let_def)

text \<open>The steps of a consumer are defined, since every frame that waits is one of a producer.\<close>

lemma worker_step_defined:
  assumes "frames_inv n w"
  shows "\<exists>w'. worker_step ok j w = Some w'"
proof (cases "qb_waiting w j")
  case Nil
  then show ?thesis by (simp add: worker_step_def worker_take_def Let_def split: worker_pc.splits queue_choice.splits bool.splits)
next
  case (Cons m ms)
  then have "m \<in> set (qb_waiting w j)" by simp
  then obtain k where "m = dealer_frame k" using assms unfolding frames_inv_def by blast
  then show ?thesis using Cons by (simp add: worker_step_def worker_take_def Let_def split: worker_pc.splits queue_choice.splits bool.splits)
qed

text \<open>What a step of a consumer is, by the place in its loop.\<close>

inductive take_kind :: "nat \<Rightarrow> bench \<Rightarrow> bench \<Rightarrow> bool" for j w where
  nothing: "wk_pc x = W_read \<Longrightarrow> wk_local x = wk_local (qb_workers w j) \<Longrightarrow> take_kind j w (set_worker j x w)"
| a_frame: "wk_pc x = W_count \<Longrightarrow> wk_local x = wk_local (qb_workers w j) \<Longrightarrow> gQueueChoice w = QUEUE_ZMQ \<Longrightarrow> qb_waiting w j = m # ms \<Longrightarrow>
    take_kind j w (set_worker j x (w\<lparr>qb_waiting := (qb_waiting w)(j := ms)\<rparr>))"
| an_event: "wk_pc x = W_count \<Longrightarrow> wk_local x = wk_local (qb_workers w j) \<Longrightarrow> gQueueChoice w = QUEUE_WOMBAT \<Longrightarrow> qb_queue w \<noteq> 0 \<Longrightarrow>
    take_kind j w (set_worker j x (w\<lparr>qb_queue := qb_queue w - 1\<rparr>))"

inductive_cases take_kindE: "take_kind j w w'"

lemma worker_take_kind: "worker_take ok j w = Some w' \<Longrightarrow> take_kind j w w'"
  by (auto simp: worker_take_def Let_def bind_eq_Some_conv intro!: take_kind.nothing take_kind.a_frame take_kind.an_event[simplified]
      split: queue_choice.splits bool.splits list.splits if_splits)

lemma worker_step_cases:
  assumes "worker_step ok j w = Some w'"
  obtains (stays) "w' = w"
  | (read) x where "wk_pc (qb_workers w j) = W_read" "w' = set_worker j x w" "wk_local x = wk_local (qb_workers w j)"
      "wk_pc x = (if gReceivedEvents w < QB_SIZE then W_take else W_done)"
  | (gets) "wk_pc (qb_workers w j) = W_take" "take_kind j w w'"
  | (counts) x where "wk_pc (qb_workers w j) = W_count" "w' = set_worker j x (w\<lparr>gReceivedEvents := gReceivedEvents w + 1\<rparr>)" "wk_pc x = W_read"
      "wk_local x = wk_local (qb_workers w j) + (if gQueueChoice w = QUEUE_ZMQ then 1 else 0)"
proof (cases "wk_pc (qb_workers w j)")
  case W_read
  then show ?thesis using assms by (intro read[OF W_read, of "(qb_workers w j)\<lparr>wk_pc := if gReceivedEvents w < QB_SIZE then W_take else W_done\<rparr>"])
    (simp_all add: worker_step_def Let_def)
next
  case W_take
  then show ?thesis using assms by (intro gets worker_take_kind[of ok]) (simp_all add: worker_step_def Let_def)
next
  case W_count
  let ?x = "case gQueueChoice w of QUEUE_ZMQ \<Rightarrow> (qb_workers w j)\<lparr>wk_pc := W_read, wk_lastSeqNo := wk_recvSeqNo (qb_workers w j),
      wk_local := wk_local (qb_workers w j) + 1\<rparr> | QUEUE_WOMBAT \<Rightarrow> (qb_workers w j)\<lparr>wk_pc := W_read\<rparr>"
  show ?thesis using assms W_count by (intro counts[OF W_count, of ?x]) (simp_all add: worker_step_def Let_def split: queue_choice.splits)
next
  case W_new
  then have "w' = w" using assms by (simp add: worker_step_def Let_def)
  then show ?thesis by (rule stays)
next
  case W_done
  then have "w' = w" using assms by (simp add: worker_step_def Let_def)
  then show ?thesis by (rule stays)
qed

lemma worker_step_fields:
  assumes "worker_step ok j w = Some w'"
  shows "qb_dealers w' = qb_dealers w \<and> gSentEvents w' = gSentEvents w \<and> gQueueChoice w' = gQueueChoice w \<and> qb_main w' = qb_main w \<and>
     qb_missed w' = qb_missed w \<and> qb_refused w' = qb_refused w \<and> qb_workers w' = (qb_workers w)(j := qb_workers w' j) \<and>
     (\<forall>i. set (qb_waiting w' i) \<subseteq> set (qb_waiting w i))"
  using assms by (cases rule: worker_step_cases) (auto elim: take_kindE split: if_splits)

lemma worker_step_received:
  assumes inv: "received_inv m w" and j: "j < m" and step: "worker_step ok j w = Some w'"
  shows "received_inv m w'"
proof -
  have up: "qb_workers w' = (qb_workers w)(j := qb_workers w' j)" using worker_step_fields[OF step] by blast
  note sums = sum_set_worker[OF j up, of taking]
  have "taking (qb_workers w j) = 0 \<Longrightarrow> sum_workers m taking w < m" using j by (rule sum_taking)
  with step inv sums show ?thesis
    by (cases rule: worker_step_cases) (auto simp: received_inv_def bench_counters elim!: take_kindE split: if_splits)
qed

lemma worker_step_events:
  assumes inv: "events_inv n m w" and j: "j < m" and step: "worker_step ok j w = Some w'"
  shows "events_inv n m w'"
proof -
  have f: "qb_dealers w' = qb_dealers w" "qb_workers w' = (qb_workers w)(j := qb_workers w' j)" using worker_step_fields[OF step] by blast+
  note sums = sum_set_worker[OF j f(2), of calling] sum_set_worker[OF j f(2), of wk_local] sum_same(1)[OF f(1), of n dl_local]
  from step inv sums show ?thesis
    by (cases rule: worker_step_cases) (auto simp: events_inv_def bench_counters elim!: take_kindE split: if_splits queue_choice.splits)
qed

lemma worker_step_frames: "frames_inv n w \<Longrightarrow> worker_step ok j w = Some w' \<Longrightarrow> frames_inv n w'"
  using worker_step_fields[of ok j w w'] unfolding frames_inv_def by (metis subsetD)

text \<open>Threads that are not made, or have ended, stay so.\<close>

lemma main_inv_mono:
  assumes "main_inv n m d x p" "\<And>k. d k \<in> {D_new, D_done} \<Longrightarrow> d' k = d k" "\<And>j. x j \<in> {W_new, W_done} \<Longrightarrow> x' j = x j"
  shows "main_inv n m d' x' p"
  using assms by (cases p) auto

lemma dealer_step_main:
  "main_inv n m (\<lambda>k. dl_pc (qb_dealers w k)) (\<lambda>j. wk_pc (qb_workers w j)) (qb_main w) \<Longrightarrow>
   main_inv n m (\<lambda>k. dl_pc (qb_dealers (dealer_step ok dest i w) k)) (\<lambda>j. wk_pc (qb_workers (dealer_step ok dest i w) j)) (qb_main (dealer_step ok dest i w))"
  by (cases "dl_pc (qb_dealers w i)") (auto simp: dealer_step_def Let_def elim!: main_inv_mono)

lemma worker_step_main:
  assumes "main_inv n m (\<lambda>k. dl_pc (qb_dealers w k)) (\<lambda>j. wk_pc (qb_workers w j)) (qb_main w)" "worker_step ok j w = Some w'"
  shows "main_inv n m (\<lambda>k. dl_pc (qb_dealers w' k)) (\<lambda>j. wk_pc (qb_workers w' j)) (qb_main w')"
proof -
  have "wk_pc (qb_workers w' i) = wk_pc (qb_workers w i)" if "wk_pc (qb_workers w i) \<in> {W_new, W_done}" for i
    using assms(2) that by (cases rule: worker_step_cases) (auto elim!: take_kindE)
  moreover have "qb_main w' = qb_main w" "qb_dealers w' = qb_dealers w" using worker_step_fields[OF assms(2)] by blast+
  ultimately show ?thesis using main_inv_mono[OF assms(1)] by simp
qed

text \<open>A step of \<open>main\<close> changes at most one thread, which was not made before.\<close>

lemma bench_inv_main:
  assumes "bench_inv n m w" "main_inv n m (\<lambda>k. dl_pc (qb_dealers w k)) (\<lambda>j. wk_pc (qb_workers w j)) p"
  shows "bench_inv n m (w\<lparr>qb_main := p\<rparr>)"
  using assms by (simp add: bench_inv_def sent_inv_def received_inv_def events_inv_def frames_inv_def sum_dealers_def sum_workers_def
      split: queue_choice.splits)

lemma make_worker_inv:
  assumes inv: "bench_inv n m w" and p: "qb_main w = M_make_worker i" and i: "i < m"
  shows "bench_inv n m ((set_worker i ((qb_workers w i)\<lparr>wk_pc := if ok then W_read else W_new\<rparr>) w)\<lparr>qb_main := M_make_worker (i + 1)\<rparr>)"
    (is "bench_inv n m ?w")
proof -
  let ?x = "(qb_workers w i)\<lparr>wk_pc := if ok then W_read else W_new\<rparr>"
  have new: "wk_pc (qb_workers w i) = W_new" using inv p by (simp add: bench_inv_def)
  have up: "qb_workers ?w = (qb_workers w)(i := ?x)" "qb_dealers ?w = qb_dealers w" by simp_all
  note sums = sum_set_worker[OF i up(1), of taking] sum_set_worker[OF i up(1), of calling] sum_set_worker[OF i up(1), of wk_local]
    sum_same(1)[OF up(2)]
  show ?thesis using inv new sums p
    by (auto simp: bench_inv_def sent_inv_def received_inv_def events_inv_def frames_inv_def bench_counters split: queue_choice.splits)
qed

lemma make_dealer_inv:
  assumes inv: "bench_inv n m w" and p: "qb_main w = M_make_dealer i" and i: "i < n"
  shows "bench_inv n m ((set_dealer i ((qb_dealers w i)\<lparr>dl_pc := if ok then D_read else D_new\<rparr>) w)\<lparr>qb_main := M_make_dealer (i + 1)\<rparr>)"
    (is "bench_inv n m ?w")
proof -
  let ?d = "(qb_dealers w i)\<lparr>dl_pc := if ok then D_read else D_new\<rparr>"
  have new: "dl_pc (qb_dealers w i) = D_new" using inv p by (simp add: bench_inv_def)
  have up: "qb_dealers ?w = (qb_dealers w)(i := ?d)" "qb_workers ?w = qb_workers w" by simp_all
  note sums = sum_set_dealer[OF i up(1), of passed] sum_set_dealer[OF i up(1), of uncounted] sum_set_dealer[OF i up(1), of dl_local]
    sum_same(2)[OF up(2)]
  show ?thesis using inv new sums p
    by (auto simp: bench_inv_def sent_inv_def received_inv_def events_inv_def frames_inv_def bench_counters split: queue_choice.splits)
qed

lemma main_step_inv:
  assumes inv: "bench_inv n m w" and step: "main_step n m ok w = Some w'"
  shows "bench_inv n m w'"
proof (cases "qb_main w")
  case (M_make_worker i)
  then show ?thesis using inv step make_worker_inv[OF inv M_make_worker, of ok] bench_inv_main[OF inv, of "M_make_dealer 0"]
    by (cases "i < m") (simp_all add: main_step_def bench_inv_def)
next
  case (M_make_dealer i)
  then show ?thesis using step make_dealer_inv[OF inv M_make_dealer, of ok] bench_inv_main[OF inv, of "M_join_worker 0"]
    by (cases "i < n") (simp_all add: main_step_def)
next
  case (M_join_worker i)
  then have "\<forall>j < i. j < m \<longrightarrow> wk_pc (qb_workers w j) = W_done" using inv by (simp add: bench_inv_def)
  then show ?thesis using step M_join_worker inv bench_inv_main[OF inv, of "M_join_worker (i + 1)"] bench_inv_main[OF inv, of "M_join_dealer 0"]
    by (auto simp: main_step_def less_Suc_eq split: if_splits)
next
  case (M_join_dealer i)
  then have "\<forall>j < m. wk_pc (qb_workers w j) = W_done" "\<forall>k < i. k < n \<longrightarrow> dl_pc (qb_dealers w k) = D_done" using inv by (simp_all add: bench_inv_def)
  then show ?thesis using step M_join_dealer inv bench_inv_main[OF inv, of "M_join_dealer (i + 1)"] bench_inv_main[OF inv, of M_done]
    by (auto simp: main_step_def less_Suc_eq split: if_splits)
next
  case M_done
  then show ?thesis using step inv by (simp add: main_step_def)
qed

lemma bench_step_inv:
  assumes "bench_step n m w w'" and inv: "bench_inv n m w"
  shows "bench_inv n m w'"
  using assms(1)
proof (cases rule: bench_step.cases)
  case (dealer i ok dest)
  then show ?thesis using inv
    by (auto simp: bench_inv_def intro: dealer_step_sent dealer_step_received dealer_step_events dealer_step_frames dealer_step_main)
next
  case (worker j ok)
  have "sent_inv n w'" using inv worker_step_fields[OF worker(2)] sum_same(1)[of w' w] by (auto simp: bench_inv_def sent_inv_def)
  then show ?thesis using inv worker
    by (auto simp: bench_inv_def intro: worker_step_received worker_step_events worker_step_frames worker_step_main)
next
  case (main ok)
  then show ?thesis by (rule main_step_inv[OF inv])
qed

lemma bench_start_inv: "bench_inv n m (bench_start choice)"
  by (simp add: bench_inv_def bench_start_def sent_inv_def received_inv_def events_inv_def frames_inv_def sum_dealers_def sum_workers_def
      bench_counters QB_SIZE_def split: queue_choice.splits)

lemma bench_reachable: "(bench_step n m)\<^sup>*\<^sup>* (bench_start choice) w \<Longrightarrow> bench_inv n m w"
  by (induction rule: rtranclp_induct) (auto intro: bench_start_inv bench_step_inv)

subsection \<open>Counts\<close>

text \<open>
  C39. The benchmark, for both kinds of queues and every interleaving of its threads. A consumer never reads behind the end of a frame, and the number it
  reads is one that a producer had seen in the counter. At most \<open>QB_SIZE + pubs\<close> events are sent, and fewer than \<open>QB_SIZE + subs\<close> are counted
  as received. When \<open>main\<close> has joined all threads, all of them have ended: the producers have sent more than \<open>QB_SIZE\<close> events and the consumers have counted \<open>QB_SIZE\<close> of
  them. On the wombat queue at most \<open>pubs\<close> events were then refused: one more, and the benchmark never ends. On sockets each consumer is
  given every frame of all producers, as far as it does not miss it, so that several consumers end after a part of the frames.
\<close>

theorem bench_counts:
  assumes "(bench_step pubs subs)\<^sup>*\<^sup>* (bench_start choice) w"
  shows "(\<forall>ok j. \<exists>w'. worker_step ok j w = Some w') \<and>
     (\<forall>j. \<forall>m \<in> set (qb_waiting w j). \<exists>n \<le> QB_SIZE. load32 (drop 2 m) = Some (word_of_nat n)) \<and>
     gSentEvents w \<le> QB_SIZE + pubs \<and> gReceivedEvents w < QB_SIZE + subs \<and>
     (qb_main w = M_done \<longrightarrow>
       (0 < pubs \<longrightarrow> QB_SIZE < gSentEvents w) \<and> (0 < subs \<longrightarrow> QB_SIZE \<le> gReceivedEvents w) \<and>
       (case gQueueChoice w of
          QUEUE_WOMBAT \<Rightarrow> gReceivedEvents w + qb_queue w + qb_refused w = gSentEvents w \<and> (0 < subs \<longrightarrow> qb_refused w \<le> pubs)
        | QUEUE_ZMQ \<Rightarrow> gReceivedEvents w = sum_workers subs wk_local w \<and>
            (\<forall>j < subs. wk_local (qb_workers w j) + length (qb_waiting w j) + qb_missed w j = gSentEvents w)))"
proof -
  have inv: "sent_inv pubs w" "received_inv subs w" "events_inv pubs subs w" "frames_inv pubs w"
    and m: "main_inv pubs subs (\<lambda>k. dl_pc (qb_dealers w k)) (\<lambda>j. wk_pc (qb_workers w j)) (qb_main w)"
    using bench_reachable[OF assms] by (simp_all add: bench_inv_def)
  have frames: "\<exists>n \<le> QB_SIZE. load32 (drop 2 f) = Some (word_of_nat n)" if f: "f \<in> set (qb_waiting w j)" for j f
  proof -
    obtain n where "n \<le> QB_SIZE" "f = dealer_frame n" using inv(4) f unfolding frames_inv_def by blast
    then show ?thesis by (intro exI[of _ n]) simp
  qed
  have threads: "\<forall>j < subs. wk_pc (qb_workers w j) = W_done" "\<forall>k < pubs. dl_pc (qb_dealers w k) = D_done" if "qb_main w = M_done"
    using m that by simp_all
  then have sums: "sum_dealers pubs uncounted w = 0" "sum_workers subs calling w = 0" "\<forall>j < subs. calling (qb_workers w j) = 0" if "qb_main w = M_done"
    using that by (simp_all add: sum_dealers_def sum_workers_def bench_counters)
  have counts: "gSentEvents w \<le> QB_SIZE + pubs" "gReceivedEvents w < QB_SIZE + subs" using inv(1,2) by (simp_all add: sent_inv_def received_inv_def)
  have ends: "0 < pubs \<longrightarrow> QB_SIZE < gSentEvents w" "0 < subs \<longrightarrow> QB_SIZE \<le> gReceivedEvents w" if "qb_main w = M_done"
    using inv(1,2) threads[OF that] by (auto simp: sent_inv_def received_inv_def)
  have "case gQueueChoice w of
          QUEUE_WOMBAT \<Rightarrow> gReceivedEvents w + qb_queue w + qb_refused w = gSentEvents w \<and> (0 < subs \<longrightarrow> qb_refused w \<le> pubs)
        | QUEUE_ZMQ \<Rightarrow> gReceivedEvents w = sum_workers subs wk_local w \<and>
            (\<forall>j < subs. wk_local (qb_workers w j) + length (qb_waiting w j) + qb_missed w j = gSentEvents w)" if "qb_main w = M_done"
    using inv(1,3) sums[OF that] ends[OF that] counts by (auto simp: sent_inv_def events_inv_def split: queue_choice.splits)
  then show ?thesis using frames ends counts worker_step_defined[OF inv(4)] by blast
qed

text \<open>With one producer and one consumer: both are made, and the first frame is sent, received and counted.\<close>

definition bench_demo :: "bench option" where
  "bench_demo = do {
     w \<leftarrow> main_step 1 1 True (bench_start QUEUE_ZMQ);
     w \<leftarrow> main_step 1 1 True w;
     w \<leftarrow> main_step 1 1 True w;
     w \<leftarrow> worker_step True 0 (dealer_step True (\<lambda>j. True) 0 (dealer_step True (\<lambda>j. True) 0 w));
     w \<leftarrow> worker_step True 0 w;
     worker_step True 0 w
   }"

lemma bench_demo_reachable:
  assumes "bench_demo = Some w"
  shows "(bench_step 1 1)\<^sup>*\<^sup>* (bench_start QUEUE_ZMQ) w"
proof -
  let ?deal = "dealer_step True (\<lambda>j. True) 0"
  obtain w1 w2 w3 w4 w5 where w: "main_step 1 1 True (bench_start QUEUE_ZMQ) = Some w1" "main_step 1 1 True w1 = Some w2" "main_step 1 1 True w2 = Some w3"
      "worker_step True 0 (?deal (?deal w3)) = Some w4" "worker_step True 0 w4 = Some w5" "worker_step True 0 w5 = Some w"
    using assms unfolding bench_demo_def bind_eq_Some_conv by blast
  have z: "(0 :: nat) < 1" by simp
  have "(bench_step 1 1)\<^sup>*\<^sup>* (bench_start QUEUE_ZMQ) w3"
    using w(1-3)[THEN bench_step.main] by (meson converse_rtranclp_into_rtranclp rtranclp.rtrancl_refl)
  also have "(bench_step 1 1)\<^sup>*\<^sup>* w3 (?deal w3)" by (rule r_into_rtranclp, rule bench_step.dealer[OF z])
  also have "(bench_step 1 1)\<^sup>*\<^sup>* (?deal w3) (?deal (?deal w3))" by (rule r_into_rtranclp, rule bench_step.dealer[OF z])
  also have "(bench_step 1 1)\<^sup>*\<^sup>* (?deal (?deal w3)) w"
    using w(4-6)[THEN bench_step.worker[OF z]] by (meson converse_rtranclp_into_rtranclp rtranclp.rtrancl_refl)
  finally show ?thesis .
qed

theorem bench_counts_witness:
  "\<exists>w. bench_demo = Some w \<and> gReceivedEvents w = 1 \<and> wk_lastSeqNo (qb_workers w 0) = 0 \<and> gSentEvents w \<le> QB_SIZE + 1 \<and>
     (\<forall>ok j. \<exists>w'. worker_step ok j w = Some w')"
proof -
  have "load32 (drop 2 (dealer_frame 0)) = Some 0" using dealer_frame_number[of 0] by simp
  then have "\<exists>w. bench_demo = Some w \<and> gReceivedEvents w = 1 \<and> wk_lastSeqNo (qb_workers w 0) = 0"
    by (simp add: bench_demo_def main_step_def worker_step_def worker_take_def dealer_step_def dealer_send_def bench_start_def Let_def QB_SIZE_def)
  then show ?thesis using bench_counts[OF bench_demo_reachable] by blast
qed

text \<open>With only the name of the queue, the program reads numbers from behind its arguments.\<close>

lemma qb_args_missing: "qb_args [''wombat''] = None" "qb_args [''zmq'', n] = None"
  by (simp_all add: qb_args_def)

text \<open>
  The endpoints: as many as there are producers, with one socket, and as many as there are consumers. For a wombat queue the sockets are made without a context.
\<close>

lemma pub_endpoints_shared:
  "\<exists>s. fst (run_state (pub_endpoints env ctx uri None 0 n) h) = map (\<lambda>i. \<lparr>ep_mSocket = s, ep_mIdx = i\<rparr>) [0..<n]"
proof -
  have later: "fst (run_state (pub_endpoints env ctx uri s (Suc i) n) h) = map (\<lambda>i. \<lparr>ep_mSocket = s, ep_mIdx = i\<rparr>) [Suc i..<Suc i + n]" for s i n h
    by (induction n arbitrary: i h) (simp_all add: upt_conv_Cons split_beta del: upt_Suc)
  show ?thesis using later[of _ 0] by (cases n) (simp_all add: upt_conv_Cons split_beta del: upt_Suc)
qed

lemma sub_endpoints_length: "map ep_mIdx (fst (run_state (sub_endpoints env ctx uri i n) h)) = [i..<i + n]"
  by (induction n arbitrary: i h) (simp_all add: upt_conv_Cons split_beta del: upt_Suc)

lemma wombat_sockets: "Qb_socket ctx t \<in> set (snd (run_state (qb_setup env QUEUE_WOMBAT pubs subs) [])) \<Longrightarrow> ctx = None"
proof -
  have p: "Qb_socket ctx t \<in> set (snd (run_state (pub_endpoints env None uri s i n) h)) \<Longrightarrow> Qb_socket ctx t \<in> set h \<or> ctx = None" for uri s i n h
  proof (induction n arbitrary: s i h)
    case (Suc n)
    then show ?case by (cases "i = 0") (auto simp: split_beta dest!: Suc.IH)
  qed simp
  have s: "Qb_socket ctx t \<in> set (snd (run_state (sub_endpoints env None uri i n) h)) \<Longrightarrow> Qb_socket ctx t \<in> set h \<or> ctx = None" for uri i n h
  proof (induction n arbitrary: i h)
    case (Suc n)
    then show ?case by (auto simp: split_beta dest!: Suc.IH)
  qed simp
  assume "Qb_socket ctx t \<in> set (snd (run_state (qb_setup env QUEUE_WOMBAT pubs subs) []))"
  then show ?thesis by (auto simp: qb_setup_def Let_def split_beta dest!: s p)
qed

end
