(* ===== verification/Load_Generators.thy ===== *)
theory Load_Generators
  imports Byte_Order
begin

text \<open>
  The pair of programs that measure how many messages a socket can carry: \<open>src/src/hammer.c\<close> publishes numbered frames without end, and
  \<open>src/src/nail.c\<close> receives them and reports numbers that are missing.

  Both loop for ever: a loop recurses on the list of its rounds, each with what the clock and ZeroMQ give in it. The pointers into the buffers are
  not aligned; they are read and written as on the platforms of the makefiles, byte by byte and least significant first.
\<close>

subsection \<open>Publisher\<close>

text \<open>\<open>gettimeofday\<close>: seconds and microseconds. A frame is the whole buffer, whose first content is arbitrary.\<close>

type_synonym timeval = "64 word \<times> 64 word"

definition sizeof_buffer :: nat where "sizeof_buffer = 223"

text \<open>One round before the frame is sent: the next number and the time.\<close>

definition hammer_round :: "timeval \<Rightarrow> bytes \<Rightarrow> bytes option" where
  "hammer_round tv buffer = do {
     seq \<leftarrow> load64 (drop 2 buffer);
     buffer \<leftarrow> memcpy_at buffer 2 (long_bytes (seq + 1));
     buffer \<leftarrow> memcpy_at buffer 10 (int_bytes (ucast (fst tv)));
     memcpy_at buffer 14 (int_bytes (ucast (snd tv)))
   }"

fun hammer_loop :: "zenv \<Rightarrow> nat \<Rightarrow> bytes \<Rightarrow> timeval list \<Rightarrow> bytes option zop" where
  "hammer_loop env zmqSocketPublisher buffer [] = State_Monad.return (Some buffer)"
| "hammer_loop env zmqSocketPublisher buffer (tv # tvs) =
     (case hammer_round tv buffer of
        None \<Rightarrow> State_Monad.return None
      | Some buffer \<Rightarrow> do {
          zdo env (Zmq_send zmqSocketPublisher buffer);
          hammer_loop env zmqSocketPublisher buffer tvs
        })"

text \<open>Nothing is checked; a socket that could not be made is a handle that ZeroMQ refuses.\<close>

definition hammer_main :: "zenv \<Rightarrow> bytes \<Rightarrow> timeval list \<Rightarrow> bytes option zop" where
  "hammer_main env buffer tvs =
     (case do { buffer \<leftarrow> memcpy_at buffer 0 [CHR ''A'', NUL]; memcpy_at buffer 2 (long_bytes 0) } of
        None \<Rightarrow> State_Monad.return None
      | Some buffer \<Rightarrow> do {
          zdo env Zmq_ctx_new;
          zmqSocketPublisher \<leftarrow> zdo env (Zmq_socket ZMQ_PUB);
          zdo env (Zmq_setsockopt (nat zmqSocketPublisher) (ZMQ_SNDHWM 0));
          zdo env (Zmq_bind (nat zmqSocketPublisher) ''tcp://*:5556'');
          hammer_loop env (nat zmqSocketPublisher) buffer tvs
        })"

subsection \<open>Subscriber\<close>

text \<open>What \<open>zmq_recv\<close> gives: an error number, or a message; and the lines that the program prints.\<close>

datatype zmq_received = Recv_error int | Recv_message bytes

datatype nail_line = ERROR_FOUND int | Seconds "32 word" "64 word" | Gap "64 word" "64 word"

record nail =
  na_buffer :: bytes
  s_last :: "32 word"
  msg_count :: "64 word"
  expectedSeq :: "64 word"
  na_copies :: nat
  na_lines :: "nail_line list"

definition nail_print :: "nail_line \<Rightarrow> nail \<Rightarrow> nail" where
  "nail_print l n = n\<lparr>na_lines := na_lines n @ [l]\<rparr>"

text \<open>
  The copy of a message: \<open>zmq_recv\<close> stores what fits and returns the full size, or -1. The copy is of as many bytes as it returned, which for -1
  is the largest \<open>size_t\<close>; \<open>mem\<close> says whether \<open>calloc\<close> has memory. No copy is released: \<open>na_copies\<close> counts them.
\<close>

definition nail_copy :: "zmq_received \<Rightarrow> bool \<Rightarrow> nail \<Rightarrow> nail option" where
  "nail_copy r mem n =
     (let (size, n) = (case r of
          Recv_error e \<Rightarrow> (2 ^ 64 - 1, nail_print (ERROR_FOUND e) n)
        | Recv_message m \<Rightarrow> (length m, n\<lparr>na_buffer := take sizeof_buffer m @ drop (length m) (na_buffer n)\<rparr>)) in
      if sizeof_buffer < size \<or> 0 < size \<and> \<not> mem then None else Some (n\<lparr>na_copies := na_copies n + 1\<rparr>))"

text \<open>One round; \<open>tv_sec\<close> is the clock.\<close>

definition nail_round :: "zmq_received \<times> bool \<times> 64 word \<Rightarrow> nail \<Rightarrow> nail option" where
  "nail_round x n =
     (case x of (r, mem, tv_sec) \<Rightarrow> do {
        n \<leftarrow> nail_copy r mem n;
        let n = n\<lparr>msg_count := msg_count n + 1\<rparr>;
        seq \<leftarrow> load64 (drop 2 (na_buffer n));
        s \<leftarrow> load32 (drop 10 (na_buffer n));
        let n = (if ucast tv_sec \<noteq> s_last n
                 then (nail_print (Seconds s (msg_count n)) n)\<lparr>s_last := ucast tv_sec, msg_count := 0\<rparr> else n);
        let n = (if seq \<noteq> expectedSeq n then (nail_print (Gap (expectedSeq n) seq) n)\<lparr>expectedSeq := seq\<rparr> else n);
        Some (n\<lparr>expectedSeq := expectedSeq n + 1\<rparr>)
      })"

fun nail_loop :: "(zmq_received \<times> bool \<times> 64 word) list \<Rightarrow> nail \<Rightarrow> nail option" where
  "nail_loop [] n = Some n"
| "nail_loop (x # xs) n = do { n \<leftarrow> nail_round x n; nail_loop xs n }"

text \<open>The set-up, and the variables before the loop.\<close>

definition nail_setup :: "zenv \<Rightarrow> int zop" where
  "nail_setup env = do {
     zdo env Zmq_ctx_new;
     zmqSocketSubscriber \<leftarrow> zdo env (Zmq_socket ZMQ_SUB);
     zdo env (Zmq_connect (nat zmqSocketSubscriber) ''tcp://localhost:5556'');
     zdo env (Zmq_setsockopt (nat zmqSocketSubscriber) (ZMQ_RCVHWM 0));
     zdo env (Zmq_setsockopt (nat zmqSocketSubscriber) (ZMQ_SUBSCRIBE ''A''))
   }"

definition nail_start :: "bytes \<Rightarrow> nail" where
  "nail_start buffer = \<lparr>na_buffer = buffer, s_last = 0, msg_count = 0, expectedSeq = 1, na_copies = 0, na_lines = []\<rparr>"

subsection \<open>Frames\<close>

definition hammer_frame :: "bytes \<Rightarrow> nat \<Rightarrow> timeval \<Rightarrow> bytes" where
  "hammer_frame pad k tv = CHR ''A'' # NUL # long_bytes (word_of_nat k) @ int_bytes (ucast (fst tv)) @ int_bytes (ucast (snd tv)) @ pad"

text \<open>The frames of a history of calls.\<close>

fun sends :: "zworld \<Rightarrow> bytes list" where
  "sends [] = []"
| "sends (c # cs) = (case c of Zmq_send s b \<Rightarrow> b # sends cs | _ \<Rightarrow> sends cs)"

lemma sends_append [simp]: "sends (v @ w) = sends v @ sends w"
  by (induction v) (simp_all split: zcall.splits)

lemma hammer_round_frame:
  assumes "length b1 = 4" "length b2 = 4"
  shows "hammer_round tv (CHR ''A'' # NUL # long_bytes (word_of_nat k) @ b1 @ b2 @ pad) = Some (hammer_frame pad (Suc k) tv)"
proof -
  let ?p = "[CHR ''A'', NUL]" and ?n = "long_bytes (word_of_nat (Suc k))" and ?s = "int_bytes (ucast (fst tv))"
  have 1: "memcpy_at (?p @ long_bytes (word_of_nat k) @ b1 @ b2 @ pad) 2 ?n = Some (?p @ ?n @ b1 @ b2 @ pad)"
    by (rule memcpy_at_next) simp_all
  have 2: "memcpy_at ((?p @ ?n) @ b1 @ b2 @ pad) 10 ?s = Some ((?p @ ?n) @ ?s @ b2 @ pad)"
    using assms by (intro memcpy_at_next) simp_all
  have 3: "memcpy_at ((?p @ ?n @ ?s) @ b2 @ pad) 14 (int_bytes (ucast (snd tv))) = Some ((?p @ ?n @ ?s) @ int_bytes (ucast (snd tv)) @ pad)"
    using assms by (intro memcpy_at_next) simp_all
  from 1 2 3 show ?thesis by (simp only: append_assoc) (simp add: hammer_round_def hammer_frame_def add.commute[of _ 1])
qed

lemma hammer_loop_sends:
  assumes "length b1 = 4" "length b2 = 4"
  shows "sends (snd (run_state (hammer_loop env s (CHR ''A'' # NUL # long_bytes (word_of_nat k) @ b1 @ b2 @ pad) tvs) w)) =
     sends w @ map (\<lambda>i. hammer_frame pad (Suc (k + i)) (tvs ! i)) [0..<length tvs]"
  using assms
proof (induction tvs arbitrary: k b1 b2 w)
  case (Cons tv tvs)
  have "map (\<lambda>i. hammer_frame pad (Suc (k + i)) ((tv # tvs) ! i)) [0..<length (tv # tvs)] =
      hammer_frame pad (Suc k) tv # map (\<lambda>i. hammer_frame pad (Suc (Suc k + i)) (tvs ! i)) [0..<length tvs]"
    by (simp only: list.size upt_conv_Cons[of 0] map_Suc_upt[symmetric]) (simp add: comp_def upt_conv_Cons map_Suc_upt[symmetric] del: upt_Suc)
  moreover have "sends (snd (run_state (hammer_loop env s (hammer_frame pad (Suc k) tv) tvs) w)) =
      sends w @ map (\<lambda>i. hammer_frame pad (Suc (Suc k + i)) (tvs ! i)) [0..<length tvs]" for w
    unfolding hammer_frame_def[of pad "Suc k"] by (rule Cons.IH) simp_all
  ultimately show ?case using Cons.prems by (simp add: hammer_round_frame del: upt_Suc)
qed simp

lemma hammer_sends:
  assumes "length buffer = sizeof_buffer"
  shows "sends (snd (run_state (hammer_main env buffer tvs) w)) =
     sends w @ map (\<lambda>i. hammer_frame (drop 18 buffer) (Suc i) (tvs ! i)) [0..<length tvs]"
proof -
  define p q b1 b2 where "p = take 2 buffer" "q = take 8 (drop 2 buffer)" "b1 = take 4 (drop 10 buffer)" "b2 = take 4 (drop 14 buffer)"
  note d = this
  have l: "length p = 2" "length q = 8" "length b1 = 4" "length b2 = 4" using assms by (simp_all add: d sizeof_buffer_def)
  have "buffer = p @ drop 2 buffer" "drop 2 buffer = q @ drop 10 buffer" "drop 10 buffer = b1 @ drop 14 buffer"
    "drop 14 buffer = b2 @ drop 18 buffer"
    using append_take_drop_id[of 2 buffer] append_take_drop_id[of 8 "drop 2 buffer"] append_take_drop_id[of 4 "drop 10 buffer"]
      append_take_drop_id[of 4 "drop 14 buffer"] by (simp_all add: d)
  then have b: "buffer = p @ q @ b1 @ b2 @ drop 18 buffer" by metis
  have 1: "memcpy_at buffer 0 [CHR ''A'', NUL] = Some ([CHR ''A'', NUL] @ q @ b1 @ b2 @ drop 18 buffer)"
    using memcpy_at_next[of "[]" 0 p "[CHR ''A'', NUL]" "q @ b1 @ b2 @ drop 18 buffer"] b l by simp
  have 2: "memcpy_at ([CHR ''A'', NUL] @ q @ b1 @ b2 @ drop 18 buffer) 2 (long_bytes (word_of_nat 0)) =
      Some ([CHR ''A'', NUL] @ long_bytes (word_of_nat 0) @ b1 @ b2 @ drop 18 buffer)"
    by (rule memcpy_at_next) (simp_all add: l)
  show ?thesis using hammer_loop_sends[OF l(3,4), where k = 0] 1 2 by (simp add: hammer_main_def)
qed

subsection \<open>Gaps\<close>

text \<open>The ranges of the reported gaps: from the expected number, up to the one that came instead.\<close>

definition gap_ranges :: "nail_line list \<Rightarrow> (nat \<times> nat) list" where
  "gap_ranges ls = concat (map (\<lambda>l. case l of Gap a b \<Rightarrow> [(unat a, unat b)] | _ \<Rightarrow> []) ls)"

lemma gap_ranges_append [simp]: "gap_ranges (ls @ ms) = gap_ranges ls @ gap_ranges ms"
  by (simp add: gap_ranges_def)

lemma gap_ranges_line [simp]:
  "gap_ranges [] = []" "gap_ranges [Gap a b] = [(unat a, unat b)]" "gap_ranges [Seconds s m] = []"
  by (simp_all add: gap_ranges_def)

lemma nail_loop_append [simp]: "nail_loop (xs @ ys) n = do { n \<leftarrow> nail_loop xs n; nail_loop ys n }"
proof (induction xs arbitrary: n)
  case (Cons x xs)
  then show ?case by (cases "nail_round x n") simp_all
qed simp

lemma nail_round_frame:
  assumes "length pad = 205"
  shows "\<exists>n'. nail_round (Recv_message (hammer_frame pad k tv), True, t) n = Some n' \<and> expectedSeq n' = word_of_nat (Suc k) \<and>
     na_copies n' = na_copies n + 1 \<and>
     gap_ranges (na_lines n') = gap_ranges (na_lines n) @
       (if word_of_nat k = expectedSeq n then [] else [(unat (expectedSeq n), unat (word_of_nat k :: 64 word))])"
  using assms by (simp add: nail_round_def nail_copy_def nail_print_def hammer_frame_def sizeof_buffer_def Let_def)

text \<open>
  After the first \<open>m\<close> frames, of which those at the positions \<open>I\<close> arrived: \<open>j\<close> is the number of the last that arrived.
\<close>

definition nail_upto :: "nat set \<Rightarrow> nat \<Rightarrow> nat \<Rightarrow> nail \<Rightarrow> bool" where
  "nail_upto I m j n \<longleftrightarrow> na_copies n = card {i \<in> I. i < m} \<and> (\<forall>(a, b) \<in> set (gap_ranges (na_lines n)). a < b) \<and>
     j \<le> m \<and> expectedSeq n = word_of_nat (Suc j) \<and> (\<forall>i. j \<le> i \<and> i < m \<longrightarrow> i \<notin> I) \<and> (j = 0 \<or> j - 1 \<in> I) \<and>
     (\<Union>(a, b) \<in> set (gap_ranges (na_lines n)). {a..<b}) = {k. 0 < k \<and> k \<le> j \<and> k - 1 \<notin> I}"

lemma nail_upto_start: "nail_upto I 0 0 (nail_start buffer)"
  by (auto simp: nail_upto_def nail_start_def)

lemma nail_upto_lost:
  assumes "nail_upto I m j n" "m \<notin> I"
  shows "nail_upto I (Suc m) j n"
proof -
  have "{i \<in> I. i < Suc m} = {i \<in> I. i < m}" using assms(2) by (auto simp: less_Suc_eq)
  moreover have "i \<notin> I" if "j \<le> i" "i < Suc m" for i using that assms by (cases "i = m") (auto simp: nail_upto_def)
  ultimately show ?thesis using assms(1) unfolding nail_upto_def by (simp del: of_nat_Suc)
qed

lemma nail_upto_arrived:
  assumes n: "nail_upto I m j n" and m: "m \<in> I" "Suc m < 2 ^ 64" and pad: "length pad = 205"
  shows "\<exists>n'. nail_round (Recv_message (hammer_frame pad (Suc m) tv), True, t) n = Some n' \<and> nail_upto I (Suc m) (Suc m) n'"
proof -
  from n have j: "j \<le> m" "expectedSeq n = word_of_nat (Suc j)" "\<forall>i. j \<le> i \<and> i < m \<longrightarrow> i \<notin> I"
      "(\<Union>(a, b) \<in> set (gap_ranges (na_lines n)). {a..<b}) = {k. 0 < k \<and> k \<le> j \<and> k - 1 \<notin> I}"
      "\<forall>(a, b) \<in> set (gap_ranges (na_lines n)). a < b" "na_copies n = card {i \<in> I. i < m}"
    by (simp_all add: nail_upto_def del: of_nat_Suc)
  have u: "unat (word_of_nat (Suc i) :: 64 word) = Suc i" if "i \<le> m" for i using that m(2) by (simp add: unsigned_of_nat take_bit_nat_eq_self del: of_nat_Suc)
  have eq: "word_of_nat (Suc m) = expectedSeq n \<longleftrightarrow> j = m" using u[of m] u[OF j(1)] j(2) by (metis Suc_inject order_refl)
  obtain n' where n': "nail_round (Recv_message (hammer_frame pad (Suc m) tv), True, t) n = Some n'"
      "expectedSeq n' = word_of_nat (Suc (Suc m))" "na_copies n' = na_copies n + 1"
      "gap_ranges (na_lines n') = gap_ranges (na_lines n) @ (if j = m then [] else [(Suc j, Suc m)])"
    using nail_round_frame[OF pad, of "Suc m" tv t n] j(2) eq u[of m] u[OF j(1)] by (auto simp del: of_nat_Suc)
  have "{i \<in> I. i < Suc m} = insert m {i \<in> I. i < m}" using m(1) by (auto simp: less_Suc_eq)
  moreover have "{k. 0 < k \<and> k \<le> Suc m \<and> k - 1 \<notin> I} = {k. 0 < k \<and> k \<le> j \<and> k - 1 \<notin> I} \<union> {Suc j..<Suc m}"
  proof (rule set_eqI)
    fix k
    show "k \<in> {k. 0 < k \<and> k \<le> Suc m \<and> k - 1 \<notin> I} \<longleftrightarrow> k \<in> {k. 0 < k \<and> k \<le> j \<and> k - 1 \<notin> I} \<union> {Suc j..<Suc m}"
    proof (cases k)
      case (Suc i)
      have "i \<noteq> m \<or> i \<in> I" "j \<le> i \<Longrightarrow> i < m \<Longrightarrow> i \<notin> I" using m(1) j(3) by auto
      then show ?thesis using Suc j(1) by auto
    qed simp
  qed
  ultimately have "nail_upto I (Suc m) (Suc m) n'" using n' j m(1) by (auto simp: nail_upto_def)
  with n'(1) show ?thesis by blast
qed

text \<open>The frames that arrive, with the clock.\<close>

definition nail_input :: "nat set \<Rightarrow> (nat \<Rightarrow> 64 word) \<Rightarrow> bytes list \<Rightarrow> (zmq_received \<times> bool \<times> 64 word) list" where
  "nail_input I clock fs = nths (map (\<lambda>i. (Recv_message (fs ! i), True, clock i)) [0..<length fs]) I"

lemma nail_loop_after:
  assumes "length pad = 205" "m \<le> length fs" "length fs < 2 ^ 64" "\<And>i. i < length fs \<Longrightarrow> \<exists>tv. fs ! i = hammer_frame pad (Suc i) tv"
  shows "\<exists>n. nail_loop (nths (map (\<lambda>i. (Recv_message (fs ! i), True, clock i)) [0..<m]) I) (nail_start buffer) = Some n \<and> (\<exists>j. nail_upto I m j n)"
  using assms(2)
proof (induction m)
  case 0
  then show ?case by (auto intro: nail_upto_start)
next
  case (Suc m)
  then obtain n j where n: "nail_loop (nths (map (\<lambda>i. (Recv_message (fs ! i), True, clock i)) [0..<m]) I) (nail_start buffer) = Some n" "nail_upto I m j n"
    by auto
  obtain tv where "fs ! m = hammer_frame pad (Suc m) tv" using assms(4)[of m] Suc.prems by auto
  then show ?case using n nail_upto_lost[OF n(2)] nail_upto_arrived[OF n(2) _ _ assms(1), of tv "clock m"] Suc.prems assms(3)
    by (cases "m \<in> I") (auto simp: nths_append nths_singleton)
qed

text \<open>
  C40. The two programs together. Whatever frames of the publisher are lost on the way, the subscriber reads the others without an undefined step, and
  the gaps it reports are exactly the lost ones: a number is in a reported range if and only if its frame did not arrive but a later one did.
  Each frame that arrives leaves a copy behind that is never released.
\<close>

theorem nail_reports_losses:
  assumes "length buffer = sizeof_buffer" "length tvs < 2 ^ 64" "fs = sends (snd (run_state (hammer_main env buffer tvs) []))"
  shows "length fs = length tvs \<and> (\<exists>n. nail_loop (nail_input I clock fs) (nail_start buffer') = Some n \<and>
     (\<forall>k. (\<exists>(a, b) \<in> set (gap_ranges (na_lines n)). a \<le> k \<and> k < b) \<longleftrightarrow> 0 < k \<and> k - 1 \<notin> I \<and> (\<exists>i \<in> I. k \<le> i \<and> i < length fs)) \<and>
     (\<forall>(a, b) \<in> set (gap_ranges (na_lines n)). a < b) \<and> na_copies n = card {i \<in> I. i < length fs})"
proof -
  have fs: "fs = map (\<lambda>i. hammer_frame (drop 18 buffer) (Suc i) (tvs ! i)) [0..<length tvs]" using hammer_sends[OF assms(1)] assms(3) by simp
  have f: "\<exists>tv. fs ! i = hammer_frame (drop 18 buffer) (Suc i) tv" if "i < length fs" for i
    using that by (intro exI[of _ "tvs ! i"]) (simp add: fs)
  have "length (drop 18 buffer) = 205" "length fs < 2 ^ 64" using assms(1,2) by (simp_all add: fs sizeof_buffer_def)
  then obtain n j where n: "nail_loop (nail_input I clock fs) (nail_start buffer') = Some n" "nail_upto I (length fs) j n"
    using nail_loop_after[OF _ order_refl _ f] unfolding nail_input_def by blast
  from n(2) have j: "j \<le> length fs" "\<forall>i. j \<le> i \<and> i < length fs \<longrightarrow> i \<notin> I" "j = 0 \<or> j - 1 \<in> I"
      "(\<Union>(a, b) \<in> set (gap_ranges (na_lines n)). {a..<b}) = {k. 0 < k \<and> k \<le> j \<and> k - 1 \<notin> I}" by (simp_all add: nail_upto_def)
  have "(\<exists>(a, b) \<in> set (gap_ranges (na_lines n)). a \<le> k \<and> k < b) \<longleftrightarrow> 0 < k \<and> k \<le> j \<and> k - 1 \<notin> I" for k
  proof -
    have "(\<exists>(a, b) \<in> set (gap_ranges (na_lines n)). a \<le> k \<and> k < b) \<longleftrightarrow> k \<in> (\<Union>(a, b) \<in> set (gap_ranges (na_lines n)). {a..<b})"
      by (simp add: case_prod_beta)
    then show ?thesis unfolding j(4) by simp
  qed
  moreover have "k \<le> j \<longleftrightarrow> (\<exists>i \<in> I. k \<le> i \<and> i < length fs)" if "0 < k" "k - 1 \<notin> I" for k
  proof
    assume "k \<le> j"
    then have "j - 1 \<in> I" "k \<noteq> j" using j(3) that by auto
    then show "\<exists>i \<in> I. k \<le> i \<and> i < length fs" using \<open>k \<le> j\<close> j(1) by (intro bexI[of _ "j - 1"]) auto
  next
    assume "\<exists>i \<in> I. k \<le> i \<and> i < length fs"
    then show "k \<le> j" using j(2) by (meson le_trans nat_le_linear)
  qed
  ultimately show ?thesis using n by (auto simp: fs nail_upto_def)
qed

theorem nail_reports_losses_witness:
  "\<exists>n. nail_loop (nail_input {0, 2} (\<lambda>i. 9) (sends (snd (run_state (hammer_main (\<lambda>_ _. 7) (replicate 223 NUL) [(1, 2), (3, 4), (5, 6)]) []))))
       (nail_start (replicate 223 NUL)) = Some n \<and> na_copies n = 2 \<and>
     \<not> (\<exists>(a, b) \<in> set (gap_ranges (na_lines n)). a \<le> 1 \<and> 1 < b) \<and> (\<exists>(a, b) \<in> set (gap_ranges (na_lines n)). a \<le> 2 \<and> 2 < b) \<and>
     \<not> (\<exists>(a, b) \<in> set (gap_ranges (na_lines n)). a \<le> 3 \<and> 3 < b)"
proof -
  let ?fs = "sends (snd (run_state (hammer_main (\<lambda>_ _. 7) (replicate 223 NUL) [(1, 2), (3, 4), (5, 6)]) []))"
  have b: "length (replicate 223 NUL) = sizeof_buffer" "length [(1 :: 64 word, 2 :: 64 word), (3, 4), (5, 6)] < 2 ^ 64"
    by (simp_all add: sizeof_buffer_def)
  note t = nail_reports_losses[OF b refl, of "\<lambda>_ _. 7" "{0, 2}" "\<lambda>i. 9" "replicate 223 NUL"]
  have l: "length ?fs = 3" using conjunct1[OF t] by simp
  then have "{i \<in> {0, 2}. i < length ?fs} = {0, 2}" by auto
  then have c: "card {i \<in> {0, 2}. i < length ?fs} = 2" by simp
  from conjunct2[OF t] obtain n where n: "nail_loop (nail_input {0, 2} (\<lambda>i. 9) ?fs) (nail_start (replicate 223 NUL)) = Some n"
      "\<And>k. (\<exists>(a, b) \<in> set (gap_ranges (na_lines n)). a \<le> k \<and> k < b) \<longleftrightarrow> 0 < k \<and> k - 1 \<notin> {0, 2} \<and> (\<exists>i \<in> {0, 2}. k \<le> i \<and> i < length ?fs)"
      "na_copies n = card {i \<in> {0, 2}. i < length ?fs}" by blast
  have "na_copies n = 2" using n(3) c by (rule trans)
  then show ?thesis using n(1) by (intro exI[of _ n] conjI) (simp_all only: n(2) l, simp_all)
qed

subsection \<open>Errors\<close>

text \<open>A receive that fails is printed, but then as many bytes are copied as its result says, and so is a message that is larger than the buffer.\<close>

lemma nail_fails: "nail_round (Recv_error e, mem, t) n = None" "sizeof_buffer < length m \<Longrightarrow> nail_round (Recv_message m, mem, t) n = None"
  by (simp_all add: nail_round_def nail_copy_def sizeof_buffer_def Let_def)

text \<open>The subscriber connects before it lifts the limit of received messages, an option that ZeroMQ applies to later connections only.\<close>

lemma nail_setup_calls:
  "\<exists>s. snd (run_state (nail_setup env) w) =
     w @ [Zmq_ctx_new, Zmq_socket ZMQ_SUB, Zmq_connect s ''tcp://localhost:5556'', Zmq_setsockopt s (ZMQ_RCVHWM 0), Zmq_setsockopt s (ZMQ_SUBSCRIBE ''A'')]"
  by (simp add: nail_setup_def)

end
