(* ===== verification/Transport.thy ===== *)
theory Transport
  imports Monitor Naming Params
begin

text \<open>
  The life cycle of a transport, \<open>src/src/transport.c\<close>: creation, initialisation of the sockets,
  start and stop of the dispatch thread, destruction.
\<close>

subsection \<open>Initialisation\<close>

definition ZMQ_CONTROL_ENDPOINT :: cstring where "ZMQ_CONTROL_ENDPOINT = ''inproc://control''"

text \<open>
  What initialisation takes from its environment: the event mask of the log level, the endpoint that
  \<open>ZMQ_LAST_ENDPOINT\<close> yields after a bind, and \<open>wmStrSizeCpy\<close>.
\<close>

record init_env =
  ie_evmask :: "64 word"
  ie_endpoint :: "zworld \<Rightarrow> cstring"
  ie_wm :: "nat \<Rightarrow> cstring \<Rightarrow> nat \<times> cstring"

text \<open>The bind of the data publisher, which also yields \<open>mPubEndpoint\<close>.\<close>

definition bind_publisher ::
  "zenv \<Rightarrow> init_env \<Rightarrow> ('t, 'u, 'p, 'l) oz_proc \<Rightarrow> (mama_status \<times> ('t, 'u, 'p, 'l) oz_proc) option" where
  "bind_publisher env ie w = do {
     endpointAddress \<leftarrow> tcp_endpoint (mPublishAddress (tport w)) ''*'';
     let ((s, ep), w) = zrun (zmqBridgeMamaTransportImpl_bindSocket env (ie_endpoint ie) (mZmqDataPub (tport w)) endpointAddress True) w;
     Some (s, case ep of None \<Rightarrow> w | Some e \<Rightarrow> upd_tport (\<lambda>t. t\<lparr>mPubEndpoint := e\<rparr>) w)
   }"

text \<open>The loops over an array of addresses end at the first \<open>NULL\<close>.\<close>

definition addresses :: "cstring option list \<Rightarrow> cstring list" where
  "addresses arr = map the (takeWhile (\<lambda>a. a \<noteq> None) arr)"

definition control_sockets ::
  "zenv \<Rightarrow> init_env \<Rightarrow> (('t, 'u, 'p, 'l) oz_proc \<Rightarrow> (mama_status \<times> ('t, 'u, 'p, 'l) oz_proc) option) list" where
  "control_sockets env ie =
    [create_socket env (ie_evmask ie) mZmqControlSub (\<lambda>s t. t\<lparr>mZmqControlSub := s\<rparr>) ZMQ_PULL ''controlSub'' 0,
     zstmt (\<lambda>t. bind_only env (mZmqControlSub t) ZMQ_CONTROL_ENDPOINT),
     create_socket env (ie_evmask ie) mZmqControlPub (\<lambda>s t. t\<lparr>mZmqControlPub := s\<rparr>) ZMQ_PUSH ''controlPub'' 0,
     zstmt (\<lambda>t. zmqBridgeMamaTransportImpl_connectSocket env (mZmqControlPub t) ZMQ_CONTROL_ENDPOINT (- 1) 0)]"

definition data_sockets ::
  "zenv \<Rightarrow> init_env \<Rightarrow> int \<Rightarrow> (('t, 'u, 'p, 'l) oz_proc \<Rightarrow> (mama_status \<times> ('t, 'u, 'p, 'l) oz_proc) option) list" where
  "data_sockets env ie monitor =
    [create_socket env (ie_evmask ie) mZmqDataPub (\<lambda>s t. t\<lparr>mZmqDataPub := s\<rparr>) ZMQ_PUB ''dataPub'' monitor,
     create_socket env (ie_evmask ie) mZmqDataSub (\<lambda>s t. t\<lparr>mZmqDataSub := s\<rparr>) ZMQ_SUB ''dataSub'' monitor,
     zstmt (\<lambda>t. zmqBridgeMamaTransportImpl_setCommonSocketOptions env (mZmqDataPub t)),
     zstmt (\<lambda>t. zmqBridgeMamaTransportImpl_setCommonSocketOptions env (mZmqDataSub t)),
     zstmt (\<lambda>t. zmqBridgeMamaTransportImpl_subscribe env (mSocket (mZmqDataSub t)) (mInboxSubject t))]"

definition naming_sockets ::
  "zenv \<Rightarrow> init_env \<Rightarrow> int \<Rightarrow> (('t, 'u, 'p, 'l) oz_proc \<Rightarrow> (mama_status \<times> ('t, 'u, 'p, 'l) oz_proc) option) list" where
  "naming_sockets env ie monitor =
    [zstmt (\<lambda>t. zmqBridgeMamaTransportImpl_stopReconnectOnError env (mZmqDataSub t) (mReconnectOptions t)),
     create_socket env (ie_evmask ie) mZmqNamingPub (\<lambda>s t. t\<lparr>mZmqNamingPub := s\<rparr>) ZMQ_PUB ''namingPub'' monitor,
     zstmt (\<lambda>t. zmqBridgeMamaTransportImpl_stopReconnectOnError env (mZmqNamingPub t) (mReconnectOptions t)),
     create_socket env (ie_evmask ie) mZmqNamingSub (\<lambda>s t. t\<lparr>mZmqNamingSub := s\<rparr>) ZMQ_SUB ''namingSub'' monitor,
     zstmt (\<lambda>t. zmqBridgeMamaTransportImpl_subscribe env (mSocket (mZmqNamingSub t)) ZMQ_NAMING_PREFIX)]"

definition naming_connects ::
  "zenv \<Rightarrow> init_env \<Rightarrow> cstring list \<Rightarrow> (('t, 'u, 'p, 'l) oz_proc \<Rightarrow> (mama_status \<times> ('t, 'u, 'p, 'l) oz_proc) option) list" where
  "naming_connects env ie addrs = bind_publisher env ie #
     map (\<lambda>a. zstmt (\<lambda>t. zmqBridgeMamaTransportImpl_connectSocket env (mZmqNamingSub t) a (mReconnectInterval t) (mHeartbeatInterval t))) addrs"

definition direct_connects ::
  "zenv \<Rightarrow> init_env \<Rightarrow> cstring list \<Rightarrow> cstring list
     \<Rightarrow> (('t, 'u, 'p, 'l) oz_proc \<Rightarrow> (mama_status \<times> ('t, 'u, 'p, 'l) oz_proc) option) list" where
  "direct_connects env ie outgoing incoming =
     map (\<lambda>a. zstmt (\<lambda>t. zmqBridgeMamaTransportImpl_bindOrConnect env (ie_endpoint ie) (ie_wm ie) (mZmqDataPub t) a
       ZMQ_TPORT_DIRECTION_OUTGOING (mReconnectInterval t) (mHeartbeatInterval t))) outgoing @
     map (\<lambda>a. zstmt (\<lambda>t. zmqBridgeMamaTransportImpl_bindOrConnect env (ie_endpoint ie) (ie_wm ie) (mZmqDataSub t) a
       ZMQ_TPORT_DIRECTION_INCOMING (mReconnectInterval t) (mHeartbeatInterval t))) incoming"

text \<open>The conditions on the way read members that initialisation does not change.\<close>

definition zmqBridgeMamaTransportImpl_init ::
  "zenv \<Rightarrow> init_env \<Rightarrow> ('t, 'u, 'p, 'l) oz_proc \<Rightarrow> (mama_status \<times> ('t, 'u, 'p, 'l) oz_proc) option" where
  "zmqBridgeMamaTransportImpl_init env ie w =
     (let (ctx, w) = zrun (zdo env Zmq_ctx_new) w; t = tport w; monitor = mSocketMonitor t
      in if ctx < 0 then Some (MAMA_STATUS_PLATFORM, w)
         else call_seq (
           control_sockets env ie @ data_sockets env ie monitor @
           (if mIsNaming t = 1 then naming_sockets env ie monitor else []) @
           (if monitor \<noteq> 0 then [zmqBridgeMamaTransportImpl_startMonitor env (ie_evmask ie)] else []) @
           (if mIsNaming t = 1 then naming_connects env ie (addresses (mNamingAddress t))
            else direct_connects env ie (addresses (mOutgoingAddress t)) (addresses (mIncomingAddress t)))) w)"

subsection \<open>Start and stop\<close>

text \<open>
  The wait for the naming service in \<open>zmqBridgeMamaTransportImpl_start\<close>; \<open>idle n\<close> is what the
  other threads do while it sleeps with \<open>retries\<close> at \<open>n\<close>.
\<close>

function start_wait ::
  "zenv \<Rightarrow> (int \<Rightarrow> ('t, 'u, 'p, 'l) oz_proc \<Rightarrow> ('t, 'u, 'p, 'l) oz_proc) \<Rightarrow> int
     \<Rightarrow> ('t, 'u, 'p, 'l) oz_proc \<Rightarrow> ('t, 'u, 'p, 'l) oz_proc" where
  "start_wait env idle retries w =
     (if 0 < retries - 1 \<and> mNamingConnected (tport w) \<noteq> 1
      then let (_, w) = zrun (zdo env (Usleep (mNamingConnectInterval (tport w)))) w
           in start_wait env idle (retries - 1) (idle (retries - 1) w)
      else w)"
  by pat_completeness auto
termination
  by (relation "measure (\<lambda>(env, idle, retries, w). nat retries)") auto

declare start_wait.simps [simp del]

definition zmqBridgeMamaTransportImpl_start ::
  "zenv \<Rightarrow> (int \<Rightarrow> ('t, 'u, 'p, 'l) oz_proc \<Rightarrow> ('t, 'u, 'p, 'l) oz_proc) \<Rightarrow> ('t, 'u, 'p, 'l) oz_proc
     \<Rightarrow> (mama_status \<times> ('t, 'u, 'p, 'l) oz_proc) option" where
  "zmqBridgeMamaTransportImpl_start env idle w =
     (let (rc, w) = zrun (zdo env (Wthread_create DispatchThread)) w
      in if rc \<noteq> 0 then Some (MAMA_STATUS_PLATFORM, w)
         else if mIsNaming (tport w) = 1 \<and> mNamingWaitForConnect (tport w) = 1
         then let w = start_wait env idle (mNamingConnectRetries (tport w)) w
              in Some (if mNamingConnected (tport w) \<noteq> 1 then MAMA_STATUS_TIMEOUT else MAMA_STATUS_OK, w)
         else Some (MAMA_STATUS_OK, w))"

text \<open>\<open>wsem_wait\<close> blocks while the semaphore is zero.\<close>

definition zmqBridgeMamaTransportImpl_stop ::
  "('t, 'p, 'l) mama_lib \<Rightarrow> host_env \<Rightarrow> zenv \<Rightarrow> ('t, 'u, 'p, 'l) oz_proc \<Rightarrow> (mama_status \<times> ('t, 'u, 'p, 'l) oz_proc) option" where
  "zmqBridgeMamaTransportImpl_stop L h env w = do {
     let w = upd_tport (\<lambda>t. t\<lparr>mBeaconInterval := 0\<rparr>) w;
     w \<leftarrow> (if mIsReady (tport w) = 0 then None else Some (upd_tport (\<lambda>t. t\<lparr>mIsReady := mIsReady t - 1\<rparr>) w));
     CALL_MAMA_FUNC
       (if mIsNaming (tport w) = 1 then zmqBridgeMamaTransportImpl_sendEndpointsMsg L h env (CHR ''D'') w
        else Some (MAMA_STATUS_OK, w)) (\<lambda>w.
     CALL_MAMA_FUNC
       (Some (zrun (zmqBridgeMamaTransportImpl_sendCommand env (tport w)
          (control_msg (CHR ''X'') (replicate (MAX_SUBJECT_LENGTH + 1) NUL))) w)) (\<lambda>w.
       let (rc, w) = zrun (zdo env (Wthread_join DispatchThread)) w
       in Some (if rc \<noteq> 0 then MAMA_STATUS_PLATFORM else MAMA_STATUS_OK, w)))
   }"

subsection \<open>Creation\<close>

text \<open>
  The outcomes of the allocations and library calls of \<open>zmqBridgeMamaTransport_create\<close>: each
  container with whether it could be created, and what \<open>zmqBridge_generateUuid\<close> gets from the
  UUID library.
\<close>

record ('t, 'u, 'p, 'l) create_env =
  ce_calloc :: bool
  ce_wcs :: "bool \<times> 'l"
  ce_peers :: "bool \<times> 'u"
  ce_inboxes :: "bool \<times> 't"
  ce_subs :: "mama_status \<times> 'p"
  ce_uuid_rc :: int
  ce_uuid :: cstring

definition zero_socket :: zmqSocket where
  "zero_socket = \<lparr>mSocket = 0, mLock = 0, mMonitor = 0\<rparr>"

text \<open>The zeroed structure with the members that are set first; the containers are those that will be created.\<close>

definition new_transport :: "('t, 'u, 'p, 'l) create_env \<Rightarrow> cstring \<Rightarrow> voidp \<Rightarrow> ('t, 'u, 'p, 'l) zmqTransportBridge" where
  "new_transport ce name parent = \<lparr>t_mName = name, mIsReady = 0, mNamingConnected = 0, t_mIsValid = 0, t_mTransport = parent,
     mIsNaming = 0, mPublishAddress = [], mUuid = [], mHeartbeatInterval = 0, mReconnectInterval = 0, mDisableRefresh = 0,
     mReconnectOptions = 0, mZmqControlSub = zero_socket, mZmqControlPub = zero_socket, mZmqNamingPub = zero_socket,
     mZmqNamingSub = zero_socket, mPubEndpoint = [], mNamingAddress = replicate ZMQ_MAX_NAMING_URIS None, mNamingWaitForConnect = 0,
     mNamingConnectRetries = 0, mNamingConnectInterval = 0, mBeaconInterval = 0, mZmqDataPub = zero_socket, mZmqDataSub = zero_socket,
     mIncomingAddress = replicate ZMQ_MAX_INCOMING_URIS None, mOutgoingAddress = replicate ZMQ_MAX_OUTGOING_URIS None,
     t_mIsDispatching = 0, mOmzmqDispatchStatus = MAMA_STATUS_OK, mZmqMonitorPub = zero_socket, mZmqMonitorSub = zero_socket,
     mIsMonitoring = 0, mSocketMonitor = 0, mPeers = snd (ce_peers ce), mSubEndpoints = snd (ce_subs ce), mSubsLock = 0, mSubUid = 0,
     mWcEndpoints = snd (ce_wcs ce), mWcsLock = 0, mWcsUid = 0, mInboxSubject = [], mInboxes = snd (ce_inboxes ce), mInboxesLock = 0,
     mInboxUid = 0, mNormalMessages = 0, mNamingMessages = 0, mControlMessages = 0, mSubMessages = 0, mInboxMessages = 0, mPolls = 0\<rparr>"

text \<open>A lock for one of the registries.\<close>

definition new_lock ::
  "zenv \<Rightarrow> (nat \<Rightarrow> ('t, 'u, 'p, 'l) zmqTransportBridge \<Rightarrow> ('t, 'u, 'p, 'l) zmqTransportBridge)
     \<Rightarrow> ('t, 'u, 'p, 'l) oz_proc \<Rightarrow> ('t, 'u, 'p, 'l) oz_proc" where
  "new_lock env upd w = (let (l, w) = zrun (zdo env Wlock_create) w in upd_tport (upd (nat l)) w)"

text \<open>The registries of the transport, created in the order of the code.\<close>

definition create_registries ::
  "zenv \<Rightarrow> ('t, 'u, 'p, 'l) create_env \<Rightarrow> ('t, 'u, 'p, 'l) oz_proc \<Rightarrow> mama_status \<times> ('t, 'u, 'p, 'l) oz_proc" where
  "create_registries env ce w =
     (if \<not> fst (ce_wcs ce) then (MAMA_STATUS_NOMEM, w)
      else let w = new_lock env (\<lambda>l t. t\<lparr>mWcsLock := l\<rparr>) w
      in if \<not> fst (ce_peers ce) then (MAMA_STATUS_NOMEM, w)
      else if \<not> fst (ce_inboxes ce) then (MAMA_STATUS_NOMEM, w)
      else let w = new_lock env (\<lambda>l t. t\<lparr>mInboxesLock := l\<rparr>) w
      in if fst (ce_subs ce) \<noteq> MAMA_STATUS_OK then (fst (ce_subs ce), w)
      else (MAMA_STATUS_OK, new_lock env (\<lambda>l t. t\<lparr>mSubsLock := l\<rparr>) w))"

text \<open>The prefix, a period and the identifier, in an array of \<open>ZMQ_INBOX_SUBJECT_SIZE + 1\<close> bytes.\<close>

definition inbox_subject :: "cstring \<Rightarrow> cstring option" where
  "inbox_subject uuid = strcpy_into (ZMQ_INBOX_SUBJECT_SIZE + 1) (''_INBOX'' @ ''.'' @ uuid)"

text \<open>The parameters, by the kind of transport.\<close>

definition parse_params ::
  "(cstring \<Rightarrow> rat) \<Rightarrow> param_consts \<Rightarrow> properties \<Rightarrow> ('t, 'u, 'p, 'l) zmqTransportBridge \<Rightarrow> ('t, 'u, 'p, 'l) zmqTransportBridge option" where
  "parse_params atof k props t = do {
     (t, _) \<leftarrow> zmqBridgeMamaTransportImpl_parseCommonParams atof k props t;
     if mIsNaming t = 1 then zmqBridgeMamaTransportImpl_parseNamingParams atof props t
     else zmqBridgeMamaTransportImpl_parseNonNamingParams props t
   }"

definition zmqBridgeMamaTransport_create ::
  "zenv \<Rightarrow> init_env \<Rightarrow> ('t, 'u, 'p, 'l) create_env \<Rightarrow> (cstring \<Rightarrow> rat) \<Rightarrow> param_consts \<Rightarrow> properties
     \<Rightarrow> (int \<Rightarrow> ('t, 'u, 'p, 'l) oz_proc \<Rightarrow> ('t, 'u, 'p, 'l) oz_proc) \<Rightarrow> bool \<Rightarrow> cstring option \<Rightarrow> voidp
     \<Rightarrow> ('t, 'u, 'p, 'l) oz_proc \<Rightarrow> (mama_status \<times> tport_ptr \<times> ('t, 'u, 'p, 'l) oz_proc) option" where
  "zmqBridgeMamaTransport_create env ie ce atof k props idle result name parent w =
     (if \<not> result \<or> name = None \<or> parent = None then Some (MAMA_STATUS_NULL_ARG, None, w)
      else if \<not> ce_calloc ce then Some (MAMA_STATUS_NOMEM, None, w)
      else do {
        t \<leftarrow> parse_params atof k props (new_transport ce (the name) parent);
        let w = emit (DisableRefresh parent (nat (mDisableRefresh t mod 256))) (w\<lparr>tport := t\<rparr>);
        let (s, w) = create_registries env ce w;
        if s \<noteq> MAMA_STATUS_OK then Some (s, None, w)
        else case zmqBridge_generateUuid (ce_uuid_rc ce) (ce_uuid ce) of
          None \<Rightarrow> Some (MAMA_STATUS_SYSTEM_ERROR, None, w)
        | Some uuid \<Rightarrow> do {
            subject \<leftarrow> inbox_subject uuid;
            let w = upd_tport (\<lambda>t. t\<lparr>mUuid := uuid, mInboxSubject := subject\<rparr>) w;
            (s, w) \<leftarrow> CALL_MAMA_FUNC (zmqBridgeMamaTransportImpl_init env ie w) (zmqBridgeMamaTransportImpl_start env idle);
            if s \<noteq> MAMA_STATUS_OK then Some (s, None, w)
            else Some (MAMA_STATUS_OK, Some (), upd_tport (\<lambda>t. t\<lparr>t_mIsValid := 1\<rparr>) w)
          }
      })"

subsection \<open>Destruction\<close>

definition destroy_sockets ::
  "zenv \<Rightarrow> 64 word \<Rightarrow> zmqSocket list \<Rightarrow> ('t, 'u, 'p, 'l) oz_proc \<Rightarrow> ('t, 'u, 'p, 'l) oz_proc" where
  "destroy_sockets env allEvents sks w =
     fold (\<lambda>sk w. snd (zrun (zmqBridgeMamaTransportImpl_destroySocket env allEvents sk) w)) sks w"

text \<open>
  \<open>zmqBridgeMamaTransport_destroy\<close>. Afterwards the transport does not exist any more; what is left
  of the process is the history. \<open>usleep\<close> gets the doubled interval as an \<open>int\<close>.
\<close>

definition zmqBridgeMamaTransport_destroy ::
  "('t, 'p, 'l) mama_lib \<Rightarrow> host_env \<Rightarrow> zenv \<Rightarrow> 64 word \<Rightarrow> tport_ptr \<Rightarrow> ('t, 'u, 'p, 'l) oz_proc
     \<Rightarrow> (mama_status \<times> ('t, 'u, 'p, 'l) oz_proc) option" where
  "zmqBridgeMamaTransport_destroy L h env allEvents transport w =
     (if transport = None then Some (MAMA_STATUS_NULL_ARG, w)
      else do {
        (status, w) \<leftarrow> zmqBridgeMamaTransportImpl_stop L h env w;
        w \<leftarrow> (if mIsNaming (tport w) = 1 \<and> mNamingConnected (tport w) = 0
              then if mNamingConnectInterval (tport w) * 2 < 2 ^ 31
                   then Some (snd (zrun (zdo env (Usleep (mNamingConnectInterval (tport w) * 2))) w)) else None
              else Some w);
        let (_, w) = zrun (zdo env (Wthread_join PublishThread)) w;
        let t = tport w;
        let w = destroy_sockets env allEvents ([mZmqDataSub t, mZmqDataPub t, mZmqControlSub t, mZmqControlPub t] @
          (if mIsNaming t = 1 then [mZmqNamingSub t, mZmqNamingPub t] else [])) w;
        CALL_MAMA_FUNC
          (if mSocketMonitor t \<noteq> 0 then zmqBridgeMamaTransportImpl_stopMonitor env allEvents w else Some (MAMA_STATUS_OK, w)) (\<lambda>w.
          Some (status, snd (zrun (do {
            zdo env Zmq_ctx_shutdown;
            zdo env Zmq_ctx_term;
            zdo env (Wlock_destroy (mSubsLock t));
            zdo env (Wlock_destroy (mInboxesLock t));
            zdo env (Wlock_destroy (mWcsLock t))
          }) w)))
      })"

subsection \<open>Queries\<close>

definition zmqBridgeMamaTransport_isValid :: "('t, 'u, 'p, 'l) zmqTransportBridge option \<Rightarrow> int" where
  "zmqBridgeMamaTransport_isValid transport = (case transport of None \<Rightarrow> 0 | Some impl \<Rightarrow> t_mIsValid impl)"

definition zmqBridgeMamaTransport_getNativeTransport :: "tport_ptr \<Rightarrow> bool \<Rightarrow> mama_status \<times> tport_ptr" where
  "zmqBridgeMamaTransport_getNativeTransport transport result =
     (if transport = None \<or> \<not> result then (MAMA_STATUS_NULL_ARG, None) else (MAMA_STATUS_OK, transport))"

text \<open>\<open>r\<close> is what \<open>mamaTransport_getBridgeTransport\<close> returns.\<close>

definition zmqBridgeMamaTransportImpl_getTransportBridge :: "mama_status \<times> tport_ptr \<Rightarrow> tport_ptr" where
  "zmqBridgeMamaTransportImpl_getTransportBridge r =
     (case r of (status, impl) \<Rightarrow> if status \<noteq> MAMA_STATUS_OK \<or> impl = None then None else impl)"

end
