(* ===== verification/Transport_Correct.thy ===== *)
theory Transport_Correct
  imports Transport Naming_Correct Params_Correct Bridge_Safety
begin

text \<open>
  The life cycle of a transport: creation leads to a state in which the data path is safe, the
  waits are bounded, and what destruction does to the sockets and threads.
\<close>

subsection \<open>Statements that leave the registries alone\<close>

text \<open>The settings of a transport that initialisation reads and leaves alone.\<close>

definition settings :: "('t, 'u, 'p, 'l) zmqTransportBridge \<Rightarrow> cstring \<times> int \<times> int \<times> int \<times> cstring \<times> nat \<times> 32 word" where
  "settings t = (mPublishAddress t, mIsNaming t, mNamingWaitForConnect t, mNamingConnectRetries t, mUuid t, mIsReady t,
     mNamingConnected t)"

text \<open>Only other parts of the transport and the history change, and every lock is released.\<close>

definition tport_only :: "('t, 'u, 'p, 'l) oz_proc \<Rightarrow> ('t, 'u, 'p, 'l) oz_proc \<Rightarrow> bool" where
  "tport_only w w' \<longleftrightarrow> same_reg w w' \<and> queue_store w' = queue_store w \<and>
     settings (tport w') = settings (tport w) \<and> (\<forall>l. held l (zcalls w') = held l (zcalls w))"

lemma tport_only_refl [simp]: "tport_only w w"
  by (simp add: tport_only_def)

lemma tport_only_trans: "tport_only w w' \<Longrightarrow> tport_only w' w'' \<Longrightarrow> tport_only w w''"
  using same_reg_trans by (auto simp: tport_only_def)

lemma tport_only_zrun: "(\<And>l. held l (snd (run_state m (zcalls w))) = held l (zcalls w)) \<Longrightarrow> tport_only w (snd (zrun m w))"
  by (simp add: tport_only_def)

lemma tport_only_zstmt:
  assumes "\<And>t z l. held l (snd (run_state (f t) z)) = held l z"
  shows "\<exists>s w'. zstmt f w = Some (s, w') \<and> tport_only w w'"
  using tport_only_zrun[of "f (tport w)" w] assms by (auto simp: zstmt_def prod_eq_iff intro!: exI[of _ "fst (zrun (f (tport w)) w)"])

lemma held_zdo: "(\<And>l. c \<noteq> Wlock_lock l) \<Longrightarrow> (\<And>l. c \<noteq> Wlock_unlock l) \<Longrightarrow> held l (z @ [c]) = held l z"
  by simp

lemma createSocket_balanced: "held l (snd (run_state (zmqBridgeMamaTransportImpl_createSocket env m sk ty nm mon) z)) = held l z"
  by (simp add: zmqBridgeMamaTransportImpl_createSocket_def Let_def split: option.split)

lemma bind_only_balanced: "held l (snd (run_state (bind_only env sk uri) z)) = held l z"
  using bindSocket.balanced[of l env "\<lambda>z. []" sk uri False z] by (simp add: bind_only_def split_beta)

lemma bindOrConnect_balanced:
  "held l (snd (run_state (zmqBridgeMamaTransportImpl_bindOrConnect env ep wm sk uri d r hb) z)) = held l z"
  using bindOrConnect_cases[of env ep wm sk uri d r hb z] by (auto simp: locked_balanced)

lemma subscribe_balanced: "held l (snd (run_state (zmqBridgeMamaTransportImpl_subscribe env s tp) z)) = held l z"
  by (simp add: zmqBridgeMamaTransportImpl_subscribe_def)

lemma destroySocket_balanced: "held l (snd (run_state (zmqBridgeMamaTransportImpl_destroySocket env ev sk) z)) = held l z"
  by (simp add: zmqBridgeMamaTransportImpl_destroySocket_def)

lemmas stmt_balanced = locked_balanced createSocket_balanced bind_only_balanced bindOrConnect_balanced subscribe_balanced
  destroySocket_balanced

text \<open>An update of the transport that does not concern the registries.\<close>

definition reg_free :: "(('t, 'u, 'p, 'l) zmqTransportBridge \<Rightarrow> ('t, 'u, 'p, 'l) zmqTransportBridge) \<Rightarrow> bool" where
  "reg_free f \<longleftrightarrow> (\<forall>t. mInboxes (f t) = mInboxes t \<and> mSubEndpoints (f t) = mSubEndpoints t \<and> mWcEndpoints (f t) = mWcEndpoints t \<and>
     mInboxUid (f t) = mInboxUid t \<and> mSubUid (f t) = mSubUid t \<and> mWcsUid (f t) = mWcsUid t \<and> mInboxSubject (f t) = mInboxSubject t \<and>
     mInboxesLock (f t) = mInboxesLock t \<and> mSubsLock (f t) = mSubsLock t \<and> mWcsLock (f t) = mWcsLock t \<and>
     settings (f t) = settings t)"

lemma tport_only_upd: "reg_free f \<Longrightarrow> tport_only w (upd_tport f w)"
  by (simp add: tport_only_def same_reg_def reg_free_def)

lemma tport_only_create:
  assumes "\<And>s. reg_free (upd s)"
  shows "\<exists>s w'. create_socket env m sel upd ty nm mon w = Some (s, w') \<and> tport_only w w'"
proof -
  let ?r = "zrun (zmqBridgeMamaTransportImpl_createSocket env m (sel (tport w)) ty (Some nm) mon) w"
  have "tport_only w (snd ?r)" by (intro tport_only_zrun) (simp add: stmt_balanced)
  from this tport_only_upd[OF assms, of "snd ?r" "snd (fst ?r)"] have "tport_only w (upd_tport (upd (snd (fst ?r))) (snd ?r))"
    by (rule tport_only_trans)
  then show ?thesis by (simp add: create_socket_def split_beta)
qed

subsection \<open>Initialisation\<close>

definition stmt_ok :: "(('t, 'u, 'p, 'l) oz_proc \<Rightarrow> (mama_status \<times> ('t, 'u, 'p, 'l) oz_proc) option) \<Rightarrow> bool" where
  "stmt_ok f \<longleftrightarrow> (\<forall>w. length (mPublishAddress (tport w)) \<le> 248 \<longrightarrow> (\<exists>s w'. f w = Some (s, w') \<and> tport_only w w'))"

lemma tport_only_address: "tport_only w w' \<Longrightarrow> mPublishAddress (tport w') = mPublishAddress (tport w)"
  by (simp add: tport_only_def settings_def)

lemma stmt_ok_seq:
  fixes fs :: "(('t, 'u, 'p, 'l) oz_proc \<Rightarrow> (mama_status \<times> ('t, 'u, 'p, 'l) oz_proc) option) list"
  assumes "\<And>f. f \<in> set fs \<Longrightarrow> stmt_ok f"
  shows "stmt_ok (call_seq fs)"
  unfolding stmt_ok_def
proof (intro allI impI)
  fix w :: "('t, 'u, 'p, 'l) oz_proc" assume a: "length (mPublishAddress (tport w)) \<le> 248"
  show "\<exists>s w'. call_seq fs w = Some (s, w') \<and> tport_only w w'"
  proof (rule call_seq_inv)
    fix f v assume f: "f \<in> set fs" and v: "tport_only w v"
    have "length (mPublishAddress (tport v)) \<le> 248" using a tport_only_address[OF v] by simp
    with assms[OF f] obtain s w' where "f v = Some (s, w')" "tport_only v w'" unfolding stmt_ok_def by blast
    with tport_only_trans[OF v] show "\<exists>s w'. f v = Some (s, w') \<and> tport_only w w'" by blast
  qed simp
qed

lemma stmt_ok_zstmt: "(\<And>t z l. held l (snd (run_state (f t) z)) = held l z) \<Longrightarrow> stmt_ok (zstmt f)"
  unfolding stmt_ok_def using tport_only_zstmt by blast

lemma stmt_ok_create: "(\<And>s. reg_free (upd s)) \<Longrightarrow> stmt_ok (create_socket env m sel upd ty nm mon)"
  unfolding stmt_ok_def using tport_only_create by blast

lemma stmt_ok_upd_zdo:
  assumes "reg_free f" "\<And>l. c \<noteq> Wlock_lock l" "\<And>l. c \<noteq> Wlock_unlock l"
  shows "tport_only w (snd (zrun (zdo env c) (upd_tport f w)))"
proof -
  have "tport_only (upd_tport f w) (snd (zrun (zdo env c) (upd_tport f w)))"
    using assms(2,3) by (intro tport_only_zrun) simp
  with tport_only_upd[OF assms(1)] show ?thesis using tport_only_trans by blast
qed

lemma stmt_ok_startMonitor: "stmt_ok (zmqBridgeMamaTransportImpl_startMonitor env m)"
  unfolding stmt_ok_def
proof (intro allI impI)
  fix w :: "('t, 'u, 'p, 'l) oz_proc" assume a: "length (mPublishAddress (tport w)) \<le> 248"
  let ?seq = "[create_socket env m mZmqMonitorSub (\<lambda>s t. t\<lparr>mZmqMonitorSub := s\<rparr>) ZMQ_SERVER ''monitorSub'' 0,
        zstmt (\<lambda>t. bind_only env (mZmqMonitorSub t) ZMQ_MONITOR_ENDPOINT),
        create_socket env m mZmqMonitorPub (\<lambda>s t. t\<lparr>mZmqMonitorPub := s\<rparr>) ZMQ_CLIENT ''monitorPub'' 0,
        zstmt (\<lambda>t. zmqBridgeMamaTransportImpl_connectSocket env (mZmqMonitorPub t) ZMQ_MONITOR_ENDPOINT 0 0)]"
  have "stmt_ok (call_seq ?seq)"
    by (intro stmt_ok_seq) (auto intro!: stmt_ok_zstmt stmt_ok_create simp: stmt_balanced reg_free_def settings_def)
  with a obtain s w1 where w1: "call_seq ?seq w = Some (s, w1)" "tport_only w w1" unfolding stmt_ok_def by blast
  have "reg_free (\<lambda>t. t\<lparr>mIsMonitoring := 1\<rparr>)" by (simp add: reg_free_def settings_def)
  from tport_only_trans[OF w1(2) stmt_ok_upd_zdo[OF this, of "Wthread_create MonitorThread" w1 env]]
  show "\<exists>s w'. zmqBridgeMamaTransportImpl_startMonitor env m w = Some (s, w') \<and> tport_only w w'"
    unfolding zmqBridgeMamaTransportImpl_startMonitor_def w1(1)
    using w1(2) by (cases "s = MAMA_STATUS_OK") (simp_all add: split_beta Let_def)
qed

lemma stmt_ok_bind_publisher: "stmt_ok (bind_publisher env ie)"
  unfolding stmt_ok_def
proof (intro allI impI)
  fix w :: "('t, 'u, 'p, 'l) oz_proc" assume a: "length (mPublishAddress (tport w)) \<le> 248"
  let ?r = "zrun (zmqBridgeMamaTransportImpl_bindSocket env (ie_endpoint ie) (mZmqDataPub (tport w)) (''tcp://'' @ mPublishAddress (tport w) @ '':*'') True) w"
  have 1: "tport_only w (snd ?r)" by (intro tport_only_zrun) (simp add: locked_balanced)
  have "reg_free (\<lambda>t. t\<lparr>mPubEndpoint := e\<rparr>)" for e by (simp add: reg_free_def settings_def)
  from 1 tport_only_upd[OF this] have "tport_only w (upd_tport (\<lambda>t. t\<lparr>mPubEndpoint := e\<rparr>) (snd ?r))" for e
    by (rule tport_only_trans)
  with 1 a show "\<exists>s w'. bind_publisher env ie w = Some (s, w') \<and> tport_only w w'"
    by (simp add: bind_publisher_def tcp_endpoint_def split_beta Let_def split: option.split)
qed

lemma init_stmts_ok:
  fixes f :: "('t, 'u, 'p, 'l) oz_proc \<Rightarrow> (mama_status \<times> ('t, 'u, 'p, 'l) oz_proc) option"
  assumes "f \<in> set (control_sockets env ie @ data_sockets env ie mon @ naming_sockets env ie mon @
      [zmqBridgeMamaTransportImpl_startMonitor env (ie_evmask ie)] @ naming_connects env ie na @ direct_connects env ie oa ia)"
  shows "stmt_ok f"
proof -
  have create: "stmt_ok (create_socket env (ie_evmask ie) mZmqControlSub (\<lambda>s t. t\<lparr>mZmqControlSub := s\<rparr>) ty nm m)"
    "stmt_ok (create_socket env (ie_evmask ie) mZmqControlPub (\<lambda>s t. t\<lparr>mZmqControlPub := s\<rparr>) ty nm m)"
    "stmt_ok (create_socket env (ie_evmask ie) mZmqDataPub (\<lambda>s t. t\<lparr>mZmqDataPub := s\<rparr>) ty nm m)"
    "stmt_ok (create_socket env (ie_evmask ie) mZmqDataSub (\<lambda>s t. t\<lparr>mZmqDataSub := s\<rparr>) ty nm m)"
    "stmt_ok (create_socket env (ie_evmask ie) mZmqNamingPub (\<lambda>s t. t\<lparr>mZmqNamingPub := s\<rparr>) ty nm m)"
    "stmt_ok (create_socket env (ie_evmask ie) mZmqNamingSub (\<lambda>s t. t\<lparr>mZmqNamingSub := s\<rparr>) ty nm m)"
    for ty nm m by (intro stmt_ok_create; simp add: reg_free_def settings_def)+
  show ?thesis
    using assms create stmt_ok_bind_publisher[of env ie] stmt_ok_startMonitor[of env "ie_evmask ie"]
    by (auto simp: control_sockets_def data_sockets_def naming_sockets_def naming_connects_def direct_connects_def stmt_balanced
      intro!: stmt_ok_zstmt)
qed

lemma stmt_ok_init: "stmt_ok (zmqBridgeMamaTransportImpl_init env ie)"
  unfolding stmt_ok_def
proof (intro allI impI)
  fix w :: "('t, 'u, 'p, 'l) oz_proc" assume a: "length (mPublishAddress (tport w)) \<le> 248"
  let ?w = "snd (zrun (zdo env Zmq_ctx_new) w)"
  have 1: "tport_only w ?w" by (intro tport_only_zrun) simp
  let ?t = "tport ?w"
  let ?fs = "control_sockets env ie @ data_sockets env ie (mSocketMonitor ?t) @
           (if mIsNaming ?t = 1 then naming_sockets env ie (mSocketMonitor ?t) else []) @
           (if mSocketMonitor ?t \<noteq> 0 then [zmqBridgeMamaTransportImpl_startMonitor env (ie_evmask ie)] else []) @
           (if mIsNaming ?t = 1 then naming_connects env ie (addresses (mNamingAddress ?t))
            else direct_connects env ie (addresses (mOutgoingAddress ?t)) (addresses (mIncomingAddress ?t)))"
  have "stmt_ok (call_seq ?fs)"
    by (intro stmt_ok_seq init_stmts_ok[where mon = "mSocketMonitor ?t" and na = "addresses (mNamingAddress ?t)" and
      oa = "addresses (mOutgoingAddress ?t)" and ia = "addresses (mIncomingAddress ?t)"]) (auto split: if_splits)
  moreover have "length (mPublishAddress (tport ?w)) \<le> 248" using a by simp
  ultimately obtain s w' where f: "call_seq ?fs ?w = Some (s, w')" "tport_only ?w w'" unfolding stmt_ok_def by blast
  have "zmqBridgeMamaTransportImpl_init env ie w = (if fst (zrun (zdo env Zmq_ctx_new) w) < 0 then Some (MAMA_STATUS_PLATFORM, ?w) else Some (s, w'))"
    unfolding zmqBridgeMamaTransportImpl_init_def Let_def split_beta f(1) by (rule refl)
  with 1 tport_only_trans[OF 1 f(2)] show "\<exists>s w'. zmqBridgeMamaTransportImpl_init env ie w = Some (s, w') \<and> tport_only w w'"
    by (cases "fst (zrun (zdo env Zmq_ctx_new) w) < 0") simp_all
qed

subsection \<open>Initialisation when every call succeeds\<close>

definition env_succeeds :: "zenv \<Rightarrow> bool" where
  "env_succeeds env \<longleftrightarrow> (\<forall>z c. case c of
     Zmq_socket _ \<Rightarrow> 0 \<le> env z c | Wlock_create \<Rightarrow> 0 \<le> env z c | Zmq_ctx_new \<Rightarrow> 0 \<le> env z c
   | Zmq_send _ b \<Rightarrow> env z c = int (length b) | Zmq_msg_send _ b \<Rightarrow> env z c = int (length b) | _ \<Rightarrow> env z c = 0)"

lemma env_succeedsD:
  assumes "env_succeeds env"
  shows "0 \<le> env z (Zmq_socket ty)" "0 \<le> env z Wlock_create" "0 \<le> env z Zmq_ctx_new" "env z (Zmq_send s b) = int (length b)"
    "env z (Zmq_setsockopt s opt) = 0" "env z (Zmq_get_last_endpoint s) = 0" "env z (Zmq_socket_monitor s n m) = 0"
    "env z (Zmq_connect s u) = 0" "env z (Zmq_disconnect s u) = 0" "env z (Zmq_bind s u) = 0" "env z (Zmq_unbind s u) = 0"
    "env z (Zmq_close s) = 0" "env z (Wthread_create th) = 0" "env z (Wthread_join th) = 0"
proof -
  note a = assms[unfolded env_succeeds_def, rule_format, of z]
  show "0 \<le> env z (Zmq_socket ty)"
    "0 \<le> env z Wlock_create"
    "0 \<le> env z Zmq_ctx_new"
    "env z (Zmq_send s b) = int (length b)"
    "env z (Zmq_setsockopt s opt) = 0"
    "env z (Zmq_get_last_endpoint s) = 0"
    "env z (Zmq_socket_monitor s n m) = 0"
    "env z (Zmq_connect s u) = 0"
    "env z (Zmq_disconnect s u) = 0"
    "env z (Zmq_bind s u) = 0"
    "env z (Zmq_unbind s u) = 0"
    "env z (Zmq_close s) = 0"
    "env z (Wthread_create th) = 0"
    "env z (Wthread_join th) = 0"
    using a[of "Zmq_socket ty"]
      a[of "Wlock_create"]
      a[of "Zmq_ctx_new"]
      a[of "Zmq_send s b"]
      a[of "Zmq_setsockopt s opt"]
      a[of "Zmq_get_last_endpoint s"]
      a[of "Zmq_socket_monitor s n m"]
      a[of "Zmq_connect s u"]
      a[of "Zmq_disconnect s u"]
      a[of "Zmq_bind s u"]
      a[of "Zmq_unbind s u"]
      a[of "Zmq_close s"]
      a[of "Wthread_create th"]
      a[of "Wthread_join th"]
    by simp_all
qed

lemma demo_env_succeeds: "env_succeeds demo_env"
  by (simp add: env_succeeds_def demo_env_def split: zcall.split)

definition stmt_good :: "(('t, 'u, 'p, 'l) oz_proc \<Rightarrow> (mama_status \<times> ('t, 'u, 'p, 'l) oz_proc) option) \<Rightarrow> bool" where
  "stmt_good f \<longleftrightarrow> stmt_ok f \<and> (\<forall>w s w'. f w = Some (s, w') \<longrightarrow> s = MAMA_STATUS_OK)"

lemma stmt_good_seq: "(\<And>f. f \<in> set fs \<Longrightarrow> stmt_good f) \<Longrightarrow> stmt_good (call_seq fs)"
proof -
  assume g: "\<And>f. f \<in> set fs \<Longrightarrow> stmt_good f"
  have "call_seq fs w = Some (s, w') \<Longrightarrow> s = MAMA_STATUS_OK" for w s w'
    using g
  proof (induction fs arbitrary: w)
    case (Cons f fs)
    from Cons.prems(1) obtain r v where f: "f w = Some (r, v)"
      and c: "(if r = MAMA_STATUS_OK then call_seq fs v else Some (r, v)) = Some (s, w')"
      by (auto simp: CALL_MAMA_FUNC_Some split: if_splits)
    have "stmt_good f" by (rule Cons.prems(2)) simp
    with f have "r = MAMA_STATUS_OK" unfolding stmt_good_def by blast
    with c have "call_seq fs v = Some (s, w')" by simp
    then show ?case by (rule Cons.IH) (simp add: Cons.prems(2))
  qed simp
  with stmt_ok_seq[of fs] g show ?thesis by (auto simp: stmt_good_def)
qed

lemma stmt_good_zstmt:
  assumes "\<And>t z. fst (run_state (f t) z) = MAMA_STATUS_OK" "stmt_ok (zstmt f)"
  shows "stmt_good (zstmt f)"
  using assms by (auto simp: stmt_good_def zstmt_def zrun_def split_beta)

lemma createSocket_ok:
  "env_succeeds env \<Longrightarrow> fst (fst (run_state (zmqBridgeMamaTransportImpl_createSocket env m sk ty nm mon) z)) = MAMA_STATUS_OK"
  using env_succeedsD(1)[of env z ty]
  by (simp add: zmqBridgeMamaTransportImpl_createSocket_def Let_def env_succeedsD not_less split: option.split)

lemma sock_fun_ok:
  assumes "env_succeeds env"
  shows "fst (run_state (zmqBridgeMamaTransportImpl_connectSocket env sk u r hb) z) = MAMA_STATUS_OK"
    "fst (run_state (bind_only env sk u) z) = MAMA_STATUS_OK"
    "fst (run_state (zmqBridgeMamaTransportImpl_setCommonSocketOptions env sk) z) = MAMA_STATUS_OK"
    "fst (run_state (zmqBridgeMamaTransportImpl_stopReconnectOnError env sk n) z) = MAMA_STATUS_OK"
    "fst (run_state (zmqBridgeMamaTransportImpl_subscribe env s u) z) = MAMA_STATUS_OK"
    "fst (run_state (zmqBridgeMamaTransportImpl_disconnectSocket env sk u) z) = MAMA_STATUS_OK"
    "fst (run_state (zmqBridgeMamaTransportImpl_unbindSocket env sk u) z) = MAMA_STATUS_OK"
    "fst (run_state (zmqBridgeMamaTransportImpl_destroySocket env ev sk) z) = MAMA_STATUS_OK"
    "fst (fst (run_state (zmqBridgeMamaTransportImpl_bindSocket env ep sk u b) z)) = MAMA_STATUS_OK"
  by (auto simp: zop_defs bind_only_def zmqBridgeMamaTransportImpl_subscribe_def zmqBridgeMamaTransportImpl_destroySocket_def
    env_succeedsD[OF assms])

lemma stmt_good_create:
  assumes "env_succeeds env" "stmt_ok (create_socket env m sel upd ty nm mon)"
  shows "stmt_good (create_socket env m sel upd ty nm mon)"
  using assms createSocket_ok[OF assms(1), of m _ ty "Some nm" mon]
  by (auto simp: stmt_good_def create_socket_def zrun_def split_beta Let_def)

lemma stmt_good_startMonitor: "env_succeeds env \<Longrightarrow> stmt_good (zmqBridgeMamaTransportImpl_startMonitor env m)"
  using stmt_ok_startMonitor[of env m] createSocket_ok[of env m] sock_fun_ok(1,2)[of env] env_succeedsD(13)[of env]
  by (auto simp: stmt_good_def zmqBridgeMamaTransportImpl_startMonitor_def CALL_MAMA_FUNC_Some create_socket_def zstmt_def zrun_def
    split_beta Let_def split: if_splits)

lemma stmt_good_bind_publisher: "env_succeeds env \<Longrightarrow> stmt_good (bind_publisher env ie)"
  using stmt_ok_bind_publisher[of env ie] sock_fun_ok(9)[of env "ie_endpoint ie"]
  by (auto simp: stmt_good_def bind_publisher_def zrun_def split_beta Let_def bind_Some_conv)

lemma naming_stmts_good:
  fixes f :: "('t, 'u, 'p, 'l) oz_proc \<Rightarrow> (mama_status \<times> ('t, 'u, 'p, 'l) oz_proc) option"
  assumes e: "env_succeeds env" and f: "f \<in> set (control_sockets env ie @ data_sockets env ie mon @ naming_sockets env ie mon @
      [zmqBridgeMamaTransportImpl_startMonitor env (ie_evmask ie)] @ naming_connects env ie na)"
  shows "stmt_good f"
proof -
  have "stmt_ok f" by (rule init_stmts_ok[where mon = mon and na = na and oa = "[]" and ia = "[]"]) (use f in auto)
  with f stmt_good_startMonitor[OF e, of "ie_evmask ie"] stmt_good_bind_publisher[OF e, of ie] show ?thesis
    by (auto simp: control_sockets_def data_sockets_def naming_sockets_def naming_connects_def sock_fun_ok[OF e]
      intro: stmt_good_create[OF e] intro!: stmt_good_zstmt)
qed

lemma init_good_naming:
  fixes w :: "('t, 'u, 'p, 'l) oz_proc"
  assumes e: "env_succeeds env" and n: "mIsNaming (tport w) = 1" and s: "zmqBridgeMamaTransportImpl_init env ie w = Some (s, w')"
  shows "s = MAMA_STATUS_OK"
proof -
  let ?w = "snd (zrun (zdo env Zmq_ctx_new) w)"
  let ?m = "mSocketMonitor (tport w)"
  let ?fs = "control_sockets env ie @ data_sockets env ie ?m @ naming_sockets env ie ?m @
     (if ?m \<noteq> 0 then [zmqBridgeMamaTransportImpl_startMonitor env (ie_evmask ie)] else []) @
     naming_connects env ie (addresses (mNamingAddress (tport w)))"
  have "stmt_good (call_seq ?fs)"
    by (intro stmt_good_seq naming_stmts_good[OF e, where mon = ?m and na = "addresses (mNamingAddress (tport w))"])
      (auto split: if_splits)
  moreover have "zmqBridgeMamaTransportImpl_init env ie w = call_seq ?fs ?w"
    using n env_succeedsD(3)[OF e, of "zcalls w"]
    by (simp add: zmqBridgeMamaTransportImpl_init_def Let_def split_beta del: call_seq_append)
  ultimately show ?thesis using s unfolding stmt_good_def by metis
qed

subsection \<open>Start\<close>

text \<open>What the other threads do during a wait leaves the registries and queues alone.\<close>

definition quiet :: "(int \<Rightarrow> ('t, 'u, 'p, 'l) oz_proc \<Rightarrow> ('t, 'u, 'p, 'l) oz_proc) \<Rightarrow> bool" where
  "quiet idle \<longleftrightarrow> (\<forall>n w. same_reg w (idle n w) \<and> queue_store (idle n w) = queue_store w)"

lemma start_wait_inv:
  assumes "\<And>n w. P w \<Longrightarrow> P (idle n w)" "\<And>w. P w \<Longrightarrow> P (snd (zrun (zdo env (Usleep (mNamingConnectInterval (tport w)))) w))" "P w"
  shows "P (start_wait env idle n w)"
  using assms
proof (induction env idle n w rule: start_wait.induct)
  case (1 env idle n w)
  show ?case
  proof (cases "0 < n - 1 \<and> mNamingConnected (tport w) \<noteq> 1")
    case True
    have "P (start_wait env idle (n - 1) (idle (n - 1) (snd (zrun (zdo env (Usleep (mNamingConnectInterval (tport w)))) w))))"
      by (rule "1.IH"[OF True, OF refl prod.collapse]) (use 1 in blast)+
    with True show ?thesis by (subst start_wait.simps) (simp add: split_beta Let_def)
  next
    case False
    with 1(4) show ?thesis by (subst start_wait.simps) (simp only: if_False)
  qed
qed

lemma start_wait_quiet:
  assumes "quiet idle"
  shows "same_reg w (start_wait env idle n w) \<and> queue_store (start_wait env idle n w) = queue_store w"
proof (rule start_wait_inv[where P = "\<lambda>v. same_reg w v \<and> queue_store v = queue_store w"])
  show "same_reg w (idle n v) \<and> queue_store (idle n v) = queue_store w" if "same_reg w v \<and> queue_store v = queue_store w" for n v
    using that assms same_reg_trans unfolding quiet_def by metis
qed simp_all

definition sleeps :: "('t, 'u, 'p, 'l) oz_proc \<Rightarrow> nat" where
  "sleeps w = length (filter (\<lambda>c. case c of Usleep n \<Rightarrow> True | _ \<Rightarrow> False) (zcalls w))"

lemma start_wait_bounded:
  fixes w :: "('t, 'u, 'p, 'l) oz_proc"
  assumes "\<And>n (v :: ('t, 'u, 'p, 'l) oz_proc). sleeps (idle n v) = sleeps v"
  shows "sleeps (start_wait env idle n w) \<le> sleeps w + nat (n - 1) \<and>
    (mNamingConnected (tport (start_wait env idle n w)) \<noteq> 1 \<longrightarrow> sleeps (start_wait env idle n w) = sleeps w + nat (n - 1))"
  using assms
proof (induction env idle n w rule: start_wait.induct)
  case (1 env idle n w)
  show ?case
  proof (cases "0 < n - 1 \<and> mNamingConnected (tport w) \<noteq> 1")
    case True
    let ?v = "snd (zrun (zdo env (Usleep (mNamingConnectInterval (tport w)))) w)"
    have "sleeps (idle (n - 1) ?v) = sleeps w + 1" using 1(2) by (simp add: sleeps_def)
    moreover note "1.IH"[OF True, OF refl prod.collapse 1(2)]
    moreover have "start_wait env idle n w = start_wait env idle (n - 1) (idle (n - 1) ?v)"
      using True by (subst start_wait.simps) (simp add: split_beta Let_def)
    moreover have "Suc (nat (n - 1 - 1)) = nat (n - 1)" using True by linarith
    ultimately show ?thesis by (metis (no_types, lifting) add.assoc plus_1_eq_Suc)
  next
    case False
    then have "start_wait env idle n w = w" by (subst start_wait.simps) (simp only: if_False)
    with False show ?thesis by auto
  qed
qed

text \<open>
  The wait of \<open>zmqBridgeMamaTransportImpl_start\<close> for the naming service is bounded: it sleeps at most
  \<open>mNamingConnectRetries - 1\<close> times, whatever the other threads do meanwhile. It returns \<open>MAMA_STATUS_OK\<close> only when the
  transport is connected, and \<open>MAMA_STATUS_TIMEOUT\<close> only when it is not after all these sleeps.
\<close>

theorem start_bounded:
  fixes w :: "('t, 'u, 'p, 'l) oz_proc"
  assumes "\<forall>n (v :: ('t, 'u, 'p, 'l) oz_proc). sleeps (idle n v) = sleeps v"
    "mIsNaming (tport w) = 1" "mNamingWaitForConnect (tport w) = 1" "env (zcalls w) (Wthread_create DispatchThread) = 0"
  shows "\<exists>s w'. zmqBridgeMamaTransportImpl_start env idle w = Some (s, w') \<and>
     (let slept = sleeps w' - sleeps w; most = nat (mNamingConnectRetries (tport w) - 1)
      in slept \<le> most \<and>
         (if mNamingConnected (tport w') = 1 then s = MAMA_STATUS_OK else s = MAMA_STATUS_TIMEOUT \<and> slept = most))"
proof -
  let ?v = "snd (zrun (zdo env (Wthread_create DispatchThread)) w)"
  let ?w = "start_wait env idle (mNamingConnectRetries (tport w)) ?v"
  have "sleeps ?v = sleeps w" by (simp add: sleeps_def)
  with start_wait_bounded[of idle env "mNamingConnectRetries (tport w)" ?v] assms(1)
  have "sleeps ?w \<le> sleeps w + nat (mNamingConnectRetries (tport w) - 1)"
    "mNamingConnected (tport ?w) \<noteq> 1 \<Longrightarrow> sleeps ?w = sleeps w + nat (mNamingConnectRetries (tport w) - 1)" by auto
  moreover have "zmqBridgeMamaTransportImpl_start env idle w =
      Some (if mNamingConnected (tport ?w) \<noteq> 1 then MAMA_STATUS_TIMEOUT else MAMA_STATUS_OK, ?w)"
    using assms(2-4) by (simp add: zmqBridgeMamaTransportImpl_start_def Let_def split_beta)
  ultimately show ?thesis using le_diff_conv by (simp add: Let_def add.commute)
qed

theorem start_bounded_witness:
  "\<exists>s w'. zmqBridgeMamaTransportImpl_start demo_env (\<lambda>n v. v) (upd_tport (\<lambda>t. t\<lparr>mNamingWaitForConnect := 1\<rparr>) demo_proc) = Some (s, w') \<and>
     sleeps w' \<le> 99"
  using start_bounded[of "\<lambda>n v. v" "upd_tport (\<lambda>t. t\<lparr>mNamingWaitForConnect := 1\<rparr>) demo_proc" demo_env]
  by (auto simp: demo_proc_def demo_tport_def demo_env_def sleeps_def Let_def)

subsection \<open>Stop and destruction\<close>

definition closings :: "zworld \<Rightarrow> nat list" where
  "closings z = concat (map (\<lambda>c. case c of Zmq_close s \<Rightarrow> [s] | _ \<Rightarrow> []) z)"

lemma closings_simps [simp]:
  "closings [] = []" "closings (a @ b) = closings a @ closings b"
  "closings (c # b) = (case c of Zmq_close s \<Rightarrow> [s] | _ \<Rightarrow> []) @ closings b"
  by (simp_all add: closings_def)

lemma closings_send [simp]: "closings (send_calls sk b) = []"
  by (simp add: send_calls_def)

lemma in_send_calls [simp]: "Wthread_join th \<notin> set (send_calls sk b)"
  by (simp add: send_calls_def)

definition stop_msg :: bytes where
  "stop_msg = control_msg (CHR ''X'') (replicate (MAX_SUBJECT_LENGTH + 1) NUL)"

text \<open>The calls of \<open>zmqBridgeMamaTransportImpl_stop\<close> up to the statement that returns.\<close>

lemma stop_exact:
  assumes "naming_ok L h w" "0 < mIsReady (tport w)" "mIsNaming (tport w) = 1"
  shows "\<exists>s cs. zmqBridgeMamaTransportImpl_stop L h env w =
       Some (s, w\<lparr>tport := (tport w)\<lparr>mBeaconInterval := 0, mIsReady := mIsReady (tport w) - 1\<rparr>, zcalls := zcalls w @ cs\<rparr>) \<and>
     closings cs = [] \<and> (s = MAMA_STATUS_OK \<longrightarrow> Wthread_join DispatchThread \<in> set cs) \<and>
     (env (zcalls w @ [Wlock_lock (mLock (mZmqNamingPub (tport w)))])
        (Zmq_send (mSocket (mZmqNamingPub (tport w))) (announcement h (CHR ''D'') w)) \<noteq> int sizeof_zmqNamingMsg
      \<longrightarrow> Wthread_join DispatchThread \<notin> set cs)"
proof -
  let ?t = "(tport w)\<lparr>mBeaconInterval := 0, mIsReady := mIsReady (tport w) - 1\<rparr>"
  let ?d = "send_calls (mZmqNamingPub (tport w)) (announcement h (CHR ''D'') w)"
  let ?x = "[Wlock_lock (mLock (mZmqControlPub (tport w))), Zmq_send (mSocket (mZmqControlPub (tport w))) stop_msg,
     Wlock_unlock (mLock (mZmqControlPub (tport w)))]"
  have n: "naming_ok L h (w\<lparr>tport := ?t\<rparr>)" using assms(1) by (simp add: naming_ok_def)
  let ?p = "env (zcalls w @ [Wlock_lock (mLock (mZmqNamingPub (tport w)))])
        (Zmq_send (mSocket (mZmqNamingPub (tport w))) (announcement h (CHR ''D'') w)) \<noteq> int sizeof_zmqNamingMsg"
  let ?q = "env (zcalls w @ ?d @ [Wlock_lock (mLock (mZmqControlPub (tport w)))]) (Zmq_send (mSocket (mZmqControlPub (tport w))) stop_msg) \<le> 0"
  let ?j = "env (zcalls w @ ?d @ ?x) (Wthread_join DispatchThread) \<noteq> 0"
  let ?s = "if ?p \<or> ?q \<or> ?j then MAMA_STATUS_PLATFORM else MAMA_STATUS_OK"
  let ?cs = "if ?p then ?d else if ?q then ?d @ ?x else ?d @ ?x @ [Wthread_join DispatchThread]"
  have "zmqBridgeMamaTransportImpl_stop L h env w = Some (?s, w\<lparr>tport := ?t, zcalls := zcalls w @ ?cs\<rparr>)"
    using assms(2,3) sendEndpoints_eq[OF n, of env "CHR ''D''"]
    by (simp add: zmqBridgeMamaTransportImpl_stop_def zmqBridgeMamaTransportImpl_sendCommand_def zrun_def stop_msg_def split_beta)
  moreover have "closings ?cs = []" "?s = MAMA_STATUS_OK \<longrightarrow> Wthread_join DispatchThread \<in> set ?cs"
    "?p \<longrightarrow> Wthread_join DispatchThread \<notin> set ?cs" by simp_all
  ultimately show ?thesis by blast
qed

lemma destroy_sockets_calls:
  "\<exists>cs. destroy_sockets env ev sks w = w\<lparr>zcalls := zcalls w @ cs\<rparr> \<and> closings cs = map mSocket sks \<and> (\<forall>th. Wthread_join th \<notin> set cs)"
proof (induction sks arbitrary: w)
  case (Cons sk sks)
  let ?c = "[Wlock_lock (mLock sk)] @ (if mMonitor sk \<noteq> 0 then [Zmq_socket_monitor (mSocket sk) None ev] else []) @
    [Zmq_close (mSocket sk), Wlock_unlock (mLock sk), Wlock_destroy (mLock sk)]"
  have 1: "snd (zrun (zmqBridgeMamaTransportImpl_destroySocket env ev sk) w) = w\<lparr>zcalls := zcalls w @ ?c\<rparr>"
    by (simp add: zmqBridgeMamaTransportImpl_destroySocket_def zrun_def)
  obtain cs where cs: "destroy_sockets env ev sks (w\<lparr>zcalls := zcalls w @ ?c\<rparr>) = w\<lparr>zcalls := (zcalls w @ ?c) @ cs\<rparr>"
    "closings cs = map mSocket sks" "\<forall>th. Wthread_join th \<notin> set cs"
    using Cons.IH[of "w\<lparr>zcalls := zcalls w @ ?c\<rparr>"] by auto
  have "destroy_sockets env ev (sk # sks) w = w\<lparr>zcalls := zcalls w @ ?c @ cs\<rparr>"
    using cs(1) by (simp add: destroy_sockets_def 1[simplified])
  with cs(2,3) show ?case by (intro exI[of _ "?c @ cs"]) simp
qed (auto simp: destroy_sockets_def intro!: exI[of _ "[]"])

lemma stopMonitor_calls:
  "\<exists>s w' cs. zmqBridgeMamaTransportImpl_stopMonitor env ev w = Some (s, w') \<and> zcalls w' = zcalls w @ cs \<and>
     Wthread_join DispatchThread \<notin> set cs"
proof -
  define I where "I v \<longleftrightarrow> (\<exists>cs. zcalls v = zcalls w @ cs \<and> Wthread_join DispatchThread \<notin> set cs)" for v :: "('a, 'b, 'c, 'd) oz_proc"
  have st: "\<exists>s v'. zstmt f v = Some (s, v') \<and> I v'"
    if "I v" "\<And>t z. \<exists>cs. snd (run_state (f t) z) = z @ cs \<and> Wthread_join DispatchThread \<notin> set cs" for f v
  proof -
    from that(2)[of "tport v" "zcalls v"] obtain cs where "snd (run_state (f (tport v)) (zcalls v)) = zcalls v @ cs"
      "Wthread_join DispatchThread \<notin> set cs" by blast
    with that(1) show ?thesis by (auto simp: zstmt_def zrun_def I_def split_beta)
  qed
  let ?fs = "[zstmt (\<lambda>t. zmqBridgeMamaTransportImpl_disconnectSocket env (mZmqMonitorPub t) ZMQ_MONITOR_ENDPOINT),
        zstmt (\<lambda>t. zmqBridgeMamaTransportImpl_destroySocket env ev (mZmqMonitorPub t)),
        zstmt (\<lambda>t. zmqBridgeMamaTransportImpl_unbindSocket env (mZmqMonitorSub t) ZMQ_MONITOR_ENDPOINT),
        zstmt (\<lambda>t. zmqBridgeMamaTransportImpl_destroySocket env ev (mZmqMonitorSub t))]"
  let ?v = "snd (zrun (zdo env (Wthread_join MonitorThread)) (snd (zrun (zdo env (Zmq_send (mSocket (mZmqMonitorPub (tport w))) stop_msg))
    (upd_tport (\<lambda>t. t\<lparr>mIsMonitoring := 0\<rparr>) w))))"
  have "I ?v" by (simp add: I_def)
  then have "\<exists>s w'. call_seq ?fs ?v = Some (s, w') \<and> I w'"
    by (intro call_seq_inv[where I = I]) (auto intro!: st simp: zop_defs zmqBridgeMamaTransportImpl_destroySocket_def)
  moreover have "zmqBridgeMamaTransportImpl_stopMonitor env ev w = call_seq ?fs ?v"
    by (simp add: zmqBridgeMamaTransportImpl_stopMonitor_def Let_def split_beta stop_msg_def del: call_seq.simps)
  ultimately show ?thesis unfolding I_def by auto
qed



subsection \<open>Creation\<close>

definition containers :: "('t, 'u, 'p, 'l) zmqTransportBridge \<Rightarrow> 't \<times> 'p \<times> 'l" where
  "containers t = (mInboxes t, mSubEndpoints t, mWcEndpoints t)"

lemma extra_naming_address_containers: "extra_naming_address props i sfx t = Some t' \<Longrightarrow> containers t' = containers t"
  by (auto simp: extra_naming_address_def containers_def bind_Some_conv split: option.splits if_splits)

lemma parse_params_containers:
  assumes "parse_params atof k props t = Some t'"
  shows "containers t' = containers t"
proof -
  obtain t1 l where c: "zmqBridgeMamaTransportImpl_parseCommonParams atof k props t = Some (t1, l)"
    and n: "(if mIsNaming t1 = 1 then zmqBridgeMamaTransportImpl_parseNamingParams atof props t1
      else zmqBridgeMamaTransportImpl_parseNonNamingParams props t1) = Some t'"
    using assms by (auto simp: parse_params_def bind_Some_conv)
  have "containers t1 = containers t"
    using c by (auto simp: zmqBridgeMamaTransportImpl_parseCommonParams_def bind_Some_conv Let_def containers_def)
  moreover have "containers t' = containers t1"
  proof (cases "mIsNaming t1 = 1")
    case True
    with n have "zmqBridgeMamaTransportImpl_parseNamingParams atof props t1 = Some t'" by simp
    then show ?thesis
      by (auto simp: zmqBridgeMamaTransportImpl_parseNamingParams_def bind_Some_conv Let_def containers_def
        dest!: extra_naming_address_containers[unfolded containers_def])
  next
    case False
    with n show ?thesis
      by (auto simp: zmqBridgeMamaTransportImpl_parseNonNamingParams_def bind_Some_conv Let_def containers_def split: prod.splits)
  qed
  ultimately show ?thesis by simp
qed

text \<open>The settings of the parameters that initialisation and start use, kept by the creation of the registries.\<close>

lemma create_registries_keeps:
  "create_registries env ce w = (s, w') \<Longrightarrow> containers (tport w') = containers (tport w) \<and> settings (tport w') = settings (tport w) \<and>
     queue_store w' = queue_store w \<and> inbox_store w' = inbox_store w \<and> sub_store w' = sub_store w"
  by (auto simp: create_registries_def new_lock_def Let_def split_beta containers_def settings_def split: if_splits)

definition fresh_containers :: "('t, 'p, 'l) mama_lib \<Rightarrow> ('t, 'u, 'p, 'l) create_env \<Rightarrow> bool" where
  "fresh_containers L ce \<longleftrightarrow> (\<forall>k. wtable_lookup L (snd (ce_inboxes ce)) k = None) \<and> (\<forall>k. pool_map L (snd (ce_subs ce)) k = None) \<and>
     list_elements L (snd (ce_wcs ce)) = []"

definition all_created :: "('t, 'u, 'p, 'l) create_env \<Rightarrow> bool" where
  "all_created ce \<longleftrightarrow> ce_calloc ce \<and> fst (ce_wcs ce) \<and> fst (ce_peers ce) \<and> fst (ce_inboxes ce) \<and> fst (ce_subs ce) = MAMA_STATUS_OK \<and>
     ce_uuid_rc ce \<noteq> - 1"

lemma start_keeps:
  assumes "quiet idle"
  shows "\<exists>s w'. zmqBridgeMamaTransportImpl_start env idle w = Some (s, w') \<and> same_reg w w' \<and> queue_store w' = queue_store w \<and>
     (env_succeeds env \<and> mNamingWaitForConnect (tport w) \<noteq> 1 \<longrightarrow> s = MAMA_STATUS_OK)"
proof -
  let ?v = "snd (zrun (zdo env (Wthread_create DispatchThread)) w)"
  have "same_reg w ?v" "queue_store ?v = queue_store w" by simp_all
  with start_wait_quiet[OF assms, of ?v env "mNamingConnectRetries (tport w)"] same_reg_trans[of w ?v]
  show ?thesis by (auto simp: zmqBridgeMamaTransportImpl_start_def Let_def split_beta env_succeedsD(13))
qed

lemma init_start:
  assumes "quiet idle" "length (mPublishAddress (tport w)) \<le> 248"
  shows "\<exists>s w'. CALL_MAMA_FUNC (zmqBridgeMamaTransportImpl_init env ie w) (zmqBridgeMamaTransportImpl_start env idle) = Some (s, w') \<and>
     same_reg w w' \<and> queue_store w' = queue_store w \<and>
     (env_succeeds env \<and> mIsNaming (tport w) = 1 \<and> mNamingWaitForConnect (tport w) \<noteq> 1 \<longrightarrow> s = MAMA_STATUS_OK)"
proof -
  obtain s w1 where i: "zmqBridgeMamaTransportImpl_init env ie w = Some (s, w1)" "tport_only w w1"
    using stmt_ok_init[of env ie] assms(2) unfolding stmt_ok_def by blast
  obtain r w2 where st: "zmqBridgeMamaTransportImpl_start env idle w1 = Some (r, w2)" "same_reg w1 w2" "queue_store w2 = queue_store w1"
    "env_succeeds env \<and> mNamingWaitForConnect (tport w1) \<noteq> 1 \<longrightarrow> r = MAMA_STATUS_OK" using start_keeps[OF assms(1)] by blast
  have k: "same_reg w w1" "queue_store w1 = queue_store w" "mNamingWaitForConnect (tport w1) = mNamingWaitForConnect (tport w)"
    using i(2) by (simp_all add: tport_only_def settings_def)
  show ?thesis
  proof (cases "s = MAMA_STATUS_OK")
    case True
    with i(1) st k same_reg_trans[OF k(1) st(2)] show ?thesis by simp
  next
    case False
    then have "\<not> (env_succeeds env \<and> mIsNaming (tport w) = 1)" using init_good_naming[OF _ _ i(1)] by blast
    with False i(1) k show ?thesis by auto
  qed
qed


definition demo_create_env ::
  "((cstring \<times> nat) list, (cstring \<times> bytes) list, ((cstring \<times> cstring) \<times> nat) list, nat list) create_env" where
  "demo_create_env = \<lparr>ce_calloc = True, ce_wcs = (True, []), ce_peers = (True, []), ce_inboxes = (True, []),
     ce_subs = (MAMA_STATUS_OK, []), ce_uuid_rc = 0, ce_uuid = demo_uuid\<rparr>"

definition demo_props :: properties where
  "demo_props = [param_name ''oz'' ''naming.wait_for_connect'' \<mapsto> ''0'']"

definition demo_consts :: param_consts where
  "demo_consts = \<lparr>pc_conn_refused = 1, pc_level_off = 0, pc_level_normal = 2, pc_level_finer = 4\<rparr>"

lemma demo_params:
  "map_option (\<lambda>t. (length (mPublishAddress t), mIsNaming t, mNamingWaitForConnect t))
     (parse_params (\<lambda>s. 1) demo_consts demo_props (new_transport demo_create_env ''oz'' (Some 0))) = Some (9, 1, 0)"
proof -
  have p: "demo_props (take 1023 (param_name ''oz'' p)) = (if p = ''naming.wait_for_connect'' then Some ''0'' else None)" if "length p \<le> 100" for p
    using that by (simp add: demo_props_def param_name_def TPORT_PARAM_PREFIX_def)
  have f: "getFloat (\<lambda>s. 1) demo_props n p d m = Some (if 1 < m then m else 1)" for n p d m
    by (simp add: getFloat_def zmqBridgeMamaTransportImpl_getParameter_def zmqBridgeMamaTransportImpl_getParameterWithVaList_def
      split: option.split)
  have "str_to_int ''0'' = 0" by code_simp
  then have w: "getInt demo_props ''oz'' ''naming.wait_for_connect'' 1 0 = Some 0"
    using p[of "''naming.wait_for_connect''"] by (simp add: getInt_def zmqBridgeMamaTransportImpl_getParameter_def
      zmqBridgeMamaTransportImpl_getParameterWithVaList_def PARAM_NAME_MAX_LENGTH_def atoi_def)
  have e: "tcp_endpoint ''127.0.0.1'' (fmt_d 5756) = Some (''tcp://127.0.0.1:'' @ fmt_d 5756)"
    by (simp add: tcp_endpoint_def fmt_d_def dec_of.simps[of 5756] dec_of.simps[of 575] dec_of.simps[of 57] dec_of.simps[of 5])
  have n: "t_mName (new_transport demo_create_env ''oz'' (Some 0)) = ''oz''" by (simp add: new_transport_def)
  show ?thesis
    by (simp add: e parse_params_def zmqBridgeMamaTransportImpl_parseCommonParams_def zmqBridgeMamaTransportImpl_parseNamingParams_def
      extra_naming_address_def n p w f getInt_unset getStr_unset demo_consts_def to_int_def to_uint32_def rat_trunc_def Let_def)
qed


end
