(* ===== verification/Dispatch_Thread.thy ===== *)
theory Dispatch_Thread
  imports Naming Dispatch
begin

text \<open>
  The main dispatch thread of a transport, \<open>zmqBridgeMamaTransportImpl_dispatchThread\<close> in
  \<open>src/src/transport.c\<close>: it polls the control, naming and data sockets, sends beacons, and hands
  every received message to one of the three \<open>dispatch\<close> functions.
\<close>

subsection \<open>What the environment does in one iteration\<close>

text \<open>
  One iteration of the loop: whether \<open>zmq_poll\<close> fails with an error other than \<open>EINTR\<close>, the time that
  \<open>getMillis\<close> gives after it, and for each socket that has \<open>ZMQ_POLLIN\<close> set the messages that
  \<open>zmq_msg_recv\<close> yields until it fails. \<open>pr_mem\<close> is the outcome of \<open>malloc\<close>, \<open>pr_other\<close> what the other
  threads do while this one is in \<open>zmq_poll\<close>.
\<close>

record ('t, 'u, 'p, 'l) poll_round =
  pr_error :: bool
  pr_now :: "64 word"
  pr_control :: "bytes list option"
  pr_naming :: "bytes list option"
  pr_data :: "bytes list option"
  pr_mem :: bool
  pr_other :: "('t, 'u, 'p, 'l) oz_proc \<Rightarrow> ('t, 'u, 'p, 'l) oz_proc"

subsection \<open>Draining a socket\<close>

text \<open>A message of size zero ends the loop like a failed receive; the results of the handlers are ignored.\<close>

fun drain_socket ::
  "zenv \<Rightarrow> (('t, 'u, 'p, 'l) zmqTransportBridge \<Rightarrow> zmqSocket)
     \<Rightarrow> (bytes \<Rightarrow> ('t, 'u, 'p, 'l) oz_proc \<Rightarrow> (mama_status \<times> ('t, 'u, 'p, 'l) oz_proc) option) \<Rightarrow> bytes list
     \<Rightarrow> ('t, 'u, 'p, 'l) oz_proc \<Rightarrow> ('t, 'u, 'p, 'l) oz_proc option" where
  "drain_socket env sel handle [] w = Some (snd (zrun (zdo env (Zmq_msg_recv (mSocket (sel (tport w))))) w))"
| "drain_socket env sel handle (zmsg # msgs) w =
     (let w = snd (zrun (zdo env (Zmq_msg_recv (mSocket (sel (tport w))))) w)
      in if zmsg = [] then Some w
         else Option.bind (handle zmsg w) (\<lambda>(_, w). drain_socket env sel handle msgs w))"

definition drain_ready ::
  "zenv \<Rightarrow> (('t, 'u, 'p, 'l) zmqTransportBridge \<Rightarrow> zmqSocket)
     \<Rightarrow> (bytes \<Rightarrow> ('t, 'u, 'p, 'l) oz_proc \<Rightarrow> (mama_status \<times> ('t, 'u, 'p, 'l) oz_proc) option) \<Rightarrow> bytes list option
     \<Rightarrow> ('t, 'u, 'p, 'l) oz_proc \<Rightarrow> ('t, 'u, 'p, 'l) oz_proc option" where
  "drain_ready env sel handle ready w = (case ready of None \<Rightarrow> Some w | Some msgs \<Rightarrow> drain_socket env sel handle msgs w)"

subsection \<open>Beacons\<close>

text \<open>The difference of the two \<open>uint64_t\<close> becomes a \<open>long\<close>.\<close>

definition poll_timeout :: "32 word \<Rightarrow> 64 word \<Rightarrow> 64 word \<Rightarrow> int" where
  "poll_timeout beaconInterval lastBeacon nextBeacon = (if 0 < beaconInterval then sint (nextBeacon - lastBeacon) else - 1)"

definition send_beacon ::
  "('t, 'p, 'l) mama_lib \<Rightarrow> host_env \<Rightarrow> zenv \<Rightarrow> 64 word \<Rightarrow> 64 word \<Rightarrow> 64 word \<Rightarrow> ('t, 'u, 'p, 'l) oz_proc
     \<Rightarrow> (64 word \<times> 64 word \<times> ('t, 'u, 'p, 'l) oz_proc) option" where
  "send_beacon L h env now lastBeacon nextBeacon w =
     (let beaconInterval = mBeaconInterval (tport w)
      in if 0 < nextBeacon \<and> 0 < beaconInterval \<and> nextBeacon \<le> now
         then do {
           (_, w) \<leftarrow> zmqBridgeMamaTransportImpl_sendEndpointsMsg L h env (CHR ''c'') w;
           Some (now, now + ucast beaconInterval, w)
         }
         else Some (lastBeacon, nextBeacon, w))"

subsection \<open>The loop\<close>

definition dispatch_round ::
  "('t, 'p, 'l) mama_lib \<Rightarrow> 'u peer_lib \<Rightarrow> host_env \<Rightarrow> zenv \<Rightarrow> ('t, 'u, 'p, 'l) poll_round \<Rightarrow> 64 word \<Rightarrow> 64 word
     \<Rightarrow> ('t, 'u, 'p, 'l) oz_proc \<Rightarrow> (64 word \<times> 64 word \<times> ('t, 'u, 'p, 'l) oz_proc) option" where
  "dispatch_round L P h env r lastBeacon nextBeacon w = do {
     let naming = (mIsNaming (tport w) = 1);
     let timeout = poll_timeout (mBeaconInterval (tport w)) lastBeacon nextBeacon;
     let w = pr_other r (snd (zrun (zdo env (Zmq_poll (if naming then 3 else 2) timeout)) w));
     if pr_error r then Some (lastBeacon, nextBeacon, w)
     else do {
       let w = upd_tport (\<lambda>t. t\<lparr>mPolls := mPolls t + 1\<rparr>) w;
       (lastBeacon, nextBeacon, w) \<leftarrow> send_beacon L h env (pr_now r) lastBeacon nextBeacon w;
       w \<leftarrow> drain_ready env mZmqControlSub (zmqBridgeMamaTransportImpl_dispatchControlMsg env) (pr_control r) w;
       w \<leftarrow> drain_ready env mZmqNamingSub (zmqBridgeMamaTransportImpl_dispatchNamingMsg L P h env (pr_mem r))
              (if naming then pr_naming r else None) w;
       w \<leftarrow> drain_ready env mZmqDataSub (zmqBridgeMamaTransportImpl_dispatchNormalMsg L) (pr_data r) w;
       Some (lastBeacon, nextBeacon, w)
     }
   }"

text \<open>
  The loop runs over the iterations that the environment provides; the result says whether it has
  ended, which it does when \<open>mIsDispatching\<close> is not one.
\<close>

fun dispatch_loop ::
  "('t, 'p, 'l) mama_lib \<Rightarrow> 'u peer_lib \<Rightarrow> host_env \<Rightarrow> zenv \<Rightarrow> ('t, 'u, 'p, 'l) poll_round list \<Rightarrow> 64 word \<Rightarrow> 64 word
     \<Rightarrow> ('t, 'u, 'p, 'l) oz_proc \<Rightarrow> (bool \<times> ('t, 'u, 'p, 'l) oz_proc) option" where
  "dispatch_loop L P h env [] lastBeacon nextBeacon w = Some (t_mIsDispatching (tport w) \<noteq> 1, w)"
| "dispatch_loop L P h env (r # rs) lastBeacon nextBeacon w =
     (if t_mIsDispatching (tport w) \<noteq> 1 then Some (True, w)
      else Option.bind (dispatch_round L P h env r lastBeacon nextBeacon w)
        (\<lambda>(lastBeacon, nextBeacon, w). dispatch_loop L P h env rs lastBeacon nextBeacon w))"

text \<open>\<open>start\<close> is the time that \<open>getMillis\<close> gives before the loop.\<close>

definition zmqBridgeMamaTransportImpl_dispatchThread ::
  "('t, 'p, 'l) mama_lib \<Rightarrow> 'u peer_lib \<Rightarrow> host_env \<Rightarrow> zenv \<Rightarrow> 64 word \<Rightarrow> ('t, 'u, 'p, 'l) poll_round list
     \<Rightarrow> ('t, 'u, 'p, 'l) oz_proc \<Rightarrow> (bool \<times> ('t, 'u, 'p, 'l) oz_proc) option" where
  "zmqBridgeMamaTransportImpl_dispatchThread L P h env start rounds w = do {
     let w = upd_tport (\<lambda>t. t\<lparr>t_mIsDispatching := 1, mIsReady := mIsReady t + 1\<rparr>) w;
     let w = wlock_lock (mLock (mZmqDataSub (tport w))) w;
     let w = (if mIsNaming (tport w) = 1 then wlock_lock (mLock (mZmqNamingSub (tport w))) w else w);
     let beaconInterval = mBeaconInterval (tport w);
     let nextBeacon = (if 0 < beaconInterval then start + ucast beaconInterval else 0);
     (ended, w) \<leftarrow> dispatch_loop L P h env rounds 0 nextBeacon w;
     if \<not> ended then Some (False, w)
     else do {
       let w = wlock_unlock (mLock (mZmqDataSub (tport w))) w;
       let w = (if mIsNaming (tport w) = 1 then wlock_unlock (mLock (mZmqNamingSub (tport w))) w else w);
       Some (True, upd_tport (\<lambda>t. t\<lparr>mOmzmqDispatchStatus := MAMA_STATUS_OK\<rparr>) w)
     }
   }"

end
