(* ===== verification/Dispatch_Thread_Correct.thy ===== *)
theory Dispatch_Thread_Correct
  imports Dispatch_Thread Naming_Correct Bridge_Safety
begin

text \<open>
  The dispatch thread is defined, keeps the process invariant, and stops when it is told to; and when it
  sends beacons. The three handlers of received messages share one contract, \<open>msg_handler\<close>.
\<close>

subsection \<open>The contract of a message handler\<close>

text \<open>A handler is defined on good messages and keeps \<open>I\<close>, which does not depend on receive calls in the history.\<close>

locale msg_handler =
  fixes handle :: "bytes \<Rightarrow> ('t, 'u, 'p, 'l) oz_proc \<Rightarrow> (mama_status \<times> ('t, 'u, 'p, 'l) oz_proc) option"
    and ok :: "bytes \<Rightarrow> bool" and I :: "('t, 'u, 'p, 'l) oz_proc \<Rightarrow> bool"
  assumes handled: "I w \<Longrightarrow> ok m \<Longrightarrow> \<exists>s w'. handle m w = Some (s, w') \<and> I w'"
    and received: "I w \<Longrightarrow> I (w\<lparr>zcalls := zcalls w @ [Zmq_msg_recv s]\<rparr>)"
begin

lemma drained: "I w \<Longrightarrow> list_all ok ms \<Longrightarrow> \<exists>w'. drain_socket env sel handle ms w = Some w' \<and> I w'"
proof (induction ms arbitrary: w)
  case Nil
  then show ?case using received by (simp add: zrun_def)
next
  case (Cons m ms)
  let ?w = "w\<lparr>zcalls := zcalls w @ [Zmq_msg_recv (mSocket (sel (tport w)))]\<rparr>"
  have I: "I ?w" using received Cons.prems(1) by blast
  have "ok m" using Cons.prems(2) by simp
  with handled[OF I] obtain s v where v: "handle m ?w = Some (s, v)" "I v" by blast
  from Cons.IH[OF v(2)] Cons.prems(2) obtain w' where "drain_socket env sel handle ms v = Some w'" "I w'" by auto
  with I v show ?case by (simp add: zrun_def Let_def)
qed

lemma drained_ready:
  "I w \<Longrightarrow> list_all ok (case ready of None \<Rightarrow> [] | Some ms \<Rightarrow> ms) \<Longrightarrow> \<exists>w'. drain_ready env sel handle ready w = Some w' \<and> I w'"
  using drained by (cases ready) (simp_all add: drain_ready_def)

end

subsection \<open>The state of the thread\<close>

text \<open>
  The invariant of the thread: the process invariant, what an announcement needs, and that no wildcard
  prefix is longer than \<open>K\<close>. The members of the transport that only start and stop change are \<open>v\<close>, and
  each lock is held as often as \<open>hl\<close> says.
\<close>

definition thread_view :: "('t, 'u, 'p, 'l) zmqTransportBridge \<Rightarrow> int \<times> zmqSocket \<times> zmqSocket \<times> cstring \<times> cstring" where
  "thread_view t = (mIsNaming t, mZmqDataSub t, mZmqNamingSub t, mUuid t, mPubEndpoint t)"

definition wc_keys_le :: "('t, 'p, 'l) mama_lib \<Rightarrow> nat \<Rightarrow> ('t, 'u, 'p, 'l) oz_proc \<Rightarrow> bool" where
  "wc_keys_le L K w \<longleftrightarrow>
     list_all (\<lambda>a. \<forall>key. Option.bind (sub_store w a) sb_mSubjectKey = Some key \<longrightarrow> length key \<le> K) (wc_elems L w)"

definition thread_state ::
  "('t, 'p, 'l) mama_lib \<Rightarrow> host_env \<Rightarrow> nat \<Rightarrow> int \<times> zmqSocket \<times> zmqSocket \<times> cstring \<times> cstring \<Rightarrow> (nat \<Rightarrow> int)
     \<Rightarrow> ('t, 'u, 'p, 'l) oz_proc \<Rightarrow> bool" where
  "thread_state L h K v hl w \<longleftrightarrow> proc_ok L w \<and> naming_ok L h w \<and> wc_keys_le L K w \<and> thread_view (tport w) = v \<and>
     (\<forall>l. held l (zcalls w) = hl l)"

lemma same_reg_key:
  assumes "same_reg w w'"
  shows "Option.bind (sub_store w' a) sb_mSubjectKey = Option.bind (sub_store w a) sb_mSubjectKey"
  using same_reg_static[OF assms, of a] by (cases "sub_store w' a"; cases "sub_store w a") (simp_all add: static_def)

lemma thread_state_frame:
  assumes "thread_state L h K v hl w" "same_reg w w'" "queues_ok w'" "thread_view (tport w') = v" "\<forall>l. held l (zcalls w') = held l (zcalls w)"
  shows "thread_state L h K v hl w'"
proof -
  have "proc_ok L w'" using assms(1-3) proc_ok_same_reg by (auto simp: thread_state_def)
  moreover have "naming_ok L h w'" using assms(1,4) by (auto simp: thread_state_def naming_ok_def thread_view_def)
  moreover have "wc_keys_le L K w'" using assms(1,2) same_reg_key[OF assms(2)]
    by (simp add: thread_state_def wc_keys_le_def same_reg_def)
  ultimately show ?thesis using assms(1,4,5) by (simp add: thread_state_def)
qed

text \<open>A change of other members of the transport and of the history.\<close>

lemma thread_state_tport:
  assumes "thread_state L h K v hl w" "same_reg w (w\<lparr>tport := t\<rparr>)" "thread_view t = v" "\<forall>l. held l z = held l (zcalls w)"
  shows "thread_state L h K v hl (w\<lparr>tport := t, zcalls := z\<rparr>)"
proof (rule thread_state_frame[OF assms(1)])
  show "same_reg w (w\<lparr>tport := t, zcalls := z\<rparr>)" using assms(2) by (simp add: same_reg_def)
  show "queues_ok (w\<lparr>tport := t, zcalls := z\<rparr>)" using assms(1) by (simp add: thread_state_def proc_ok_def queues_ok_def)
qed (use assms in simp_all)

lemma thread_state_calls:
  assumes "thread_state L h K v hl w" "\<forall>l. held l z = held l (zcalls w)"
  shows "thread_state L h K v hl (w\<lparr>zcalls := z\<rparr>)"
proof -
  have "thread_view (tport w) = v" using assms(1) by (simp add: thread_state_def)
  from thread_state_tport[OF assms(1) _ this assms(2)] show ?thesis by simp
qed

text \<open>The timeouts of the polls in a history.\<close>

definition polls :: "zworld \<Rightarrow> int list" where
  "polls z = concat (map (\<lambda>c. case c of Zmq_poll n t \<Rightarrow> [t] | _ \<Rightarrow> []) z)"

lemma polls_simps [simp]:
  "polls [] = []" "polls (a @ b) = polls a @ polls b" "polls (c # b) = (case c of Zmq_poll n t \<Rightarrow> [t] | _ \<Rightarrow> []) @ polls b"
  by (simp_all add: polls_def)

lemma polls_lock [simp]:
  "polls (zcalls (wlock_lock l w)) = polls (zcalls w)" "polls (zcalls (wlock_unlock l w)) = polls (zcalls w)"
  by (simp_all add: wlock_lock_def wlock_unlock_def)

text \<open>What beacons depend on: the interval and the timeouts so far.\<close>

definition beacon_view :: "('t, 'u, 'p, 'l) oz_proc \<Rightarrow> 32 word \<times> int list" where
  "beacon_view w = (mBeaconInterval (tport w), polls (zcalls w))"

lemma beacon_view_zrun:
  "(\<And>z. polls (snd (run_state m z)) = polls z) \<Longrightarrow> beacon_view (snd (zrun m w)) = beacon_view w"
  by (simp add: beacon_view_def)

subsection \<open>The handlers meet the contract\<close>

definition control_ok :: "bytes \<Rightarrow> bool" where
  "control_ok m \<longleftrightarrow> m \<noteq> [] \<and> NUL \<in> set (tl m)"

definition naming_frame :: "bytes \<Rightarrow> bool" where
  "naming_frame m \<longleftrightarrow> (\<exists>nm. m = naming_bytes nm \<and> naming_msg_ok nm)"

definition data_ok :: "nat \<Rightarrow> bytes \<Rightarrow> bool" where
  "data_ok K m \<longleftrightarrow> frame_ok m \<and> 6 \<le> length m \<and> K \<le> length m \<and> length m < 2 ^ 31 \<and>
     (is_inbox_msg m \<longrightarrow> NUL \<in> set (drop ZMQ_REPLYHANDLE_INBOXNAME_INDEX m))"

lemma control_handled:
  assumes "thread_state L h K v hl w" "control_ok m"
  shows "\<exists>s w'. zmqBridgeMamaTransportImpl_dispatchControlMsg env m w = Some (s, w') \<and> thread_state L h K v hl w' \<and>
     t_mIsDispatching (tport w') = (if m ! 0 = CHR ''X'' then 0 else t_mIsDispatching (tport w))"
proof -
  obtain c r where m: "m = c # r" "NUL \<in> set r" using assms(2) by (cases m) (auto simp: control_ok_def)
  obtain a where a: "cstr_at r = Some a" using m(2) by (auto simp: cstr_at_def)
  have v: "thread_view (tport w) = v" using assms(1) by (simp add: thread_state_def)
  have st: "thread_state L h K v hl (w\<lparr>tport := (tport w)\<lparr>mControlMessages := n, t_mIsDispatching := d\<rparr>, zcalls := zcalls w @ cs\<rparr>)"
    if "\<forall>l. held l cs = 0" for n d cs
    using v that by (intro thread_state_tport[OF assms(1)]) (simp_all add: same_reg_def thread_view_def)
  have st': "thread_state L h K v hl (w\<lparr>tport := (tport w)\<lparr>mControlMessages := n\<rparr>, zcalls := zcalls w @ cs\<rparr>)"
    if "\<forall>l. held l cs = 0" for n cs
    using v that by (intro thread_state_tport[OF assms(1)]) (simp_all add: same_reg_def thread_view_def)
  show ?thesis
    using st[where cs = "[]" and d = 0] st'[of "[]"] st'[of "[Zmq_setsockopt (mSocket (mZmqDataSub (tport w))) (ZMQ_SUBSCRIBE a)]"]
      st'[of "[Zmq_setsockopt (mSocket (mZmqDataSub (tport w))) (ZMQ_UNSUBSCRIBE a)]"] a m
    by (auto simp: zmqBridgeMamaTransportImpl_dispatchControlMsg_def byte_at_def zrun_def zmqBridgeMamaTransportImpl_subscribe_def
      zmqBridgeMamaTransportImpl_unsubscribe_def Let_def)
qed

lemma thread_state_naming:
  assumes st: "thread_state L h K v hl w" and z: "\<forall>l. held l z = held l (zcalls w)"
  shows "thread_state L h K v hl (w\<lparr>tport := (tport w)\<lparr>mNamingMessages := n, mNamingConnected := c, mPeers := p\<rparr>, zcalls := z\<rparr>)"
    "thread_state L h K v hl (w\<lparr>tport := (tport w)\<lparr>mNamingMessages := n, mPeers := p\<rparr>, zcalls := z\<rparr>)"
    "thread_state L h K v hl (w\<lparr>tport := (tport w)\<lparr>mNamingMessages := n\<rparr>, zcalls := z\<rparr>)"
    "thread_state L h K v hl (w\<lparr>tport := (tport w)\<lparr>mNamingMessages := n, mNamingConnected := c\<rparr>\<rparr>)"
proof -
  have v: "thread_view (tport w) = v" using st by (simp add: thread_state_def)
  show "thread_state L h K v hl (w\<lparr>tport := (tport w)\<lparr>mNamingMessages := n, mNamingConnected := c, mPeers := p\<rparr>, zcalls := z\<rparr>)"
    "thread_state L h K v hl (w\<lparr>tport := (tport w)\<lparr>mNamingMessages := n, mPeers := p\<rparr>, zcalls := z\<rparr>)"
    "thread_state L h K v hl (w\<lparr>tport := (tport w)\<lparr>mNamingMessages := n\<rparr>, zcalls := z\<rparr>)"
    using v z by (intro thread_state_tport[OF st]; simp add: same_reg_def thread_view_def)+
  show "thread_state L h K v hl (w\<lparr>tport := (tport w)\<lparr>mNamingMessages := n, mNamingConnected := c\<rparr>\<rparr>)"
    using thread_state_tport[OF st, of "(tport w)\<lparr>mNamingMessages := n, mNamingConnected := c\<rparr>" "zcalls w"] v
    by (simp add: same_reg_def thread_view_def)
qed

lemma only_counted:
  assumes "thread_state L h K v hl w" "\<forall>l. held l (zcalls w') = held l (zcalls w)"
    and w': "w' = w\<lparr>tport := (tport w)\<lparr>mNamingMessages := n\<rparr>, zcalls := zcalls w'\<rparr>"
  shows "thread_state L h K v hl w' \<and> t_mIsDispatching (tport w') = t_mIsDispatching (tport w)"
proof
  show "thread_state L h K v hl w'" by (subst w', rule thread_state_naming(3)[OF assms(1,2)])
  show "t_mIsDispatching (tport w') = t_mIsDispatching (tport w)" by (subst w') simp
qed

lemma naming_handled:
  assumes "thread_state L h K v hl w" "naming_frame m"
  shows "\<exists>s w'. zmqBridgeMamaTransportImpl_dispatchNamingMsg L P h env mem m w = Some (s, w') \<and> thread_state L h K v hl w' \<and>
     t_mIsDispatching (tport w') = t_mIsDispatching (tport w)"
proof -
  obtain nm where m: "m = naming_bytes nm" "naming_msg_ok nm" using assms(2) by (auto simp: naming_frame_def)
  have n: "naming_ok L h w" using assms(1) by (simp add: thread_state_def)
  note st = thread_state_naming[OF assms(1)]
  consider (known) "nm_mType nm = CHR ''C'' \<or> nm_mType nm = CHR ''c''" "peers_lookup P (mPeers (tport w)) (nm_mUuid nm) \<noteq> None"
    | (new) "nm_mType nm = CHR ''C'' \<or> nm_mType nm = CHR ''c''" "peers_lookup P (mPeers (tport w)) (nm_mUuid nm) = None"
    | (D) "nm_mType nm = CHR ''D''" | (W) "nm_mType nm = CHR ''W''"
    | (none) "nm_mType nm \<notin> {CHR ''C'', CHR ''c'', CHR ''D'', CHR ''W''}" by auto
  then show ?thesis
  proof cases
    case known
    from dispatch_known_peer[OF m(2) known, of L h env mem] st(4)[of "zcalls w", OF allI[OF refl]] show ?thesis by (simp add: m(1) saw_peer_def)
  next
    case new
    from dispatch_new_peer[OF n m(2) new, of env mem] obtain s w' where
      d: "zmqBridgeMamaTransportImpl_dispatchNamingMsg L P h env mem (naming_bytes nm) w = Some (s, w')"
        "if s = MAMA_STATUS_OK then w' = met_peer P h nm w
         else s \<in> {MAMA_STATUS_PLATFORM, MAMA_STATUS_NOMEM} \<and>
           w' = w\<lparr>tport := (tport w)\<lparr>mNamingMessages := mNamingMessages (tport w) + 1\<rparr>, zcalls := zcalls w'\<rparr>"
        "\<forall>l. held l (zcalls w') = held l (zcalls w)" by blast
    show ?thesis
    proof (cases "s = MAMA_STATUS_OK")
      case True
      with d st(1) show ?thesis by (simp add: m(1) met_peer_def saw_peer_def)
    next
      case False
      with d(2) have "w' = w\<lparr>tport := (tport w)\<lparr>mNamingMessages := mNamingMessages (tport w) + 1\<rparr>, zcalls := zcalls w'\<rparr>" by simp
      with only_counted[OF assms(1) d(3)] d(1) m(1) show ?thesis by blast
    qed
  next
    case D
    with dispatch_disconnect[OF m(2) D, of L P h env mem w] st(2) show ?thesis by (simp add: m(1))
  next
    case W
    from dispatch_welcome[OF m(2) W, of L P h env mem w] only_counted[OF assms(1)] m(1) show ?thesis by blast
  next
    case none
    with st(3)[of "zcalls w"] show ?thesis
      by (simp add: m(1) zmqBridgeMamaTransportImpl_dispatchNamingMsg_def naming_read[OF m(2)] Let_def)
  qed
qed

text \<open>The handler of data messages changes nothing but counters in the transport.\<close>

lemma for_each_frame:
  "(\<And>a s s'. f a s = Some s' \<Longrightarrow> P s \<Longrightarrow> P s') \<Longrightarrow> for_each f as s = Some s' \<Longrightarrow> P s \<Longrightarrow> P s'"
  by (induction as arbitrary: s) (auto simp: bind_Some_conv)

lemma dispatchNormal_view:
  assumes "zmqBridgeMamaTransportImpl_dispatchNormalMsg L m w = Some (s, w')"
  shows "thread_view (tport w') = thread_view (tport w) \<and> t_mIsDispatching (tport w') = t_mIsDispatching (tport w) \<and>
     beacon_view w' = beacon_view w"
proof -
  define V where "V x \<longleftrightarrow> thread_view (tport x) = thread_view (tport w) \<and> t_mIsDispatching (tport x) = t_mIsDispatching (tport w) \<and>
    beacon_view x = beacon_view w" for x :: "('a, 'b, 'c, 'd) oz_proc"
  have enq: "enqueue_at L p cb x u = Some u' \<Longrightarrow> V u \<Longrightarrow> V u'" for p cb x u u'
    by (auto simp: V_def beacon_view_def dest!: enqueue_at_frame)
  have wc: "zmqBridgeMamaTransportImpl_matchWildcards L subj m a s = Some s' \<Longrightarrow> V (snd s) \<Longrightarrow> V (snd s')" for subj a s s'
    by (auto simp: zmqBridgeMamaTransportImpl_matchWildcards_def bind_Some_conv split_beta dest: enq split: if_splits)
  have ds: "dispatch_to_sub L m a u = Some u' \<Longrightarrow> V u \<Longrightarrow> V u'" for a u u'
    by (auto simp: dispatch_to_sub_def bind_Some_conv Let_def V_def beacon_view_def dest!: enqueue_at_frame split: if_splits)
  have inb: "zmqBridgeMamaTransportImpl_dispatchInboxMsg L m u = Some (s, u') \<Longrightarrow> V u \<Longrightarrow> V u'" for u s u'
    by (auto simp: zmqBridgeMamaTransportImpl_dispatchInboxMsg_def bind_Some_conv V_def beacon_view_def thread_view_def Let_def
      dest!: enqueue_at_frame split: option.splits)
  have sub: "zmqBridgeMamaTransportImpl_dispatchSubMsg L m u = Some (s, u') \<Longrightarrow> V u \<Longrightarrow> V u'" for u s u'
  proof -
    assume d: "zmqBridgeMamaTransportImpl_dispatchSubMsg L m u = Some (s, u')" and u: "V u"
    let ?u = "wlock_lock (mWcsLock (tport u)) (upd_tport (\<lambda>t. t\<lparr>mSubMessages := mSubMessages t + 1\<rparr>) u)"
    from d obtain subj n x where x: "for_each (zmqBridgeMamaTransportImpl_matchWildcards L subj m) (wc_elems L u) (0, ?u) = Some (n, x)"
      and r: "u' = wlock_unlock (mSubsLock (tport x)) (wlock_lock (mSubsLock (tport x)) (wlock_unlock (mWcsLock (tport x)) x)) \<or>
        (\<exists>subs y. for_each (dispatch_to_sub L m) subs (wlock_lock (mSubsLock (tport x)) (wlock_unlock (mWcsLock (tport x)) x)) = Some y \<and>
          u' = wlock_unlock (mSubsLock (tport y)) y)"
      by (auto simp: zmqBridgeMamaTransportImpl_dispatchSubMsg_def bind_Some_conv Let_def split_beta split: if_splits) blast
    have "V ?u" using u by (simp add: V_def beacon_view_def thread_view_def)
    with for_each_frame[where P = "\<lambda>s. V (snd s)", OF _ x] wc have "V x" by auto
    then have x': "V (wlock_lock (mSubsLock (tport x)) (wlock_unlock (mWcsLock (tport x)) x))" by (simp add: V_def beacon_view_def)
    from r show "V u'"
    proof (elim disjE exE conjE)
      fix subs y assume "for_each (dispatch_to_sub L m) subs (wlock_lock (mSubsLock (tport x)) (wlock_unlock (mWcsLock (tport x)) x)) = Some y"
      with x' ds have "V y" using for_each_frame[where f = "dispatch_to_sub L m" and P = V] by blast
      then show "u' = wlock_unlock (mSubsLock (tport y)) y \<Longrightarrow> V u'" by (simp add: V_def beacon_view_def)
    qed (use x' in \<open>simp add: V_def beacon_view_def\<close>)
  qed
  have "V (upd_tport (\<lambda>t. t\<lparr>mNormalMessages := mNormalMessages t + 1\<rparr>) w)" by (simp add: V_def beacon_view_def thread_view_def)
  with assms inb sub have "V w'"
    by (auto simp: zmqBridgeMamaTransportImpl_dispatchNormalMsg_def bind_Some_conv Let_def split: if_splits)
  then show ?thesis by (simp add: V_def beacon_view_def)
qed

lemma data_handled:
  assumes "thread_state L h K v hl w" "data_ok K m"
  shows "\<exists>s w'. zmqBridgeMamaTransportImpl_dispatchNormalMsg L m w = Some (s, w') \<and> thread_state L h K v hl w' \<and>
     t_mIsDispatching (tport w') = t_mIsDispatching (tport w)"
proof -
  have ok: "proc_ok L w" "wc_keys_le L K w" using assms(1) by (simp_all add: thread_state_def)
  have "NUL \<in> set m" using assms(2) by (auto simp: data_ok_def frame_ok_def)
  with ok(2) assms(2) have "msg_readable L m w"
    by (auto simp: msg_readable_def wc_keys_le_def data_ok_def list_all_iff intro: le_trans)
  from dispatchNormal_ok[OF ok(1) this] assms(2) obtain w' where
    d: "zmqBridgeMamaTransportImpl_dispatchNormalMsg L m w = Some (route_status L m w, w')" "same_reg w w'" "proc_ok L w'"
      "\<forall>l. held l (zcalls w') = held l (zcalls w)" by (auto simp: data_ok_def)
  from dispatchNormal_view[OF d(1)] assms(1) have "thread_view (tport w') = v" by (simp add: thread_state_def)
  from thread_state_frame[OF assms(1) d(2) _ this d(4)] d(3) have "thread_state L h K v hl w'" by (simp add: proc_ok_def)
  with d(1) dispatchNormal_view[OF d(1)] show ?thesis by blast
qed

interpretation ctl: msg_handler "zmqBridgeMamaTransportImpl_dispatchControlMsg env" control_ok "thread_state L h K v hl"
  for env L h K v hl
  by unfold_locales (use control_handled in blast, simp add: thread_state_calls)

interpretation nam: msg_handler "zmqBridgeMamaTransportImpl_dispatchNamingMsg L P h env mem" naming_frame
  "\<lambda>w. thread_state L h K v hl w \<and> t_mIsDispatching (tport w) = d" for L P h env mem K v hl d
proof
  fix w :: "('a, 'd, 'b, 'c) oz_proc" and m
  assume w: "thread_state L h K v hl w \<and> t_mIsDispatching (tport w) = d" and m: "naming_frame m"
  from naming_handled[OF conjunct1[OF w] m, of P env mem] w
  show "\<exists>s w'. zmqBridgeMamaTransportImpl_dispatchNamingMsg L P h env mem m w = Some (s, w') \<and>
      thread_state L h K v hl w' \<and> t_mIsDispatching (tport w') = d" by auto
qed (simp add: thread_state_calls)

interpretation dat: msg_handler "zmqBridgeMamaTransportImpl_dispatchNormalMsg L" "data_ok K"
  "\<lambda>w. thread_state L h K v hl w \<and> t_mIsDispatching (tport w) = d" for L h K v hl d
proof
  fix w :: "('a, 'd, 'b, 'c) oz_proc" and m
  assume w: "thread_state L h K v hl w \<and> t_mIsDispatching (tport w) = d" and m: "data_ok K m"
  from data_handled[OF conjunct1[OF w] m] w
  show "\<exists>s w'. zmqBridgeMamaTransportImpl_dispatchNormalMsg L m w = Some (s, w') \<and>
      thread_state L h K v hl w' \<and> t_mIsDispatching (tport w') = d" by auto
qed (simp add: thread_state_calls)

subsection \<open>One iteration\<close>

text \<open>What the environment does in an iteration that the code can handle.\<close>

definition msgs :: "bytes list option \<Rightarrow> bytes list" where
  "msgs ready = (case ready of None \<Rightarrow> [] | Some ms \<Rightarrow> ms)"

definition round_ok ::
  "('t, 'p, 'l) mama_lib \<Rightarrow> host_env \<Rightarrow> nat \<Rightarrow> int \<times> zmqSocket \<times> zmqSocket \<times> cstring \<times> cstring \<Rightarrow> (nat \<Rightarrow> int)
     \<Rightarrow> ('t, 'u, 'p, 'l) poll_round \<Rightarrow> bool" where
  "round_ok L h K v hl r \<longleftrightarrow> list_all control_ok (msgs (pr_control r)) \<and> list_all naming_frame (msgs (pr_naming r)) \<and>
     list_all (data_ok K) (msgs (pr_data r)) \<and>
     (\<forall>w. thread_state L h K v hl w \<longrightarrow> thread_state L h K v hl (pr_other r w) \<and>
        t_mIsDispatching (tport (pr_other r w)) = t_mIsDispatching (tport w))"

definition stop_round :: "('t, 'u, 'p, 'l) poll_round \<Rightarrow> bool" where
  "stop_round r \<longleftrightarrow> \<not> pr_error r \<and> (\<exists>m \<in> set (msgs (pr_control r)). m ! 0 = CHR ''X'')"

lemma drained_control:
  assumes "thread_state L h K v hl w" "list_all control_ok ms"
  shows "\<exists>w'. drain_socket env sel (zmqBridgeMamaTransportImpl_dispatchControlMsg env) ms w = Some w' \<and> thread_state L h K v hl w' \<and>
     t_mIsDispatching (tport w') = (if \<exists>m \<in> set ms. m ! 0 = CHR ''X'' then 0 else t_mIsDispatching (tport w))"
  using assms
proof (induction ms arbitrary: w)
  case Nil
  then show ?case using ctl.received[OF Nil.prems(1)] by (simp add: zrun_def)
next
  case (Cons m ms)
  let ?w = "w\<lparr>zcalls := zcalls w @ [Zmq_msg_recv (mSocket (sel (tport w)))]\<rparr>"
  have "thread_state L h K v hl ?w" by (rule ctl.received[OF Cons.prems(1)])
  with Cons.prems(2) control_handled[of L h K v hl ?w m env] obtain s u where
    u: "zmqBridgeMamaTransportImpl_dispatchControlMsg env m ?w = Some (s, u)" "thread_state L h K v hl u"
      "t_mIsDispatching (tport u) = (if m ! 0 = CHR ''X'' then 0 else t_mIsDispatching (tport w))" by auto
  from Cons.IH[OF u(2)] Cons.prems(2) obtain w' where
    w': "drain_socket env sel (zmqBridgeMamaTransportImpl_dispatchControlMsg env) ms u = Some w'" "thread_state L h K v hl w'"
      "t_mIsDispatching (tport w') = (if \<exists>m \<in> set ms. m ! 0 = CHR ''X'' then 0 else t_mIsDispatching (tport u))" by auto
  have "m \<noteq> []" using Cons.prems(2) by (simp add: control_ok_def)
  with u w' show ?case by (simp add: zrun_def Let_def)
qed

lemma send_beacon_ok:
  assumes "thread_state L h K v hl w"
  shows "\<exists>lb nb w'. send_beacon L h env now lastBeacon nextBeacon w = Some (lb, nb, w') \<and> thread_state L h K v hl w' \<and>
     t_mIsDispatching (tport w') = t_mIsDispatching (tport w)"
proof -
  have n: "naming_ok L h w" using assms by (simp add: thread_state_def)
  have "thread_state L h K v hl (w\<lparr>zcalls := zcalls w @ send_calls sk b\<rparr>)" for sk b
    by (rule thread_state_calls[OF assms]) (simp add: send_calls_def)
  with assms sendEndpoints_eq[OF n, of env "CHR ''c''"] show ?thesis by (simp add: send_beacon_def Let_def)
qed

lemma round_defined:
  assumes w: "thread_state L h K v hl w" and r: "round_ok L h K v hl r"
  shows "\<exists>lb nb w'. dispatch_round L P h env r lastBeacon nextBeacon w = Some (lb, nb, w') \<and> thread_state L h K v hl w' \<and>
     t_mIsDispatching (tport w') = (if stop_round r then 0 else t_mIsDispatching (tport w))"
proof -
  let ?t = "poll_timeout (mBeaconInterval (tport w)) lastBeacon nextBeacon"
  let ?n = "if mIsNaming (tport w) = 1 then 3 else 2"
  let ?w1 = "pr_other r (snd (zrun (zdo env (Zmq_poll ?n ?t)) w))"
  have "thread_state L h K v hl (snd (zrun (zdo env (Zmq_poll ?n ?t)) w))"
    using thread_state_calls[OF w, of "zcalls w @ [Zmq_poll ?n ?t]"] by (simp add: zrun_def)
  with r have w1: "thread_state L h K v hl ?w1" "t_mIsDispatching (tport ?w1) = t_mIsDispatching (tport w)"
    unfolding round_ok_def by simp_all
  show ?thesis
  proof (cases "pr_error r")
    case True
    with w1 show ?thesis by (simp add: dispatch_round_def Let_def stop_round_def)
  next
    case False
    let ?w2 = "upd_tport (\<lambda>t. t\<lparr>mPolls := mPolls t + 1\<rparr>) ?w1"
    have "thread_view (tport ?w1) = v" using w1(1) by (simp add: thread_state_def)
    then have "thread_state L h K v hl ?w2"
      using thread_state_tport[OF w1(1), of "(tport ?w1)\<lparr>mPolls := mPolls (tport ?w1) + 1\<rparr>" "zcalls ?w1"]
      by (simp add: same_reg_def thread_view_def)
    from send_beacon_ok[OF this, of env "pr_now r" lastBeacon nextBeacon] obtain lb nb w3 where
      w3: "send_beacon L h env (pr_now r) lastBeacon nextBeacon ?w2 = Some (lb, nb, w3)" "thread_state L h K v hl w3"
        "t_mIsDispatching (tport w3) = t_mIsDispatching (tport ?w1)" by auto
    obtain w4 where w4: "drain_ready env mZmqControlSub (zmqBridgeMamaTransportImpl_dispatchControlMsg env) (pr_control r) w3 = Some w4"
      "thread_state L h K v hl w4" "t_mIsDispatching (tport w4) = (if stop_round r then 0 else t_mIsDispatching (tport w3))"
      using drained_control[OF w3(2), of "msgs (pr_control r)" env mZmqControlSub] r False w3
      by (cases "pr_control r") (auto simp: drain_ready_def round_ok_def msgs_def stop_round_def)
    have n: "list_all naming_frame (case if b then pr_naming r else None of None \<Rightarrow> [] | Some ms \<Rightarrow> ms)" for b
      using r by (simp add: round_ok_def msgs_def)
    obtain w5 where w5: "drain_ready env mZmqNamingSub (zmqBridgeMamaTransportImpl_dispatchNamingMsg L P h env (pr_mem r))
        (if mIsNaming (tport w) = 1 then pr_naming r else None) w4 = Some w5"
      "thread_state L h K v hl w5" "t_mIsDispatching (tport w5) = t_mIsDispatching (tport w4)"
      using nam.drained_ready[OF conjI[OF w4(2) refl] n] by blast
    obtain w6 where "drain_ready env mZmqDataSub (zmqBridgeMamaTransportImpl_dispatchNormalMsg L) (pr_data r) w5 = Some w6"
      "thread_state L h K v hl w6" "t_mIsDispatching (tport w6) = t_mIsDispatching (tport w5)"
      using dat.drained_ready[OF conjI[OF w5(2) refl]] r unfolding round_ok_def msgs_def by blast
    with False w1 w3 w4 w5 show ?thesis by (simp add: dispatch_round_def Let_def)
  qed
qed

subsection \<open>The loop\<close>

lemma loop_runs:
  assumes "thread_state L h K v hl w" "list_all (round_ok L h K v hl) rs" "\<not> list_ex stop_round rs" "t_mIsDispatching (tport w) = 1"
  shows "\<exists>lb nb w'. (\<forall>rs'. dispatch_loop L P h env (rs @ rs') lastBeacon nextBeacon w = dispatch_loop L P h env rs' lb nb w') \<and>
     thread_state L h K v hl w' \<and> t_mIsDispatching (tport w') = 1"
  using assms
proof (induction rs arbitrary: w lastBeacon nextBeacon)
  case (Cons r rs)
  from Cons.prems obtain lb nb u where u: "dispatch_round L P h env r lastBeacon nextBeacon w = Some (lb, nb, u)"
    "thread_state L h K v hl u" "t_mIsDispatching (tport u) = 1"
    using round_defined[of L h K v hl w r P env lastBeacon nextBeacon] by auto
  from Cons.IH[OF u(2) _ _ u(3), of lb nb] Cons.prems u(1) show ?case by simp
qed auto

lemma loop_stops:
  assumes "thread_state L h K v hl w" "list_all (round_ok L h K v hl) (rs @ [r])" "\<not> list_ex stop_round rs" "stop_round r" "t_mIsDispatching (tport w) = 1"
  shows "\<exists>w'. (\<forall>rs'. dispatch_loop L P h env (rs @ r # rs') lastBeacon nextBeacon w = Some (True, w')) \<and> thread_state L h K v hl w'"
proof -
  from assms(2) have rs: "list_all (round_ok L h K v hl) rs" and r: "round_ok L h K v hl r" by simp_all
  from loop_runs[OF assms(1) rs assms(3,5), of P env lastBeacon nextBeacon] obtain lb nb u where
    u: "\<forall>rs'. dispatch_loop L P h env (rs @ rs') lastBeacon nextBeacon w = dispatch_loop L P h env rs' lb nb u"
      "thread_state L h K v hl u" "t_mIsDispatching (tport u) = 1" by blast
  from round_defined[OF u(2) r, of P env lb nb] assms(4) obtain lb' nb' w' where
    w': "dispatch_round L P h env r lb nb u = Some (lb', nb', w')" "thread_state L h K v hl w'" "t_mIsDispatching (tport w') = 0" by auto
  have "dispatch_loop L P h env rs' lb' nb' w' = Some (True, w')" for rs' using w'(3) by (cases rs') simp_all
  with u w' show ?thesis by auto
qed

text \<open>What the thread does before and after the loop.\<close>

definition begun :: "('t, 'u, 'p, 'l) oz_proc \<Rightarrow> ('t, 'u, 'p, 'l) oz_proc" where
  "begun w = w\<lparr>tport := (tport w)\<lparr>t_mIsDispatching := 1, mIsReady := mIsReady (tport w) + 1\<rparr>, zcalls := zcalls w @
     [Wlock_lock (mLock (mZmqDataSub (tport w)))] @
     (if mIsNaming (tport w) = 1 then [Wlock_lock (mLock (mZmqNamingSub (tport w)))] else [])\<rparr>"

definition ended :: "('t, 'u, 'p, 'l) oz_proc \<Rightarrow> ('t, 'u, 'p, 'l) oz_proc" where
  "ended w = w\<lparr>tport := (tport w)\<lparr>mOmzmqDispatchStatus := MAMA_STATUS_OK\<rparr>, zcalls := zcalls w @
     [Wlock_unlock (mLock (mZmqDataSub (tport w)))] @
     (if mIsNaming (tport w) = 1 then [Wlock_unlock (mLock (mZmqNamingSub (tport w)))] else [])\<rparr>"

definition first_beacon :: "64 word \<Rightarrow> 32 word \<Rightarrow> 64 word" where
  "first_beacon start interval = (if 0 < interval then start + ucast interval else 0)"

lemma thread_eq:
  "zmqBridgeMamaTransportImpl_dispatchThread L P h env start rs w =
     Option.bind (dispatch_loop L P h env rs 0 (first_beacon start (mBeaconInterval (tport w))) (begun w))
       (\<lambda>(e, w). Some (e, if e then ended w else w))"
  by (cases "mIsNaming (tport w) = 1"; cases "dispatch_loop L P h env rs 0 (first_beacon start (mBeaconInterval (tport w))) (begun w)")
    (auto simp: zmqBridgeMamaTransportImpl_dispatchThread_def Let_def begun_def ended_def first_beacon_def wlock_lock_def wlock_unlock_def)

subsection \<open>Properties\<close>


definition demo_round :: "((cstring \<times> nat) list, (cstring \<times> bytes) list, ((cstring \<times> cstring) \<times> nat) list, nat list) poll_round" where
  "demo_round = \<lparr>pr_error = False, pr_now = 7, pr_control = None, pr_naming = Some [naming_bytes demo_peer],
     pr_data = Some [''OZ.AB'' @ [NUL, ZMQ_MSG_PUB_SUB]], pr_mem = True, pr_other = (\<lambda>w. w)\<rparr>"

definition demo_stop :: "((cstring \<times> nat) list, (cstring \<times> bytes) list, ((cstring \<times> cstring) \<times> nat) list, nat list) poll_round" where
  "demo_stop = demo_round\<lparr>pr_control := Some [CHR ''X'' # replicate 257 NUL]\<rparr>"

lemma demo_data_ok: "data_ok 0 (''OZ.AB'' @ [NUL, ZMQ_MSG_PUB_SUB])"
proof -
  have "frame_ok (''OZ.AB'' @ [NUL, ZMQ_MSG_PUB_SUB])"
    unfolding frame_ok_def
    by (rule exI[of _ "''OZ.AB''"], rule exI[of _ ZMQ_MSG_PUB_SUB], rule exI[of _ "[]"])
      (simp add: is_cstring_def ZMQ_MSG_PUB_SUB_def ZMQ_MSG_INBOX_REQUEST_def ZMQ_MSG_INBOX_RESPONSE_def)
  then show ?thesis by (simp add: data_ok_def is_inbox_msg_def ZMQ_REPLYHANDLE_PREFIX_def)
qed

lemma demo_rounds_ok: "round_ok L h 0 v hl demo_round" "round_ok L h 0 v hl demo_stop"
  using demo_data_ok demo_naming_ok(2) by (auto simp: round_ok_def demo_round_def demo_stop_def msgs_def naming_frame_def control_ok_def)

lemma demo_thread: "proc_ok demo_lib demo_proc" "wc_keys_le demo_lib 0 demo_proc"
  using fresh_proc_ok[OF demo_fresh] by (simp_all add: wc_keys_le_def demo_proc_def demo_tport_def demo_lib_def)


subsection \<open>Beacons\<close>

lemma control_beacon: "zmqBridgeMamaTransportImpl_dispatchControlMsg env m w = Some (s, w') \<Longrightarrow> beacon_view w' = beacon_view w"
  by (auto simp: zmqBridgeMamaTransportImpl_dispatchControlMsg_def bind_Some_conv Let_def beacon_view_def zrun_def
    zmqBridgeMamaTransportImpl_subscribe_def zmqBridgeMamaTransportImpl_unsubscribe_def split: if_splits)

lemma normal_beacon: "zmqBridgeMamaTransportImpl_dispatchNormalMsg L m w = Some (s, w') \<Longrightarrow> beacon_view w' = beacon_view w"
  using dispatchNormal_view by blast

lemma sendEndpoints_beacon: "zmqBridgeMamaTransportImpl_sendEndpointsMsg L h env c w = Some (s, w') \<Longrightarrow> beacon_view w' = beacon_view w"
  by (auto simp: zmqBridgeMamaTransportImpl_sendEndpointsMsg_def bind_Some_conv Let_def beacon_view_def zrun_def split: if_splits)

lemma connect_polls:
  "polls (snd (run_state (zmqBridgeMamaTransportImpl_connectSocket env sk uri r hb) z)) = polls z"
  "polls (snd (run_state (zmqBridgeMamaTransportImpl_disconnectSocket env sk uri) z)) = polls z"
  by (simp_all add: zop_defs)

lemma CALL_MAMA_FUNC_inv:
  assumes "CALL_MAMA_FUNC x k = Some (s, w')" "\<And>s v. x = Some (s, v) \<Longrightarrow> Q v" "\<And>v s u. Q v \<Longrightarrow> k v = Some (s, u) \<Longrightarrow> Q u"
  shows "Q w'"
  using assms(1) assms(2,3) by (auto simp: CALL_MAMA_FUNC_Some split: if_splits)

lemma new_peer_beacon:
  assumes "naming_new_peer L P h env mem m u = Some (s, u')"
  shows "beacon_view u' = beacon_view u"
proof -
  let ?Q = "\<lambda>v. beacon_view v = beacon_view u"
  define k where "k v = (if \<not> mem then Some (MAMA_STATUS_NOMEM, v) else if length m < sizeof_zmqNamingMsg then None
       else do {
         let pOrigMsg = take sizeof_zmqNamingMsg m;
         key \<leftarrow> naming_uuid pOrigMsg;
         Some (MAMA_STATUS_OK, upd_tport (\<lambda>t. t\<lparr>mPeers := peers_insert P (mPeers t) key pOrigMsg\<rparr>) v)
       })" for v :: "('a, 'b, 'c, 'd) oz_proc"
  from assms obtain a where c: "CALL_MAMA_FUNC (Some (zrun (zmqBridgeMamaTransportImpl_connectSocket env (mZmqDataSub (tport u)) a
       (mReconnectInterval (tport u)) (mHeartbeatInterval (tport u))) u))
       (\<lambda>w. CALL_MAMA_FUNC (zmqBridgeMamaTransportImpl_sendEndpointsMsg L h env (CHR ''C'') w) k) = Some (s, u')"
    unfolding naming_new_peer_def k_def by (auto simp: bind_Some_conv)
  show ?thesis
  proof (rule CALL_MAMA_FUNC_inv[where Q = ?Q, OF c])
    show "?Q v" if "Some (zrun (zmqBridgeMamaTransportImpl_connectSocket env (mZmqDataSub (tport u)) a (mReconnectInterval (tport u))
       (mHeartbeatInterval (tport u))) u) = Some (s, v)" for s v
      using beacon_view_zrun[OF connect_polls(1), of env "mZmqDataSub (tport u)" a "mReconnectInterval (tport u)" "mHeartbeatInterval (tport u)" u] that
      by simp
    show "?Q x" if "?Q v" "CALL_MAMA_FUNC (zmqBridgeMamaTransportImpl_sendEndpointsMsg L h env (CHR ''C'') v) k = Some (s, x)" for v s x
    proof (rule CALL_MAMA_FUNC_inv[where Q = ?Q, OF that(2)])
      show "?Q y" if "zmqBridgeMamaTransportImpl_sendEndpointsMsg L h env (CHR ''C'') v = Some (s, y)" for s y
        using sendEndpoints_beacon[OF that] \<open>?Q v\<close> by simp
      show "?Q y" if "?Q x" "k x = Some (s, y)" for x s y
        using that by (auto simp: k_def bind_Some_conv Let_def beacon_view_def split: if_splits)
    qed
  qed
qed

lemma naming_beacon:
  assumes "zmqBridgeMamaTransportImpl_dispatchNamingMsg L P h env mem m w = Some (s, w')"
  shows "beacon_view w' = beacon_view w"
proof -
  let ?w = "upd_tport (\<lambda>t. t\<lparr>mNamingMessages := mNamingMessages t + 1\<rparr>) w"
  have b: "beacon_view ?w = beacon_view w" by (simp add: beacon_view_def)
  have new: "beacon_view v = beacon_view w" if "(if peers_lookup P (mPeers (tport ?w)) u = None then naming_new_peer L P h env mem m ?w
      else Some (MAMA_STATUS_OK, ?w)) = Some (s, v)" for u s v
    using that b by (auto dest!: new_peer_beacon split: if_splits)
  have C: "beacon_view w' = beacon_view w"
    if "CALL_MAMA_FUNC (if peers_lookup P (mPeers (tport ?w)) u = None then naming_new_peer L P h env mem m ?w
      else Some (MAMA_STATUS_OK, ?w)) (\<lambda>w. Some (MAMA_STATUS_OK,
           if mNamingConnected (tport w) \<noteq> 1 \<and> u = mUuid (tport w)
           then upd_tport (\<lambda>t. t\<lparr>mNamingConnected := 1\<rparr>) w else w)) = Some (s, w')" for u
    by (rule CALL_MAMA_FUNC_inv[where Q = "\<lambda>v. beacon_view v = beacon_view w", OF that new]) (auto simp: beacon_view_def split: if_splits)
  obtain ty where ty: "naming_type m = Some ty"
    using assms by (cases "naming_type m") (auto simp: zmqBridgeMamaTransportImpl_dispatchNamingMsg_def)
  consider "ty = CHR ''C'' \<or> ty = CHR ''c''" | "ty = CHR ''D''" | "ty = CHR ''W''" | "ty \<notin> {CHR ''C'', CHR ''c'', CHR ''D'', CHR ''W''}" by auto
  then show ?thesis
  proof cases
    case 1
    with assms ty C show ?thesis
      unfolding zmqBridgeMamaTransportImpl_dispatchNamingMsg_def by (auto simp: bind_Some_conv Let_def)
  next
    case 2
    with assms ty show ?thesis
      by (auto simp: zmqBridgeMamaTransportImpl_dispatchNamingMsg_def bind_Some_conv Let_def beacon_view_def split_beta connect_polls)
  next
    case 3
    with assms ty show ?thesis
      by (auto simp: zmqBridgeMamaTransportImpl_dispatchNamingMsg_def bind_Some_conv Let_def beacon_view_def split_beta connect_polls split: if_splits)
  next
    case 4
    with assms ty b show ?thesis by (auto simp: zmqBridgeMamaTransportImpl_dispatchNamingMsg_def Let_def)
  qed
qed

lemma drain_beacon:
  assumes "\<And>m w s w'. handle m w = Some (s, w') \<Longrightarrow> beacon_view w' = beacon_view w" "drain_ready env sel handle ready w = Some w'"
  shows "beacon_view w' = beacon_view w"
proof -
  have r: "beacon_view (snd (zrun (zdo env (Zmq_msg_recv n)) w)) = beacon_view w" for n and w :: "('a, 'b, 'c, 'd) oz_proc"
    by (simp add: beacon_view_def)
  have "drain_socket env sel handle ms w = Some w' \<Longrightarrow> beacon_view w' = beacon_view w" for ms
    by (induction ms arbitrary: w) (auto simp: Let_def r bind_Some_conv dest!: assms(1) split: if_splits)
  with assms(2) show ?thesis by (auto simp: drain_ready_def split: option.splits)
qed

definition keeps_beacons :: "('t, 'u, 'p, 'l) poll_round \<Rightarrow> bool" where
  "keeps_beacons r \<longleftrightarrow> (\<forall>w. beacon_view (pr_other r w) = beacon_view w)"

lemma send_beacon_view:
  "send_beacon L h env now lb nb w = Some (lb', nb', w') \<Longrightarrow> beacon_view w' = beacon_view w \<and>
     ((lb', nb') = (lb, nb) \<or> nb \<le> now \<and> (lb', nb') = (now, now + ucast (mBeaconInterval (tport w))))"
  by (auto simp: send_beacon_def Let_def bind_Some_conv dest!: sendEndpoints_beacon split: if_splits)

lemma round_beacon:
  assumes "dispatch_round L P h env r lb nb w = Some (lb', nb', w')" "keeps_beacons r"
  shows "beacon_view w' = (mBeaconInterval (tport w), polls (zcalls w) @ [poll_timeout (mBeaconInterval (tport w)) lb nb]) \<and>
     ((lb', nb') = (lb, nb) \<or> nb \<le> pr_now r \<and> (lb', nb') = (pr_now r, pr_now r + ucast (mBeaconInterval (tport w))))"
proof -
  let ?i = "mBeaconInterval (tport w)"
  let ?w1 = "pr_other r (snd (zrun (zdo env (Zmq_poll (if mIsNaming (tport w) = 1 then 3 else 2) (poll_timeout ?i lb nb))) w))"
  have w1: "beacon_view ?w1 = (?i, polls (zcalls w) @ [poll_timeout ?i lb nb])"
    using assms(2) by (simp add: keeps_beacons_def) (simp add: beacon_view_def)
  show ?thesis
  proof (cases "pr_error r")
    case True
    with assms(1) w1 show ?thesis by (auto simp: dispatch_round_def Let_def)
  next
    case False
    let ?w2 = "upd_tport (\<lambda>t. t\<lparr>mPolls := mPolls t + 1\<rparr>) ?w1"
    have w2: "beacon_view ?w2 = beacon_view ?w1" by (simp add: beacon_view_def)
    from False assms(1) obtain w3 w4 w5 where
      w3: "send_beacon L h env (pr_now r) lb nb ?w2 = Some (lb', nb', w3)"
      and w4: "drain_ready env mZmqControlSub (zmqBridgeMamaTransportImpl_dispatchControlMsg env) (pr_control r) w3 = Some w4"
      and w5: "drain_ready env mZmqNamingSub (zmqBridgeMamaTransportImpl_dispatchNamingMsg L P h env (pr_mem r))
        (if mIsNaming (tport w) = 1 then pr_naming r else None) w4 = Some w5"
      and w6: "drain_ready env mZmqDataSub (zmqBridgeMamaTransportImpl_dispatchNormalMsg L) (pr_data r) w5 = Some w'"
      unfolding dispatch_round_def Let_def by (auto simp: bind_Some_conv)
    have "beacon_view w' = beacon_view w3"
      using drain_beacon[OF control_beacon w4] drain_beacon[OF naming_beacon w5] drain_beacon[OF normal_beacon w6] by simp
    moreover have "mBeaconInterval (tport ?w2) = ?i" using w1 w2 by (simp add: beacon_view_def)
    ultimately show ?thesis using send_beacon_view[OF w3] w1 w2 by simp
  qed
qed

lemma loop_beacon_later:
  assumes "dispatch_loop L P h env rs lb nb w = Some (e, w')" "\<forall>r \<in> set rs. keeps_beacons r" "beacon_view w = (i, ps)" "0 < i" "nb - lb = ucast i"
  shows "\<exists>m. polls (zcalls w') = ps @ replicate m (uint i)"
  using assms
proof (induction rs arbitrary: lb nb w ps)
  case Nil
  then show ?case by (auto simp: beacon_view_def intro: exI[of _ 0])
next
  case (Cons r rs)
  show ?case
  proof (cases "t_mIsDispatching (tport w) = 1")
    case False
    with Cons.prems show ?thesis by (auto simp: beacon_view_def intro: exI[of _ 0])
  next
    case True
    with Cons.prems(1) obtain lb' nb' u where
      u: "dispatch_round L P h env r lb nb w = Some (lb', nb', u)" "dispatch_loop L P h env rs lb' nb' u = Some (e, w')"
      by (auto simp: bind_Some_conv)
    have i: "mBeaconInterval (tport w) = i" "polls (zcalls w) = ps" using Cons.prems(3) by (simp_all add: beacon_view_def)
    have "uint i < 2 ^ 63" "- (2 ^ 63) \<le> uint i" using uint_bounded[of i] by (simp, intro order_trans[OF _ uint_nonnegative], simp)
    then have "signed_take_bit 63 (uint i) = uint i" by (intro signed_take_bit_int_eq_self)
    then have "sint (ucast i :: 64 word) = uint i" by (simp add: signed_ucast_eq)
    with Cons.prems(4,5) have t: "poll_timeout i lb nb = uint i" by (simp add: poll_timeout_def)
    from round_beacon[OF u(1)] Cons.prems(2) i t have
      "beacon_view u = (i, ps @ [uint i])" "(lb', nb') = (lb, nb) \<or> (lb', nb') = (pr_now r, pr_now r + ucast i)" by auto
    moreover from this(2) Cons.prems(5) have "nb' - lb' = ucast i" by auto
    ultimately obtain m where "polls (zcalls w') = (ps @ [uint i]) @ replicate m (uint i)"
      using Cons.IH[OF u(2)] Cons.prems(2,4) by auto
    then show ?thesis by (intro exI[of _ "Suc m"]) simp
  qed
qed

lemma loop_beacon_first:
  assumes "dispatch_loop L P h env rs 0 F w = Some (e, w')" "\<forall>r \<in> set rs. keeps_beacons r" "beacon_view w = (i, ps)" "0 < i"
  shows "\<exists>n m. polls (zcalls w') = ps @ replicate n (sint F) @ replicate m (uint i) \<and> (0 < m \<longrightarrow> (\<exists>r \<in> set rs. F \<le> pr_now r))"
  using assms
proof (induction rs arbitrary: w ps)
  case Nil
  then show ?case by (auto simp: beacon_view_def intro: exI[of _ 0])
next
  case (Cons r rs)
  show ?case
  proof (cases "t_mIsDispatching (tport w) = 1")
    case False
    with Cons.prems show ?thesis by (auto simp: beacon_view_def intro!: exI[of _ 0])
  next
    case True
    with Cons.prems(1) obtain lb' nb' u where
      u: "dispatch_round L P h env r 0 F w = Some (lb', nb', u)" "dispatch_loop L P h env rs lb' nb' u = Some (e, w')"
      by (auto simp: bind_Some_conv)
    have i: "mBeaconInterval (tport w) = i" "polls (zcalls w) = ps" using Cons.prems(3) by (simp_all add: beacon_view_def)
    from Cons.prems(4) have t: "poll_timeout i 0 F = sint F" by (simp add: poll_timeout_def)
    from round_beacon[OF u(1)] Cons.prems(2) i t have
      v: "beacon_view u = (i, ps @ [sint F])" "(lb', nb') = (0, F) \<or> F \<le> pr_now r \<and> (lb', nb') = (pr_now r, pr_now r + ucast i)" by auto
    from v(2) show ?thesis
    proof
      assume "(lb', nb') = (0, F)"
      with Cons.IH[of u "ps @ [sint F]"] u(2) v(1) Cons.prems(2,4) obtain n m where
        "polls (zcalls w') = (ps @ [sint F]) @ replicate n (sint F) @ replicate m (uint i)" "0 < m \<longrightarrow> (\<exists>r \<in> set rs. F \<le> pr_now r)" by auto
      then show ?thesis by (intro exI[of _ "Suc n"] exI[of _ m]) auto
    next
      assume l: "F \<le> pr_now r \<and> (lb', nb') = (pr_now r, pr_now r + ucast i)"
      then have "nb' - lb' = ucast i" by simp
      with loop_beacon_later[OF u(2) _ v(1) Cons.prems(4)] Cons.prems(2) obtain m where
        "polls (zcalls w') = (ps @ [sint F]) @ replicate m (uint i)" by auto
      with l show ?thesis by (intro exI[of _ 1] exI[of _ m]) auto
    qed
  qed
qed


text \<open>An iteration in which nothing happens, one second after the start, with beacons every two seconds.\<close>

definition idle_round :: "64 word \<Rightarrow> ((cstring \<times> nat) list, (cstring \<times> bytes) list, ((cstring \<times> cstring) \<times> nat) list, nat list) poll_round" where
  "idle_round now = demo_round\<lparr>pr_now := now, pr_naming := None, pr_data := None\<rparr>"


subsection \<open>Commands\<close>

text \<open>The message of a subscribe or unsubscribe command.\<close>

lemma topic_command_sent:
  assumes "wmStrSizeCpy_ok (wmStrSizeCpy L)" "length junk = MAX_SUBJECT_LENGTH + 1"
  shows "\<exists>s rest. topic_command L env c junk (Some ()) (Some topic) w = Some (s, w\<lparr>zcalls := zcalls w @
       send_calls (mZmqControlPub (tport w)) (c # take 256 topic @ NUL # rest)\<rparr>) \<and>
     (s = MAMA_STATUS_OK \<longleftrightarrow> 0 < env (zcalls w @ [Wlock_lock (mLock (mZmqControlPub (tport w)))])
        (Zmq_send (mSocket (mZmqControlPub (tport w))) (c # take 256 topic @ NUL # rest)))"
proof -
  have cp: "snd (wmStrSizeCpy L (Suc MAX_SUBJECT_LENGTH) topic) = take 256 topic"
    using assms(1)[unfolded wmStrSizeCpy_ok_def, rule_format, of 256 topic] by (simp add: oz_sizes)
  obtain rest where m: "memcpy_at junk 0 (take 256 topic @ [NUL]) = Some (take 256 topic @ NUL # rest)"
    using assms(2) by (simp add: memcpy_at_def oz_sizes)
  have "topic_command L env c junk (Some ()) (Some topic) w =
      Some (if env (zcalls w @ [Wlock_lock (mLock (mZmqControlPub (tport w)))])
        (Zmq_send (mSocket (mZmqControlPub (tport w))) (c # take 256 topic @ NUL # rest)) \<le> 0 then MAMA_STATUS_PLATFORM else MAMA_STATUS_OK,
        w\<lparr>zcalls := zcalls w @ send_calls (mZmqControlPub (tport w)) (c # take 256 topic @ NUL # rest)\<rparr>)"
    by (simp add: topic_command_def cp m zmqBridgeMamaTransportImpl_sendCommand_def zrun_def send_calls_def control_msg_def)
  then show ?thesis by (auto simp: not_le)
qed

text \<open>
  C33. A subscription reaches the socket. The command that \<open>zmqBridgeMamaSubscriptionImpl_subscribe\<close> or
  \<open>zmqBridgeMamaSubscriptionImpl_unsubscribe\<close> sends over the control socket makes the dispatch thread, whenever it handles
  it, subscribe or unsubscribe the data socket to exactly that topic, cut to 256 characters, and nothing else. The
  caller gets \<open>MAMA_STATUS_OK\<close> exactly when the command could be sent.
\<close>

theorem command_roundtrip:
  assumes "wmStrSizeCpy_ok (wmStrSizeCpy L)" "length junk = 257" "is_cstring topic"
    "(send, opt) \<in> {(zmqBridgeMamaSubscriptionImpl_subscribe, ZMQ_SUBSCRIBE), (zmqBridgeMamaSubscriptionImpl_unsubscribe, ZMQ_UNSUBSCRIBE)}"
  shows "\<exists>s msg. send L env junk (Some ()) (Some topic) w =
       Some (s, w\<lparr>zcalls := zcalls w @ send_calls (mZmqControlPub (tport w)) msg\<rparr>) \<and>
     (s = MAMA_STATUS_OK \<longleftrightarrow> 0 < env (zcalls w @ [Wlock_lock (mLock (mZmqControlPub (tport w)))])
        (Zmq_send (mSocket (mZmqControlPub (tport w))) msg)) \<and>
     (\<forall>env' v. \<exists>s'. zmqBridgeMamaTransportImpl_dispatchControlMsg env' msg v =
        Some (s', v\<lparr>tport := (tport v)\<lparr>mControlMessages := mControlMessages (tport v) + 1\<rparr>,
          zcalls := zcalls v @ [Zmq_setsockopt (mSocket (mZmqDataSub (tport v))) (opt (take 256 topic))]\<rparr>))"
proof -
  have cs: "cstr_at (take 256 topic @ NUL # rest) = Some (take 256 topic)" for rest
    using is_cstring_take[OF assms(3)] by simp
  have handled: "\<exists>s'. zmqBridgeMamaTransportImpl_dispatchControlMsg env' (CHR ''S'' # take 256 topic @ NUL # rest) v =
        Some (s', v\<lparr>tport := (tport v)\<lparr>mControlMessages := mControlMessages (tport v) + 1\<rparr>,
          zcalls := zcalls v @ [Zmq_setsockopt (mSocket (mZmqDataSub (tport v))) (ZMQ_SUBSCRIBE (take 256 topic))]\<rparr>)"
    "\<exists>s'. zmqBridgeMamaTransportImpl_dispatchControlMsg env' (CHR ''U'' # take 256 topic @ NUL # rest) v =
        Some (s', v\<lparr>tport := (tport v)\<lparr>mControlMessages := mControlMessages (tport v) + 1\<rparr>,
          zcalls := zcalls v @ [Zmq_setsockopt (mSocket (mZmqDataSub (tport v))) (ZMQ_UNSUBSCRIBE (take 256 topic))]\<rparr>)" for env' v rest
    by (simp_all add: zmqBridgeMamaTransportImpl_dispatchControlMsg_def byte_at_def cs zrun_def zmqBridgeMamaTransportImpl_subscribe_def
      zmqBridgeMamaTransportImpl_unsubscribe_def)
  have l: "length junk = MAX_SUBJECT_LENGTH + 1" using assms(2) by (simp add: oz_sizes)
  consider "send = zmqBridgeMamaSubscriptionImpl_subscribe" "opt = ZMQ_SUBSCRIBE" | "send = zmqBridgeMamaSubscriptionImpl_unsubscribe" "opt = ZMQ_UNSUBSCRIBE"
    using assms(4) by auto
  then show ?thesis
  proof cases
    case 1
    with topic_command_sent[OF assms(1) l, of env "CHR ''S''" topic w] handled(1) show ?thesis
      unfolding zmqBridgeMamaSubscriptionImpl_subscribe_def by blast
  next
    case 2
    with topic_command_sent[OF assms(1) l, of env "CHR ''U''" topic w] handled(2) show ?thesis
      unfolding zmqBridgeMamaSubscriptionImpl_unsubscribe_def by blast
  qed
qed

theorem command_roundtrip_witness:
  "\<exists>s msg s' v'. zmqBridgeMamaSubscriptionImpl_subscribe demo_lib demo_env (replicate 257 NUL) (Some ()) (Some ''OZ.A'') demo_proc =
       Some (s, demo_proc\<lparr>zcalls := send_calls (demo_socket 2) msg\<rparr>) \<and>
     zmqBridgeMamaTransportImpl_dispatchControlMsg demo_env msg demo_proc = Some (s', v') \<and>
     zcalls v' = [Zmq_setsockopt 6 (ZMQ_SUBSCRIBE ''OZ.A'')]"
proof -
  have "wmStrSizeCpy_ok (wmStrSizeCpy demo_lib)" using demo_lib_ok by (simp add: lib_ok_def)
  from command_roundtrip[OF this, of "replicate 257 NUL" "''OZ.A''" zmqBridgeMamaSubscriptionImpl_subscribe ZMQ_SUBSCRIBE demo_env demo_proc]
  show ?thesis by (fastforce simp: is_cstring_def demo_proc_def demo_tport_def demo_socket_def)
qed

end
