(* ===== verification/Timer.thy ===== *)
theory Timer
  imports Params Dispatch
begin

text \<open>
  Timers, \<open>src/src/timer.c\<close>. The bridge keeps a structure for each timer, lets the timer heap of the
  wombat library call \<open>timerCallback\<close> when the time has come, and hands the action to the
  queue of the timer. A timer is released by the last event that it puts on its queue.
\<close>

subsection \<open>State\<close>

datatype timer_cb = zmqBridgeMamaTimerImpl_queueCallback | zmqBridgeMamaTimerImpl_destroyCallback

type_synonym tqueue = "(timer_cb, nat, unit) zmqQueueBridge"

record zmqTimerImpl =
  mTimerElement :: "nat option"
  mInterval :: rat
  tm_mClosure :: voidp
  tm_mParent :: voidp
  tm_mQueue :: nat
  mDestroying :: "32 word"
  mOnTimerDestroyed :: "nat option"
  mAction :: "nat option"

datatype timer_event =
    TimerAction nat voidp voidp
  | TimerDestroyed nat voidp voidp
  | TimerQueueEvent "(timer_cb, nat, unit) q_event"

text \<open>
  The timers, the elements of the timer heap with their closure and timeout, the queues, and the callbacks
  made so far. An element stays in the heap until it is destroyed, also when it has fired.
\<close>

record timer_sys =
  ts_impls :: "nat \<Rightarrow> zmqTimerImpl option"
  ts_elems :: "nat \<Rightarrow> (nat \<times> int \<times> int) option"
  ts_queues :: "nat \<Rightarrow> tqueue option"
  ts_events :: "timer_event list"

definition upd_timer :: "nat \<Rightarrow> (zmqTimerImpl \<Rightarrow> zmqTimerImpl) \<Rightarrow> timer_sys \<Rightarrow> timer_sys" where
  "upd_timer a f s = s\<lparr>ts_impls := (ts_impls s)(a := map_option f (ts_impls s a))\<rparr>"

subsection \<open>The libraries\<close>

text \<open>The path from a timer to the closure of the bridge, which holds the timer heap.\<close>

record timer_lib =
  mamaTimer_getQueue :: "voidp \<Rightarrow> voidp"
  mamaQueueImpl_getBridgeImpl :: "voidp \<Rightarrow> voidp"
  mamaBridgeImpl_getClosure :: "voidp \<Rightarrow> voidp"

definition zmqBridgeMamaTimerImpl_getBridgeClosure :: "timer_lib \<Rightarrow> zmqTimerImpl \<Rightarrow> voidp" where
  "zmqBridgeMamaTimerImpl_getBridgeClosure T impl =
     mamaBridgeImpl_getClosure T (mamaQueueImpl_getBridgeImpl T (mamaTimer_getQueue T (tm_mParent impl)))"

text \<open>
  \<open>createTimer\<close> stores a new element or fails, \<open>None\<close>; \<open>destroyTimer\<close> needs an element that exists.
\<close>

definition createTimer :: "nat option \<Rightarrow> int \<times> int \<Rightarrow> nat \<Rightarrow> timer_sys \<Rightarrow> bool \<times> timer_sys" where
  "createTimer new timeout a s =
     (case new of
        None \<Rightarrow> (False, s)
      | Some el \<Rightarrow> (True, upd_timer a (\<lambda>i. i\<lparr>mTimerElement := Some el\<rparr>) (s\<lparr>ts_elems := (ts_elems s)(el \<mapsto> (a, timeout))\<rparr>)))"

definition destroyTimer :: "nat \<Rightarrow> timer_sys \<Rightarrow> timer_sys option" where
  "destroyTimer el s = (if ts_elems s el = None then None else Some (s\<lparr>ts_elems := (ts_elems s)(el := None)\<rparr>))"

text \<open>The conversion of an interval to seconds and microseconds; a value that a \<open>long\<close> cannot hold is undefined.\<close>

definition to_long :: "rat \<Rightarrow> int option" where
  "to_long r = (let n = rat_trunc r in if - (2 ^ 63) \<le> n \<and> n < 2 ^ 63 then Some n else None)"

definition timeval_of :: "rat \<Rightarrow> (int \<times> int) option" where
  "timeval_of interval = do {
     tv_sec \<leftarrow> to_long interval;
     tv_usec \<leftarrow> to_long ((interval - of_int tv_sec) * 1000000);
     Some (tv_sec, tv_usec)
   }"

text \<open>Enqueueing a callback with the timer as its closure; the result is ignored. \<open>mem\<close> is the outcome of the allocation.\<close>

definition timer_enqueue ::
  "(bool \<Rightarrow> tqueue option \<Rightarrow> timer_cb option \<Rightarrow> voidp \<Rightarrow> (mama_status \<times> tqueue option \<times> (timer_cb, nat, unit) q_event list) option)
     \<Rightarrow> bool \<Rightarrow> nat \<Rightarrow> timer_cb \<Rightarrow> nat \<Rightarrow> timer_sys \<Rightarrow> timer_sys option" where
  "timer_enqueue enq mem queue cb a s = do {
     q \<leftarrow> ts_queues s queue;
     (_, q', evs) \<leftarrow> enq mem (Some q) (Some cb) (Some a);
     Some (s\<lparr>ts_queues := (ts_queues s)(queue := q'), ts_events := ts_events s @ map TimerQueueEvent evs\<rparr>)
   }"

subsection \<open>Operations\<close>

definition zmqBridgeMamaTimer_create ::
  "timer_lib \<Rightarrow> bool \<Rightarrow> nat \<Rightarrow> nat option \<Rightarrow> bool \<Rightarrow> nat option \<Rightarrow> nat option \<Rightarrow> nat option \<Rightarrow> rat \<Rightarrow> voidp \<Rightarrow> voidp
     \<Rightarrow> timer_sys \<Rightarrow> (mama_status \<times> nat option \<times> timer_sys) option" where
  "zmqBridgeMamaTimer_create T mem a new result nativeQueueHandle action onTimerDestroyed interval parent closure s =
     (if \<not> result \<or> nativeQueueHandle = None \<or> action = None \<or> parent = None then Some (MAMA_STATUS_NULL_ARG, None, s)
      else if \<not> mem then Some (MAMA_STATUS_NOMEM, None, s)
      else do {
        let impl = \<lparr>mTimerElement = None, mInterval = interval, tm_mClosure = closure, tm_mParent = parent,
          tm_mQueue = the nativeQueueHandle, mDestroying = 0, mOnTimerDestroyed = onTimerDestroyed, mAction = action\<rparr>;
        timeout \<leftarrow> timeval_of interval;
        _ \<leftarrow> zmqBridgeMamaTimerImpl_getBridgeClosure T impl;
        let (ok, s) = createTimer new timeout a (s\<lparr>ts_impls := (ts_impls s)(a \<mapsto> impl)\<rparr>);
        Some (if ok then MAMA_STATUS_OK else MAMA_STATUS_PLATFORM, Some a, s)
      })"

text \<open>\<open>rc\<close> is the result of \<open>destroyTimer\<close>.\<close>

definition zmqBridgeMamaTimer_destroy ::
  "timer_lib \<Rightarrow> int \<Rightarrow> bool \<Rightarrow> nat option \<Rightarrow> timer_sys \<Rightarrow> (mama_status \<times> timer_sys) option" where
  "zmqBridgeMamaTimer_destroy T rc mem timer s =
     (case timer of
        None \<Rightarrow> Some (MAMA_STATUS_NULL_ARG, s)
      | Some a \<Rightarrow> do {
          impl \<leftarrow> ts_impls s a;
          let s = upd_timer a (\<lambda>i. i\<lparr>mDestroying := 1, mAction := None\<rparr>) s;
          _ \<leftarrow> zmqBridgeMamaTimerImpl_getBridgeClosure T impl;
          el \<leftarrow> mTimerElement impl;
          s \<leftarrow> destroyTimer el s;
          let s = upd_timer a (\<lambda>i. i\<lparr>mTimerElement := None\<rparr>) s;
          s \<leftarrow> timer_enqueue zmqBridgeMamaQueue_enqueueEvent mem (tm_mQueue impl) zmqBridgeMamaTimerImpl_destroyCallback a s;
          Some (if rc \<noteq> 0 then MAMA_STATUS_PLATFORM else MAMA_STATUS_OK, s)
        })"

text \<open>
  \<open>zmqBridgeMamaTimerImpl_reset\<close>. The destroying flag is read before the heap is locked; \<open>other\<close> is what
  other threads do in between.
\<close>

definition zmqBridgeMamaTimerImpl_reset ::
  "timer_lib \<Rightarrow> (timer_sys \<Rightarrow> timer_sys option) \<Rightarrow> nat option \<Rightarrow> nat \<Rightarrow> rat \<Rightarrow> timer_sys \<Rightarrow> (mama_status \<times> timer_sys) option" where
  "zmqBridgeMamaTimerImpl_reset T other new a interval s = do {
     impl \<leftarrow> ts_impls s a;
     if mDestroying impl = 1 then Some (MAMA_STATUS_OK, s)
     else do {
       _ \<leftarrow> zmqBridgeMamaTimerImpl_getBridgeClosure T impl;
       s \<leftarrow> other s;
       impl \<leftarrow> ts_impls s a;
       let s = upd_timer a (\<lambda>i. i\<lparr>mInterval := interval\<rparr>) s;
       s \<leftarrow> (case mTimerElement impl of None \<Rightarrow> Some s | Some el \<Rightarrow> destroyTimer el s);
       timeout \<leftarrow> timeval_of interval;
       let (ok, s) = createTimer new timeout a s;
       Some (if ok then MAMA_STATUS_OK else MAMA_STATUS_PLATFORM, s)
     }
   }"

definition zmqBridgeMamaTimer_reset ::
  "timer_lib \<Rightarrow> (timer_sys \<Rightarrow> timer_sys option) \<Rightarrow> nat option \<Rightarrow> nat option \<Rightarrow> timer_sys \<Rightarrow> (mama_status \<times> timer_sys) option" where
  "zmqBridgeMamaTimer_reset T other new timer s =
     (case timer of
        None \<Rightarrow> Some (MAMA_STATUS_NULL_ARG, s)
      | Some a \<Rightarrow> do { impl \<leftarrow> ts_impls s a; zmqBridgeMamaTimerImpl_reset T other new a (mInterval impl) s })"

definition zmqBridgeMamaTimer_setInterval ::
  "timer_lib \<Rightarrow> (timer_sys \<Rightarrow> timer_sys option) \<Rightarrow> nat option \<Rightarrow> nat option \<Rightarrow> rat \<Rightarrow> timer_sys \<Rightarrow> (mama_status \<times> timer_sys) option" where
  "zmqBridgeMamaTimer_setInterval T other new timer interval s =
     (if interval < 0 then Some (MAMA_STATUS_INVALID_ARG, s)
      else case timer of
        None \<Rightarrow> Some (MAMA_STATUS_NULL_ARG, s)
      | Some a \<Rightarrow> zmqBridgeMamaTimerImpl_reset T other new a interval s)"

definition zmqBridgeMamaTimer_getInterval :: "nat option \<Rightarrow> bool \<Rightarrow> timer_sys \<Rightarrow> (mama_status \<times> rat option) option" where
  "zmqBridgeMamaTimer_getInterval timer interval s =
     (case timer of
        None \<Rightarrow> Some (MAMA_STATUS_NULL_ARG, None)
      | Some a \<Rightarrow> if \<not> interval then Some (MAMA_STATUS_NULL_ARG, None)
                 else do { impl \<leftarrow> ts_impls s a; Some (MAMA_STATUS_OK, Some (mInterval impl)) })"

subsection \<open>Callbacks\<close>

text \<open>\<open>destroyCallback\<close> calls \<open>mOnTimerDestroyed\<close> without a check.\<close>

definition timer_destroyCallback :: "voidp \<Rightarrow> timer_sys \<Rightarrow> timer_sys option" where
  "timer_destroyCallback closure s =
     (case closure of
        None \<Rightarrow> Some s
      | Some a \<Rightarrow> do {
          impl \<leftarrow> ts_impls s a;
          f \<leftarrow> mOnTimerDestroyed impl;
          Some (s\<lparr>ts_impls := (ts_impls s)(a := None), ts_events := ts_events s @ [TimerDestroyed f (tm_mParent impl) (tm_mClosure impl)]\<rparr>)
        })"

definition timer_queueCallback :: "voidp \<Rightarrow> timer_sys \<Rightarrow> timer_sys option" where
  "timer_queueCallback closure s =
     (case closure of
        None \<Rightarrow> Some s
      | Some a \<Rightarrow> do {
          impl \<leftarrow> ts_impls s a;
          Some (case mAction impl of
                  None \<Rightarrow> s
                | Some f \<Rightarrow> s\<lparr>ts_events := ts_events s @ [TimerAction f (tm_mParent impl) (tm_mClosure impl)]\<rparr>)
        })"

text \<open>\<open>timerCallback\<close>, on the thread of the timer heap.\<close>

definition zmqBridgeMamaTimerImpl_timerCallback ::
  "timer_lib \<Rightarrow> (timer_sys \<Rightarrow> timer_sys option) \<Rightarrow> nat option \<Rightarrow> bool \<Rightarrow> voidp \<Rightarrow> timer_sys \<Rightarrow> timer_sys option" where
  "zmqBridgeMamaTimerImpl_timerCallback T other new mem closure s =
     (case closure of
        None \<Rightarrow> Some s
      | Some a \<Rightarrow> do {
          impl \<leftarrow> ts_impls s a;
          if mDestroying impl = 0 then do {
            (_, s) \<leftarrow> zmqBridgeMamaTimer_reset T other new (Some a) s;
            impl \<leftarrow> ts_impls s a;
            timer_enqueue zmqBridgeMamaQueue_enqueueEventEx mem (tm_mQueue impl) zmqBridgeMamaTimerImpl_queueCallback a s
          }
          else Some s
        })"

definition run_timer_cb :: "timer_cb \<Rightarrow> voidp \<Rightarrow> timer_sys \<Rightarrow> timer_sys option" where
  "run_timer_cb cb closure =
     (case cb of
        zmqBridgeMamaTimerImpl_queueCallback \<Rightarrow> timer_queueCallback closure
      | zmqBridgeMamaTimerImpl_destroyCallback \<Rightarrow> timer_destroyCallback closure)"

text \<open>A queue thread dispatches one event.\<close>

definition timer_dispatch :: "nat \<Rightarrow> sem_rc list \<Rightarrow> timer_sys \<Rightarrow> timer_sys option" where
  "timer_dispatch queue rcs s = do {
     q \<leftarrow> ts_queues s queue;
     (_, q', evs) \<leftarrow> zmqBridgeMamaQueue_dispatchEvent rcs (Some q);
     let s = s\<lparr>ts_queues := (ts_queues s)(queue := q'), ts_events := ts_events s @ map TimerQueueEvent evs\<rparr>;
     for_each (\<lambda>(cb, _, u). case u of Closure c \<Rightarrow> run_timer_cb cb c | Msg _ \<Rightarrow> (\<lambda>s. Some s)) (callbacks evs) s
   }"

end
