(* ===== verification/Timer_Correct.thy ===== *)
theory Timer_Correct
  imports Timer Callback_Correct
begin

text \<open>
  Timers that are fired, reset and destroyed in any order: no released timer is used as long as the
  callback of the heap is not interleaved with the destruction of its timer, and what happens when it is.
\<close>

subsection \<open>Invariant\<close>

text \<open>The timer that an event is for, and the one that it releases.\<close>

definition clo :: "(timer_cb, unit) uq_val \<Rightarrow> nat option" where
  "clo v = (case v of (_, _, _, u) \<Rightarrow> case u of Closure c \<Rightarrow> c | Msg _ \<Rightarrow> None)"

definition rel :: "(timer_cb, unit) uq_val \<Rightarrow> nat option" where
  "rel v = (if fst v = Some zmqBridgeMamaTimerImpl_destroyCallback then clo v else None)"

lemma clo_simps [simp]:
  "clo (cb, p, m, Closure c) = c"
  "rel (cb, p, m, Closure c) = (if cb = Some zmqBridgeMamaTimerImpl_destroyCallback then c else None)"
  by (simp_all add: clo_def rel_def)

text \<open>After the event that releases a timer there is no other event of that timer in the queue.\<close>

fun destroyed_last :: "(timer_cb, unit) uq_val list \<Rightarrow> bool" where
  "destroyed_last [] \<longleftrightarrow> True"
| "destroyed_last (v # vs) \<longleftrightarrow> (rel v \<noteq> None \<longrightarrow> rel v \<notin> clo ` set vs) \<and> destroyed_last vs"

lemma destroyed_last_append:
  "destroyed_last (vs @ [v]) \<longleftrightarrow> destroyed_last vs \<and> (\<forall>w \<in> set vs. rel w \<noteq> None \<longrightarrow> rel w \<noteq> clo v)"
  by (induction vs) auto

definition event_ok :: "timer_sys \<Rightarrow> nat \<Rightarrow> (timer_cb, unit) uq_val \<Rightarrow> bool" where
  "event_ok s b v \<longleftrightarrow> (\<exists>cb p a impl. v = (Some cb, p, 0, Closure (Some a)) \<and> ts_impls s a = Some impl \<and> tm_mQueue impl = b \<and>
     (cb = zmqBridgeMamaTimerImpl_destroyCallback \<longrightarrow> mDestroying impl = 1))"

lemma event_ok_val [simp]:
  "event_ok s b (Some cb, p, m, Closure (Some a)) \<longleftrightarrow> m = 0 \<and> (\<exists>impl. ts_impls s a = Some impl \<and> tm_mQueue impl = b \<and>
     (cb = zmqBridgeMamaTimerImpl_destroyCallback \<longrightarrow> mDestroying impl = 1))"
  by (auto simp: event_ok_def)

lemma event_okE:
  assumes "event_ok s b v"
  obtains cb p a where "v = (Some cb, p, 0, Closure (Some a))"
  using assms by (auto simp: event_ok_def)

lemma event_ok_mono:
  assumes "event_ok s b v"
    and "\<And>c impl. clo v = Some c \<Longrightarrow> ts_impls s c = Some impl \<Longrightarrow>
      \<exists>impl'. ts_impls s' c = Some impl' \<and> tm_mQueue impl' = tm_mQueue impl \<and> (mDestroying impl = 1 \<longrightarrow> mDestroying impl' = 1)"
  shows "event_ok s' b v"
proof -
  from assms(1) obtain cb p c where v: "v = (Some cb, p, 0, Closure (Some c))" by (rule event_okE)
  with assms show ?thesis by fastforce
qed

definition queue_ok :: "timer_sys \<Rightarrow> nat \<Rightarrow> tqueue \<Rightarrow> bool" where
  "queue_ok s b q \<longleftrightarrow> mq_ok 0 q \<and> destroyed_last (mq_elems q) \<and> (\<forall>v \<in> set (mq_elems q). event_ok s b v)"

definition impl_ok :: "timer_sys \<Rightarrow> nat \<Rightarrow> zmqTimerImpl \<Rightarrow> bool" where
  "impl_ok s a impl \<longleftrightarrow> ts_queues s (tm_mQueue impl) \<noteq> None \<and> mOnTimerDestroyed impl \<noteq> None \<and> timeval_of (mInterval impl) \<noteq> None \<and>
     (mDestroying impl = 0 \<and> (\<exists>el tv. mTimerElement impl = Some el \<and> ts_elems s el = Some (a, tv)) \<or>
      mDestroying impl = 1 \<and> mTimerElement impl = None)"

definition elem_ok :: "timer_sys \<Rightarrow> nat \<Rightarrow> nat \<Rightarrow> bool" where
  "elem_ok s el a \<longleftrightarrow> (\<exists>impl. ts_impls s a = Some impl \<and> mDestroying impl = 0 \<and> mTimerElement impl = Some el)"

definition timers_ok :: "timer_sys \<Rightarrow> bool" where
  "timers_ok s \<longleftrightarrow> (\<forall>b q. ts_queues s b = Some q \<longrightarrow> queue_ok s b q) \<and> (\<forall>a impl. ts_impls s a = Some impl \<longrightarrow> impl_ok s a impl) \<and>
     (\<forall>el a tv. ts_elems s el = Some (a, tv) \<longrightarrow> elem_ok s el a)"

lemma impl_okD: "timers_ok s \<Longrightarrow> ts_impls s a = Some impl \<Longrightarrow> impl_ok s a impl"
  by (simp add: timers_ok_def)

text \<open>The bridge is open, so that the path to its closure exists.\<close>

definition timer_lib_ok :: "timer_lib \<Rightarrow> bool" where
  "timer_lib_ok T \<longleftrightarrow> (\<forall>impl. zmqBridgeMamaTimerImpl_getBridgeClosure T impl \<noteq> None)"

subsection \<open>Enqueueing and rearming\<close>

lemma timer_enqueue_spec:
  assumes "ts_queues s b = Some q" "mq_ok 0 q"
    "enq \<in> {zmqBridgeMamaQueue_enqueueEventEx, zmqBridgeMamaQueue_enqueueEvent}"
  shows "\<exists>q' evs p. timer_enqueue enq mem b cb a s =
       Some (s\<lparr>ts_queues := (ts_queues s)(b \<mapsto> q'), ts_events := ts_events s @ map TimerQueueEvent evs\<rparr>) \<and> mq_ok 0 q' \<and>
     mq_elems q' \<in> {mq_elems q, mq_elems q @ [(Some cb, p, 0, Closure (Some a))]}"
proof -
  from arrive_one[OF assms(2), of "ArriveEvent cb (Some a) mem"] enqueueEventInt_spec[OF assms(2), of 0 "Closure (Some a)" mem cb]
  have "\<exists>st q' evs p. enq mem (Some q) (Some cb) (Some a) = Some (st, Some q', evs) \<and> mq_ok 0 q' \<and>
      mq_elems q' \<in> {mq_elems q, mq_elems q @ [(Some cb, p, 0, Closure (Some a))]}"
    using assms(3) by (auto simp: zmqBridgeMamaQueue_enqueueEvent_def)
  then obtain st q' evs p where "enq mem (Some q) (Some cb) (Some a) = Some (st, Some q', evs)" "mq_ok 0 q'"
    "mq_elems q' \<in> {mq_elems q, mq_elems q @ [(Some cb, p, 0, Closure (Some a))]}" by blast
  with assms(1) show ?thesis by (intro exI[of _ q'] exI[of _ evs] exI[of _ p]) (simp add: timer_enqueue_def)
qed

text \<open>A changed or additional event in one queue.\<close>

lemma timers_ok_enqueued:
  assumes "timers_ok s" "ts_impls s a = Some impl" "ts_queues s (tm_mQueue impl) = Some q" "mq_ok 0 q'"
    "mq_elems q' \<in> {mq_elems q, mq_elems q @ [(Some cb, p, 0, Closure (Some a))]}"
    "cb = zmqBridgeMamaTimerImpl_destroyCallback \<longrightarrow> mDestroying impl = 1"
    "\<forall>w \<in> set (mq_elems q). rel w \<noteq> Some a"
  shows "timers_ok (s\<lparr>ts_queues := (ts_queues s)(tm_mQueue impl \<mapsto> q'), ts_events := evs\<rparr>)"
proof -
  let ?s = "s\<lparr>ts_queues := (ts_queues s)(tm_mQueue impl \<mapsto> q'), ts_events := evs\<rparr>"
  have ev: "event_ok ?s b v = event_ok s b v" for b v by (simp add: event_ok_def)
  have q: "queue_ok s (tm_mQueue impl) q" using assms(1,3) by (simp add: timers_ok_def)
  have "event_ok s (tm_mQueue impl) (Some cb, p, 0, Closure (Some a))" using assms(2,6) by (auto simp: event_ok_def)
  with q assms(4,5,7) have "queue_ok ?s (tm_mQueue impl) q'"
    by (auto simp: queue_ok_def ev destroyed_last_append)
  moreover have "impl_ok s a i \<Longrightarrow> impl_ok ?s a i" for a i by (auto simp: impl_ok_def)
  ultimately show ?thesis using assms(1) by (auto simp: timers_ok_def queue_ok_def ev elem_ok_def)
qed

text \<open>No event releases a timer that is not being destroyed.\<close>

lemma not_released:
  assumes "timers_ok s" "ts_impls s a = Some impl" "mDestroying impl = 0" "ts_queues s b = Some q" "w \<in> set (mq_elems q)"
  shows "rel w \<noteq> Some a"
proof -
  have "event_ok s b w" using assms(1,4,5) by (auto simp: timers_ok_def queue_ok_def)
  with assms(2,3) show ?thesis by (auto simp: event_ok_def split: if_splits)
qed

text \<open>A change of one timer that keeps its queue and its flag, with its element replaced.\<close>

lemma timers_ok_rearmed:
  assumes ok: "timers_ok s" and i: "ts_impls s a = Some impl" "mDestroying impl = 0" "mTimerElement impl = Some el"
    and j: "mDestroying impl' = 0" "mTimerElement impl' = Some el'" "tm_mQueue impl' = tm_mQueue impl" "mOnTimerDestroyed impl' \<noteq> None"
      "timeval_of (mInterval impl') \<noteq> None" and fresh: "ts_elems s el' = None"
  shows "timers_ok (s\<lparr>ts_elems := (ts_elems s)(el := None, el' \<mapsto> (a, tv)), ts_impls := (ts_impls s)(a \<mapsto> impl')\<rparr>)"
proof -
  let ?s = "s\<lparr>ts_elems := (ts_elems s)(el := None, el' \<mapsto> (a, tv)), ts_impls := (ts_impls s)(a \<mapsto> impl')\<rparr>"
  have ia: "impl_ok s a impl" using ok i(1) by (simp add: timers_ok_def)
  have ev: "event_ok ?s b v" if "event_ok s b v" for b v
    using that by (rule event_ok_mono) (use i j in auto)
  have im: "impl_ok ?s b k" if "ts_impls ?s b = Some k" for b k
  proof (cases "b = a")
    case True
    with that j ia show ?thesis by (auto simp: impl_ok_def)
  next
    case False
    with that have k: "ts_impls s b = Some k" by simp
    with ok have "impl_ok s b k" by (simp add: timers_ok_def)
    moreover have "e \<noteq> el \<and> e \<noteq> el'" if "ts_elems s e = Some (b, t)" for e t
    proof -
      have "ts_elems s el \<noteq> Some (b, t)" using ia i False by (auto simp: impl_ok_def)
      with that fresh show ?thesis by auto
    qed
    ultimately show ?thesis by (auto simp: impl_ok_def)
  qed
  have el: "elem_ok ?s e b" if e: "ts_elems ?s e = Some (b, t)" for e b t
  proof (cases "e = el'")
    case True
    with e j show ?thesis by (auto simp: elem_ok_def)
  next
    case False
    with e have e': "ts_elems s e = Some (b, t)" "e \<noteq> el" by (auto split: if_splits)
    with ok have "elem_ok s e b" by (auto simp: timers_ok_def)
    with e' i show ?thesis by (auto simp: elem_ok_def)
  qed
  show ?thesis using ok ev im el by (auto simp: timers_ok_def queue_ok_def)
qed

lemma reset_ok:
  assumes ok: "timers_ok s" and T: "timer_lib_ok T" and i: "ts_impls s a = Some impl" "mDestroying impl = 0"
    and tv: "timeval_of interval = Some tv" and fresh: "ts_elems s el' = None"
  shows "\<exists>s'. zmqBridgeMamaTimerImpl_reset T Some (Some el') a interval s = Some (MAMA_STATUS_OK, s') \<and> timers_ok s' \<and>
     ts_impls s' a = Some (impl\<lparr>mInterval := interval, mTimerElement := Some el'\<rparr>) \<and> ts_queues s' = ts_queues s"
proof -
  obtain el t where el: "mTimerElement impl = Some el" "ts_elems s el = Some (a, t)"
    using impl_okD[OF ok i(1)] i(2) by (auto simp: impl_ok_def)
  let ?i = "impl\<lparr>mInterval := interval, mTimerElement := Some el'\<rparr>"
  let ?s = "s\<lparr>ts_elems := (ts_elems s)(el := None, el' \<mapsto> (a, tv)), ts_impls := (ts_impls s)(a \<mapsto> ?i)\<rparr>"
  have "impl_ok s a impl" using ok i(1) by (simp add: timers_ok_def)
  then have "timers_ok ?s" using i tv by (intro timers_ok_rearmed[OF ok i el(1) _ _ _ _ _ fresh]) (simp_all add: impl_ok_def)
  moreover obtain c where "zmqBridgeMamaTimerImpl_getBridgeClosure T impl = Some c" using T by (auto simp: timer_lib_ok_def)
  ultimately show ?thesis using i el tv
    by (simp add: zmqBridgeMamaTimerImpl_reset_def upd_timer_def destroyTimer_def createTimer_def)
qed

text \<open>A timer that starts to be destroyed.\<close>

lemma timers_ok_destroying:
  assumes ok: "timers_ok s" and i: "ts_impls s a = Some impl" "mDestroying impl = 0" "mTimerElement impl = Some el"
    and j: "mDestroying impl' = 1" "mTimerElement impl' = None" "tm_mQueue impl' = tm_mQueue impl" "mOnTimerDestroyed impl' = mOnTimerDestroyed impl"
      "mInterval impl' = mInterval impl"
  shows "timers_ok (s\<lparr>ts_elems := (ts_elems s)(el := None), ts_impls := (ts_impls s)(a \<mapsto> impl')\<rparr>)"
proof -
  let ?s = "s\<lparr>ts_elems := (ts_elems s)(el := None), ts_impls := (ts_impls s)(a \<mapsto> impl')\<rparr>"
  have ia: "impl_ok s a impl" using ok i(1) by (simp add: timers_ok_def)
  have ev: "event_ok ?s b v" if "event_ok s b v" for b v
    using that by (rule event_ok_mono) (use i j in auto)
  have im: "impl_ok ?s b k" if "ts_impls ?s b = Some k" for b k
  proof (cases "b = a")
    case True
    with that j ia show ?thesis by (auto simp: impl_ok_def)
  next
    case False
    with that have k: "ts_impls s b = Some k" by simp
    moreover have "e \<noteq> el" if "ts_elems s e = Some (b, t)" for e t
      using ia i False that by (auto simp: impl_ok_def)
    ultimately show ?thesis using impl_okD[OF ok k] by (auto simp: impl_ok_def)
  qed
  have el: "elem_ok ?s e b" if e: "ts_elems ?s e = Some (b, t)" for e b t
  proof -
    from e have e': "ts_elems s e = Some (b, t)" "e \<noteq> el" by (auto split: if_splits)
    with ok have "elem_ok s e b" by (auto simp: timers_ok_def)
    with e' i show ?thesis by (auto simp: elem_ok_def)
  qed
  show ?thesis using ok ev im el by (auto simp: timers_ok_def queue_ok_def)
qed

lemma destroy_ok:
  assumes ok: "timers_ok s" and T: "timer_lib_ok T" and i: "ts_impls s a = Some impl" "mDestroying impl = 0"
  shows "\<exists>st s' impl'. zmqBridgeMamaTimer_destroy T rc mem (Some a) s = Some (st, s') \<and> timers_ok s' \<and>
     ts_impls s' = (ts_impls s)(a \<mapsto> impl') \<and> mDestroying impl' = 1 \<and> mAction impl' = None \<and> mTimerElement impl' = None \<and>
     tm_mQueue impl' = tm_mQueue impl \<and> mInterval impl' = mInterval impl \<and> (\<forall>e. ts_elems s e = None \<longrightarrow> ts_elems s' e = None)"
proof -
  obtain el t where el: "mTimerElement impl = Some el" "ts_elems s el = Some (a, t)"
    using impl_okD[OF ok i(1)] i(2) by (auto simp: impl_ok_def)
  let ?i = "impl\<lparr>mDestroying := 1, mAction := None, mTimerElement := None\<rparr>"
  let ?s = "s\<lparr>ts_elems := (ts_elems s)(el := None), ts_impls := (ts_impls s)(a \<mapsto> ?i)\<rparr>"
  have s: "timers_ok ?s" by (rule timers_ok_destroying[OF ok i el(1)]) simp_all
  obtain q where q: "ts_queues s (tm_mQueue impl) = Some q" "mq_ok 0 q"
    using impl_okD[OF ok i(1)] ok by (auto simp: impl_ok_def timers_ok_def queue_ok_def)
  from timer_enqueue_spec[of ?s "tm_mQueue impl" q zmqBridgeMamaQueue_enqueueEvent mem zmqBridgeMamaTimerImpl_destroyCallback a] q
  obtain q' evs p where e: "timer_enqueue zmqBridgeMamaQueue_enqueueEvent mem (tm_mQueue impl) zmqBridgeMamaTimerImpl_destroyCallback a ?s =
      Some (?s\<lparr>ts_queues := (ts_queues s)(tm_mQueue impl \<mapsto> q'), ts_events := ts_events s @ map TimerQueueEvent evs\<rparr>)" "mq_ok 0 q'"
    "mq_elems q' \<in> {mq_elems q, mq_elems q @ [(Some zmqBridgeMamaTimerImpl_destroyCallback, p, 0, Closure (Some a))]}" by auto
  let ?r = "?s\<lparr>ts_queues := (ts_queues s)(tm_mQueue impl \<mapsto> q'), ts_events := ts_events s @ map TimerQueueEvent evs\<rparr>"
  have "timers_ok (?s\<lparr>ts_queues := (ts_queues ?s)(tm_mQueue ?i \<mapsto> q'), ts_events := ts_events s @ map TimerQueueEvent evs\<rparr>)"
    by (rule timers_ok_enqueued[OF s _ _ e(2,3)]) (use q not_released[OF ok i q(1)] in simp_all)
  then have "timers_ok ?r" by simp
  moreover obtain c where "zmqBridgeMamaTimerImpl_getBridgeClosure T impl = Some c" using T by (auto simp: timer_lib_ok_def)
  then have "zmqBridgeMamaTimer_destroy T rc mem (Some a) s = Some (if rc \<noteq> 0 then MAMA_STATUS_PLATFORM else MAMA_STATUS_OK, ?r)"
    using i el e(1) by (simp add: zmqBridgeMamaTimer_destroy_def upd_timer_def destroyTimer_def)
  ultimately show ?thesis by (intro exI[of _ ?r] exI[of _ ?i] exI conjI) auto
qed

subsection \<open>The heap calls back, a queue dispatches, a timer is created\<close>

lemma fire_ok:
  assumes ok: "timers_ok s" and T: "timer_lib_ok T" and e: "ts_elems s el = Some (a, tv)" and fresh: "ts_elems s el' = None"
  shows "\<exists>s'. zmqBridgeMamaTimerImpl_timerCallback T Some (Some el') mem (Some a) s = Some s' \<and> timers_ok s'"
proof -
  from ok e have "elem_ok s el a" by (auto simp: timers_ok_def)
  then obtain impl where i: "ts_impls s a = Some impl" "mDestroying impl = 0" by (auto simp: elem_ok_def)
  obtain t where t: "timeval_of (mInterval impl) = Some t" using impl_okD[OF ok i(1)] by (auto simp: impl_ok_def)
  obtain s1 where s1: "zmqBridgeMamaTimerImpl_reset T Some (Some el') a (mInterval impl) s = Some (MAMA_STATUS_OK, s1)" "timers_ok s1"
    "ts_impls s1 a = Some (impl\<lparr>mInterval := mInterval impl, mTimerElement := Some el'\<rparr>)" "ts_queues s1 = ts_queues s"
    using reset_ok[OF ok T i t fresh] by blast
  let ?i = "impl\<lparr>mInterval := mInterval impl, mTimerElement := Some el'\<rparr>"
  obtain q where q: "ts_queues s1 (tm_mQueue ?i) = Some q" "mq_ok 0 q"
    using impl_okD[OF s1(2,3)] s1(2) by (auto simp: impl_ok_def timers_ok_def queue_ok_def)
  from timer_enqueue_spec[OF q, of zmqBridgeMamaQueue_enqueueEventEx mem zmqBridgeMamaTimerImpl_queueCallback a]
  obtain q' evs p where en: "timer_enqueue zmqBridgeMamaQueue_enqueueEventEx mem (tm_mQueue ?i) zmqBridgeMamaTimerImpl_queueCallback a s1 =
      Some (s1\<lparr>ts_queues := (ts_queues s1)(tm_mQueue ?i \<mapsto> q'), ts_events := ts_events s1 @ map TimerQueueEvent evs\<rparr>)" "mq_ok 0 q'"
    "mq_elems q' \<in> {mq_elems q, mq_elems q @ [(Some zmqBridgeMamaTimerImpl_queueCallback, p, 0, Closure (Some a))]}" by blast
  have "timers_ok (s1\<lparr>ts_queues := (ts_queues s1)(tm_mQueue ?i \<mapsto> q'), ts_events := ts_events s1 @ map TimerQueueEvent evs\<rparr>)"
    by (rule timers_ok_enqueued[OF s1(2,3) q(1) en(2,3)]) (use not_released[OF s1(2,3) _ q(1)] i in simp_all)
  with i s1 en(1) show ?thesis
    by (simp add: zmqBridgeMamaTimerImpl_timerCallback_def zmqBridgeMamaTimer_reset_def)
qed

text \<open>The release of a timer that no event and no element of the heap refers to.\<close>

lemma timers_ok_released:
  assumes ok: "timers_ok s" and i: "ts_impls s a = Some impl" "mDestroying impl = 1"
    and ev: "\<And>b q v. ts_queues s b = Some q \<Longrightarrow> v \<in> set (mq_elems q) \<Longrightarrow> clo v \<noteq> Some a"
  shows "timers_ok (s\<lparr>ts_impls := (ts_impls s)(a := None), ts_events := evs\<rparr>)"
proof -
  let ?s = "s\<lparr>ts_impls := (ts_impls s)(a := None), ts_events := evs\<rparr>"
  have e: "event_ok ?s b v" if "event_ok s b v" "clo v \<noteq> Some a" for b v
    using that(1) by (rule event_ok_mono) (use that(2) in auto)
  have "queue_ok ?s b q" if q: "ts_queues s b = Some q" for b q
    using ok q e ev[OF q] by (auto simp: timers_ok_def queue_ok_def)
  moreover have "elem_ok ?s el c" if "ts_elems s el = Some (c, t)" for el c t
  proof -
    have "elem_ok s el c" using ok that by (auto simp: timers_ok_def)
    with i show ?thesis by (auto simp: elem_ok_def)
  qed
  moreover have "impl_ok ?s b k = impl_ok s b k" for b k by (simp add: impl_ok_def)
  ultimately show ?thesis using ok by (auto simp: timers_ok_def split: if_splits)
qed

lemma timers_ok_dispatched:
  assumes ok: "timers_ok s" and q: "ts_queues s b = Some q" "mq_elems q = v # vs" and q': "mq_ok 0 q'" "mq_elems q' = vs"
  shows "timers_ok (s\<lparr>ts_queues := (ts_queues s)(b \<mapsto> q'), ts_events := evs\<rparr>)"
proof -
  let ?s = "s\<lparr>ts_queues := (ts_queues s)(b \<mapsto> q'), ts_events := evs\<rparr>"
  have ev: "event_ok ?s c w = event_ok s c w" for c w by (simp add: event_ok_def)
  have "queue_ok s b q" using ok q by (simp add: timers_ok_def)
  with q q' have "queue_ok ?s b q'" by (auto simp: queue_ok_def ev)
  moreover have "impl_ok s a i \<Longrightarrow> impl_ok ?s a i" for a i by (auto simp: impl_ok_def)
  ultimately show ?thesis using ok by (auto simp: timers_ok_def queue_ok_def ev elem_ok_def)
qed

lemma dispatch_ok:
  assumes ok: "timers_ok s" and q: "ts_queues s b = Some q" "mq_elems q \<noteq> []"
  shows "\<exists>s'. timer_dispatch b [SemAcquired] s = Some s' \<and> timers_ok s'"
proof -
  obtain v vs where v: "mq_elems q = v # vs" using q(2) by (cases "mq_elems q") auto
  have qo: "queue_ok s b q" using ok q by (simp add: timers_ok_def)
  then have m: "mq_ok 0 q" "event_ok s b v" "destroyed_last (v # vs)" using v by (auto simp: queue_ok_def)
  from m(2) obtain cb p a where c: "v = (Some cb, p, 0, Closure (Some a))" by (rule event_okE)
  from m(2) c obtain impl where i: "ts_impls s a = Some impl" "tm_mQueue impl = b"
    "cb = zmqBridgeMamaTimerImpl_destroyCallback \<longrightarrow> mDestroying impl = 1" by auto
  obtain f where f: "mOnTimerDestroyed impl = Some f" using impl_okD[OF ok i(1)] by (auto simp: impl_ok_def)
  from dispatchEvent_first[OF m(1) v] obtain st q' evs where
    d: "zmqBridgeMamaQueue_dispatchEvent [SemAcquired] (Some q) = Some (st, Some q', evs)" "mq_ok 0 q'" "mq_elems q' = vs"
      "callbacks evs = (case uq_call_of v of None \<Rightarrow> [] | Some c \<Rightarrow> [c])" by blast
  let ?e = "ts_events s @ map TimerQueueEvent evs"
  let ?s = "s\<lparr>ts_queues := (ts_queues s)(b \<mapsto> q'), ts_events := ?e\<rparr>"
  have run: "timer_dispatch b [SemAcquired] s = run_timer_cb cb (Some a) ?s"
    using q(1) d c by (cases "run_timer_cb cb (Some a) ?s") (simp_all add: timer_dispatch_def uq_call_of_def)
  have ok1: "timers_ok (s\<lparr>ts_queues := (ts_queues s)(b \<mapsto> q'), ts_events := e\<rparr>)" for e
    by (rule timers_ok_dispatched[OF ok q(1) v d(2,3)])
  show ?thesis
  proof (cases cb)
    case zmqBridgeMamaTimerImpl_queueCallback
    with run i(1) ok1 show ?thesis by (cases "mAction impl") (simp_all add: run_timer_cb_def timer_queueCallback_def)
  next
    case zmqBridgeMamaTimerImpl_destroyCallback
    have "clo w \<noteq> Some a" if w: "ts_queues ?s c' = Some r" "w \<in> set (mq_elems r)" for c' r w
    proof (cases "c' = b")
      case True
      with w d(3) m(3) c zmqBridgeMamaTimerImpl_destroyCallback show ?thesis by (auto simp: image_iff)
    next
      case False
      with w have "event_ok s c' w" using ok by (auto simp: timers_ok_def queue_ok_def)
      with False i show ?thesis by (auto simp: event_ok_def)
    qed
    from timers_ok_released[where impl = impl, OF ok1[of ?e] _ _ this] i zmqBridgeMamaTimerImpl_destroyCallback run f show ?thesis
      by (simp add: run_timer_cb_def timer_destroyCallback_def)
  qed
qed

lemma create_ok:
  assumes ok: "timers_ok s" and T: "timer_lib_ok T" and fresh: "ts_impls s a = None" "ts_elems s el = None"
    and q: "ts_queues s b \<noteq> None" and f: "onTimerDestroyed \<noteq> None" and t: "timeval_of interval = Some t"
  shows "\<exists>st r s'. zmqBridgeMamaTimer_create T mem a (Some el) True (Some b) action onTimerDestroyed interval parent closure s = Some (st, r, s') \<and>
     timers_ok s'"
proof (cases "action = None \<or> parent = None \<or> \<not> mem")
  case True
  with ok show ?thesis by (auto simp: zmqBridgeMamaTimer_create_def)
next
  case False
  let ?i = "\<lparr>mTimerElement = Some el, mInterval = interval, tm_mClosure = closure, tm_mParent = parent,
          tm_mQueue = b, mDestroying = 0, mOnTimerDestroyed = onTimerDestroyed, mAction = action\<rparr>"
  let ?s = "s\<lparr>ts_elems := (ts_elems s)(el \<mapsto> (a, t)), ts_impls := (ts_impls s)(a \<mapsto> ?i)\<rparr>"
  have ev: "event_ok ?s c v" if "event_ok s c v" for c v
    using that by (rule event_ok_mono) (use fresh(1) in auto)
  have im: "impl_ok ?s c k" if "ts_impls s c = Some k" for c k
    using impl_okD[OF ok that] fresh by (auto simp: impl_ok_def)
  have "impl_ok ?s a ?i" using q f t by (auto simp: impl_ok_def)
  moreover have "elem_ok s e c \<Longrightarrow> elem_ok ?s e c" for e c using fresh by (auto simp: elem_ok_def)
  moreover have "elem_ok ?s el a" by (simp add: elem_ok_def)
  ultimately have "timers_ok ?s" using ok ev im by (auto simp: timers_ok_def queue_ok_def split: if_splits)
  moreover have "zmqBridgeMamaTimerImpl_getBridgeClosure T (?i\<lparr>mTimerElement := None\<rparr>) \<noteq> None" using T by (simp add: timer_lib_ok_def)
  ultimately show ?thesis using False t by (auto simp: zmqBridgeMamaTimer_create_def createTimer_def upd_timer_def)
qed

subsection \<open>Any sequence of operations\<close>

text \<open>
  The calls that the application, the thread of the timer heap and the queue threads make. The callback of
  the heap runs as one step here.
\<close>

datatype timer_op =
    TCreate bool nat nat nat "nat option" nat rat voidp voidp
  | TDestroy int bool nat
  | TReset nat nat
  | TSetInterval nat nat rat
  | TFire nat nat bool
  | TDispatch nat

fun timer_run :: "timer_lib \<Rightarrow> timer_op \<Rightarrow> timer_sys \<Rightarrow> timer_sys option" where
  "timer_run T (TCreate mem a el b action f interval parent closure) s =
     map_option (snd \<circ> snd) (zmqBridgeMamaTimer_create T mem a (Some el) True (Some b) action (Some f) interval parent closure s)"
| "timer_run T (TDestroy rc mem a) s = map_option snd (zmqBridgeMamaTimer_destroy T rc mem (Some a) s)"
| "timer_run T (TReset a el) s = map_option snd (zmqBridgeMamaTimer_reset T Some (Some el) (Some a) s)"
| "timer_run T (TSetInterval a el interval) s = map_option snd (zmqBridgeMamaTimer_setInterval T Some (Some el) (Some a) interval s)"
| "timer_run T (TFire fired el mem) s =
     (case ts_elems s fired of
        None \<Rightarrow> None
      | Some (a, _) \<Rightarrow> zmqBridgeMamaTimerImpl_timerCallback T Some (Some el) mem (Some a) s)"
| "timer_run T (TDispatch b) s = timer_dispatch b [SemAcquired] s"

text \<open>
  What a caller owes: new memory is new, a queue exists, an interval fits a \<open>timeval\<close>, and a timer is not
  used after its destruction.
\<close>

definition live_timer :: "timer_sys \<Rightarrow> nat \<Rightarrow> bool" where
  "live_timer s a = (case ts_impls s a of None \<Rightarrow> False | Some impl \<Rightarrow> mDestroying impl = 0)"

fun timer_pre :: "timer_op \<Rightarrow> timer_sys \<Rightarrow> bool" where
  "timer_pre (TCreate mem a el b action f interval parent closure) s \<longleftrightarrow>
     ts_impls s a = None \<and> ts_elems s el = None \<and> ts_queues s b \<noteq> None \<and> timeval_of interval \<noteq> None"
| "timer_pre (TDestroy rc mem a) s \<longleftrightarrow> live_timer s a"
| "timer_pre (TReset a el) s \<longleftrightarrow> live_timer s a \<and> ts_elems s el = None"
| "timer_pre (TSetInterval a el interval) s \<longleftrightarrow> live_timer s a \<and> ts_elems s el = None \<and> timeval_of interval \<noteq> None"
| "timer_pre (TFire fired el mem) s \<longleftrightarrow> ts_elems s fired \<noteq> None \<and> ts_elems s el = None"
| "timer_pre (TDispatch b) s \<longleftrightarrow> (case ts_queues s b of None \<Rightarrow> False | Some q \<Rightarrow> mq_elems q \<noteq> [])"

lemma timer_run_ok:
  assumes ok: "timers_ok s" and T: "timer_lib_ok T" and pre: "timer_pre op s"
  shows "\<exists>s'. timer_run T op s = Some s' \<and> timers_ok s'"
proof (cases op)
  case (TCreate mem a el b action f interval parent closure)
  with pre obtain t where "ts_impls s a = None" "ts_elems s el = None" "ts_queues s b \<noteq> None" "timeval_of interval = Some t" by auto
  from create_ok[OF ok T this(1-3) _ this(4), of "Some f" mem action parent closure] TCreate show ?thesis by auto
next
  case (TDestroy rc mem a)
  with pre obtain impl where "ts_impls s a = Some impl" "mDestroying impl = 0" by (auto simp: live_timer_def split: option.splits)
  from destroy_ok[OF ok T this, of rc mem] TDestroy show ?thesis by auto
next
  case (TReset a el)
  with pre obtain impl where i: "ts_impls s a = Some impl" "mDestroying impl = 0" by (auto simp: live_timer_def split: option.splits)
  obtain t where t: "timeval_of (mInterval impl) = Some t" using impl_okD[OF ok i(1)] by (auto simp: impl_ok_def)
  from TReset pre have "ts_elems s el = None" by simp
  from reset_ok[OF ok T i t this] i TReset show ?thesis by (auto simp: zmqBridgeMamaTimer_reset_def)
next
  case (TSetInterval a el interval)
  with pre obtain impl t where "ts_impls s a = Some impl" "mDestroying impl = 0" "timeval_of interval = Some t" "ts_elems s el = None"
    by (auto simp: live_timer_def split: option.splits)
  from reset_ok[OF ok T this] ok TSetInterval show ?thesis by (auto simp: zmqBridgeMamaTimer_setInterval_def)
next
  case (TFire fired el mem)
  with pre obtain a t where "ts_elems s fired = Some (a, t)" "ts_elems s el = None" by auto
  from fire_ok[OF ok T this, of mem] this(1) TFire show ?thesis by auto
next
  case (TDispatch b)
  with pre obtain q where "ts_queues s b = Some q" "mq_elems q \<noteq> []" by (auto split: option.splits)
  from dispatch_ok[OF ok this] TDispatch show ?thesis by simp
qed

inductive timer_reachable :: "timer_lib \<Rightarrow> timer_sys \<Rightarrow> timer_sys \<Rightarrow> bool" for T s0 where
  start: "timer_reachable T s0 s0"
| step: "timer_reachable T s0 s \<Longrightarrow> timer_pre op s \<Longrightarrow> timer_run T op s = Some s' \<Longrightarrow> timer_reachable T s0 s'"

definition no_timers :: "timer_sys \<Rightarrow> bool" where
  "no_timers s \<longleftrightarrow> ts_impls s = (\<lambda>a. None) \<and> ts_elems s = (\<lambda>e. None) \<and> (\<forall>b q. ts_queues s b = Some q \<longrightarrow> mq_ok 0 q \<and> mq_elems q = [])"

lemma reachable_ok: "timer_reachable T s0 s \<Longrightarrow> no_timers s0 \<Longrightarrow> timer_lib_ok T \<Longrightarrow> timers_ok s"
proof (induction rule: timer_reachable.induct)
  case start
  then show ?case by (auto simp: no_timers_def timers_ok_def queue_ok_def)
next
  case (step s op s')
  with timer_run_ok[of s T op] show ?case by auto
qed


definition demo_timer_lib :: timer_lib where
  "demo_timer_lib = \<lparr>mamaTimer_getQueue = (\<lambda>t. Some 1), mamaQueueImpl_getBridgeImpl = (\<lambda>q. Some 2), mamaBridgeImpl_getClosure = (\<lambda>b. Some 3)\<rparr>"

definition demo_tqueue :: tqueue where
  "demo_tqueue = the (snd (the (zmqBridgeMamaQueue_create True True True 0 10 0 2 True (Some 1))))"

lemma demo_tqueue_created:
  "zmqBridgeMamaQueue_create True True True 0 10 0 2 True (Some 1) = Some (MAMA_STATUS_OK, Some demo_tqueue)"
proof -
  have "map_option fst (zmqBridgeMamaQueue_create True True True 0 10 0 2 True (Some 1) :: (_ \<times> tqueue option) option) = Some MAMA_STATUS_OK"
    "map_option (map_option q_mParent \<circ> snd) (zmqBridgeMamaQueue_create True True True 0 10 0 2 True (Some 1) ::
      (_ \<times> tqueue option) option) = Some (Some (Some 1))"
    by code_simp+
  then show ?thesis unfolding demo_tqueue_def by (auto split: option.splits)
qed

definition demo_timers :: timer_sys where
  "demo_timers = \<lparr>ts_impls = (\<lambda>a. None), ts_elems = (\<lambda>e. None), ts_queues = [0 \<mapsto> demo_tqueue], ts_events = []\<rparr>"

definition demo_timer_impl :: zmqTimerImpl where
  "demo_timer_impl = \<lparr>mTimerElement = Some 8, mInterval = 2, tm_mClosure = None, tm_mParent = Some 4, tm_mQueue = 0, mDestroying = 0,
     mOnTimerDestroyed = Some 6, mAction = Some 5\<rparr>"

definition demo_timer_running :: timer_sys where
  "demo_timer_running = demo_timers\<lparr>ts_elems := [8 \<mapsto> (7, 2, 0)], ts_impls := [7 \<mapsto> demo_timer_impl]\<rparr>"

lemma demo_timers_facts:
  "timer_lib_ok demo_timer_lib" "no_timers demo_timers" "timeval_of 2 = Some (2, 0)"
  using create_active(1,2)[OF demo_tqueue_created]
  by (auto simp: no_timers_def demo_timers_def timer_lib_ok_def zmqBridgeMamaTimerImpl_getBridgeClosure_def demo_timer_lib_def
      mq_inv_def timeval_of_def to_long_def rat_trunc_def split: if_splits)

lemma demo_timer_reachable: "timer_reachable demo_timer_lib demo_timers demo_timer_running"
proof (rule timer_reachable.step[OF timer_reachable.start])
  show "timer_pre (TCreate True 7 8 0 (Some 5) 6 2 (Some 4) None) demo_timers"
    using demo_timers_facts(3) by (simp add: demo_timers_def)
  show "timer_run demo_timer_lib (TCreate True 7 8 0 (Some 5) 6 2 (Some 4) None) demo_timers = Some demo_timer_running"
    using demo_timers_facts(3)
    by (simp add: zmqBridgeMamaTimer_create_def demo_timers_def demo_timer_running_def demo_timer_impl_def createTimer_def upd_timer_def
        zmqBridgeMamaTimerImpl_getBridgeClosure_def demo_timer_lib_def)
qed


text \<open>
  C35. A timer that is destroyed while it fires. The flag of a timer is read before the timer heap is locked. When the queue
  thread destroys the timer in between, the callback of the heap puts a new element into the heap
  for the timer that is being destroyed. It stays there when the timer is released, and its firing then uses released memory.
\<close>

theorem timer_race:
  assumes "timer_lib_ok T" "no_timers s0" "timer_reachable T s0 s" "live_timer s a" "ts_elems s el = None"
  shows "\<exists>s' s'' tv. zmqBridgeMamaTimerImpl_timerCallback T (\<lambda>s. map_option snd (zmqBridgeMamaTimer_destroy T rc mem (Some a) s))
       (Some el) mem' (Some a) s = Some s' \<and> \<not> live_timer s' a \<and> ts_elems s' el = Some (a, tv) \<and>
     timer_destroyCallback (Some a) s' = Some s'' \<and> ts_elems s'' el = Some (a, tv) \<and> timer_run T (TFire el el' mem'') s'' = None"
proof -
  have ok: "timers_ok s" using reachable_ok assms(1-3) by blast
  obtain impl where i: "ts_impls s a = Some impl" "mDestroying impl = 0" using assms(4) by (auto simp: live_timer_def split: option.splits)
  obtain t where t: "timeval_of (mInterval impl) = Some t" using impl_okD[OF ok i(1)] by (auto simp: impl_ok_def)
  obtain c where c: "zmqBridgeMamaTimerImpl_getBridgeClosure T impl = Some c" using assms(1) by (auto simp: timer_lib_ok_def)
  from destroy_ok[OF ok assms(1) i, of rc mem] obtain st s1 impl1 where
    d: "zmqBridgeMamaTimer_destroy T rc mem (Some a) s = Some (st, s1)" "timers_ok s1" "ts_impls s1 a = Some impl1" "mDestroying impl1 = 1"
      "mTimerElement impl1 = None" "mInterval impl1 = mInterval impl" by auto
  let ?i = "impl1\<lparr>mInterval := mInterval impl, mTimerElement := Some el\<rparr>"
  let ?s2 = "s1\<lparr>ts_elems := (ts_elems s1)(el \<mapsto> (a, t)), ts_impls := (ts_impls s1)(a \<mapsto> ?i)\<rparr>"
  have r: "zmqBridgeMamaTimerImpl_reset T (\<lambda>s. map_option snd (zmqBridgeMamaTimer_destroy T rc mem (Some a) s)) (Some el) a (mInterval impl) s =
      Some (MAMA_STATUS_OK, ?s2)"
    using i t c d by (simp add: zmqBridgeMamaTimerImpl_reset_def upd_timer_def createTimer_def)
  obtain q f where q: "ts_queues ?s2 (tm_mQueue impl1) = Some q" "mq_ok 0 q" "mOnTimerDestroyed impl1 = Some f"
    using impl_okD[OF d(2,3)] d(2) by (auto simp: impl_ok_def timers_ok_def queue_ok_def)
  from timer_enqueue_spec[OF q(1,2), of zmqBridgeMamaQueue_enqueueEventEx mem' zmqBridgeMamaTimerImpl_queueCallback a]
  obtain q' evs where "timer_enqueue zmqBridgeMamaQueue_enqueueEventEx mem' (tm_mQueue impl1) zmqBridgeMamaTimerImpl_queueCallback a ?s2 =
      Some (?s2\<lparr>ts_queues := (ts_queues ?s2)(tm_mQueue impl1 \<mapsto> q'), ts_events := ts_events ?s2 @ map TimerQueueEvent evs\<rparr>)" by blast
  with i r have "zmqBridgeMamaTimerImpl_timerCallback T (\<lambda>s. map_option snd (zmqBridgeMamaTimer_destroy T rc mem (Some a) s)) (Some el) mem' (Some a) s =
      Some (?s2\<lparr>ts_queues := (ts_queues ?s2)(tm_mQueue impl1 \<mapsto> q'), ts_events := ts_events ?s2 @ map TimerQueueEvent evs\<rparr>)"
    by (simp add: zmqBridgeMamaTimerImpl_timerCallback_def zmqBridgeMamaTimer_reset_def)
  then show ?thesis using d q(3)
    by (simp add: live_timer_def timer_destroyCallback_def zmqBridgeMamaTimerImpl_timerCallback_def)
qed

theorem timer_race_witness:
  "\<exists>s' tv. zmqBridgeMamaTimerImpl_timerCallback demo_timer_lib
       (\<lambda>s. map_option snd (zmqBridgeMamaTimer_destroy demo_timer_lib 0 True (Some 7) s)) (Some 9) True (Some 7) demo_timer_running = Some s' \<and>
     \<not> live_timer s' 7 \<and> ts_elems s' 9 = Some (7, tv)"
proof -
  have "live_timer demo_timer_running 7" "ts_elems demo_timer_running 9 = None"
    by (simp_all add: demo_timer_running_def live_timer_def demo_timer_impl_def)
  from timer_race[OF demo_timers_facts(1,2) demo_timer_reachable this, of 0 True True 0 True] show ?thesis by blast
qed

end
