(* ===== verification/Bridge.thy ===== *)
theory Bridge
  imports Timer_Correct
begin

text \<open>
  The entry points of the bridge, \<open>src/src/bridge.c\<close>, and the operations that it does not support, in
  \<open>src/src/notimpl.c\<close> and \<open>src/src/io.c\<close>. Opening the bridge creates the default event queue and the timer heap that the timers use.
\<close>

subsection \<open>State\<close>

record zmqBridgeClosure =
  mImplClosure :: voidp
  mTimerHeap :: "nat option"

datatype bridge_call =
    Wsocketstartup
  | SetReadOnlyProperty cstring cstring
  | MamaQueue_create
  | SetQueueName voidp cstring
  | DestroyHeap nat
  | JoinTimerThread nat
  | DestroyTimedWait voidp nat
  | MamaQueue_dispatch nat
  | MamaQueue_stopDispatch nat

text \<open>
  What \<open>mamaBridgeImpl_setClosure\<close> has stored, the allocated closures, the default event queue, the timer heaps with whether
  their thread was started, and the other calls.
\<close>

record bridge_sys =
  br_closure :: voidp
  br_closures :: "nat \<Rightarrow> zmqBridgeClosure option"
  br_queue :: voidp
  br_heaps :: "nat \<Rightarrow> bool option"
  br_calls :: "bridge_call list"

definition bridge_do :: "bridge_call \<Rightarrow> bridge_sys \<Rightarrow> bridge_sys" where
  "bridge_do c s = s\<lparr>br_calls := br_calls s @ [c]\<rparr>"

subsection \<open>Constants\<close>

definition PAYLOAD_NAMES :: "cstring list" where "PAYLOAD_NAMES = [''omnmmsg'']"
definition PAYLOAD_IDS :: cstring where "PAYLOAD_IDS = ''O''"
definition ZMQ_BRIDGE_NAME :: cstring where "ZMQ_BRIDGE_NAME = ''zmq''"
definition ZMQ_BRIDGE_VERSION :: cstring where "ZMQ_BRIDGE_VERSION = ''2.0''"
definition ZMQ_DEFAULT_QUEUE_NAME :: cstring where "ZMQ_DEFAULT_QUEUE_NAME = ''ZMQ_DEFAULT_MAMA_QUEUE''"
definition ZMQ_SHUTDOWN_TIMEOUT :: nat where "ZMQ_SHUTDOWN_TIMEOUT = 5000"

subsection \<open>Operations\<close>

text \<open>\<open>prop\<close> is the value of \<open>MAMA_PROP_EXTENDS_BASE_BRIDGE\<close>, a macro of the MAMA headers.\<close>

definition zmqBridge_init :: "cstring \<Rightarrow> bridge_sys \<Rightarrow> mama_status \<times> bridge_sys" where
  "zmqBridge_init prop s = (MAMA_STATUS_OK, bridge_do (SetReadOnlyProperty prop ''true'') s)"

text \<open>
  \<open>mem\<close> is the address that \<open>calloc\<close> returns, \<open>queue\<close> what \<open>mamaQueue_create\<close> returns and stores, \<open>heap\<close> the new
  timer heap unless it cannot be created, and \<open>rc\<close> the result of starting its thread.
\<close>

definition zmqBridge_open ::
  "nat option \<Rightarrow> mama_status \<times> voidp \<Rightarrow> nat option \<Rightarrow> int \<Rightarrow> bool \<Rightarrow> bridge_sys \<Rightarrow> mama_status \<times> bridge_sys" where
  "zmqBridge_open mem queue heap rc bridgeImpl s =
     (let s = bridge_do Wsocketstartup s in
      if \<not> bridgeImpl then (MAMA_STATUS_NULL_ARG, s)
      else case mem of
        None \<Rightarrow> (MAMA_STATUS_NOMEM, s)
      | Some closure \<Rightarrow>
          let s = s\<lparr>br_closures := (br_closures s)(closure \<mapsto> \<lparr>mImplClosure = None, mTimerHeap = None\<rparr>)\<rparr>;
              s = s\<lparr>br_closure := Some closure\<rparr>;
              s = bridge_do MamaQueue_create s;
              (status, defaultEventQueue) = queue in
          if status \<noteq> MAMA_STATUS_OK then (status, s)
          else (let s = s\<lparr>br_queue := defaultEventQueue\<rparr>;
                    s = bridge_do (SetQueueName defaultEventQueue ZMQ_DEFAULT_QUEUE_NAME) s in
                case heap of
                  None \<Rightarrow> (MAMA_STATUS_PLATFORM, s)
                | Some hp \<Rightarrow>
                    let s = s\<lparr>br_heaps := (br_heaps s)(hp \<mapsto> False),
                          br_closures := (br_closures s)(closure := map_option (\<lambda>c. c\<lparr>mTimerHeap := Some hp\<rparr>) (br_closures s closure))\<rparr> in
                    if rc \<noteq> 0 then (MAMA_STATUS_PLATFORM, s)
                    else (MAMA_STATUS_OK, s\<lparr>br_heaps := (br_heaps s)(hp \<mapsto> True)\<rparr>)))"

text \<open>The closure is followed without a check.\<close>

definition zmqBridge_close :: "int \<Rightarrow> bool \<Rightarrow> bridge_sys \<Rightarrow> (mama_status \<times> bridge_sys) option" where
  "zmqBridge_close rc bridgeImpl s =
     (if \<not> bridgeImpl then Some (MAMA_STATUS_NULL_ARG, s)
      else do {
        a \<leftarrow> br_closure s;
        closure \<leftarrow> br_closures s a;
        let (status, s) =
          (case mTimerHeap closure of
             None \<Rightarrow> (MAMA_STATUS_OK, s)
           | Some hp \<Rightarrow>
               (if rc \<noteq> 0 then MAMA_STATUS_PLATFORM else MAMA_STATUS_OK,
                bridge_do (JoinTimerThread hp) (bridge_do (DestroyHeap hp) (s\<lparr>br_heaps := (br_heaps s)(hp := None)\<rparr>))));
        let s = s\<lparr>br_closure := None, br_closures := (br_closures s)(a := None)\<rparr>;
        Some (status, bridge_do (DestroyTimedWait (br_queue s) ZMQ_SHUTDOWN_TIMEOUT) s)
      })"

text \<open>\<open>status\<close> is the result of \<open>mamaQueue_dispatch\<close> and of \<open>mamaQueue_stopDispatch\<close>.\<close>

definition zmqBridge_start :: "mama_status \<Rightarrow> voidp \<Rightarrow> bridge_sys \<Rightarrow> mama_status \<times> bridge_sys" where
  "zmqBridge_start status defaultEventQueue s =
     (case defaultEventQueue of None \<Rightarrow> (MAMA_STATUS_NULL_ARG, s) | Some q \<Rightarrow> (status, bridge_do (MamaQueue_dispatch q) s))"

definition zmqBridge_stop :: "mama_status \<Rightarrow> voidp \<Rightarrow> bridge_sys \<Rightarrow> mama_status \<times> bridge_sys" where
  "zmqBridge_stop status defaultEventQueue s =
     (case defaultEventQueue of None \<Rightarrow> (MAMA_STATUS_NULL_ARG, s) | Some q \<Rightarrow> (status, bridge_do (MamaQueue_stopDispatch q) s))"

definition zmqBridge_getName :: cstring where
  "zmqBridge_getName = ZMQ_BRIDGE_NAME"

definition zmqBridge_getVersion :: "int \<times> int \<times> int \<Rightarrow> cstring option" where
  "zmqBridge_getVersion v = (case v of (major, minor, patch) \<Rightarrow>
     strcpy_into 1024 (zmqBridge_getName @ '' version '' @ ZMQ_BRIDGE_VERSION @ '' using libzmq version '' @
       fmt_d major @ ''.'' @ fmt_d minor @ ''.'' @ fmt_d patch))"

definition zmqBridge_getDefaultPayloadId :: "bool \<Rightarrow> bool \<Rightarrow> mama_status \<times> (cstring list \<times> cstring) option" where
  "zmqBridge_getDefaultPayloadId name ids =
     (if \<not> name \<or> \<not> ids then (MAMA_STATUS_NULL_ARG, None) else (MAMA_STATUS_OK, Some (PAYLOAD_NAMES, PAYLOAD_IDS)))"

subsection \<open>Operations that are not implemented\<close>

text \<open>The second component is what is stored through the result pointer.\<close>

definition zmqBridgeMamaTransport_getNumLoadBalanceAttributes :: "bool \<Rightarrow> bool \<Rightarrow> mama_status \<times> nat option" where
  "zmqBridgeMamaTransport_getNumLoadBalanceAttributes name numLoadBalanceAttributes =
     (if \<not> numLoadBalanceAttributes \<or> \<not> name then (MAMA_STATUS_NULL_ARG, None) else (MAMA_STATUS_OK, Some 0))"

definition zmqBridgeMamaTransport_getLoadBalanceSharedObjectName :: "bool \<Rightarrow> mama_status \<times> cstring option option" where
  "zmqBridgeMamaTransport_getLoadBalanceSharedObjectName loadBalanceSharedObjectName =
     (if \<not> loadBalanceSharedObjectName then (MAMA_STATUS_NULL_ARG, None) else (MAMA_STATUS_NOT_IMPLEMENTED, Some None))"

text \<open>\<open>static_scheme\<close> is the value \<open>TPORT_LB_SCHEME_STATIC\<close> of an enumeration of MAMA.\<close>

definition zmqBridgeMamaTransport_getLoadBalanceScheme :: "'s \<Rightarrow> bool \<Rightarrow> bool \<Rightarrow> mama_status \<times> 's option" where
  "zmqBridgeMamaTransport_getLoadBalanceScheme static_scheme name scheme =
     (if \<not> scheme \<or> \<not> name then (MAMA_STATUS_NULL_ARG, None) else (MAMA_STATUS_NOT_IMPLEMENTED, Some static_scheme))"

definition zmqBridgeMamaTransport_isConnectionIntercepted :: "bool \<Rightarrow> mama_status \<times> nat option" where
  "zmqBridgeMamaTransport_isConnectionIntercepted result =
     (if \<not> result then (MAMA_STATUS_NULL_ARG, None) else (MAMA_STATUS_NOT_IMPLEMENTED, Some 0))"

text \<open>The other operations look at none of their arguments.\<close>

definition zmqBridgeMamaTransport_forceClientDisconnect :: "voidp \<Rightarrow> int \<Rightarrow> cstring option \<Rightarrow> 16 word \<Rightarrow> mama_status" where
  "zmqBridgeMamaTransport_forceClientDisconnect transports numTransports ipAddress port = MAMA_STATUS_NOT_IMPLEMENTED"

definition zmqBridgeMamaTransport_findConnection :: "voidp \<Rightarrow> int \<Rightarrow> voidp \<Rightarrow> cstring option \<Rightarrow> 16 word \<Rightarrow> mama_status" where
  "zmqBridgeMamaTransport_findConnection transports numTransports result ipAddress port = MAMA_STATUS_NOT_IMPLEMENTED"

definition zmqBridgeMamaTransport_getAllConnections :: "voidp \<Rightarrow> int \<Rightarrow> voidp \<Rightarrow> voidp \<Rightarrow> mama_status" where
  "zmqBridgeMamaTransport_getAllConnections transports numTransports result len = MAMA_STATUS_NOT_IMPLEMENTED"

definition zmqBridgeMamaTransport_getAllConnectionsForTopic :: "voidp \<Rightarrow> int \<Rightarrow> cstring option \<Rightarrow> voidp \<Rightarrow> voidp \<Rightarrow> mama_status" where
  "zmqBridgeMamaTransport_getAllConnectionsForTopic transports numTransports topic result len = MAMA_STATUS_NOT_IMPLEMENTED"

definition zmqBridgeMamaTransport_requestConflation :: "voidp \<Rightarrow> int \<Rightarrow> mama_status" where
  "zmqBridgeMamaTransport_requestConflation transports numTransports = MAMA_STATUS_NOT_IMPLEMENTED"

definition zmqBridgeMamaTransport_requestEndConflation :: "voidp \<Rightarrow> int \<Rightarrow> mama_status" where
  "zmqBridgeMamaTransport_requestEndConflation transports numTransports = MAMA_STATUS_NOT_IMPLEMENTED"

definition zmqBridgeMamaTransport_getAllServerConnections :: "voidp \<Rightarrow> int \<Rightarrow> voidp \<Rightarrow> voidp \<Rightarrow> mama_status" where
  "zmqBridgeMamaTransport_getAllServerConnections transports numTransports result len = MAMA_STATUS_NOT_IMPLEMENTED"

definition zmqBridgeMamaTransport_freeAllServerConnections :: "voidp \<Rightarrow> int \<Rightarrow> voidp \<Rightarrow> 32 word \<Rightarrow> mama_status" where
  "zmqBridgeMamaTransport_freeAllServerConnections transports numTransports result len = MAMA_STATUS_NOT_IMPLEMENTED"

definition zmqBridgeMamaTransport_freeAllConnections :: "voidp \<Rightarrow> int \<Rightarrow> voidp \<Rightarrow> 32 word \<Rightarrow> mama_status" where
  "zmqBridgeMamaTransport_freeAllConnections transports numTransports result len = MAMA_STATUS_NOT_IMPLEMENTED"

definition zmqBridgeMamaTransport_sendMsgToConnection :: "voidp \<Rightarrow> voidp \<Rightarrow> voidp \<Rightarrow> cstring option \<Rightarrow> mama_status" where
  "zmqBridgeMamaTransport_sendMsgToConnection transport connection msg topic = MAMA_STATUS_NOT_IMPLEMENTED"

definition zmqBridgeMamaTransport_installConnectConflateMgr :: "voidp \<Rightarrow> voidp \<Rightarrow> voidp \<Rightarrow> voidp \<Rightarrow> voidp \<Rightarrow> mama_status" where
  "zmqBridgeMamaTransport_installConnectConflateMgr handle mgr connection processCb msgCb = MAMA_STATUS_NOT_IMPLEMENTED"

definition zmqBridgeMamaTransport_uninstallConnectConflateMgr :: "voidp \<Rightarrow> voidp \<Rightarrow> voidp \<Rightarrow> mama_status" where
  "zmqBridgeMamaTransport_uninstallConnectConflateMgr handle mgr connection = MAMA_STATUS_NOT_IMPLEMENTED"

definition zmqBridgeMamaTransport_startConnectionConflation :: "voidp \<Rightarrow> voidp \<Rightarrow> voidp \<Rightarrow> mama_status" where
  "zmqBridgeMamaTransport_startConnectionConflation transport mgr connection = MAMA_STATUS_NOT_IMPLEMENTED"

definition zmqBridgeMamaTransport_getNativeTransportNamingCtx :: "voidp \<Rightarrow> voidp \<Rightarrow> mama_status" where
  "zmqBridgeMamaTransport_getNativeTransportNamingCtx transport result = MAMA_STATUS_NOT_IMPLEMENTED"

definition zmqBridgeMamaIo_create :: "voidp \<Rightarrow> voidp \<Rightarrow> 32 word \<Rightarrow> voidp \<Rightarrow> int \<Rightarrow> voidp \<Rightarrow> voidp \<Rightarrow> mama_status" where
  "zmqBridgeMamaIo_create result nativeQueueHandle descriptor action ioType parent closure = MAMA_STATUS_NOT_IMPLEMENTED"

definition zmqBridgeMamaIo_destroy :: "voidp \<Rightarrow> mama_status" where
  "zmqBridgeMamaIo_destroy io = MAMA_STATUS_NOT_IMPLEMENTED"

definition zmqBridgeMamaIo_getDescriptor :: "voidp \<Rightarrow> voidp \<Rightarrow> mama_status" where
  "zmqBridgeMamaIo_getDescriptor io result = MAMA_STATUS_NOT_IMPLEMENTED"

subsection \<open>Opening and closing\<close>

definition bridge_closed :: "bridge_sys \<Rightarrow> bool" where
  "bridge_closed s \<longleftrightarrow> br_closure s = None \<and> br_closures s = (\<lambda>a. None) \<and> br_heaps s = (\<lambda>h. None)"

text \<open>The library functions by which a timer finds the closure that the bridge has stored.\<close>

definition bridge_timer_lib :: "(voidp \<Rightarrow> voidp) \<Rightarrow> (voidp \<Rightarrow> voidp) \<Rightarrow> bridge_sys \<Rightarrow> timer_lib" where
  "bridge_timer_lib getQueue getBridge s =
     \<lparr>mamaTimer_getQueue = getQueue, mamaQueueImpl_getBridgeImpl = getBridge, mamaBridgeImpl_getClosure = (\<lambda>b. br_closure s)\<rparr>"

lemma bridge_open_timers:
  assumes "zmqBridge_open mem queue heap rc True s = (MAMA_STATUS_OK, s')"
  shows "timer_lib_ok (bridge_timer_lib g f s')"
    "\<exists>a hp. br_closure s' = Some a \<and> br_closures s' a = Some \<lparr>mImplClosure = None, mTimerHeap = Some hp\<rparr> \<and> br_heaps s' hp = Some True"
  using assms by (auto simp: zmqBridge_open_def bridge_do_def Let_def timer_lib_ok_def bridge_timer_lib_def
      zmqBridgeMamaTimerImpl_getBridgeClosure_def split: option.splits if_splits prod.splits)

lemma bridge_close_releases:
  assumes "bridge_closed s" "zmqBridge_open (Some a) queue heap rc True s = (st, s')"
  shows "\<exists>st' s''. zmqBridge_close rc' True s' = Some (st', s'') \<and> bridge_closed s'' \<and>
     (\<forall>hp. br_heaps s' hp \<noteq> None \<longrightarrow> DestroyHeap hp \<in> set (br_calls s'') \<and> JoinTimerThread hp \<in> set (br_calls s''))"
  using assms by (cases queue; cases heap)
    (auto simp: zmqBridge_open_def zmqBridge_close_def bridge_do_def Let_def bridge_closed_def fun_eq_iff split: if_splits)

lemma bridge_close_without_closure: "br_closure s = None \<Longrightarrow> zmqBridge_close rc True s = None"
  by (simp add: zmqBridge_close_def)

lemma bridge_closed_timers: "bridge_closed s \<Longrightarrow> \<not> timer_lib_ok (bridge_timer_lib g f s)"
  by (simp add: bridge_closed_def timer_lib_ok_def bridge_timer_lib_def zmqBridgeMamaTimerImpl_getBridgeClosure_def)

end
