(* ===== verification/Naming_Server.thy ===== *)
theory Naming_Server
  imports Naming_Correct Params
begin

text \<open>
  The naming server, \<open>src/src/nsd.c\<close>: it reads an interface and a port from the command line, binds two
  sockets, sets the message that greets each subscriber, and forwards between the sockets. The
  greeting tells a transport where to send its announcements.
\<close>

subsection \<open>The command line\<close>

definition strcasecmp_eq :: "cstring \<Rightarrow> cstring \<Rightarrow> bool" where
  "strcasecmp_eq s t \<longleftrightarrow> map to_lower s = map to_lower t"

text \<open>
  The loop over the arguments. Behind the last argument there is a null pointer, which neither \<open>atoi\<close> nor
  \<open>strcasecmp\<close> may be given. The second test reads the argument that the first one may have moved to.
\<close>

function nsd_args :: "cstring list \<Rightarrow> cstring option \<Rightarrow> int \<Rightarrow> (cstring option \<times> int) option" where
  "nsd_args [] interface port = Some (interface, port)"
| "nsd_args (arg # args) interface port =
     (case (if strcasecmp_eq ''-i'' arg
            then (case args of [] \<Rightarrow> None | v # args \<Rightarrow> Some (Some v, v, args))
            else Some (interface, arg, args)) of
        None \<Rightarrow> None
      | Some (interface, cur, args') \<Rightarrow>
          if strcasecmp_eq ''-p'' cur
          then (case args' of
                  [] \<Rightarrow> None
                | v # args'' \<Rightarrow> (case atoi v of None \<Rightarrow> None | Some port \<Rightarrow> nsd_args args'' interface port))
          else nsd_args args' interface port)"
  by pat_completeness auto
termination
  by (relation "measure (\<lambda>(args, _, _). length args)") (auto split: if_splits list.splits)

subsection \<open>The server\<close>

datatype nsd_socket = ZMQ_XSUB | ZMQ_XPUB

datatype nsd_call =
    Mama_enableLogging int
  | Nsd_ctx_new
  | Nsd_socket nsd_socket
  | Nsd_bind nat cstring
  | Nsd_last_endpoint nat
  | Nsd_welcome_msg nat bytes
  | Nsd_proxy nat nat
  | Nsd_close nat
  | Nsd_ctx_destroy

text \<open>
  What the calls return: whether there is a context, the sockets, the results of binding, of asking for the bound
  endpoint and of setting the greeting; the environment variable of the logging and the level \<open>NORMAL\<close>.
\<close>

record nsd_env =
  ne_logging :: "cstring option"
  ne_normal :: int
  ne_context :: bool
  ne_frontend :: "nat option"
  ne_bind_frontend :: int
  ne_endpoint :: "cstring option"
  ne_backend :: "nat option"
  ne_welcome :: int
  ne_bind_backend :: int

text \<open>A call that ends the program with an exit code when it fails.\<close>

definition or_exit ::
  "nsd_call list \<Rightarrow> nsd_call \<Rightarrow> 'a option \<Rightarrow> int \<Rightarrow> (nsd_call list \<Rightarrow> 'a \<Rightarrow> (int \<times> nsd_call list) option) \<Rightarrow> (int \<times> nsd_call list) option" where
  "or_exit calls c r code k = (case r of None \<Rightarrow> Some (code, calls @ [c]) | Some x \<Rightarrow> k (calls @ [c]) x)"

definition rc_ok :: "int \<Rightarrow> unit option" where
  "rc_ok rc = (if rc \<noteq> 0 then None else Some ())"

definition welcome_msg :: "(nat \<Rightarrow> cstring \<Rightarrow> nat \<times> cstring) \<Rightarrow> host_env \<Rightarrow> cstring \<Rightarrow> bytes option" where
  "welcome_msg wm h subEndpoint = do {
     let msg = replicate sizeof_zmqNamingMsg NUL;
     msg \<leftarrow> strcpy_at msg 0 (MAX_SUBJECT_LENGTH + 1) ZMQ_NAMING_PREFIX;
     msg \<leftarrow> memcpy_at msg off_mType [CHR ''W''];
     msg \<leftarrow> memcpy_at msg off_mProgName (snd (wm (256 + 1) (he_prog h)) @ [NUL]);
     msg \<leftarrow> memcpy_at msg off_mEndPointAddr (snd (wm (ZMQ_MAX_ENDPOINT_LENGTH + 1) subEndpoint) @ [NUL]);
     msg \<leftarrow> memcpy_at msg off_mHost (he_host h);
     memcpy_at msg off_mPid (long_bytes (he_pid h))
   }"

definition nsd_main :: "(nat \<Rightarrow> cstring \<Rightarrow> nat \<times> cstring) \<Rightarrow> host_env \<Rightarrow> nsd_env \<Rightarrow> cstring list \<Rightarrow> (int \<times> nsd_call list) option" where
  "nsd_main wm h e args = do {
     logLevel \<leftarrow> (case ne_logging e of None \<Rightarrow> Some (ne_normal e) | Some temp \<Rightarrow> atoi temp);
     let calls = [Mama_enableLogging logLevel];
     (interface, port) \<leftarrow> nsd_args args None 0;
     (case interface of
        None \<Rightarrow> Some (1, calls)
      | Some interface \<Rightarrow>
          if port = 0 then Some (1, calls)
          else or_exit calls Nsd_ctx_new (if ne_context e then Some () else None) 2 (\<lambda>calls _. do {
            subEndpoint \<leftarrow> strcpy_into ZMQ_MAX_ENDPOINT_LENGTH (''tcp://'' @ interface @ '':*'');
            or_exit calls (Nsd_socket ZMQ_XSUB) (ne_frontend e) 3 (\<lambda>calls frontend.
            or_exit calls (Nsd_bind frontend subEndpoint) (rc_ok (ne_bind_frontend e)) 4 (\<lambda>calls _.
            or_exit calls (Nsd_last_endpoint frontend) (ne_endpoint e) 5 (\<lambda>calls subEndpoint.
            or_exit calls (Nsd_socket ZMQ_XPUB) (ne_backend e) 6 (\<lambda>calls backend. do {
              pubEndpoint \<leftarrow> strcpy_into 1024 (''tcp://'' @ interface @ '':'' @ fmt_d port);
              welcomeMsg \<leftarrow> welcome_msg wm h subEndpoint;
              or_exit calls (Nsd_welcome_msg backend welcomeMsg) (rc_ok (ne_welcome e)) 7 (\<lambda>calls _.
              or_exit calls (Nsd_bind backend pubEndpoint) (rc_ok (ne_bind_backend e)) 8 (\<lambda>calls _.
                Some (0, calls @ [Nsd_proxy frontend backend, Nsd_close frontend, Nsd_close backend, Nsd_ctx_destroy])))
            }))))
          }))
   }"

end
