(* ===== verification/Naming_Server_Correct.thy ===== *)
theory Naming_Server_Correct
  imports Naming_Server Params_Correct
begin

text \<open>
  The naming server and the transports together: the greeting that the server builds makes a transport
  connect to the endpoint that the server is bound to.
\<close>

lemma welcome_msg_eq:
  assumes "wmStrSizeCpy_ok wm" "host_ok h" "length ep \<le> 256"
  shows "welcome_msg wm h ep = Some (naming_bytes (own_msg h (CHR ''W'') [] ep))"
proof -
  let ?Z = "\<lambda>n. replicate n NUL"
  let ?prog = "take 256 (he_prog h)"
  have z: "?Z sizeof_zmqNamingMsg = [] @ ?Z 257 @ (?Z 1 @ ?Z 257 @ ?Z 65 @ ?Z 8 @ ?Z 37 @ ?Z 257)"
    unfolding append_Nil by (simp only: naming_layout flip: replicate_add) simp
  have wm: "snd (wm (256 + 1) s) = take 256 s" for s
    using assms(1)[unfolded wmStrSizeCpy_ok_def, rule_format, of 256 s] by simp
  have topic: "length ZMQ_NAMING_PREFIX = 7" by (simp add: ZMQ_NAMING_PREFIX_def)
  have lens: "length (he_host h) \<le> 65" "length ep < 257" "length ?prog < 257"
    using assms(2,3) by (simp_all add: host_ok_def naming_layout)
  let ?a1 = "char_array 257 ZMQ_NAMING_PREFIX" and ?c = "CHR ''W''"
  let ?a3 = "char_array 257 ?prog" and ?a4 = "char_array 65 (he_host h)" and ?a5 = "long_bytes (he_pid h)"
  let ?a7 = "char_array 257 ep"
  have s1: "strcpy_at (?Z sizeof_zmqNamingMsg) 0 257 ZMQ_NAMING_PREFIX =
      Some (?a1 @ ?Z 1 @ ?Z 257 @ ?Z 65 @ ?Z 8 @ ?Z 37 @ ?Z 257)"
    unfolding z by (subst strcpy_field) (simp_all add: topic)
  have s2: "memcpy_at (?a1 @ ?Z 1 @ ?Z 257 @ ?Z 65 @ ?Z 8 @ ?Z 37 @ ?Z 257) 257 [?c] =
      Some ((?a1 @ [?c]) @ ?Z 257 @ ?Z 65 @ ?Z 8 @ ?Z 37 @ ?Z 257)"
    by (subst memcpy_field) (simp_all add: topic char_array_def)
  have s3: "memcpy_at ((?a1 @ [?c]) @ ?Z 257 @ ?Z 65 @ ?Z 8 @ ?Z 37 @ ?Z 257) 258 (?prog @ [NUL]) =
      Some ((?a1 @ [?c] @ ?a3 @ ?Z 65 @ ?Z 8 @ ?Z 37) @ ?Z 257 @ [])"
    using lens(3) by (subst memcpy_field) (simp_all add: topic char_array_snoc)
  have s4: "memcpy_at ((?a1 @ [?c] @ ?a3 @ ?Z 65 @ ?Z 8 @ ?Z 37) @ ?Z 257 @ []) 625 (take 256 ep @ [NUL]) =
      Some ((?a1 @ [?c] @ ?a3) @ ?Z 65 @ (?Z 8 @ ?Z 37 @ ?a7))"
    using lens(2,3) by (subst memcpy_field) (simp_all add: topic char_array_snoc)
  have s5: "memcpy_at ((?a1 @ [?c] @ ?a3) @ ?Z 65 @ (?Z 8 @ ?Z 37 @ ?a7)) 515 (he_host h) =
      Some ((?a1 @ [?c] @ ?a3 @ ?a4) @ ?Z 8 @ (?Z 37 @ ?a7))"
    using lens(1,3) by (subst memcpy_field) (simp_all add: topic)
  have s6: "memcpy_at ((?a1 @ [?c] @ ?a3 @ ?a4) @ ?Z 8 @ (?Z 37 @ ?a7)) 580 ?a5 =
      Some ((?a1 @ [?c] @ ?a3 @ ?a4) @ char_array 8 ?a5 @ (?Z 37 @ ?a7))"
    using lens(1,3) by (subst memcpy_field) (simp_all add: topic)
  have a: "char_array 8 ?a5 = ?a5" "char_array 37 [] = ?Z 37" by (simp_all add: char_array_def)
  have n: "naming_bytes (own_msg h ?c [] ep) = (?a1 @ [?c] @ ?a3 @ ?a4) @ char_array 8 ?a5 @ (?Z 37 @ ?a7)"
    unfolding a by (simp add: naming_bytes_def own_msg_def naming_layout a(2) del: replicate.simps)
  have "welcome_msg wm h ep = Option.bind (strcpy_at (?Z sizeof_zmqNamingMsg) 0 257 ZMQ_NAMING_PREFIX) (\<lambda>m.
      Option.bind (memcpy_at m 257 [?c]) (\<lambda>m. Option.bind (memcpy_at m 258 (?prog @ [NUL])) (\<lambda>m.
      Option.bind (memcpy_at m 625 (take 256 ep @ [NUL])) (\<lambda>m. Option.bind (memcpy_at m 515 (he_host h)) (\<lambda>m. memcpy_at m 580 ?a5)))))"
    using wm by (simp add: welcome_msg_def naming_layout Let_def)
  also have "\<dots> = Some (naming_bytes (own_msg h ?c [] ep))"
    by (simp only: s1 s2 s3 s4 s5 s6 n bind.simps)
  finally show ?thesis .
qed

lemma welcome_ok: "host_ok h \<Longrightarrow> is_cstring ep \<Longrightarrow> length ep \<le> 256 \<Longrightarrow> naming_msg_ok (own_msg h (CHR ''W'') [] ep)"
  by (rule own_msg_ok) (simp_all add: id_ok_def naming_layout)

text \<open>The arguments of the documentation, and an option without its value.\<close>

lemma nsd_args_usual:
  assumes "- (2 ^ 31) \<le> port" "port < 2 ^ 31" "\<not> strcasecmp_eq ''-p'' interface"
  shows "nsd_args [''-i'', interface, ''-p'', fmt_d port] None 0 = Some (Some interface, port)"
proof -
  have "strcasecmp_eq ''-i'' ''-i''" "strcasecmp_eq ''-p'' ''-p''" "\<not> strcasecmp_eq ''-i'' ''-p''"
    by (simp_all add: strcasecmp_eq_def to_lower_def)
  moreover have "atoi (fmt_d port) = Some port" using assms(1,2) by (simp add: atoi_def str_to_int_fmt Let_def)
  ultimately show ?thesis using assms(3) by simp
qed

lemma nsd_args_missing_value: "nsd_args [''-p'', n, ''-i''] i p = None" "nsd_args [''-i'', ''lo'', ''-p''] i p = None"
  by (cases "atoi n"; simp add: strcasecmp_eq_def to_lower_def)+

text \<open>Every failure has an exit code of its own, and the server forwards messages exactly when it ends with 0.\<close>

lemma or_exit_Some:
  "or_exit calls c r code k = Some (x, cs) \<longleftrightarrow> r = None \<and> x = code \<and> cs = calls @ [c] \<or> (\<exists>y. r = Some y \<and> k (calls @ [c]) y = Some (x, cs))"
  by (auto simp: or_exit_def split: option.splits)

lemma nsd_exit_code:
  assumes "nsd_main wm h e args = Some (code, calls)"
  shows "0 \<le> code \<and> code \<le> 8 \<and> (code = 0 \<longleftrightarrow> (\<exists>f b. Nsd_proxy f b \<in> set calls))"
  using assms
  by (auto simp: nsd_main_def Let_def bind_Some_conv or_exit_Some split: option.split_asm if_split_asm prod.split_asm)

text \<open>
  C18. The naming server greets transports with its endpoint. Started with an interface and a port, and when no call fails, the
  server binds a socket for announcements to a free port of the interface, and only after it has set a greeting for subscribers
  does it bind the socket that transports know from their configuration; then it forwards, and closes what it has opened.
  The greeting starts with the topic that transports subscribe to, and a transport that receives it connects the
  socket for its announcements to exactly the endpoint that the server was bound to and starts to announce itself.
\<close>

theorem naming_server_welcomes:
  assumes "wmStrSizeCpy_ok wm" "host_ok h" "- (2 ^ 31) \<le> port" "port < 2 ^ 31" "port \<noteq> 0" "\<not> strcasecmp_eq ''-p'' interface"
    "length interface < 248" "is_cstring ep" "length ep \<le> 256" "zmq_good env" "\<forall>z. env z (Wthread_create PublishThread) = 0"
  shows "\<exists>msg. nsd_main wm h \<lparr>ne_logging = None, ne_normal = n, ne_context = True, ne_frontend = Some f, ne_bind_frontend = 0, ne_endpoint = Some ep,
         ne_backend = Some b, ne_welcome = 0, ne_bind_backend = 0\<rparr> [''-i'', interface, ''-p'', fmt_d port] =
       (if length (''tcp://'' @ interface @ '':'' @ fmt_d port) < 1024
        then Some (0, [Mama_enableLogging n, Nsd_ctx_new, Nsd_socket ZMQ_XSUB, Nsd_bind f (''tcp://'' @ interface @ '':*''), Nsd_last_endpoint f,
          Nsd_socket ZMQ_XPUB, Nsd_welcome_msg b msg, Nsd_bind b (''tcp://'' @ interface @ '':'' @ fmt_d port), Nsd_proxy f b, Nsd_close f,
          Nsd_close b, Nsd_ctx_destroy])
        else None) \<and>
     take 8 msg = ZMQ_NAMING_PREFIX @ [NUL] \<and>
     zmqBridgeMamaTransportImpl_dispatchNamingMsg L P h' env mem msg w =
       Some (MAMA_STATUS_OK, w\<lparr>tport := (tport w)\<lparr>mNamingMessages := mNamingMessages (tport w) + 1\<rparr>,
         zcalls := zcalls w @ connect_calls (mZmqNamingPub (tport w)) ep (mReconnectInterval (tport w)) (mHeartbeatInterval (tport w)) @
           [Wthread_create PublishThread]\<rparr>)"
proof -
  let ?m = "own_msg h (CHR ''W'') [] ep"
  have m: "naming_msg_ok ?m" by (rule welcome_ok) (use assms in simp_all)
  have "take 8 (naming_bytes ?m) = ZMQ_NAMING_PREFIX @ [NUL]"
    by (simp add: naming_bytes_def own_msg_def ZMQ_NAMING_PREFIX_def char_array_def naming_layout)
  moreover have "naming_type (naming_bytes ?m) = Some (CHR ''W'')" "naming_addr (naming_bytes ?m) = Some ep"
    using naming_read[OF m] by (simp_all add: own_msg_def)
  then have "zmqBridgeMamaTransportImpl_dispatchNamingMsg L P h' env mem (naming_bytes ?m) w =
       Some (MAMA_STATUS_OK, w\<lparr>tport := (tport w)\<lparr>mNamingMessages := mNamingMessages (tport w) + 1\<rparr>,
         zcalls := zcalls w @ connect_calls (mZmqNamingPub (tport w)) ep (mReconnectInterval (tport w)) (mHeartbeatInterval (tport w)) @
           [Wthread_create PublishThread]\<rparr>)"
    using assms(11) by (simp add: zmqBridgeMamaTransportImpl_dispatchNamingMsg_def zrun_def Let_def connect_good[OF assms(10)])
  ultimately show ?thesis
    using nsd_args_usual[OF assms(3,4,6)] welcome_msg_eq[OF assms(1,2,9)] assms(5,7)
    by (intro exI[of _ "naming_bytes ?m"]) (simp add: nsd_main_def or_exit_def rc_ok_def strcpy_into_def naming_layout Let_def)
qed

theorem naming_server_welcomes_witness:
  "\<exists>msg calls. nsd_main (wmStrSizeCpy demo_lib) demo_host \<lparr>ne_logging = None, ne_normal = 3, ne_context = True, ne_frontend = Some 1,
       ne_bind_frontend = 0, ne_endpoint = Some ''tcp://127.0.0.1:40001'', ne_backend = Some 2, ne_welcome = 0, ne_bind_backend = 0\<rparr>
       [''-i'', ''127.0.0.1'', ''-p'', fmt_d 5756] = Some (0, calls) \<and> Nsd_welcome_msg 2 msg \<in> set calls \<and>
     map_option fst (zmqBridgeMamaTransportImpl_dispatchNamingMsg demo_lib demo_peers demo_host demo_env True msg demo_proc) = Some MAMA_STATUS_OK"
proof -
  have "length (fmt_d 5756) = 4" by (simp add: fmt_d_def dec_of.simps[of 5756] dec_of.simps[of 575] dec_of.simps[of 57] dec_of.simps[of 5])
  then have l: "length (''tcp://'' @ ''127.0.0.1'' @ '':'' @ fmt_d 5756) < 1024" by simp
  have "\<exists>msg. nsd_main (wmStrSizeCpy demo_lib) demo_host \<lparr>ne_logging = None, ne_normal = 3, ne_context = True, ne_frontend = Some 1,
       ne_bind_frontend = 0, ne_endpoint = Some ''tcp://127.0.0.1:40001'', ne_backend = Some 2, ne_welcome = 0, ne_bind_backend = 0\<rparr>
       [''-i'', ''127.0.0.1'', ''-p'', fmt_d 5756] =
       (if length (''tcp://'' @ ''127.0.0.1'' @ '':'' @ fmt_d 5756) < 1024
        then Some (0, [Mama_enableLogging 3, Nsd_ctx_new, Nsd_socket ZMQ_XSUB, Nsd_bind 1 (''tcp://'' @ ''127.0.0.1'' @ '':*''), Nsd_last_endpoint 1,
          Nsd_socket ZMQ_XPUB, Nsd_welcome_msg 2 msg, Nsd_bind 2 (''tcp://'' @ ''127.0.0.1'' @ '':'' @ fmt_d 5756), Nsd_proxy 1 2, Nsd_close 1,
          Nsd_close 2, Nsd_ctx_destroy])
        else None) \<and> take 8 msg = ZMQ_NAMING_PREFIX @ [NUL] \<and>
     zmqBridgeMamaTransportImpl_dispatchNamingMsg demo_lib demo_peers demo_host demo_env True msg demo_proc =
       Some (MAMA_STATUS_OK, demo_proc\<lparr>tport := (tport demo_proc)\<lparr>mNamingMessages := mNamingMessages (tport demo_proc) + 1\<rparr>,
         zcalls := zcalls demo_proc @ connect_calls (mZmqNamingPub (tport demo_proc)) ''tcp://127.0.0.1:40001'' (mReconnectInterval (tport demo_proc))
           (mHeartbeatInterval (tport demo_proc)) @ [Wthread_create PublishThread]\<rparr>)"
  proof (rule naming_server_welcomes)
    show "wmStrSizeCpy_ok (wmStrSizeCpy demo_lib)" "host_ok demo_host" using demo_naming_ok(1) by (simp_all add: naming_ok_def)
    show "\<not> strcasecmp_eq ''-p'' ''127.0.0.1''" by (simp add: strcasecmp_eq_def)
  qed (simp_all add: is_cstring_def zmq_good_def demo_env_def)
  with l show ?thesis by auto
qed

end
