(* ===== verification/Spec2Isabelle.thy ===== *)
theory Spec2Isabelle
  imports Discovery Request_Reply Example_Programs Queue_Bench Load_Generators Transport_Correct Dispatch_Thread_Correct Bridge Monitor_Correct Naming_Server_Correct
begin

text \<open>
  A verification development of OZ, the transport bridge that runs OpenMAMA over ZeroMQ (\<open>src/src\<close>), with its naming server, its
  example library and programs (\<open>src/examples\<close>), its queue benchmark and its load generators.

  \<^bold>\<open>The program.\<close> An application uses the MAMA interface; MAMA calls the bridge. A transport (\<open>transport.c\<close>) has ZeroMQ sockets for data, naming
  and commands, and a dispatch thread that reads all of them. Subscriptions (\<open>subscription.c\<close>) and inboxes (\<open>inbox.c\<close>) are registered with the
  transport under serial numbers (\<open>util.c\<close>). The dispatch thread finds the receivers of a message and puts an event on their queues
  (\<open>queue.c\<close> over \<open>uqueue.c\<close>); a callback thread takes the event, finds the receiver again by its number, unpacks the message (\<open>msg.c\<close>) and
  calls the application. Publishers (\<open>publisher.c\<close>) build the subject and the frame of a message and send it. Transports find each other by
  messages that a naming server (\<open>nsd.c\<close>) forwards. Timers (\<open>timer.c\<close>) put events on queues, a monitor thread logs the events of the sockets,
  \<open>params.c\<close> reads the configuration, and \<open>bridge.c\<close> opens and closes the bridge.

  \<^bold>\<open>Conventions.\<close> A C or C++ function is a function into \<open>option\<close>: \<open>None\<close> means that the source has no defined result there (an access outside
  an object, a null pointer, a released object, an exception, a call that blocks for ever), and \<open>Some\<close> has the returned status and the new state.
  \<open>CALL_MAMA_FUNC\<close> is the early return of the sources. Strings and buffers are lists of characters; integers are words or carry their bounds where
  these matter; a \<open>double\<close> is the rational number that it denotes. Functions of OpenMAMA, wombat, libuuid and ZeroMQ are arguments: records of
  functions with named laws (\<open>lib_ok\<close>, \<open>peers_ok\<close>, \<open>regexec_ok\<close>, ...), or environments that answer every call from the history of calls. What other threads
  do during a function is an argument, too, or a step relation interleaves their atomic parts.

  \<^bold>\<open>Theories.\<close>
  \<^item> \<open>OZ_Prelude\<close>: status codes, early return, C strings and bounded arrays, pointers.
  \<^item> \<open>UQueue\<close>, \<open>UQueue_Correct\<close> (\<open>uqueue.c\<close>): the linked list with its free list and chunks as a heap of nodes; a representation invariant that every
    operation keeps; exactly-once delivery in order, capacity, draining and release for any interleaving of producers and dispatchers, from the locale
    \<open>event_queue\<close> of \<open>Event_Queue\<close>.
  \<^item> \<open>MamaQueue\<close> (\<open>queue.c\<close>): the queue bridge as a second instance of that locale; dispatch loop, watermarks, active flag.
  \<^item> \<open>OZ_Util\<close>, \<open>OZ_Msg\<close>, \<open>Subject_Key\<close> (\<open>util.c\<close>, \<open>msg.c\<close>, parts of \<open>subscription.c\<close>): serial numbers, event masks, the wire format and its round trip with
    exactly the inputs on which the reader stays inside its buffers, subject keys and wildcard prefixes.
  \<^item> \<open>Sockets\<close> (\<open>transport.c\<close>): socket functions as computations over the history of ZeroMQ calls; the locale \<open>locked_op\<close> and that every call is
    made under its lock.
  \<^item> \<open>Bridge_State\<close>, \<open>Bridge_Process\<close>, \<open>Inbox\<close>, \<open>Subscription\<close>, \<open>Dispatch\<close>, \<open>Publisher\<close>: the structures of \<open>zmqdefs.h\<close>, the process record \<open>oz_proc\<close>, and the
    operations on inboxes, subscriptions, publishers and messages. \<open>Bridge_Inv\<close>, \<open>Dispatch_Correct\<close>, \<open>Callback_Correct\<close>, \<open>Registration_Correct\<close>, \<open>Bridge_Steps\<close>,
    \<open>Bridge_Safety\<close>: the invariant of a process, the specification of routing that the code refines, and the safety of the data path under
    all orders of operations; the locale \<open>serial_registry\<close> of \<open>Serial_Registry\<close> is the contract of the three registries. \<open>Bridge_Demo\<close> has concrete
    libraries and a concrete process for the witnesses.
  \<^item> \<open>Naming\<close>, \<open>Naming_Correct\<close>, \<open>Discovery\<close> (\<open>transport.c\<close>): the naming messages, their handler and the thread that announces; in a network of any number of
    transports discovery ends, and then every transport knows every other (locale \<open>discovery\<close>). \<open>Naming_Server\<close>, \<open>Naming_Server_Correct\<close>
    (\<open>nsd.c\<close>): the server program, and that its greeting makes transports connect to it.
  \<^item> \<open>Params\<close>, \<open>Params_Correct\<close>, \<open>Monitor\<close>, \<open>Monitor_Correct\<close>, \<open>Transport\<close>, \<open>Transport_Correct\<close>, \<open>Dispatch_Thread\<close>, \<open>Dispatch_Thread_Correct\<close>: configuration, socket
    monitor, life cycle of a transport, and the loop of the dispatch thread, whose handlers share the locale \<open>msg_handler\<close>.
  \<^item> \<open>Timer\<close>, \<open>Timer_Correct\<close>, \<open>Bridge\<close> (\<open>timer.c\<close>, \<open>bridge.c\<close>, \<open>notimpl.c\<close>, \<open>io.c\<close>): timers in any order of operations, a race of their reset with their
    destruction, the entry points and the operations that are not supported.
  \<^item> \<open>Request_Reply\<close> and the section below: a request and its reply across two processes.
  \<^item> \<open>Ws_Topic\<close>, \<open>Wildcard_Topics\<close> (\<open>ozimpl.cpp\<close> with \<open>subscription.c\<close>): command lines, the conversion of hierarchical topics to expressions, a semantics of these
    expressions, and which messages the bridge delivers for a topic: exactly the right ones when the first star is not at the start, and none
    for two other kinds of topics.
  \<^item> \<open>Oz_Api\<close>, \<open>Oz_Api_Correct\<close>, \<open>Example_Programs\<close> (\<open>ozimpl.h\<close>, \<open>ozimpl.cpp\<close> and the programs): the classes as records in stores, shared publishers with their
    reference counts, waiting for replies, what a subscriber subscribes to, and the programs over them.
  \<^item> \<open>Byte_Order\<close>, \<open>Queue_Bench\<close> (\<open>queuebench.c\<close>): integers in frames; producers and consumers that share two counters, on a queue or on sockets, and \<open>main\<close> that makes
    and joins them, in every interleaving: the bounds of the counters, and where every event is when the program ends. \<open>Load_Generators\<close> (\<open>hammer.c\<close>, \<open>nail.c\<close>): a publisher of
    numbered frames and a subscriber that reports exactly the lost ones.

  \<^bold>\<open>Bounds.\<close> Loops over lists, rounds of threads and retries recurse on what they consume. The only fuel is that of the loop which releases the chunks of
  a queue: it gets the number of chunks that were ever allocated, and the loop is shown to end with it for every queue that
  the operations can reach. Loops of threads recurse on the list of rounds that the environment supplies; that they end is proved from a stop
  command or flag in one of the rounds.

  \<^bold>\<open>Not modelled.\<close> \<open>zmqbridgefunctions.h\<close> and the other prototypes, which have no code; the accessors, deleted constructors and empty destructors in \<open>ozimpl.h\<close>; handlers of
  signals, whose effect is the number of rounds of a program. Logging and printing have no effect on the state and are left out, except for the monitor
  and \<open>nail.c\<close>, whose purpose they are. What ZeroMQ forwards between sockets is the network of \<open>Discovery\<close>, and the delivery of a frame in the section below.
\<close>

section \<open>Request and reply\<close>

text \<open>
  C3. A request and its reply. One process sends a request from an inbox with a publisher whose subject is not that of an
  inbox. In another process with a subscription to that subject, the dispatch thread routes the frame to the
  subscription, whose callback hands the application exactly the payload that was sent, marked as coming from an inbox.
  When the application answers this message, the frame of the answer is routed to exactly the inbox that the request came
  from, as long as it exists, and the callback of that inbox gets exactly the payload of the answer.
\<close>

theorem request_reply:
  assumes A: "inbox_at LA wA i a ib" "ib_mMsgCB ib = Some cb" "sends_ok SA m ping" "mamaInboxImpl_getInboxBridge SA inbox = Some a"
      "pb_mTransport pubA = Some ()" "pb_mSubject pubA = Some subj" "is_cstring subj" "length subj \<le> 256" "take 6 subj \<noteq> ''_INBOX''"
    and B: "subscriber_at LB wB subj k sb" "unpacks_ok LB wB (sb_mMamaQueue sb) q ping" "sends_ok SB r pong" "pb_mTransport pubB = Some ()"
    and A': "inbox_at LA wA' i a ib" "mInboxSubject (tport wA') = mInboxSubject (tport wA)" "unpacks_ok LA wA' (ib_mMamaQueue ib) p pong"
    and env: "\<forall>z c. 0 \<le> envA z c" "\<forall>z c. 0 \<le> envB z c"
  shows "\<exists>request reply wA1 wB1 wB2 wA2 b b'.
     zmqBridgeMamaPublisher_sendFromInbox LA SA envA stA (Some pubA) (Some inbox) (Some m) wA = Some (MAMA_STATUS_OK, wA1) \<and> sent wA wA1 request \<and>
     (sb_mZmqQueue sb, zmqBridgeMamaTransportImpl_subCallback, tmsg_for k request) \<in> set (route LB request wB) \<and>
     subCallback LB (tmsg_for k request) wB = Some wB1 \<and>
     app_events wB1 = app_events wB @ [SubscriptionMsg (sb_mMamaSubscription sb) q (Some b) (Some ping)] \<and> zmqBridgeMamaMsg_isFromInbox (Some b) \<and>
     zmqBridgeMamaPublisher_sendReplyToInbox LB SB envB stB (Some pubB) (Some q) (Some r) wB1 = Some (MAMA_STATUS_OK, wB2) \<and> sent wB1 wB2 reply \<and>
     route LA reply wA' = [(ib_mZmqQueue ib, zmqBridgeMamaTransportImpl_inboxCallback, tmsg_for i reply)] \<and>
     inboxCallback LA (tmsg_for i reply) wA' = Some wA2 \<and>
     app_events wA2 = app_events wA' @ [InboxMsg cb p (ib_mClosure ib) (Some b') (Some pong)]"
proof -
  let ?h = "mInboxSubject (tport wA) @ ''.'' @ i"
  let ?req = "app_frame subj ZMQ_MSG_INBOX_REQUEST ?h ping" and ?rep = "app_frame ?h ZMQ_MSG_INBOX_RESPONSE [] pong"
  note h = inbox_at_handle[OF A(1)] and h' = inbox_at_handle[OF A'(1)]
  have l: "length ?h \<le> ZMQ_REPLYHANDLE_SIZE" using h(2) by (simp add: oz_sizes)
  have wm: "wmStrSizeCpy_ok (wmStrSizeCpy LA)" "wmStrSizeCpy_ok (wmStrSizeCpy LB)"
    using A(1) B(1) by (simp_all add: inbox_at_def subscriber_at_def proc_ok_def lib_ok_def)
  have pay: "ping \<noteq> []" "length ping < 2 ^ 31" "pong \<noteq> []" "length pong < 2 ^ 31" using A(3) B(3) by (simp_all add: sends_ok_def)
  have store: "inbox_store wA a = Some ib" "inbox_store wA' a = Some ib" "inbox_map LA wA' i = Some a" using A(1) A'(1) by (simp_all add: inbox_at_def)
  obtain wA1 where 1: "zmqBridgeMamaPublisher_sendFromInbox LA SA envA stA (Some pubA) (Some inbox) (Some m) wA = Some (MAMA_STATUS_OK, wA1)"
    "sent wA wA1 ?req"
    using request_sent[OF A(3) wm(1) A(5) env(1) A(6,8,4) store(1) h(1) l] by blast
  obtain s where s: "sub_map LB wB (subj, k) = Some s" "sub_store wB s = Some sb" "mIsNotMuted sb = 1"
    using B(1) by (auto simp: subscriber_at_def)
  obtain b wB1 where 2: "subCallback LB (tmsg_for k ?req) wB = Some wB1"
    "app_events wB1 = app_events wB @ [SubscriptionMsg (sb_mMamaSubscription sb) q (Some b) (Some ping)]"
    "bridge_msgs wB1 q = Some b" "mReplyHandle b = ?h" "zmqBridgeMamaMsg_isFromInbox (Some b)"
    using request_received[OF s B(2) A(7) h(3) pay(1,2) l] by blast
  have "mamaMsgImpl_getBridgeMsg LB q = MAMA_STATUS_OK" using B(2) by (simp add: unpacks_ok_def)
  from reply_sent[OF B(3) wm(2) B(4) env(2) this 2(3,4) l] obtain wB2 where
    3: "zmqBridgeMamaPublisher_sendReplyToInbox LB SB envB stB (Some pubB) (Some q) (Some r) wB1 = Some (MAMA_STATUS_OK, wB2)"
      "sent wB1 wB2 ?rep" by blast
  obtain b' wA2 where 4: "inboxCallback LA (tmsg_for i ?rep) wA' = Some wA2"
    "app_events wA2 = app_events wA' @ [InboxMsg cb p (ib_mClosure ib) (Some b') (Some pong)]"
    using reply_received[OF store(3,2) h(1) A(2) A'(3) h(3) pay(3,4) l] by auto
  obtain uuid where "mInboxSubject (tport wA') = ''_INBOX.'' @ uuid" using h'(6) by blast
  from reply_route[OF this h'(5,4) store(3,2), of ZMQ_MSG_INBOX_RESPONSE "[]" pong]
  have 5: "route LA ?rep wA' = [(ib_mZmqQueue ib, zmqBridgeMamaTransportImpl_inboxCallback, tmsg_for i ?rep)]" using A'(2) by simp
  from request_routed[OF B(1) A(7,9), of ZMQ_MSG_INBOX_REQUEST ?h ping] 1 2 3 4 5 show ?thesis by blast
qed

theorem request_reply_witness:
  "\<exists>wA1 wB1 wB2 wA2 request reply b b'.
     zmqBridgeMamaPublisher_sendFromInbox demo_lib (demo_send_lib ''ping'') demo_env demo_bridge_msg (Some (demo_publisher ''OZ.A'')) (Some 4) (Some 1)
       demo_requester = Some (MAMA_STATUS_OK, wA1) \<and> sent demo_requester wA1 request \<and>
     subCallback demo_lib (tmsg_for ''0000000000000001'' request) demo_replier = Some wB1 \<and>
     app_events wB1 = app_events demo_replier @ [SubscriptionMsg (Some 3) 0 (Some b) (Some ''ping'')] \<and>
     zmqBridgeMamaPublisher_sendReplyToInbox demo_lib (demo_send_lib ''pong'') demo_env demo_bridge_msg (Some (demo_publisher ''X'')) (Some 0) (Some 2)
       wB1 = Some (MAMA_STATUS_OK, wB2) \<and> sent wB1 wB2 reply \<and>
     inboxCallback demo_lib (tmsg_for ''0000000000000001'' reply) demo_requester = Some wA2 \<and>
     app_events wA2 = app_events demo_requester @ [InboxMsg 9 0 (Some 8) (Some b') (Some ''pong'')]"
proof -
  have f: "ib_mMsgCB demo_inbox = Some 9" "mamaInboxImpl_getInboxBridge (demo_send_lib ''ping'') 4 = Some 5"
    "pb_mTransport (demo_publisher s) = Some ()" "pb_mSubject (demo_publisher s) = Some s" "ib_mClosure demo_inbox = Some 8"
    "sb_mMamaSubscription demo_sub = Some 3" "is_cstring ''OZ.A''" "length ''OZ.A'' \<le> 256" "take 6 ''OZ.A'' \<noteq> ''_INBOX''" for s
    by (simp_all add: demo_inbox_def demo_send_lib_def demo_publisher_def demo_sub_def is_cstring_def)
  show ?thesis
    using request_reply[OF demo_inbox_at f(1) demo_ok(1) f(2,3,4,7,8,9) demo_subscriber_at demo_ok(3,2) f(3)
        demo_inbox_at refl demo_ok(4,5,5), where stA = demo_bridge_msg and stB = demo_bridge_msg] f(5,6)
    by metis
qed

end
